(* ===== verification/Prelude.thy ===== *)
theory Prelude
  imports Complex_Main "HOL-Library.Word"
begin

text \<open>
  The prelude of the development: machine integers and byte strings, the
  little-endian encodings of Go's \<open>encoding/binary\<close>, a byte reader with the
  behaviour of \<open>binary.Read\<close> on a \<open>bytes.Reader\<close>, C strings, decimal printing,
  run-time panics, and the interface locales that several components share.
\<close>

unbundle bit_operations_syntax

named_theorems codec_simps \<open>facts that evaluate encoders and decoders\<close>
named_theorems frame_simps \<open>fields that an operation leaves unchanged\<close>

section \<open>Machine integers and bytes\<close>

type_synonym u8 = "8 word"
type_synonym u16 = "16 word"
type_synonym u32 = "32 word"
type_synonym u64 = "64 word"
type_synonym bytes = "u8 list"

text \<open>
  A Go program stops with a run-time panic where it indexes or slices out of range,
  follows a nil pointer, or closes a closed channel. C code that is called with a buffer
  too short for what it reads goes on past its end; the model stops there with an outcome
  of its own. The result of code that can
  panic is a sum: \<open>Inl\<close> the panic or \<open>Inr\<close> the value.
\<close>

datatype panic =
    IndexOutOfRange
  | SliceOutOfRange
  | NilPointer
  | CloseOfClosedChannel
  | SendOnClosedChannel
  | UnterminatedCString
  | ReadPastEnd
  | ExplicitPanic

type_synonym 'a go = "panic + 'a"

definition go_bind :: "'a go \<Rightarrow> ('a \<Rightarrow> 'b go) \<Rightarrow> 'b go" where
  "go_bind m f = (case m of Inl e \<Rightarrow> Inl e | Inr x \<Rightarrow> f x)"

lemma go_bind_simps [simp]:
  "go_bind (Inl e) f = Inl e"
  "go_bind (Inr x) f = f x"
  by (simp_all add: go_bind_def)

lemma go_bind_Inr_iff:
  "go_bind m f = Inr y \<longleftrightarrow> (\<exists>x. m = Inr x \<and> f x = Inr y)"
  by (cases m) auto

text \<open>A result that is no panic and satisfies a predicate.\<close>

definition go_ok :: "('a \<Rightarrow> bool) \<Rightarrow> 'a go \<Rightarrow> bool" where
  "go_ok P m \<longleftrightarrow> (\<exists>x. m = Inr x \<and> P x)"

lemma go_ok_simps [simp]: "go_ok P (Inr x) = P x" "\<not> go_ok P (Inl e)"
  by (simp_all add: go_ok_def)

lemma go_ok_bind: "go_ok P m \<Longrightarrow> (\<And>x. P x \<Longrightarrow> go_ok Q (f x)) \<Longrightarrow> go_ok Q (go_bind m f)"
  by (auto simp: go_ok_def)

lemma go_ok_mono: "go_ok P m \<Longrightarrow> (\<And>x. P x \<Longrightarrow> Q x) \<Longrightarrow> go_ok Q m"
  by (auto simp: go_ok_def)

section \<open>Characters, strings and bytes\<close>

definition byte_of_char :: "char \<Rightarrow> u8" where
  "byte_of_char c = of_nat (of_char c)"

definition char_of_byte :: "u8 \<Rightarrow> char" where
  "char_of_byte b = char_of (unat b)"

lemma of_char_less: "(of_char c :: nat) < 256"
  using nat_of_char_less_256 .

lemma unat_byte_of_char [simp]: "unat (byte_of_char c) = of_char c"
  using of_char_less [of c] by (simp add: byte_of_char_def unat_of_nat)

lemma char_of_byte_inverse [simp]: "char_of_byte (byte_of_char c) = c"
  by (simp add: char_of_byte_def)

lemma byte_of_char_inverse [simp]: "byte_of_char (char_of_byte b) = b"
proof -
  have "unat b < 256" using unsigned_less [of b] by simp
  then show ?thesis by (simp add: byte_of_char_def char_of_byte_def)
qed

lemma byte_of_char_eq_iff [simp]: "byte_of_char a = byte_of_char b \<longleftrightarrow> a = b"
  by (metis char_of_byte_inverse)

lemma char_of_byte_eq_iff [simp]: "char_of_byte a = char_of_byte b \<longleftrightarrow> a = b"
  by (metis byte_of_char_inverse)

text \<open>Go's conversions \<open>[]byte(s)\<close> and \<open>string(b)\<close>.\<close>

definition bytes_of :: "string \<Rightarrow> bytes" where
  "bytes_of s = map byte_of_char s"

definition string_of :: "bytes \<Rightarrow> string" where
  "string_of b = map char_of_byte b"

lemma string_of_bytes_of [simp]: "string_of (bytes_of s) = s"
  by (simp add: string_of_def bytes_of_def comp_def)

lemma bytes_of_string_of [simp]: "bytes_of (string_of b) = b"
  by (simp add: string_of_def bytes_of_def comp_def)

lemma length_bytes_of [simp]: "length (bytes_of s) = length s"
  by (simp add: bytes_of_def)

lemma length_string_of [simp]: "length (string_of s) = length s"
  by (simp add: string_of_def)

lemma bytes_of_append [simp]: "bytes_of (s @ t) = bytes_of s @ bytes_of t"
  by (simp add: bytes_of_def)

lemma bytes_of_eq_iff [simp]: "bytes_of s = bytes_of t \<longleftrightarrow> s = t"
  by (metis string_of_bytes_of)

lemma string_of_eq_iff [simp]: "string_of s = string_of t \<longleftrightarrow> s = t"
  by (metis bytes_of_string_of)

lemma bytes_of_Nil [simp]: "bytes_of [] = []" and string_of_Nil [simp]: "string_of [] = []"
  by (simp_all add: bytes_of_def string_of_def)

lemma bytes_of_eq_Nil [simp]: "bytes_of s = [] \<longleftrightarrow> s = []"
  by (simp add: bytes_of_def)

text \<open>The character NUL and strings without it (names a C string can carry).\<close>

definition nul_free :: "string \<Rightarrow> bool" where
  "nul_free s \<longleftrightarrow> (\<forall>c \<in> set s. byte_of_char c \<noteq> 0)"

lemma nul_free_bytes: "nul_free s \<longleftrightarrow> 0 \<notin> set (bytes_of s)"
  by (auto simp: nul_free_def bytes_of_def)

text \<open>
  \<open>C.GoString(ptr)\<close> reads up to the first NUL. A buffer without one makes C read
  past its end: that is the outcome \<open>UnterminatedCString\<close>.
\<close>

definition c_string :: "bytes \<Rightarrow> string go" where
  "c_string b =
     (if 0 \<in> set b then Inr (string_of (takeWhile (\<lambda>x. x \<noteq> 0) b))
      else Inl UnterminatedCString)"

lemma c_string_bytes_of:
  assumes "nul_free s"
  shows "c_string (bytes_of s @ 0 # rest) = Inr s"
proof -
  have "takeWhile (\<lambda>x. x \<noteq> 0) (bytes_of s @ 0 # rest) = bytes_of s"
    using assms by (subst takeWhile_append2) (auto simp: nul_free_bytes)
  then show ?thesis by (simp add: c_string_def)
qed

section \<open>Little-endian encodings\<close>

definition le16 :: "u16 \<Rightarrow> bytes" where
  "le16 w = [ucast w, ucast (drop_bit 8 w)]"

definition le32 :: "u32 \<Rightarrow> bytes" where
  "le32 w = [ucast w, ucast (drop_bit 8 w), ucast (drop_bit 16 w), ucast (drop_bit 24 w)]"

definition un16 :: "u8 \<Rightarrow> u8 \<Rightarrow> u16" where
  "un16 a b = ucast a OR push_bit 8 (ucast b)"

definition un32 :: "u8 \<Rightarrow> u8 \<Rightarrow> u8 \<Rightarrow> u8 \<Rightarrow> u32" where
  "un32 a b c d =
     ucast a OR push_bit 8 (ucast b) OR push_bit 16 (ucast c) OR push_bit 24 (ucast d)"

lemma un16_le16 [simp]: "un16 (ucast w) (ucast (drop_bit 8 w)) = w"
  by (rule bit_word_eqI) (auto simp: un16_def bit_simps)

lemma un32_le32 [simp]:
  "un32 (ucast w) (ucast (drop_bit 8 w)) (ucast (drop_bit 16 w)) (ucast (drop_bit 24 w)) = w"
proof (rule bit_word_eqI)
  fix n :: nat
  assume "n < LENGTH(32)"
  then consider "n < 8" | "8 \<le> n" "n < 16" | "16 \<le> n" "n < 24" | "24 \<le> n" "n < 32"
    by force
  then show "bit (un32 (ucast w) (ucast (drop_bit 8 w)) (ucast (drop_bit 16 w))
      (ucast (drop_bit 24 w))) n = bit w n"
    by cases (auto simp: un32_def bit_simps)
qed

lemma un16_fields [simp]: "ucast (un16 a b) = a" "ucast (drop_bit 8 (un16 a b)) = b"
  by (rule bit_word_eqI, auto simp: un16_def bit_simps dest: bit_imp_le_length)+

lemma un32_fields [simp]:
  "ucast (un32 a b c d) = a" "ucast (drop_bit 8 (un32 a b c d)) = b"
  "ucast (drop_bit 16 (un32 a b c d)) = c" "ucast (drop_bit 24 (un32 a b c d)) = d"
  by (rule bit_word_eqI, auto simp: un32_def bit_simps dest: bit_imp_le_length)+

lemma le16_un16 [simp]: "le16 (un16 a b) = [a, b]"
  by (simp add: le16_def)

lemma le32_un32 [simp]: "le32 (un32 a b c d) = [a, b, c, d]"
  by (simp add: le32_def)

lemma length_le16 [simp]: "length (le16 w) = 2"
  by (simp add: le16_def)

lemma length_le32 [simp]: "length (le32 w) = 4"
  by (simp add: le32_def)

definition le64 :: "u64 \<Rightarrow> bytes" where
  "le64 t = le32 (ucast t) @ le32 (ucast (drop_bit 32 t))"

definition un64 :: "bytes \<Rightarrow> u64" where
  "un64 b = ucast (un32 (b ! 0) (b ! 1) (b ! 2) (b ! 3))
     OR push_bit 32 (ucast (un32 (b ! 4) (b ! 5) (b ! 6) (b ! 7)))"

lemma length_le64 [simp]: "length (le64 t) = 8"
  by (simp add: le64_def)

lemma un64_le64 [codec_simps]: "un64 (le64 t @ r) = t"
proof -
  have "ucast (ucast t :: u32) OR push_bit 32 (ucast (ucast (drop_bit 32 t) :: u32)) = (t :: u64)"
    by (rule bit_word_eqI) (auto simp: bit_simps)
  then show ?thesis by (simp add: un64_def le64_def le32_def)
qed

section \<open>Readers\<close>

text \<open>
  \<open>binary.Read(r, order, &x)\<close> on a \<open>bytes.Reader\<close> goes through \<open>io.ReadFull\<close>: it
  takes exactly the size of \<open>x\<close>, or it fails, leaves \<open>x\<close> as it was and has used up
  what was left. A reader is the bytes still to be read.
\<close>

definition rd_take :: "nat \<Rightarrow> bytes \<Rightarrow> bytes option \<times> bytes" where
  "rd_take n bs = (if n \<le> length bs then (Some (take n bs), drop n bs) else (None, []))"

fun rd_u8 :: "bytes \<Rightarrow> u8 option \<times> bytes" where
  "rd_u8 (a # r) = (Some a, r)"
| "rd_u8 _ = (None, [])"

fun rd_u16 :: "bytes \<Rightarrow> u16 option \<times> bytes" where
  "rd_u16 (a # b # r) = (Some (un16 a b), r)"
| "rd_u16 _ = (None, [])"

fun rd_u32 :: "bytes \<Rightarrow> u32 option \<times> bytes" where
  "rd_u32 (a # b # c # d # r) = (Some (un32 a b c d), r)"
| "rd_u32 _ = (None, [])"

text \<open>The value of the variable after a read whose error is ignored.\<close>

definition or_old :: "'a \<Rightarrow> 'a option \<Rightarrow> 'a" where
  "or_old old v = (case v of None \<Rightarrow> old | Some x \<Rightarrow> x)"

lemma or_old_simps [simp]: "or_old old None = old" "or_old old (Some x) = x"
  by (simp_all add: or_old_def)

text \<open>\<open>make([]byte, n)\<close> filled by a read whose error is ignored: zeros on failure.\<close>

definition rd_fill :: "nat \<Rightarrow> bytes \<Rightarrow> bytes \<times> bytes" where
  "rd_fill n bs = (case rd_take n bs of (v, r) \<Rightarrow> (or_old (replicate n 0) v, r))"

lemma length_rd_fill [simp]: "length (fst (rd_fill n bs)) = n"
  by (simp add: rd_fill_def rd_take_def)

lemma rd_take_append [codec_simps]: "length xs = n \<Longrightarrow> rd_take n (xs @ r) = (Some xs, r)"
  by (simp add: rd_take_def)

lemma rd_fill_append [codec_simps]: "length xs = n \<Longrightarrow> rd_fill n (xs @ r) = (xs, r)"
  by (simp add: rd_fill_def rd_take_def)

lemma rd_fill_all [codec_simps]: "length xs = n \<Longrightarrow> rd_fill n xs = (xs, [])"
  by (simp add: rd_fill_def rd_take_def)

lemma rd_u16_le16 [codec_simps]: "rd_u16 (le16 w @ r) = (Some w, r)"
  by (simp add: le16_def)

lemma rd_u32_le32 [codec_simps]: "rd_u32 (le32 w @ r) = (Some w, r)"
  by (simp add: le32_def)

lemma rd_u8_Cons [codec_simps]: "rd_u8 (a # r) = (Some a, r)"
  by simp

text \<open>A decoder run \<open>n\<close> times.\<close>

fun rd_many :: "(bytes \<Rightarrow> 'a option \<times> bytes) \<Rightarrow> nat \<Rightarrow> bytes \<Rightarrow> 'a list option \<times> bytes" where
  "rd_many dec 0 bs = (Some [], bs)"
| "rd_many dec (Suc n) bs =
     (case dec bs of
        (None, r) \<Rightarrow> (None, r)
      | (Some x, r) \<Rightarrow> (case rd_many dec n r of (v, r') \<Rightarrow> (map_option (Cons x) v, r')))"

section \<open>Decimal printing\<close>

definition digit_char :: "nat \<Rightarrow> char" where
  "digit_char d = char_of (48 + d)"

fun itoa :: "nat \<Rightarrow> string" where
  "itoa n = (if n < 10 then [digit_char n] else itoa (n div 10) @ [digit_char (n mod 10)])"

declare itoa.simps [simp del]

definition is_digit :: "char \<Rightarrow> bool" where
  "is_digit c \<longleftrightarrow> 48 \<le> (of_char c :: nat) \<and> (of_char c :: nat) \<le> 57"

text \<open>Reading a digit string back.\<close>

definition undec :: "string \<Rightarrow> nat" where
  "undec s = foldl (\<lambda>n c. 10 * n + (of_char c - 48)) 0 s"

lemma of_char_digit_char: "d < 10 \<Longrightarrow> (of_char (digit_char d) :: nat) = 48 + d"
  by (simp add: digit_char_def)

lemma is_digit_digit_char: "d < 10 \<Longrightarrow> is_digit (digit_char d)"
  by (simp add: is_digit_def of_char_digit_char)

lemma itoa_digits: "c \<in> set (itoa n) \<Longrightarrow> is_digit c"
proof (induction n rule: itoa.induct)
  case (1 n)
  then show ?case
    by (cases "n < 10") (auto simp: itoa.simps [of n] is_digit_digit_char)
qed

lemma undec_itoa [simp]: "undec (itoa n) = n"
proof (induction n rule: itoa.induct)
  case (1 n)
  then show ?case
    by (cases "n < 10") (auto simp: itoa.simps [of n] undec_def of_char_digit_char)
qed

lemma itoa_eq_iff [simp]: "itoa a = itoa b \<longleftrightarrow> a = b"
  by (metis undec_itoa)

lemma itoa_not_Nil [simp]: "itoa n \<noteq> []"
  by (subst itoa.simps) simp

text \<open>
  A key \<open>prefix:digits\<close> determines both parts, whatever the prefix holds: the last
  colon is the separator.
\<close>

lemma colon_not_digit: "\<not> is_digit CHR '':''"
  by (simp add: is_digit_def)

lemma last_separator_unique:
  assumes "a @ c # x = b @ c # y" and "c \<notin> set x" and "c \<notin> set y"
  shows "a = b \<and> x = y"
  using assms
proof (induction a arbitrary: b)
  case Nil
  then show ?case by (cases b) auto
next
  case (Cons d a)
  then show ?case by (cases b) auto
qed

lemma colon_itoa_unique:
  "a @ CHR '':'' # itoa m = b @ CHR '':'' # itoa n \<longleftrightarrow> a = b \<and> m = n"
proof
  assume eq: "a @ CHR '':'' # itoa m = b @ CHR '':'' # itoa n"
  have no_colon: "CHR '':'' \<notin> set (itoa k)" for k
    using itoa_digits colon_not_digit by blast
  have "a = b \<and> itoa m = itoa n"
    by (rule last_separator_unique [OF eq no_colon no_colon])
  then show "a = b \<and> m = n" by (simp only: itoa_eq_iff)
next
  assume "a = b \<and> m = n"
  then show "a @ CHR '':'' # itoa m = b @ CHR '':'' # itoa n" by simp
qed

text \<open>\<open>strconv.Itoa\<close> on Go's \<open>int\<close>.\<close>

definition Itoa :: "int \<Rightarrow> string" where
  "Itoa i = (if i < 0 then CHR ''-'' # itoa (nat (- i)) else itoa (nat i))"

lemma Itoa_no_colon: "CHR '':'' \<notin> set (Itoa i)"
proof -
  have "CHR '':'' \<notin> set (itoa k)" for k
    using itoa_digits colon_not_digit by blast
  then show ?thesis by (simp add: Itoa_def)
qed

lemma Itoa_eq_iff [simp]: "Itoa a = Itoa b \<longleftrightarrow> a = b"
proof -
  have "CHR ''-'' \<notin> set (itoa k)" for k
    using itoa_digits [of "CHR ''-''" k] by (auto simp: is_digit_def)
  then have "itoa k \<noteq> CHR ''-'' # x" for k x by (metis list.set_intros(1))
  then show ?thesis by (auto simp: Itoa_def) (metis nat_eq_iff2)+
qed

lemma colon_Itoa_unique:
  "a @ CHR '':'' # Itoa m = b @ CHR '':'' # Itoa n \<longleftrightarrow> a = b \<and> m = n"
proof
  assume eq: "a @ CHR '':'' # Itoa m = b @ CHR '':'' # Itoa n"
  have "a = b \<and> Itoa m = Itoa n"
    by (rule last_separator_unique [OF eq Itoa_no_colon Itoa_no_colon])
  then show "a = b \<and> m = n" by (simp only: Itoa_eq_iff)
qed simp

section \<open>Lists updated in place\<close>

text \<open>
  Go's \<open>append(xs[:i], xs[i+1:]...)\<close> writes the tail one place to the left in the same
  backing array and returns a slice shorter by one; a holder of the old slice header
  sees the shifted elements and, last, the old last element.
\<close>

definition shift_out :: "nat \<Rightarrow> 'a list \<Rightarrow> 'a list" where
  "shift_out i xs = take i xs @ drop (Suc i) xs @ drop (length xs - 1) xs"

definition cut_out :: "nat \<Rightarrow> 'a list \<Rightarrow> 'a list" where
  "cut_out i xs = take i xs @ drop (Suc i) xs"

lemma length_cut_out: "i < length xs \<Longrightarrow> length (cut_out i xs) = length xs - 1"
  by (simp add: cut_out_def)

section \<open>Interfaces shared by the components\<close>

text \<open>
  A codec: what a decoder promises about the bytes of its encoder, wherever they stand.
  The clients are the packet formats that are built out of smaller fields.
\<close>

locale codec =
  fixes enc :: "'a \<Rightarrow> bytes"
    and dec :: "bytes \<Rightarrow> 'a option \<times> bytes"
    and wf :: "'a \<Rightarrow> bool"
  assumes dec_enc: "wf x \<Longrightarrow> dec (enc x @ r) = (Some x, r)"
begin

lemma dec_enc_all: "wf x \<Longrightarrow> dec (enc x) = (Some x, [])"
  using dec_enc [of x "[]"] by simp

lemma enc_prefix_free:
  assumes "wf x" and "wf y" and "enc x @ r = enc y @ s"
  shows "x = y \<and> r = s"
proof -
  have "(Some x, r) = dec (enc y @ s)"
    by (simp only: dec_enc [OF assms(1), of r] assms(3) [symmetric])
  also have "\<dots> = (Some y, s)" by (rule dec_enc [OF assms(2)])
  finally show ?thesis by simp
qed

lemma rd_many_concat:
  "list_all wf xs \<Longrightarrow> rd_many dec (length xs) (concat (map enc xs) @ r) = (Some xs, r)"
  by (induction xs) (auto simp: dec_enc)

end

text \<open>
  A table: what \<open>find\<close> returns after \<open>set\<close> and after \<open>delete\<close>. Every map the program
  guards with its own access functions has this contract.
\<close>

locale table =
  fixes find :: "'t \<Rightarrow> 'k \<Rightarrow> 'v option"
    and put :: "'k \<Rightarrow> 'v \<Rightarrow> 't \<Rightarrow> 't"
    and del :: "'k \<Rightarrow> 't \<Rightarrow> 't"
    and ok :: "'k \<Rightarrow> 'v \<Rightarrow> bool"
    and invar :: "'t \<Rightarrow> bool"
  assumes find_put: "invar t \<Longrightarrow> ok k v \<Longrightarrow> find (put k v t) = (find t)(k \<mapsto> v)"
    and find_del: "invar t \<Longrightarrow> find (del k t) = (find t)(k := None)"
    and invar_put: "invar t \<Longrightarrow> ok k v \<Longrightarrow> invar (put k v t)"
    and invar_del: "invar t \<Longrightarrow> invar (del k t)"
begin

lemma find_put_same: "invar t \<Longrightarrow> ok k v \<Longrightarrow> find (put k v t) k = Some v"
  by (simp add: find_put)

lemma find_put_other: "invar t \<Longrightarrow> ok k v \<Longrightarrow> k' \<noteq> k \<Longrightarrow> find (put k v t) k' = find t k'"
  by (simp add: find_put)

lemma find_del_same: "invar t \<Longrightarrow> find (del k t) k = None"
  by (simp add: find_del)

lemma dom_put: "invar t \<Longrightarrow> ok k v \<Longrightarrow> dom (find (put k v t)) = insert k (dom (find t))"
  by (simp add: find_put)

lemma dom_del: "invar t \<Longrightarrow> dom (find (del k t)) = dom (find t) - {k}"
  by (simp add: find_del)

lemma put_del_find:
  "invar t \<Longrightarrow> ok k v \<Longrightarrow> find t k = None \<Longrightarrow> find (del k (put k v t)) = find t"
  by (simp add: find_put find_del invar_put fun_upd_idem)

end

text \<open>
  A stepper: a handler that keeps an invariant for every event. The run of a component
  over a list of events keeps it too.
\<close>

locale stepper =
  fixes step :: "'e \<Rightarrow> 's \<Rightarrow> 's"
    and inv :: "'s \<Rightarrow> bool"
  assumes step_inv: "inv s \<Longrightarrow> inv (step e s)"
begin

lemma run_inv: "inv s \<Longrightarrow> inv (fold step es s)"
  by (induction es arbitrary: s) (auto intro: step_inv)

lemma run_inv_prefix: "inv s \<Longrightarrow> inv (fold step (take n es) s)"
  by (rule run_inv)

end

text \<open>The fixed-width little-endian integers are codecs.\<close>

interpretation u8_codec: codec "\<lambda>b. [b]" rd_u8 "\<lambda>_. True"
  by unfold_locales simp

interpretation u16_codec: codec le16 rd_u16 "\<lambda>_. True"
  by unfold_locales (rule rd_u16_le16)

interpretation u32_codec: codec le32 rd_u32 "\<lambda>_. True"
  by unfold_locales (rule rd_u32_le32)

lemma le16_eq_iff [simp]: "le16 a = le16 b \<longleftrightarrow> a = b"
  using u16_codec.enc_prefix_free [where x=a and y=b and r="[]" and s="[]"] by auto

lemma le32_eq_iff [simp]: "le32 a = le32 b \<longleftrightarrow> a = b"
  using u32_codec.enc_prefix_free [where x=a and y=b and r="[]" and s="[]"] by auto

end
