(* ===== verification/TrudpPacket.thy ===== *)
theory TrudpPacket
  imports Prelude
begin

text \<open>
  TR-UDP packets: \<open>trudp/trudp/packet.go\<close> over the C header of \<open>trudp/trudp/packet.c\<close>.
  The packed struct \<open>trudpHeader\<close> is a record of bit fields with its layout in memory
  (gcc on a little-endian machine: the first bit field of a unit has the low bits), the
  constructors of the six packet kinds, the getters and the check of a received
  packet. Memory management (\<open>malloc\<close>, \<open>free\<close>) is not modelled; the clock is an argument.
\<close>

section \<open>The header\<close>

record trudpHeader =
  checksum :: u8
  version :: "4 word"
  message_type :: "4 word"
  channel :: "4 word"
  payload_length :: "12 word"
  hid :: u32
  timestamp :: u32

datatype trudpPacketType = TRU_DATA | TRU_ACK | TRU_RESET | TRU_ACK_RESET | TRU_PING | TRU_ACK_PING

fun type_code :: "trudpPacketType \<Rightarrow> 4 word" where
  "type_code TRU_DATA = 0"
| "type_code TRU_ACK = 1"
| "type_code TRU_RESET = 2"
| "type_code TRU_ACK_RESET = 3"
| "type_code TRU_PING = 4"
| "type_code TRU_ACK_PING = 5"

definition headerLength :: nat where
  "headerLength = 12"

definition TR_UDP_PROTOCOL_VERSION :: "4 word" where
  "TR_UDP_PROTOCOL_VERSION = 2"

text \<open>The bytes of the struct after the checksum, and the whole struct.\<close>

definition nibbles :: "4 word \<Rightarrow> 4 word \<Rightarrow> u8" where
  "nibbles lo hi = ucast lo OR push_bit 4 (ucast hi)"

definition chan_len :: "4 word \<Rightarrow> 12 word \<Rightarrow> u16" where
  "chan_len ch len = ucast ch OR push_bit 4 (ucast len)"

definition header_body :: "trudpHeader \<Rightarrow> bytes" where
  "header_body h =
     nibbles (version h) (message_type h) # le16 (chan_len (channel h) (payload_length h))
       @ le32 (hid h) @ le32 (timestamp h)"

definition header_bytes :: "trudpHeader \<Rightarrow> bytes" where
  "header_bytes h = checksum h # header_body h"

text \<open>
  A pointer cast to \<open>trudpHeader *\<close> reads the fields out of the buffer. A byte past
  the end of the buffer has no specified value, in C and here (\<open>!\<close> out of range).
\<close>

definition header_of :: "bytes \<Rightarrow> trudpHeader" where
  "header_of p =
     \<lparr> checksum = p ! 0,
       version = ucast (p ! 1), message_type = ucast (drop_bit 4 (p ! 1)),
       channel = ucast (un16 (p ! 2) (p ! 3)),
       payload_length = ucast (drop_bit 4 (un16 (p ! 2) (p ! 3))),
       hid = un32 (p ! 4) (p ! 5) (p ! 6) (p ! 7),
       timestamp = un32 (p ! 8) (p ! 9) (p ! 10) (p ! 11) \<rparr>"

text \<open>The loop adds bytes 1 to 11 in a \<open>uint8_t\<close>.\<close>

definition headerChecksumCalculate :: "bytes \<Rightarrow> u8" where
  "headerChecksumCalculate p = sum_list (take (headerLength - 1) (drop 1 p))"

definition headerChecksumCheck :: "bytes \<Rightarrow> bool" where
  "headerChecksumCheck p \<longleftrightarrow> checksum (header_of p) = headerChecksumCalculate p"

text \<open>
  \<open>_trudpHeaderCreate\<close>: the fields are set one by one, the checksum last, over the
  fields that are set before. The channel arrives as \<open>unsigned int\<close> and the length as
  \<open>uint16_t\<close>; the bit fields keep their low 4 and 12 bits.
\<close>

definition headerCreate :: "u32 \<Rightarrow> 4 word \<Rightarrow> u32 \<Rightarrow> u16 \<Rightarrow> u32 \<Rightarrow> bytes" where
  "headerCreate i t ch len ts =
     (let h = \<lparr> checksum = 0, version = TR_UDP_PROTOCOL_VERSION, message_type = t,
                channel = ucast ch, payload_length = ucast len, hid = i, timestamp = ts \<rparr>
      in header_bytes (h\<lparr>checksum := headerChecksumCalculate (header_bytes h)\<rparr>))"

definition trudpPacketCheck :: "bytes \<Rightarrow> bool" where
  "trudpPacketCheck p \<longleftrightarrow>
     headerLength \<le> length p
     \<and> length p - headerLength = unat (payload_length (header_of p))
     \<and> headerChecksumCheck p"

section \<open>Packets\<close>

text \<open>\<open>packetType\<close>, less its pointer to the TRUDP connection.\<close>

record packetType =
  pdata :: bytes
  sendQueueF :: bool
  destoryF :: bool

definition pac_header :: "packetType \<Rightarrow> trudpHeader" where
  "pac_header p = header_of (pdata p)"

definition ID :: "packetType \<Rightarrow> u32" where
  "ID p = hid (pac_header p)"

definition Channel :: "packetType \<Rightarrow> nat" where
  "Channel p = unat (channel (pac_header p))"

definition Type :: "packetType \<Rightarrow> nat" where
  "Type p = unat (message_type (pac_header p))"

definition TypeString :: "packetType \<Rightarrow> string" where
  "TypeString p =
     (if Type p = 0 then ''DATA''
      else if Type p = 1 then ''ACK''
      else if Type p = 2 then ''RESET''
      else if Type p = 3 then ''ACK_RESET''
      else if Type p = 4 then ''PING''
      else if Type p = 5 then ''ACK_PING''
      else ''UNKNOWN'')"

definition Data :: "packetType \<Rightarrow> bytes" where
  "Data p = drop headerLength (pdata p)"

definition pac_Timestamp :: "packetType \<Rightarrow> u32" where
  "pac_Timestamp p = timestamp (pac_header p)"

text \<open>
  \<open>Triptime\<close>: the microseconds between the stamp and now, wrapped at 32 bits, over
  1000. Rounding of \<open>float32\<close> is not modelled: the value is the exact rational.
\<close>

definition Triptime :: "u32 \<Rightarrow> packetType \<Rightarrow> rat" where
  "Triptime now p = rat_of_nat (unat (now - pac_Timestamp p)) / 1000"

text \<open>
  The constructors. \<open>newData\<close> and \<open>newPing\<close> take the address of \<open>data[0]\<close>, so an empty
  slice that is not nil (for \<open>newPing\<close> also nil) is an index out of range. Go's
  \<open>int\<close> channel becomes a C \<open>unsigned int\<close>.
\<close>

definition newData :: "u32 \<Rightarrow> u32 \<Rightarrow> int \<Rightarrow> bytes option \<Rightarrow> packetType go" where
  "newData now i ch data =
     (case data of
        None \<Rightarrow>
          Inr \<lparr> pdata = headerCreate i (type_code TRU_DATA) (word_of_int ch) 0 now,
                sendQueueF = True, destoryF = True \<rparr>
      | Some d \<Rightarrow>
          if d = [] then Inl IndexOutOfRange
          else Inr \<lparr> pdata = headerCreate i (type_code TRU_DATA) (word_of_int ch)
                                (of_nat (length d)) now @ d,
                     sendQueueF = True, destoryF = True \<rparr>)"

definition newPing :: "u32 \<Rightarrow> int \<Rightarrow> bytes \<Rightarrow> packetType go" where
  "newPing now ch d =
     (if d = [] then Inl IndexOutOfRange
      else Inr \<lparr> pdata = headerCreate 0 (type_code TRU_PING) (word_of_int ch)
                            (of_nat (length d)) now @ d,
                 sendQueueF = False, destoryF = True \<rparr>)"

definition newAck :: "packetType \<Rightarrow> packetType" where
  "newAck p =
     \<lparr> pdata = headerCreate (ID p) (type_code TRU_ACK) (ucast (channel (pac_header p))) 0
                 (pac_Timestamp p),
       sendQueueF = False, destoryF = True \<rparr>"

definition newAckToReset :: "packetType \<Rightarrow> packetType" where
  "newAckToReset p =
     \<lparr> pdata = headerCreate (ID p) (type_code TRU_ACK OR type_code TRU_RESET)
                 (ucast (channel (pac_header p))) 0 (pac_Timestamp p),
       sendQueueF = False, destoryF = True \<rparr>"

text \<open>
  \<open>newAckToPing\<close> allocates the header and \<open>payload_length\<close> bytes and copies that many bytes
  of the ping; the Go slice over it has the length of the ping's slice, which the
  packet check has made the same.
\<close>

definition newAckToPing :: "packetType \<Rightarrow> packetType" where
  "newAckToPing p =
     \<lparr> pdata = headerCreate (ID p) (type_code TRU_ACK OR type_code TRU_PING)
                 (ucast (channel (pac_header p))) (ucast (payload_length (pac_header p)))
                 (pac_Timestamp p)
               @ take (length (Data p)) (take (unat (payload_length (pac_header p))) (Data p)),
       sendQueueF = False, destoryF = True \<rparr>"

definition newReset :: "u32 \<Rightarrow> packetType \<Rightarrow> packetType" where
  "newReset now p =
     \<lparr> pdata = headerCreate 0 (type_code TRU_RESET) (of_nat (Channel p)) 0 now,
       sendQueueF = False, destoryF = True \<rparr>"

text \<open>\<open>updateTimestamp\<close> restamps the header of a packet that is sent again.\<close>

definition updateTimestamp :: "u32 \<Rightarrow> packetType \<Rightarrow> packetType" where
  "updateTimestamp now p =
     (let h = (pac_header p)\<lparr>timestamp := now\<rparr>;
          q = header_bytes h @ Data p
      in p\<lparr>pdata := header_bytes (h\<lparr>checksum := headerChecksumCalculate q\<rparr>) @ Data p\<rparr>)"

text \<open>\<open>check\<close> takes the address of \<open>packet[0]\<close> first.\<close>

definition pac_check :: "bytes \<Rightarrow> bool go" where
  "pac_check p = (if p = [] then Inl IndexOutOfRange else Inr (trudpPacketCheck p))"

definition pac_copy :: "packetType \<Rightarrow> packetType" where
  "pac_copy p = \<lparr> pdata = pdata p, sendQueueF = False, destoryF = False \<rparr>"

section \<open>The header is a codec\<close>

text \<open>The bit fields come back out of their units, and the units out of their fields.\<close>

lemma nibbles_fields [simp]:
  "ucast (nibbles lo hi) = lo" "ucast (drop_bit 4 (nibbles lo hi)) = hi"
  by (rule bit_word_eqI, auto simp: nibbles_def bit_simps dest: bit_imp_le_length)+

lemma chan_len_fields [simp]:
  "ucast (chan_len ch len) = ch" "ucast (drop_bit 4 (chan_len ch len)) = len"
  by (rule bit_word_eqI, auto simp: chan_len_def bit_simps dest: bit_imp_le_length)+

lemma nibbles_of_fields [simp]: "nibbles (ucast b) (ucast (drop_bit 4 b)) = b"
proof (rule bit_word_eqI)
  fix n :: nat
  assume "n < LENGTH(8)"
  then consider "n < 4" | "4 \<le> n" "n < 8" by force
  then show "bit (nibbles (ucast b) (ucast (drop_bit 4 b))) n = bit b n"
    by cases (auto simp: nibbles_def bit_simps)
qed

lemma chan_len_of_fields [simp]: "chan_len (ucast w) (ucast (drop_bit 4 w)) = w"
proof (rule bit_word_eqI)
  fix n :: nat
  assume "n < LENGTH(16)"
  then consider "n < 4" | "4 \<le> n" "n < 16" by force
  then show "bit (chan_len (ucast w) (ucast (drop_bit 4 w))) n = bit w n"
    by cases (auto simp: chan_len_def bit_simps)
qed

lemma length_header_body [simp]: "length (header_body h) = 11"
  by (simp add: header_body_def)

lemma length_header_bytes [simp]: "length (header_bytes h) = 12"
  by (simp add: header_bytes_def)

lemma header_of_bytes [simp]: "header_of (header_bytes h @ r) = h"
  by (simp add: header_of_def header_bytes_def header_body_def le16_def le32_def)

lemma header_of_bytes_all [simp]: "header_of (header_bytes h) = h"
  using header_of_bytes [of h "[]"] by simp

lemma take_12:
  assumes "12 \<le> length p"
  shows "take 12 p = [p!0, p!1, p!2, p!3, p!4, p!5, p!6, p!7, p!8, p!9, p!10, p!11]"
  using assms by (intro nth_equalityI) (auto simp: less_Suc_eq numeral_eq_Suc)

lemma header_bytes_of: "12 \<le> length p \<Longrightarrow> header_bytes (header_of p) = take 12 p"
  by (simp add: take_12 header_of_def header_bytes_def header_body_def)

lemma header_of_take: "header_of (take 12 p @ r) = header_of (take 12 p)" if "12 \<le> length p"
  using that by (simp add: header_of_def nth_append)

text \<open>A reader of the struct, for the codec interface.\<close>

definition rd_header :: "bytes \<Rightarrow> trudpHeader option \<times> bytes" where
  "rd_header bs =
     (if headerLength \<le> length bs then (Some (header_of bs), drop headerLength bs) else (None, []))"

interpretation header_codec: codec header_bytes rd_header "\<lambda>_. True"
  by unfold_locales (simp add: rd_header_def headerLength_def)

section \<open>Checksums\<close>

lemma checksum_header_bytes [simp]:
  "headerChecksumCalculate (header_bytes h @ r) = sum_list (header_body h)"
  by (simp add: headerChecksumCalculate_def header_bytes_def headerLength_def)

lemma checksum_header_bytes_all [simp]:
  "headerChecksumCalculate (header_bytes h) = sum_list (header_body h)"
  using checksum_header_bytes [of h "[]"] by simp

lemma headerCreate_eq:
  "\<exists>c. headerCreate i t ch len ts =
         header_bytes \<lparr> checksum = c, version = 2, message_type = t, channel = ucast ch,
                         payload_length = ucast len, hid = i, timestamp = ts \<rparr>"
  by (simp add: headerCreate_def Let_def TR_UDP_PROTOCOL_VERSION_def, rule exI, rule refl)

lemma length_headerCreate [simp]: "length (headerCreate i t ch len ts) = 12"
  by (simp add: headerCreate_def Let_def)

lemma header_of_create [simp]:
  "version (header_of (headerCreate i t ch len ts @ r)) = 2"
  "message_type (header_of (headerCreate i t ch len ts @ r)) = t"
  "channel (header_of (headerCreate i t ch len ts @ r)) = ucast ch"
  "payload_length (header_of (headerCreate i t ch len ts @ r)) = ucast len"
  "hid (header_of (headerCreate i t ch len ts @ r)) = i"
  "timestamp (header_of (headerCreate i t ch len ts @ r)) = ts"
  using headerCreate_eq [of i t ch len ts] by auto

lemma header_of_create_all [simp]:
  "version (header_of (headerCreate i t ch len ts)) = 2"
  "message_type (header_of (headerCreate i t ch len ts)) = t"
  "channel (header_of (headerCreate i t ch len ts)) = ucast ch"
  "payload_length (header_of (headerCreate i t ch len ts)) = ucast len"
  "hid (header_of (headerCreate i t ch len ts)) = i"
  "timestamp (header_of (headerCreate i t ch len ts)) = ts"
  using header_of_create [of i t ch len ts "[]"] by simp_all

lemma headerCreate_checked [simp]: "headerChecksumCheck (headerCreate i t ch len ts @ r)"
  by (simp add: headerChecksumCheck_def headerCreate_def Let_def header_body_def)

lemma trudpPacketCheck_create:
  "trudpPacketCheck (headerCreate i t ch len ts @ d) \<longleftrightarrow> length d = unat (ucast len :: 12 word)"
  by (simp add: trudpPacketCheck_def headerLength_def)

lemma unat_ucast_12: "unat (ucast (of_nat n :: u16) :: 12 word) = n mod 4096"
  by (simp add: unsigned_ucast_eq take_bit_eq_mod unat_of_nat mod_mod_cancel)

lemma uint_ucast_4: "uint (ucast (word_of_int ch :: u32) :: 4 word) = ch mod 16"
  by (simp add: unsigned_ucast_eq take_bit_eq_mod uint_word_of_int mod_mod_cancel)

text \<open>A sum changes with exactly one of its summands.\<close>

lemma sum_list_update_word:
  fixes xs :: "'a::ab_group_add list"
  shows "i < length xs \<Longrightarrow> sum_list (xs[i := x]) = sum_list xs + (x - xs ! i)"
  by (induction xs arbitrary: i) (auto split: nat.split simp: algebra_simps)

lemma headerChecksumCheck_iff:
  "12 \<le> length p \<Longrightarrow> headerChecksumCheck p \<longleftrightarrow> p ! 0 = sum_list (take 11 (drop 1 p))"
  by (simp add: headerChecksumCheck_def headerChecksumCalculate_def header_of_def headerLength_def)

lemma checksum_flip:
  assumes "12 \<le> length p" and "i < 12" and "b \<noteq> p ! i" and "headerChecksumCheck p"
  shows "\<not> headerChecksumCheck (p[i := b])"
proof (cases i)
  case 0
  then show ?thesis using assms by (cases p) (auto simp: headerChecksumCheck_iff)
next
  case (Suc j)
  have "take 11 (drop 1 (p[i := b])) = (take 11 (drop 1 p))[j := b]"
    using Suc assms by (simp add: drop_update_swap take_update_swap)
  moreover have "j < length (take 11 (drop 1 p))" using Suc assms by simp
  ultimately have "sum_list (take 11 (drop 1 (p[i := b]))) = p ! 0 + (b - p ! i)"
    using Suc assms by (simp add: headerChecksumCheck_iff sum_list_update_word)
  then show ?thesis using Suc assms by (simp add: headerChecksumCheck_iff)
qed

lemma ucast_back [simp]:
  "ucast (ucast (c :: 4 word) :: u32) = c" "ucast (ucast (n :: 12 word) :: u16) = n"
  by (rule bit_word_eqI, auto simp: bit_simps dest: bit_imp_le_length)+

text \<open>Of the packets \<open>newData\<close> builds, the check accepts those with fewer than 4096 bytes.\<close>

lemma newData_check_iff:
  "newData now i ch (Some d) = Inr p \<Longrightarrow> trudpPacketCheck (pdata p) \<longleftrightarrow> length d < 4096"
  by (auto simp: newData_def trudpPacketCheck_create unat_ucast_12 split: if_splits)

lemma Data_length:
  "trudpPacketCheck (pdata p) \<Longrightarrow> length (Data p) = unat (payload_length (pac_header p))"
  by (simp add: trudpPacketCheck_def Data_def pac_header_def)

text \<open>What an answer to a packet has to be.\<close>

definition answers :: "string \<Rightarrow> bytes \<Rightarrow> packetType \<Rightarrow> packetType \<Rightarrow> bool" where
  "answers t d p a \<longleftrightarrow> trudpPacketCheck (pdata a) \<and> TypeString a = t \<and> Data a = d
     \<and> ID a = ID p \<and> Channel a = Channel p \<and> pac_Timestamp a = pac_Timestamp p"

lemmas packet_defs = newData_def newAck_def newAckToReset_def newAckToPing_def newReset_def
  newPing_def updateTimestamp_def

lemmas getter_defs = ID_def pac_header_def Channel_def Type_def TypeString_def pac_Timestamp_def
  Data_def headerLength_def

lemma trudpPacketCheck_create_empty:
  "trudpPacketCheck (headerCreate i t ch len ts) \<longleftrightarrow> 0 = unat (ucast len :: 12 word)"
  using trudpPacketCheck_create [where d = "[]"] by simp

lemma answers_newAck: "answers ''ACK'' [] p (newAck p)"
  by (simp add: answers_def packet_defs getter_defs trudpPacketCheck_create_empty)

lemma answers_newAckToReset: "answers ''ACK_RESET'' [] p (newAckToReset p)"
  by (simp add: answers_def packet_defs getter_defs trudpPacketCheck_create_empty)

lemma answers_newAckToPing:
  assumes "trudpPacketCheck (pdata p)"
  shows "answers ''ACK_PING'' (Data p) p (newAckToPing p)"
  using Data_length [OF assms]
  by (simp add: answers_def packet_defs getter_defs trudpPacketCheck_create)

text \<open>Restamping changes the stamp and the checksum only.\<close>

lemma updateTimestamp_fields:
  "ID (updateTimestamp now p) = ID p" "Channel (updateTimestamp now p) = Channel p"
  "Type (updateTimestamp now p) = Type p" "pac_Timestamp (updateTimestamp now p) = now"
  "Data (updateTimestamp now p) = Data p"
  by (simp_all add: updateTimestamp_def Let_def getter_defs)

lemma updateTimestamp_checked:
  assumes "trudpPacketCheck (pdata p)"
  shows "trudpPacketCheck (pdata (updateTimestamp now p))"
  using Data_length [OF assms]
  by (simp add: updateTimestamp_def Let_def getter_defs trudpPacketCheck_def headerChecksumCheck_def
      header_body_def)

section \<open>Properties\<close>

text \<open>A DATA packet built by \<open>newData\<close> from at most 4095 bytes passes the receiver's check, and
  the getters give back the id, the channel modulo 16, the type, the stamp and the data.\<close>

lemma newData_roundtrip:
  assumes "d \<noteq> []" and "length d < 4096"
  shows "\<exists>p. newData now i ch (Some d) = Inr p \<and> trudpPacketCheck (pdata p) \<and> ID p = i
     \<and> int (Channel p) = ch mod 16 \<and> TypeString p = ''DATA'' \<and> pac_Timestamp p = now \<and> Data p = d"
  using assms
  by (simp add: newData_def trudpPacketCheck_create unat_ucast_12 ID_def pac_header_def Channel_def
      uint_ucast_4 Type_def TypeString_def pac_Timestamp_def Data_def headerLength_def)

lemma newData_roundtrip_example:
  "\<exists>p. newData 77 5 18 (Some [1, 2, 3]) = Inr p \<and> trudpPacketCheck (pdata p) \<and> ID p = 5
     \<and> int (Channel p) = 18 mod 16 \<and> TypeString p = ''DATA'' \<and> pac_Timestamp p = 77 \<and> Data p = [1, 2, 3]"
  by (rule newData_roundtrip) simp_all

text \<open>C39: a received packet in which one header byte was changed to another value does not pass
  the check, whichever byte and whatever the packet's type.\<close>

theorem single_byte_corruption_detected:
  assumes "trudpPacketCheck p" and "i < 12" and "b \<noteq> p ! i"
  shows "\<not> trudpPacketCheck (p[i := b])"
  using assms checksum_flip [of p i b] by (auto simp: trudpPacketCheck_def headerLength_def)

theorem single_byte_corruption_detected_witness:
  "\<not> trudpPacketCheck ((headerCreate 5 0 2 1 7 @ [9])[4 := 6])"
  by (rule single_byte_corruption_detected)
    (simp_all add: trudpPacketCheck_create unat_ucast_12, code_simp)

text \<open>The answers copy what the sender needs: an ACK, an ACK to RESET and an ACK to PING of a
  valid packet are valid packets of their types with its id, its channel and its stamp,
  without data except the ACK to PING, which returns the data of the ping.\<close>

lemma answers_copy:
  assumes "trudpPacketCheck (pdata p)"
  shows "answers ''ACK'' [] p (newAck p) \<and> answers ''ACK_RESET'' [] p (newAckToReset p)
    \<and> answers ''ACK_PING'' (Data p) p (newAckToPing p)"
  by (intro conjI answers_newAck answers_newAckToReset answers_newAckToPing assms)

lemma answers_copy_example:
  "let p = \<lparr> pdata = headerCreate 0 4 1 2 7 @ [9, 8], sendQueueF = False, destoryF = False \<rparr>
   in answers ''ACK'' [] p (newAck p) \<and> answers ''ACK_RESET'' [] p (newAckToReset p)
    \<and> answers ''ACK_PING'' (Data p) p (newAckToPing p)"
  unfolding Let_def by (rule answers_copy) (simp add: trudpPacketCheck_create)

end
