(* ===== verification/TrudpStat.thy ===== *)
theory TrudpStat
  imports Prelude
begin

text \<open>
  Channel statistic: \<open>trudp/trudp/channel_stat.go\<close> and \<open>packetsStat\<close> of
  \<open>trudp/trudp/trudp.go\<close>. Times are nanoseconds since the epoch, \<open>float32\<close> values exact
  rationals. The screen printed by \<open>statHeader\<close>, \<open>statFooter\<close> and \<open>statBody\<close> is not modelled.
\<close>

type_synonym time = int
type_synonym duration = int

definition Millisecond :: duration where
  "Millisecond = 1000000"

definition maxRTT :: nat where
  "maxRTT = 500"

definition defaultRTT :: nat where
  "defaultRTT = 30"

section \<open>Real time speed\<close>

text \<open>\<open>secArr\<close> has ten slots of 100 ms, each a pair of a packet count and a byte count.\<close>

record RealTimeSpeed =
  secArr :: "(int \<times> int) list"
  lastIDX :: int
  SpeedPacSec :: int
  speedMbSec :: rat

definition zeroRealTimeSpeed :: RealTimeSpeed where
  "zeroRealTimeSpeed =
     \<lparr> secArr = replicate 10 (0, 0), lastIDX = 0, SpeedPacSec = 0, speedMbSec = 0 \<rparr>"

definition Calculate :: "time \<Rightarrow> int \<Rightarrow> RealTimeSpeed \<Rightarrow> RealTimeSpeed" where
  "Calculate now len rt =
     (let millis = now div 1000000;
          currentIdx = (millis div 100) mod 10;
          rt1 = (if lastIDX rt \<noteq> currentIdx
                 then rt\<lparr>lastIDX := currentIdx, secArr := (secArr rt)[nat currentIdx := (0, 0)]\<rparr>
                 else rt);
          v = secArr rt1 ! nat currentIdx;
          arr = (secArr rt1)[nat currentIdx :=
                  ((if 0 < len then fst v + 1 else fst v), snd v + len)]
      in rt1\<lparr>secArr := arr,
             SpeedPacSec := sum_list (map fst arr),
             speedMbSec := rat_of_int (sum_list (map snd arr)) / (1024 * 1024)\<rparr>)"

section \<open>Packet counters\<close>

record packetsStat =
  ps_send :: u32
  ps_sendLength :: u64
  ps_ack :: u32
  ps_receive :: u32
  ps_receiveLength :: u64
  ps_dropped :: u32
  ps_repeat :: u32
  sendRT :: RealTimeSpeed
  receiveRT :: RealTimeSpeed
  repeatRT :: RealTimeSpeed

definition zeroPacketsStat :: packetsStat where
  "zeroPacketsStat =
     \<lparr> ps_send = 0, ps_sendLength = 0, ps_ack = 0, ps_receive = 0, ps_receiveLength = 0,
       ps_dropped = 0, ps_repeat = 0, sendRT = zeroRealTimeSpeed, receiveRT = zeroRealTimeSpeed,
       repeatRT = zeroRealTimeSpeed \<rparr>"

text \<open>
  Each counting function updates the channel's counters and the connection's total
  with the same code; here it is one function that is applied to both.
\<close>

definition count_received :: "time \<Rightarrow> nat \<Rightarrow> packetsStat \<Rightarrow> packetsStat" where
  "count_received now len p =
     p\<lparr>ps_receive := ps_receive p + 1, ps_receiveLength := ps_receiveLength p + of_nat len,
       receiveRT := Calculate now (int len) (receiveRT p)\<rparr>"

definition count_ack :: "packetsStat \<Rightarrow> packetsStat" where
  "count_ack p = p\<lparr>ps_ack := ps_ack p + 1\<rparr>"

definition count_dropped :: "packetsStat \<Rightarrow> packetsStat" where
  "count_dropped p = p\<lparr>ps_dropped := ps_dropped p + 1\<rparr>"

definition count_send :: "time \<Rightarrow> nat \<Rightarrow> packetsStat \<Rightarrow> packetsStat" where
  "count_send now len p =
     p\<lparr>ps_send := ps_send p + 1, ps_sendLength := ps_sendLength p + of_nat len,
       sendRT := Calculate now (int len) (sendRT p)\<rparr>"

definition count_repeat :: "packetsStat \<Rightarrow> packetsStat" where
  "count_repeat p = p\<lparr>ps_repeat := ps_repeat p + 1\<rparr>"

definition repeat_speed :: "time \<Rightarrow> int \<Rightarrow> packetsStat \<Rightarrow> packetsStat" where
  "repeat_speed now len p = p\<lparr>repeatRT := Calculate now len (repeatRT p)\<rparr>"

text \<open>Percentages are computed in \<open>uint32\<close>: the product by 100 wraps.\<close>

definition repeatP :: "packetsStat \<Rightarrow> u32" where
  "repeatP p = (if 0 < ps_send p then 100 * ps_repeat p div ps_send p else 0)"

definition droppedP :: "packetsStat \<Rightarrow> u32" where
  "droppedP p = (if 0 < ps_receive p then 100 * ps_dropped p div ps_receive p else 0)"

section \<open>Channel statistic\<close>

record channelStat =
  packets :: packetsStat
  timeStarted :: time
  triptime :: rat
  triptimeMiddle :: rat
  lastTimeReceived :: time
  lastTripTimeReceived :: time

definition setTriptime :: "time \<Rightarrow> rat \<Rightarrow> channelStat \<Rightarrow> channelStat" where
  "setTriptime now tt s =
     (let middle =
            (if triptimeMiddle s = rat_of_nat maxRTT then tt
             else let m = (triptimeMiddle s * 10 + tt) / 11
                  in if m > rat_of_nat maxRTT then rat_of_nat maxRTT else m)
      in s\<lparr>triptime := tt, triptimeMiddle := middle, lastTripTimeReceived := now\<rparr>)"

definition setLastTimeReceived :: "time \<Rightarrow> channelStat \<Rightarrow> channelStat" where
  "setLastTimeReceived now s = s\<lparr>lastTimeReceived := now\<rparr>"

text \<open>
  \<open>sendQueueRttTime\<close> of \<open>send_queue.go\<close>: the middle trip time, at most 500, cut to whole
  milliseconds, plus 30.
\<close>

definition sendQueueRttTime :: "channelStat \<Rightarrow> duration" where
  "sendQueueRttTime s =
     ((if triptimeMiddle s > rat_of_nat maxRTT then int maxRTT else \<lfloor>triptimeMiddle s\<rfloor>)
       + int defaultRTT) * Millisecond"

section \<open>Bounds\<close>

definition rt_ok :: "RealTimeSpeed \<Rightarrow> bool" where
  "rt_ok rt \<longleftrightarrow> length (secArr rt) = 10 \<and> (\<forall>v \<in> set (secArr rt). 0 \<le> fst v)
     \<and> SpeedPacSec rt = sum_list (map fst (secArr rt))"

lemma rt_ok_zero: "rt_ok zeroRealTimeSpeed"
  by (simp add: rt_ok_def zeroRealTimeSpeed_def sum_list_replicate map_replicate_const)

lemma Calculate_ok:
  assumes "rt_ok rt"
  shows "rt_ok (Calculate now len rt)"
proof -
  define i where "i = nat ((now div 1000000 div 100) mod 10)"
  have "i < 10" by (simp add: i_def nat_less_iff)
  then show ?thesis
    using assms
    by (auto simp: rt_ok_def Calculate_def Let_def i_def [symmetric] dest!: set_update_subset_insert [THEN subsetD])
qed

lemma Calculate_speed_nonneg: "rt_ok rt \<Longrightarrow> 0 \<le> SpeedPacSec rt"
  by (auto simp: rt_ok_def intro!: sum_list_nonneg)

lemma sendQueueRttTime_bounds:
  assumes "0 \<le> triptimeMiddle s"
  shows "30 * Millisecond \<le> sendQueueRttTime s \<and> sendQueueRttTime s \<le> 530 * Millisecond"
  using assms by (auto simp: sendQueueRttTime_def maxRTT_def defaultRTT_def Millisecond_def floor_le_iff le_floor_iff)

lemma setTriptime_range:
  assumes "0 \<le> tt" and "0 \<le> triptimeMiddle s"
  shows "0 \<le> triptimeMiddle (setTriptime now tt s)"
  using assms by (auto simp: setTriptime_def Let_def)

end
