(* ===== verification/TrudpQueues.thy ===== *)
theory TrudpQueues
  imports TrudpPacket TrudpStat
begin

text \<open>
  The packet queues of a channel: \<open>trudp/trudp/send_queue.go\<close> (a linked list with an index
  from packet ids to list elements) and \<open>trudp/trudp/receive_queue.go\<close> (a map from ids).
  The send queue is related to an association list in sending order, which is what the
  channel's proofs see.
\<close>

section \<open>The send queue\<close>

record sendQueueData =
  packet :: packetType
  sendTime :: time
  arrivalTime :: time
  resendAttempt :: nat

text \<open>
  \<open>*list.Element\<close> pointers are numbers, fresh for each \<open>PushBack\<close>. The list holds each
  element with its value.
\<close>

type_synonym listElement = nat

record sendQueue =
  sq_q :: "(listElement \<times> sendQueueData) list"
  sq_idx :: "u32 \<rightharpoonup> listElement"
  sq_fresh :: listElement

definition sendQueueInit :: sendQueue where
  "sendQueueInit = \<lparr> sq_q = [], sq_idx = Map.empty, sq_fresh = 0 \<rparr>"

definition sq_Find :: "u32 \<Rightarrow> sendQueue \<Rightarrow> (listElement \<times> sendQueueData) option" where
  "sq_Find i s =
     (case sq_idx s i of
        None \<Rightarrow> None
      | Some e \<Rightarrow> map_option (Pair e) (map_of (sq_q s) e))"

text \<open>Writing through the pointer of an element.\<close>

definition sq_modify :: "listElement \<Rightarrow> (sendQueueData \<Rightarrow> sendQueueData) \<Rightarrow> sendQueue \<Rightarrow> sendQueue" where
  "sq_modify e f s = s\<lparr>sq_q := map (\<lambda>(e', d). (e', if e' = e then f d else d)) (sq_q s)\<rparr>"

definition sq_Add :: "time \<Rightarrow> duration \<Rightarrow> packetType \<Rightarrow> sendQueue \<Rightarrow> sendQueue" where
  "sq_Add now rtt p s =
     (case sq_Find (ID p) s of
        None \<Rightarrow>
          s\<lparr>sq_q := sq_q s @ [(sq_fresh s, \<lparr> packet = p, sendTime = now,
                                   arrivalTime = now + rtt, resendAttempt = 0 \<rparr>)],
            sq_idx := (sq_idx s)(ID p \<mapsto> sq_fresh s),
            sq_fresh := sq_fresh s + 1\<rparr>
      | Some (e, _) \<Rightarrow>
          sq_modify e (\<lambda>d. d\<lparr>resendAttempt := resendAttempt d + 1, arrivalTime := now + rtt\<rparr>) s)"

definition sq_Remove :: "u32 \<Rightarrow> sendQueue \<Rightarrow> sendQueue" where
  "sq_Remove i s =
     (case sq_Find i s of
        None \<Rightarrow> s
      | Some (e, _) \<Rightarrow>
          s\<lparr>sq_q := filter (\<lambda>(e', _). e' \<noteq> e) (sq_q s), sq_idx := (sq_idx s)(i := None)\<rparr>)"

text \<open>\<open>sendQueueReset\<close> empties the list in place and makes a new index.\<close>

definition sendQueueReset :: "sendQueue \<Rightarrow> sendQueue" where
  "sendQueueReset s = s\<lparr>sq_q := [], sq_idx := Map.empty\<rparr>"

definition sq_Len :: "sendQueue \<Rightarrow> nat" where
  "sq_Len s = length (sq_q s)"

text \<open>The invariant: the index has exactly the ids of the listed packets, each once.\<close>

definition sq_invar :: "sendQueue \<Rightarrow> bool" where
  "sq_invar s \<longleftrightarrow>
     distinct (map fst (sq_q s)) \<and> (\<forall>(e, d) \<in> set (sq_q s). e < sq_fresh s)
     \<and> distinct (map (ID \<circ> packet \<circ> snd) (sq_q s))
     \<and> (\<forall>i e. sq_idx s i = Some e \<longleftrightarrow> (\<exists>d. (e, d) \<in> set (sq_q s) \<and> ID (packet d) = i))"

text \<open>The abstraction: entries in sending order, by packet id.\<close>

definition sq_list :: "sendQueue \<Rightarrow> (u32 \<times> sendQueueData) list" where
  "sq_list s = map (\<lambda>(e, d). (ID (packet d), d)) (sq_q s)"

section \<open>The contract of an ordered queue\<close>

text \<open>
  The interface the channel uses: entries are kept in the order of their first \<open>add\<close>;
  adding a known key updates its entry where it stands; removing deletes one key.
\<close>

locale ordered_queue =
  fixes items :: "'s \<Rightarrow> ('k \<times> 'v) list"
    and add :: "'k \<Rightarrow> 'p \<Rightarrow> 's \<Rightarrow> 's"
    and del :: "'k \<Rightarrow> 's \<Rightarrow> 's"
    and fresh :: "'p \<Rightarrow> 'v"
    and again :: "'p \<Rightarrow> 'v \<Rightarrow> 'v"
    and okp :: "'k \<Rightarrow> 'p \<Rightarrow> bool"
    and invar :: "'s \<Rightarrow> bool"
  assumes items_add: "invar s \<Longrightarrow> okp k p \<Longrightarrow> items (add k p s) =
            (if k \<in> fst ` set (items s)
             then map (\<lambda>(k', v). (k', if k' = k then again p v else v)) (items s)
             else items s @ [(k, fresh p)])"
    and items_del: "invar s \<Longrightarrow> items (del k s) = filter (\<lambda>(k', v). k' \<noteq> k) (items s)"
    and items_distinct: "invar s \<Longrightarrow> distinct (map fst (items s))"
    and invar_add: "invar s \<Longrightarrow> okp k p \<Longrightarrow> invar (add k p s)"
    and invar_del: "invar s \<Longrightarrow> invar (del k s)"
begin

lemma keys_add_new:
  "invar s \<Longrightarrow> okp k p \<Longrightarrow> k \<notin> fst ` set (items s) \<Longrightarrow>
     map fst (items (add k p s)) = map fst (items s) @ [k]"
  by (simp add: items_add)

lemma keys_add_known:
  "invar s \<Longrightarrow> okp k p \<Longrightarrow> k \<in> fst ` set (items s) \<Longrightarrow>
     map fst (items (add k p s)) = map fst (items s)"
  by (auto simp: items_add comp_def split_def)

lemma keys_del: "invar s \<Longrightarrow> map fst (items (del k s)) = filter (\<lambda>k'. k' \<noteq> k) (map fst (items s))"
  by (simp add: items_del filter_map comp_def split_def)

lemma length_add_le: "invar s \<Longrightarrow> okp k p \<Longrightarrow> length (items (add k p s)) \<le> length (items s) + 1"
  by (simp add: items_add)

lemma length_del_le: "invar s \<Longrightarrow> length (items (del k s)) \<le> length (items s)"
  by (simp add: items_del)

lemma length_del_known:
  assumes "invar s" and "k \<in> fst ` set (items s)"
  shows "length (items (del k s)) + 1 = length (items s)"
proof -
  have "length (filter (\<lambda>k'. k' \<noteq> k) (map fst (items s))) + 1 = length (map fst (items s))"
    using items_distinct [OF assms(1)] assms(2)
    by (simp add: distinct_remove1_removeAll [symmetric] removeAll_filter_not_eq [symmetric, of k]
        length_remove1 eq_commute [of _ k])
      (metis One_nat_def Suc_pred length_map length_pos_if_in_set list.set_map)
  then show ?thesis using keys_del [OF assms(1), of k] by (metis length_map)
qed

lemma del_unknown:
  "invar s \<Longrightarrow> k \<notin> fst ` set (items s) \<Longrightarrow> items (del k s) = items s"
  by (force simp: items_del filter_id_conv)

lemma add_del_new:
  "invar s \<Longrightarrow> okp k p \<Longrightarrow> k \<notin> fst ` set (items s) \<Longrightarrow> items (del k (add k p s)) = items s"
  by (force simp: items_del items_add invar_add filter_id_conv)

end

section \<open>The send queue implements it\<close>

lemma sq_invar_init: "sq_invar sendQueueInit"
  by (simp add: sq_invar_def sendQueueInit_def)

lemma sq_invar_reset: "sq_invar s \<Longrightarrow> sq_invar (sendQueueReset s)"
  by (simp add: sq_invar_def sendQueueReset_def)

lemma sq_list_reset [simp]: "sq_list (sendQueueReset s) = []"
  by (simp add: sq_list_def sendQueueReset_def)

lemma keys_sq_list: "map fst (sq_list s) = map (ID \<circ> packet \<circ> snd) (sq_q s)"
  by (simp add: sq_list_def comp_def split_def)

lemma length_sq_list: "length (sq_list s) = sq_Len s"
  by (simp add: sq_list_def sq_Len_def)

lemma sq_Find_Some_iff:
  assumes "sq_invar s"
  shows "sq_Find i s = Some (e, d) \<longleftrightarrow> (e, d) \<in> set (sq_q s) \<and> ID (packet d) = i"
proof -
  have d: "distinct (map fst (sq_q s))" using assms by (simp add: sq_invar_def)
  have idx: "sq_idx s i = Some e' \<longleftrightarrow> (\<exists>d. (e', d) \<in> set (sq_q s) \<and> ID (packet d) = i)" for e'
    using assms by (simp add: sq_invar_def)
  show ?thesis
    using idx [of e] map_of_eq_Some_iff [OF d]
    by (auto simp: sq_Find_def split: option.splits) (metis option.inject idx)+
qed

lemma sq_Find_None_iff:
  assumes "sq_invar s"
  shows "sq_Find i s = None \<longleftrightarrow> i \<notin> fst ` set (sq_list s)"
  using sq_Find_Some_iff [OF assms, of i]
  by (auto simp: sq_list_def image_iff split_def) (metis option.exhaust prod.collapse)+

lemma sq_Find_map_of:
  assumes "sq_invar s"
  shows "map_option snd (sq_Find i s) = map_of (sq_list s) i"
proof (cases "sq_Find i s")
  case None
  then have "i \<notin> fst ` set (sq_list s)" using sq_Find_None_iff [OF assms] by blast
  then have "map_of (sq_list s) i = None" by (simp add: map_of_eq_None_iff)
  then show ?thesis using None by simp
next
  case (Some ed)
  then have "(fst ed, snd ed) \<in> set (sq_q s) \<and> ID (packet (snd ed)) = i"
    using sq_Find_Some_iff [OF assms, of i "fst ed" "snd ed"] by simp
  then have "(i, snd ed) \<in> set (sq_list s)"
    unfolding sq_list_def set_map by (intro image_eqI [of _ _ "(fst ed, snd ed)"]) (auto simp: split_def)
  moreover have "distinct (map fst (sq_list s))"
    using assms by (simp add: keys_sq_list sq_invar_def)
  ultimately show ?thesis using Some by simp
qed

lemma sq_modify_distinct:
  assumes "distinct (map fst q)" and "distinct (map (ID \<circ> packet \<circ> snd) q)"
    and "(e, d) \<in> set q" and "(e', d') \<in> set q"
  shows "e' = e \<longleftrightarrow> ID (packet d') = ID (packet d)"
  using assms by (metis (no_types, lifting) comp_apply eq_key_imp_eq_value distinct_map inj_onD snd_conv prod.inject)

lemma sq_list_modify:
  assumes "sq_invar s" and "sq_Find i s = Some (e, d)"
    and "ID (packet (f d)) = ID (packet d)"
  shows "sq_list (sq_modify e f s) = map (\<lambda>(k, v). (k, if k = i then f v else v)) (sq_list s)"
proof -
  have m: "(e, d) \<in> set (sq_q s)" and i: "ID (packet d) = i"
    using assms sq_Find_Some_iff by auto
  then have "\<forall>(e', d') \<in> set (sq_q s). e' = e \<longleftrightarrow> ID (packet d') = i"
    using assms(1) sq_modify_distinct [of "sq_q s" e d] by (auto simp: sq_invar_def)
  moreover have "d' = d" if "(e, d') \<in> set (sq_q s)" for d'
    using m that assms(1) unfolding sq_invar_def by (metis eq_key_imp_eq_value)
  ultimately show ?thesis
    using assms(3) by (auto simp: sq_list_def sq_modify_def split_def)
qed

lemma sq_invar_modify:
  assumes "sq_invar s" and "\<And>d. (e, d) \<in> set (sq_q s) \<Longrightarrow> ID (packet (f d)) = ID (packet d)"
  shows "sq_invar (sq_modify e f s)"
proof -
  have 1: "map fst (sq_q (sq_modify e f s)) = map fst (sq_q s)"
    by (auto simp: sq_modify_def)
  have 2: "map (ID \<circ> packet \<circ> snd) (sq_q (sq_modify e f s)) = map (ID \<circ> packet \<circ> snd) (sq_q s)"
    using assms(2) by (auto simp: sq_modify_def)
  have 3: "(\<exists>d. (e', d) \<in> set (sq_q (sq_modify e f s)) \<and> ID (packet d) = i)
      \<longleftrightarrow> (\<exists>d. (e', d) \<in> set (sq_q s) \<and> ID (packet d) = i)" for e' i
    using assms(2) by (force simp: sq_modify_def image_iff)
  have 4: "\<forall>(e', d) \<in> set (sq_q (sq_modify e f s)). e' < sq_fresh (sq_modify e f s)"
    using assms(1) by (auto simp: sq_modify_def sq_invar_def)
  have 5: "sq_idx (sq_modify e f s) = sq_idx s" by (simp add: sq_modify_def)
  show ?thesis using assms(1) 4 unfolding sq_invar_def 1 2 3 5 by blast
qed

lemma sq_list_Add:
  assumes "sq_invar s" and "ID p = i"
  shows "sq_list (sq_Add now rtt p s) =
     (if i \<in> fst ` set (sq_list s)
      then map (\<lambda>(k, v). (k, if k = i
             then v\<lparr>resendAttempt := resendAttempt v + 1, arrivalTime := now + rtt\<rparr> else v)) (sq_list s)
      else sq_list s @ [(i, \<lparr> packet = p, sendTime = now, arrivalTime = now + rtt, resendAttempt = 0 \<rparr>)])"
proof (cases "sq_Find i s")
  case None
  then show ?thesis
    using assms sq_Find_None_iff [OF assms(1), of i] by (simp add: sq_Add_def sq_list_def)
next
  case (Some ed)
  then show ?thesis
    using assms sq_Find_None_iff [OF assms(1), of i]
      sq_list_modify [OF assms(1), of i "fst ed" "snd ed"
        "\<lambda>d. d\<lparr>resendAttempt := resendAttempt d + 1, arrivalTime := now + rtt\<rparr>"]
    by (simp add: sq_Add_def split_def)
qed

lemma sq_invar_Add:
  assumes "sq_invar s"
  shows "sq_invar (sq_Add now rtt p s)"
proof (cases "sq_Find (ID p) s")
  case None
  then have new: "ID p \<notin> (ID \<circ> packet \<circ> snd) ` set (sq_q s)"
    using sq_Find_None_iff [OF assms, of "ID p"] by (force simp: sq_list_def)
  have lt: "e < sq_fresh s" if "(e, d) \<in> set (sq_q s)" for e d
    using assms that by (auto simp: sq_invar_def)
  show ?thesis
    using None assms new lt
    by (auto simp: sq_Add_def sq_invar_def image_iff less_Suc_eq dest: lt)
next
  case (Some ed)
  then show ?thesis
    using assms by (cases ed) (auto simp: sq_Add_def intro!: sq_invar_modify)
qed

lemma sq_list_Remove:
  assumes "sq_invar s"
  shows "sq_list (sq_Remove i s) = filter (\<lambda>(k, v). k \<noteq> i) (sq_list s)"
proof (cases "sq_Find i s")
  case None
  then have "i \<notin> fst ` set (sq_list s)" using sq_Find_None_iff [OF assms] by blast
  then have "filter (\<lambda>(k, v). k \<noteq> i) (sq_list s) = sq_list s"
    by (force simp: filter_id_conv)
  then show ?thesis using None by (simp add: sq_Remove_def)
next
  case (Some ed)
  obtain e d where ed: "ed = (e, d)" by (cases ed)
  have m: "(e, d) \<in> set (sq_q s)" "ID (packet d) = i"
    using assms Some ed sq_Find_Some_iff by auto
  then have "\<forall>(e', d') \<in> set (sq_q s). e' = e \<longleftrightarrow> ID (packet d') = i"
    using assms(1) sq_modify_distinct [of "sq_q s" e d] by (auto simp: sq_invar_def)
  then have "filter (\<lambda>(e', _). e' \<noteq> e) (sq_q s) = filter (\<lambda>(_, d'). ID (packet d') \<noteq> i) (sq_q s)"
    by (intro filter_cong) auto
  then show ?thesis
    using Some ed by (simp add: sq_Remove_def sq_list_def filter_map comp_def split_def)
qed

lemma sq_invar_Remove:
  assumes "sq_invar s"
  shows "sq_invar (sq_Remove i s)"
proof (cases "sq_Find i s")
  case None
  then show ?thesis using assms by (simp add: sq_Remove_def)
next
  case (Some ed)
  obtain e d where ed: "ed = (e, d)" by (cases ed)
  have m: "(e, d) \<in> set (sq_q s)" "ID (packet d) = i"
    using assms Some ed sq_Find_Some_iff by auto
  then have same: "\<forall>(e', d') \<in> set (sq_q s). e' = e \<longleftrightarrow> ID (packet d') = i"
    using assms(1) sq_modify_distinct [of "sq_q s" e d] by (auto simp: sq_invar_def)
  have dist: "distinct (map g (filter P (sq_q s)))" if "distinct (map g (sq_q s))" for P and g :: "_ \<Rightarrow> 'x"
    using that by (rule distinct_map_filter)
  show ?thesis
    using Some ed assms same m
    by (auto simp: sq_Remove_def sq_invar_def distinct_map_filter)
qed

interpretation sq: ordered_queue
  sq_list
  "\<lambda>i (now, rtt, p). sq_Add now rtt p"
  sq_Remove
  "\<lambda>(now, rtt, p). \<lparr> packet = p, sendTime = now, arrivalTime = now + rtt, resendAttempt = 0 \<rparr>"
  "\<lambda>(now, rtt, p) d. d\<lparr>resendAttempt := resendAttempt d + 1, arrivalTime := now + rtt\<rparr>"
  "\<lambda>i (now, rtt, p). ID p = i"
  sq_invar
proof unfold_locales
  show "distinct (map fst (sq_list s))" if "sq_invar s" for s
    using that by (simp add: keys_sq_list sq_invar_def)
qed (auto simp: sq_list_Add sq_list_Remove sq_invar_Add sq_invar_Remove, force)


lemma sq_Len_simps [simp]: "sq_Len sendQueueInit = 0" "sq_Len (sendQueueReset s) = 0"
  by (simp_all add: sq_Len_def sendQueueInit_def sendQueueReset_def)

lemma sq_Len_Add_new:
  assumes "sq_invar s" and "sq_Find (ID p) s = None"
  shows "sq_Len (sq_Add now rtt p s) = sq_Len s + 1"
  using assms by (simp add: sq_Add_def sq_Len_def)

lemma sq_Len_Add_le: "sq_Len (sq_Add now rtt p s) \<le> sq_Len s + 1"
  by (auto simp: sq_Add_def sq_Len_def sq_modify_def split: option.split prod.split)

lemma sq_Len_Remove_le: "sq_Len (sq_Remove i s) \<le> sq_Len s"
  by (auto simp: sq_Remove_def sq_Len_def split: option.split prod.split)

lemma sq_Len_Remove_known:
  assumes "sq_invar s" and "sq_Find i s = Some ed"
  shows "sq_Len (sq_Remove i s) + 1 = sq_Len s"
  using sq.length_del_known [OF assms(1), of i] assms sq_Find_None_iff [OF assms(1), of i]
  by (simp add: length_sq_list)

text \<open>
  What the queue keeps of a packet: the ids of a state's list are those of the packets still
  waiting for their ACK, in the order they were sent.
\<close>

lemma sq_ids_Remove:
  "sq_invar s \<Longrightarrow> map fst (sq_list (sq_Remove i s)) = filter (\<lambda>k. k \<noteq> i) (map fst (sq_list s))"
  by (rule sq.keys_del)

section \<open>The receive queue\<close>

type_synonym receiveQueue = "u32 \<rightharpoonup> packetType"

definition receiveQueueInit :: receiveQueue where
  "receiveQueueInit = Map.empty"

definition rq_Add :: "packetType \<Rightarrow> receiveQueue \<Rightarrow> receiveQueue" where
  "rq_Add p r = r(ID p \<mapsto> p)"

definition rq_Find :: "u32 \<Rightarrow> receiveQueue \<Rightarrow> packetType option" where
  "rq_Find i r = r i"

definition rq_Remove :: "u32 \<Rightarrow> receiveQueue \<Rightarrow> receiveQueue" where
  "rq_Remove i r = r(i := None)"

definition rq_invar :: "receiveQueue \<Rightarrow> bool" where
  "rq_invar r \<longleftrightarrow> finite (dom r) \<and> (\<forall>i p. r i = Some p \<longrightarrow> ID p = i)"

interpretation rq: table "\<lambda>r i. rq_Find i r" "\<lambda>_. rq_Add" rq_Remove "\<lambda>i p. ID p = i" rq_invar
  by unfold_locales (auto simp: rq_Find_def rq_Add_def rq_Remove_def rq_invar_def fun_eq_iff)

lemma rq_invar_init [simp]: "rq_invar receiveQueueInit"
  by (simp add: rq_invar_def receiveQueueInit_def)

lemmas rq_simps = rq_Find_def rq_Add_def rq_Remove_def receiveQueueInit_def

section \<open>Properties\<close>

text \<open>C36: the send queue of the code (a linked list of elements with an index from ids to elements)
  is an ordered association list: from any state reached by the operations, \<open>Add\<close> of
  an unknown id appends its packet, \<open>Add\<close> of a known id counts a resend and sets the new
  deadline in place, \<open>Remove\<close> drops exactly that id, \<open>Find\<close> looks the id up, and list and
  index stay in step.\<close>

theorem send_queue_refines:
  assumes "sq_invar s"
  shows "sq_list (sq_Add now rtt p s) =
      (if ID p \<in> fst ` set (sq_list s)
       then map (\<lambda>(k, v). (k, if k = ID p
              then v\<lparr>resendAttempt := resendAttempt v + 1, arrivalTime := now + rtt\<rparr> else v)) (sq_list s)
       else sq_list s @ [(ID p, \<lparr> packet = p, sendTime = now, arrivalTime = now + rtt, resendAttempt = 0 \<rparr>)])
    \<and> sq_list (sq_Remove i s) = filter (\<lambda>(k, v). k \<noteq> i) (sq_list s)
    \<and> map_option snd (sq_Find i s) = map_of (sq_list s) i
    \<and> sq_invar (sq_Add now rtt p s) \<and> sq_invar (sq_Remove i s)"
  using assms by (simp add: sq_list_Add sq_list_Remove sq_invar_Add sq_invar_Remove sq_Find_map_of)

theorem send_queue_refines_witness:
  "let p = \<lparr> pdata = headerCreate 5 0 2 1 7 @ [9], sendQueueF = True, destoryF = True \<rparr>;
       s = sq_Add 0 30 p sendQueueInit
   in map_option snd (sq_Find 5 s) = map_of (sq_list s) 5 \<and> sq_invar (sq_Add 10 30 p s)
     \<and> sq_list (sq_Remove 5 s) = filter (\<lambda>(k, v). k \<noteq> 5) (sq_list s)"
  using send_queue_refines [OF sq_invar_Add [OF sq_invar_init]] by (simp add: Let_def)

end
