(* ===== verification/TrudpChannel.thy ===== *)
theory TrudpChannel
  imports TrudpQueues
begin

text \<open>
  TR-UDP channels and the state of a connection: \<open>trudp/trudp/channel.go\<close>, the constants, the
  structure and the event functions of \<open>trudp/trudp/trudp.go\<close>, the write side of
  \<open>trudp/trudp/process.go\<close> and the resend side of \<open>send_queue.go\<close>.

  All these operations run in one goroutine, the module worker, so they are functions
  from state to state. Pointers to channels are numbers into \<open>heap\<close>. Go channels are lists: what
  was sent and not read yet; \<open>answers\<close> logs the values sent on the answer channels of
  writers. One handler reads the clock once (\<open>now\<close>, nanoseconds); the 32-bit
  packet stamp is the microseconds of the same clock. An address is its \<open>String()\<close> form.
\<close>

section \<open>State\<close>

type_synonym chref = nat
type_synonym udpAddr = string

record writeType =
  wtcd :: chref
  wdata :: "bytes option"
  chanAnswer :: nat

record ChannelData =
  addr :: udpAddr
  ch :: int
  key :: string
  lastID :: u32
  expectedID :: u32
  sendQueue :: sendQueue
  receiveQueue :: receiveQueue
  writeQueue :: "writeType list"
  maxQueueSize :: int
  stoppedF :: bool
  sendTestMsgF :: bool
  stat :: channelStat
  connected :: bool

datatype trudpEvent =
    EvInitialize | EvDestroy | EvConnected | EvDisconnected | EvGotReset | EvSendReset
  | EvGotAckReset | EvGotAckPing | EvGotPing | EvGotAck | EvGotData | EvGotDataNotrudp
  | EvProcessReceived | EvProcessReceivedNoTrudp | EvResetLocal

record EventData =
  Tcd :: "chref option"
  Event :: trudpEvent
  EvData :: bytes

record TRUDP =
  heap :: "chref \<Rightarrow> ChannelData"
  nextRef :: chref
  tcdmap :: "string \<rightharpoonup> chref"
  chanEvent :: "EventData list"
  chanReader :: "(udpAddr \<times> packetType) list"
  chanWrite :: "writeType list"
  chanKernel :: "(udpAddr \<times> bytes) list"
  chanWriter :: "(packetType \<times> udpAddr) list"
  answers_log :: "(nat \<times> bool) list"
  allowEvents :: u32
  totals :: packetsStat
  defaultQueueSize :: int

definition maxResendAttempt :: nat where "maxResendAttempt = 50"
definition pingAfter :: int where "pingAfter = 1000"
definition disconnectAfter :: int where "disconnectAfter = 3000"
definition firstPacketID :: u32 where "firstPacketID = 0"
definition maxRQueue :: nat where "maxRQueue = 65536"
definition chEventSize :: nat where "chEventSize = 2048 + maxRQueue"
definition DefaultQueueSize :: int where "DefaultQueueSize = 256"
definition helloMsg :: string where "helloMsg = ''hello''"
definition echoMsg :: string where "echoMsg = ''ping'' @ [CHR 0x00]"
definition echoAnswerMsg :: string where "echoAnswerMsg = ''pong'' @ [CHR 0x00]"
definition sleepTime :: duration where "sleepTime = pingAfter * Millisecond"
definition disconnectTime :: duration where "disconnectTime = disconnectAfter * Millisecond"

definition Timestamp :: "time \<Rightarrow> u32" where
  "Timestamp now = word_of_int (now div 1000)"

text \<open>Writing a field of the channel behind a pointer.\<close>

definition upd :: "chref \<Rightarrow> (ChannelData \<Rightarrow> ChannelData) \<Rightarrow> TRUDP \<Rightarrow> TRUDP" where
  "upd r f td = td\<lparr>heap := (heap td)(r := f (heap td r))\<rparr>"

section \<open>Events and statistic\<close>

definition sendEventAvailable :: "TRUDP \<Rightarrow> bool" where
  "sendEventAvailable td \<longleftrightarrow> length (chanEvent td) < chEventSize - 16"

definition sendEvent :: "chref option \<Rightarrow> trudpEvent \<Rightarrow> bytes \<Rightarrow> TRUDP \<Rightarrow> TRUDP" where
  "sendEvent r e d td = td\<lparr>chanEvent := chanEvent td @ [\<lparr> Tcd = r, Event = e, EvData = d \<rparr>]\<rparr>"

definition upd_packets :: "(packetsStat \<Rightarrow> packetsStat) \<Rightarrow> chref \<Rightarrow> TRUDP \<Rightarrow> TRUDP" where
  "upd_packets f r td =
     upd r (\<lambda>t. t\<lparr>stat := (stat t)\<lparr>packets := f (packets (stat t))\<rparr>\<rparr>) (td\<lparr>totals := f (totals td)\<rparr>)"

definition received :: "time \<Rightarrow> nat \<Rightarrow> chref \<Rightarrow> TRUDP \<Rightarrow> TRUDP" where
  "received now len = upd_packets (count_received now len)"

definition ackReceived :: "chref \<Rightarrow> TRUDP \<Rightarrow> TRUDP" where
  "ackReceived = upd_packets count_ack"

definition dropped :: "chref \<Rightarrow> TRUDP \<Rightarrow> TRUDP" where
  "dropped = upd_packets count_dropped"

definition stat_send :: "time \<Rightarrow> nat \<Rightarrow> chref \<Rightarrow> TRUDP \<Rightarrow> TRUDP" where
  "stat_send now len = upd_packets (count_send now len)"

text \<open>\<open>repeat\<close> counts in both places, but the speed is the channel's alone.\<close>

definition stat_repeat :: "time \<Rightarrow> bool \<Rightarrow> chref \<Rightarrow> TRUDP \<Rightarrow> TRUDP" where
  "stat_repeat now b r td =
     (let speed = (\<lambda>n. upd r (\<lambda>t. t\<lparr>stat := (stat t)\<lparr>packets := repeat_speed now n (packets (stat t))\<rparr>\<rparr>))
      in if b then speed 1 (upd_packets count_repeat r td) else speed 0 td)"

definition upd_stat :: "(channelStat \<Rightarrow> channelStat) \<Rightarrow> chref \<Rightarrow> TRUDP \<Rightarrow> TRUDP" where
  "upd_stat f r = upd r (\<lambda>t. t\<lparr>stat := f (stat t)\<rparr>)"

section \<open>Sending packets\<close>

text \<open>
  \<open>packetType.writeTo\<close> of \<open>packet.go\<close>: hand the packet to the writer worker, and keep a data
  packet in the send queue.
\<close>

definition pac_writeTo :: "time \<Rightarrow> packetType \<Rightarrow> chref \<Rightarrow> TRUDP \<Rightarrow> TRUDP" where
  "pac_writeTo now p r td =
     (let td1 = td\<lparr>chanWriter := chanWriter td @ [(p, addr (heap td r))]\<rparr>
      in if sendQueueF p
         then stat_send now (length (pdata p)) r
                (upd r (\<lambda>t. t\<lparr>sendQueue := sq_Add now (sendQueueRttTime (stat t)) p (sendQueue t)\<rparr>) td1)
         else td1)"

text \<open>The next id after an id: the increment skips 0 on wrap-around.\<close>

definition nextID :: "u32 \<Rightarrow> u32" where
  "nextID i = (let n = i + 1 in if n = 0 then n + 1 else n)"

definition incID :: "chref \<Rightarrow> TRUDP \<Rightarrow> TRUDP" where
  "incID r = upd r (\<lambda>t. t\<lparr>expectedID := nextID (expectedID t)\<rparr>)"

text \<open>\<open>ID\<close> returns the current id and steps it (the compare-and-swap loop on one goroutine).\<close>

definition tcd_ID :: "chref \<Rightarrow> TRUDP \<Rightarrow> u32 \<times> TRUDP" where
  "tcd_ID r td = (lastID (heap td r), upd r (\<lambda>t. t\<lparr>lastID := nextID (lastID t)\<rparr>) td)"

definition canWrite :: "chref \<Rightarrow> TRUDP \<Rightarrow> bool" where
  "canWrite r td \<longleftrightarrow> int (sq_Len (sendQueue (heap td r))) < maxQueueSize (heap td r)"

definition writeToDirect :: "time \<Rightarrow> writeType \<Rightarrow> TRUDP \<Rightarrow> TRUDP go" where
  "writeToDirect now w td =
     (let r = wtcd w; (i, td1) = tcd_ID r td
      in go_bind (newData (Timestamp now) i (ch (heap td r)) (wdata w)) (\<lambda>p.
           let td2 = pac_writeTo now p r td1
           in Inr (td2\<lparr>answers_log := answers_log td2 @ [(chanAnswer w, True)]\<rparr>)))"

definition writeToQueue :: "chref \<Rightarrow> writeType \<Rightarrow> TRUDP \<Rightarrow> TRUDP" where
  "writeToQueue r w = upd r (\<lambda>t. t\<lparr>writeQueue := writeQueue t @ [w]\<rparr>)"

definition proc_writeTo :: "time \<Rightarrow> writeType \<Rightarrow> TRUDP \<Rightarrow> TRUDP go" where
  "proc_writeTo now w td =
     (if writeQueue (heap td (wtcd w)) = [] \<and> canWrite (wtcd w) td
      then writeToDirect now w td
      else Inr (writeToQueue (wtcd w) w td))"

text \<open>
  The loop of \<open>writeFromQueue\<close>: the first queued write goes out whatever the send queue's
  length, the others while \<open>canWrite\<close>. The list is the queue that is left.
\<close>

fun write_loop :: "time \<Rightarrow> chref \<Rightarrow> bool \<Rightarrow> writeType list \<Rightarrow> TRUDP \<Rightarrow> TRUDP go" where
  "write_loop now r isfirst [] td = Inr td"
| "write_loop now r isfirst (w # ws) td =
     (if isfirst \<or> canWrite r td
      then go_bind (writeToDirect now w (upd r (\<lambda>t. t\<lparr>writeQueue := ws\<rparr>) td))
             (write_loop now r False ws)
      else Inr td)"

definition writeFromQueue :: "time \<Rightarrow> chref \<Rightarrow> TRUDP \<Rightarrow> TRUDP go" where
  "writeFromQueue now r td = write_loop now r True (writeQueue (heap td r)) td"

definition writeQueueReset :: "chref \<Rightarrow> TRUDP \<Rightarrow> TRUDP" where
  "writeQueueReset r td =
     upd r (\<lambda>t. t\<lparr>writeQueue := []\<rparr>)
       (td\<lparr>answers_log := answers_log td @ map (\<lambda>w. (chanAnswer w, False)) (writeQueue (heap td r))\<rparr>)"

text \<open>\<open>Write\<close> on the user's side: refused on a closed channel, else handed to the worker.\<close>

definition Write :: "chref \<Rightarrow> bytes option \<Rightarrow> nat \<Rightarrow> TRUDP \<Rightarrow> string + (nat \<times> TRUDP)" where
  "Write r data ans td =
     (if stoppedF (heap td r)
      then Inl (''can't write to: the channel '' @ key (heap td r) @ '' already closed'')
      else Inr (case data of None \<Rightarrow> 0 | Some d \<Rightarrow> length d,
             td\<lparr>chanWrite := chanWrite td @ [\<lparr> wtcd = r, wdata = data, chanAnswer = ans \<rparr>]\<rparr>))"

section \<open>Creating, resetting and closing channels\<close>

definition makeKey :: "udpAddr \<Rightarrow> int \<Rightarrow> string" where
  "makeKey a c = a @ '':'' @ Itoa c"

definition sendEventConnected :: "bool \<Rightarrow> chref \<Rightarrow> string \<Rightarrow> TRUDP \<Rightarrow> TRUDP" where
  "sendEventConnected sendEvConnected r k td =
     (if sendEvConnected
      then sendEvent (Some r) EvConnected (bytes_of k) (upd r (\<lambda>t. t\<lparr>connected := True\<rparr>) td)
      else td)"

definition newChannel :: "time \<Rightarrow> udpAddr \<Rightarrow> int \<Rightarrow> string \<Rightarrow> int \<Rightarrow> ChannelData" where
  "newChannel now a c k qsize =
     \<lparr> addr = a, ch = c, key = k, lastID = firstPacketID, expectedID = firstPacketID,
       sendQueue = sendQueueInit, receiveQueue = receiveQueueInit, writeQueue = [],
       maxQueueSize = qsize, stoppedF = False, sendTestMsgF = False,
       stat = \<lparr> packets = zeroPacketsStat, timeStarted = now, triptime = 0,
               triptimeMiddle = rat_of_nat maxRTT, lastTimeReceived = now,
               lastTripTimeReceived = 0 \<rparr>,
       connected = False \<rparr>"

text \<open>The pointer is \<open>None\<close> where the code returns \<open>ok\<close> false.\<close>

definition newChannelData ::
  "time \<Rightarrow> udpAddr \<Rightarrow> int \<Rightarrow> bool \<Rightarrow> bool \<Rightarrow> TRUDP \<Rightarrow> chref option \<times> string \<times> TRUDP" where
  "newChannelData now a c canCreate sendEvConnected td =
     (let k = makeKey a c
      in case tcdmap td k of
           Some r \<Rightarrow>
             (Some r, k,
              if \<not> connected (heap td r) then sendEventConnected sendEvConnected r k td else td)
         | None \<Rightarrow>
             if \<not> canCreate then (None, k, td)
             else (let r = nextRef td;
                       td1 = td\<lparr>heap := (heap td)(r := newChannel now a c k (defaultQueueSize td)),
                                nextRef := r + 1, tcdmap := (tcdmap td)(k \<mapsto> r)\<rparr>
                   in (Some r, k, sendEventConnected sendEvConnected r k td1)))"

definition reset :: "chref \<Rightarrow> TRUDP \<Rightarrow> TRUDP" where
  "reset r td =
     sendEvent (Some r) EvResetLocal []
       (upd r (\<lambda>t. t\<lparr>lastID := firstPacketID, expectedID := firstPacketID\<rparr>)
         (writeQueueReset r
           (upd r (\<lambda>t. t\<lparr>sendQueue := sendQueueReset (sendQueue t),
                        receiveQueue := receiveQueueInit\<rparr>) td)))"

definition destroy :: "chref \<Rightarrow> TRUDP \<Rightarrow> string option \<times> TRUDP" where
  "destroy r td =
     (let t = heap td r
      in if stoppedF t
         then (Some (''can't destroy: the channel '' @ key t @ '' already closed''), td)
         else
           (let td1 = writeQueueReset r
                        (upd r (\<lambda>t. t\<lparr>stoppedF := True, sendQueue := sendQueueReset (sendQueue t),
                                     receiveQueue := receiveQueueInit\<rparr>) td);
                td2 = td1\<lparr>tcdmap := (tcdmap td1)(key t := None)\<rparr>
            in (None, if connected t
                      then sendEvent (Some r) EvDisconnected (bytes_of (key t)) td2 else td2)))"

section \<open>Timers\<close>

text \<open>
  \<open>sendQueueResendProcess\<close>: from the front, each packet whose deadline has passed is stamped,
  written again and counted; the first that is not due ends the pass, and one that was
  sent too often destroys the channel. The list is the elements still to visit: the loop
  adds and removes none, except where it ends.
\<close>

fun resend_loop :: "time \<Rightarrow> chref \<Rightarrow> listElement list \<Rightarrow> TRUDP \<Rightarrow> TRUDP" where
  "resend_loop now r [] td = td"
| "resend_loop now r (e # es) td =
     (case map_of (sq_q (sendQueue (heap td r))) e of
        None \<Rightarrow> td
      | Some sqd \<Rightarrow>
          if \<not> arrivalTime sqd < now then stat_repeat now False r td
          else if maxResendAttempt \<le> resendAttempt sqd then snd (destroy r td)
          else
            let p = updateTimestamp (Timestamp now) ((packet sqd)\<lparr>destoryF := False\<rparr>);
                td1 = upd r (\<lambda>t. t\<lparr>sendQueue := sq_modify e (\<lambda>d. d\<lparr>packet := p\<rparr>) (sendQueue t)\<rparr>) td
            in resend_loop now r es (stat_repeat now True r (pac_writeTo now p r td1)))"

definition sendQueueResendProcess :: "time \<Rightarrow> chref \<Rightarrow> TRUDP \<Rightarrow> duration \<times> TRUDP" where
  "sendQueueResendProcess now r td =
     (let td1 = resend_loop now r (map fst (sq_q (sendQueue (heap td r)))) td;
          t = heap td1 r
      in (case sq_q (sendQueue t) of
            (_, d) # _ \<Rightarrow> arrivalTime d - now
          | [] \<Rightarrow> sendQueueRttTime (stat t),
          td1))"

definition calculateLength :: "ChannelData \<Rightarrow> ChannelData" where
  "calculateLength t =
     (let p = packets (stat t);
          queueIsFull = maxQueueSize t \<le> int (sq_Len (sendQueue t))
      in if \<not> 30 < SpeedPacSec (sendRT p) then t
         else if maxQueueSize t < 2048 \<and> SpeedPacSec (repeatRT p) = 0 \<and> queueIsFull
         then t\<lparr>maxQueueSize := maxQueueSize t + 128\<rparr>
         else if 4 < maxQueueSize t
                 \<and> (20 < SpeedPacSec (repeatRT p) \<or> 10 < SpeedPacSec (repeatRT p) \<and> queueIsFull)
         then t\<lparr>maxQueueSize := maxQueueSize t - 4\<rparr>
         else t)"

definition sendQueueCalculateLength :: "chref \<Rightarrow> TRUDP \<Rightarrow> TRUDP" where
  "sendQueueCalculateLength r = upd r calculateLength"

definition keepAlive :: "time \<Rightarrow> chref \<Rightarrow> TRUDP \<Rightarrow> TRUDP go" where
  "keepAlive now r td =
     go_bind
       (if sleepTime \<le> now - lastTripTimeReceived (stat (heap td r))
        then go_bind (newPing (Timestamp now) (ch (heap td r)) (bytes_of echoMsg))
               (\<lambda>p. Inr (pac_writeTo now p r td))
        else Inr td)
       (\<lambda>td1.
         let td2 = (if disconnectTime \<le> now - lastTimeReceived (stat (heap td1 r))
                    then snd (destroy r td1) else td1)
         in if sendTestMsgF (heap td2 r)
            then (let d = helloMsg @ ''-'' @ Itoa (uint (lastID (heap td2 r)));
                      (i, td3) = tcd_ID r td2
                  in go_bind (newData (Timestamp now) i (ch (heap td3 r)) (Some (bytes_of d)))
                       (\<lambda>p. Inr (pac_writeTo now p r td3)))
            else Inr td2)"

end
