(* ===== verification/TrudpProcess.thy ===== *)
theory TrudpProcess
  imports TrudpChannel
begin

text \<open>
  The module worker of TR-UDP: processing of received packets
  (\<open>trudp/trudp/packet_process.go\<close>), the worker loop of \<open>trudp/trudp/process.go\<close> as a
  step function over its inputs, and the classification of datagrams by \<open>Run\<close> in
  \<open>trudp/trudp/trudp.go\<close>.
\<close>

section \<open>Distance of packet ids\<close>

text \<open>
  \<open>modSubU\<close> works in \<open>uint64\<close> and converts to \<open>int64\<close>; \<open>packetDistance\<close> splits the
  result at half the range.
\<close>

definition packetIDlimit :: nat where
  "packetIDlimit = 0x100000000"

definition modSubU :: "u32 \<Rightarrow> u32 \<Rightarrow> u64 \<Rightarrow> int" where
  "modSubU a b m =
     (let sub = (ucast a mod m) + m - (ucast b mod m)
      in sint (sub mod m))"

definition packetDistance :: "u32 \<Rightarrow> u32 \<Rightarrow> int" where
  "packetDistance expected i =
     (let diff = modSubU i expected (of_nat packetIDlimit)
      in if diff < int packetIDlimit div 2 then diff else diff - int packetIDlimit)"

section \<open>Received data\<close>

text \<open>
  \<open>receiveQueueProcess\<close>: deliver what the receive queue has next, as long as the event
  channel has room. It ends because each round fills a place of the event channel.
\<close>

function receiveQueueProcess :: "chref \<Rightarrow> TRUDP \<Rightarrow> string option \<times> TRUDP" where
  "receiveQueueProcess r td =
     (let i = expectedID (heap td r)
      in case rq_Find i (receiveQueue (heap td r)) of
           None \<Rightarrow> (None, td)
         | Some p \<Rightarrow>
             if \<not> sendEventAvailable td then (Some ''can't process all receive queue'', td)
             else receiveQueueProcess r
                    (upd r (\<lambda>t. t\<lparr>receiveQueue := rq_Remove i (receiveQueue t)\<rparr>)
                      (sendEvent (Some r) EvGotData (Data p) (incID r td))))"
  by pat_completeness auto
termination
  by (relation "measure (\<lambda>(r, td). chEventSize - length (chanEvent td))")
    (auto simp: sendEventAvailable_def upd_def sendEvent_def incID_def)

declare receiveQueueProcess.simps [simp del]

text \<open>
  \<open>packetDataProcess\<close>, its cases in the order of the switch. The packet with id 0 resets the
  channel and is processed again, once: after the reset id 0 is the expected one.
\<close>

function packetDataProcess :: "time \<Rightarrow> packetType \<Rightarrow> chref \<Rightarrow> TRUDP \<Rightarrow> TRUDP" where
  "packetDataProcess now p r td =
     (let i = ID p; e = expectedID (heap td r); d = packetDistance e i
      in if d = 0 then
           snd (receiveQueueProcess r (sendEvent (Some r) EvGotData (Data p) (incID r td)))
         else if i = firstPacketID then
           packetDataProcess now p r (reset r td)
         else if e = firstPacketID then
           sendEvent (Some r) EvSendReset [] (pac_writeTo now (newReset (Timestamp now) p) r td)
         else if d < 0 then dropped r td
         else
           (case rq_Find i (receiveQueue (heap td r)) of
              None \<Rightarrow> snd (receiveQueueProcess r
                       (upd r (\<lambda>t. t\<lparr>receiveQueue := rq_Add p (receiveQueue t)\<rparr>) td))
            | Some _ \<Rightarrow> dropped r td))"
  by pat_completeness auto
termination
proof (relation "measure (\<lambda>(now, p, r, td). if packetDistance (expectedID (heap td r)) (ID p) = 0 then 0 else 1)",
    goal_cases)
  case 1
  then show ?case by simp
next
  case (2 now p r td i e d)
  have "expectedID (heap (reset r td) r) = firstPacketID"
    by (simp add: reset_def upd_def sendEvent_def)
  moreover have "packetDistance firstPacketID firstPacketID = 0"
    by (simp add: packetDistance_def modSubU_def firstPacketID_def packetIDlimit_def)
  ultimately show ?case using 2 by simp
qed

declare packetDataProcess.simps [simp del]

section \<open>Received packets\<close>

definition pac_process :: "time \<Rightarrow> udpAddr \<Rightarrow> packetType \<Rightarrow> TRUDP \<Rightarrow> TRUDP go" where
  "pac_process now a p td =
     (case newChannelData now a (int (Channel p)) (Type p = 0) True td of
        (None, _, td1) \<Rightarrow> Inr td1
      | (Some r, k, td1) \<Rightarrow>
          let td2 = upd_stat (setLastTimeReceived now) r td1
          in if Type p = 0 then
               Inr (packetDataProcess now p r
                 (received now (length (pdata p)) r (pac_writeTo now (newAck p) r td2)))
             else if Type p = 1 then
               writeFromQueue now r
                 (upd r (\<lambda>t. t\<lparr>sendQueue := sq_Remove (ID p) (sendQueue t)\<rparr>)
                   (ackReceived r (upd_stat (setTriptime now (Triptime (Timestamp now) p)) r td2)))
             else if Type p = 2 then
               Inr (reset r (pac_writeTo now (newAckToReset p) r td2))
             else if Type p = 3 then Inr (reset r td2)
             else if Type p = 4 then Inr (pac_writeTo now (newAckToPing p) r td2)
             else if Type p = 5 then
               (let td3 = upd_stat (setTriptime now (Triptime (Timestamp now) p)) r td2
                in Inr (if 0 < allowEvents td3 then sendEvent (Some r) EvGotAckPing [] td3 else td3))
             else Inr td2)"

section \<open>The worker loop\<close>

text \<open>
  What the worker, the reader of the UDP port and the user level do to the state. \<open>Timer\<close>
  carries the tick number and the order in which Go's map iteration visits the keys: an
  arbitrary list; a key that was removed meanwhile is not visited. The kernel
  functions of the code are the ones of \<open>ConnectChannel\<close>, \<open>Close\<close> and of the default
  case of \<open>Run\<close>; of the last, one goroutine waits for each datagram, and the worker takes them
  in any order (\<open>KernelNotTrudp n\<close> takes the one at place \<open>n\<close>).
\<close>

datatype trudpStep =
    Datagram udpAddr bytes
  | ReadPacket
  | WritePacket
  | KernelConnect udpAddr int
  | KernelClose chref
  | KernelNotTrudp nat
  | Timer nat "string list"
  | UserWrite chref "bytes option" nat
  | UserReadEvent

text \<open>The cases of the switch in \<open>Run\<close>.\<close>

datatype datagram =
    DgEmpty
  | DgTrudp packetType
  | DgHello
  | DgPing bytes
  | DgPong
  | DgOther bytes

definition maxBufferSize :: nat where
  "maxBufferSize = 2048"

definition classify :: "bytes \<Rightarrow> datagram" where
  "classify buf =
     (let n = length buf
      in if n = 0 then DgEmpty
         else if trudpPacketCheck buf
         then DgTrudp \<lparr> pdata = buf, sendQueueF = False, destoryF = False \<rparr>
         else if n = length helloMsg \<and> string_of (take (length helloMsg) buf) = helloMsg then DgHello
         else if n > length echoMsg \<and> string_of (take (length echoMsg) buf) = echoMsg
         then DgPing (bytes_of echoAnswerMsg @ drop (length echoMsg) buf)
         else if n > length echoAnswerMsg
                 \<and> string_of (take (length echoAnswerMsg) buf) = echoAnswerMsg then DgPong
         else DgOther buf)"

definition timer_channel :: "time \<Rightarrow> nat \<Rightarrow> chref \<Rightarrow> TRUDP \<Rightarrow> TRUDP go" where
  "timer_channel now i r td =
     (let td1 = snd (sendQueueResendProcess now r td)
      in go_bind (if i mod 33 = 0 then keepAlive now r td1 else Inr td1)
           (\<lambda>td2. Inr (if i mod 3 = 0 then sendQueueCalculateLength r td2 else td2)))"

fun timer_loop :: "time \<Rightarrow> nat \<Rightarrow> string list \<Rightarrow> TRUDP \<Rightarrow> TRUDP go" where
  "timer_loop now i [] td = Inr td"
| "timer_loop now i (k # ks) td =
     (case tcdmap td k of
        None \<Rightarrow> timer_loop now i ks td
      | Some r \<Rightarrow> go_bind (timer_channel now i r td) (timer_loop now i ks))"

text \<open>
  A received packet is processed if the event channel has room, else it is dropped; the
  sender repeats it.
\<close>

definition read_packet :: "time \<Rightarrow> TRUDP \<Rightarrow> TRUDP go" where
  "read_packet now td =
     (case chanReader td of
        [] \<Rightarrow> Inr td
      | (a, p) # rest \<Rightarrow>
          let td1 = td\<lparr>chanReader := rest\<rparr>
          in if sendEventAvailable td1 then pac_process now a p td1 else Inr td1)"

definition kernel_not_trudp :: "time \<Rightarrow> udpAddr \<Rightarrow> bytes \<Rightarrow> TRUDP \<Rightarrow> TRUDP" where
  "kernel_not_trudp now a d td =
     (case newChannelData now a 0 False False td of
        (None, _, td1) \<Rightarrow> td1
      | (Some r, _, td1) \<Rightarrow> sendEvent (Some r) EvGotDataNotrudp d td1)"

definition trudp_step :: "time \<Rightarrow> trudpStep \<Rightarrow> TRUDP \<Rightarrow> TRUDP go" where
  "trudp_step now st td =
     (case st of
        Datagram a buf \<Rightarrow>
          (case classify buf of
             DgTrudp p \<Rightarrow> Inr (td\<lparr>chanReader := chanReader td @ [(a, p)]\<rparr>)
           | DgOther d \<Rightarrow> Inr (td\<lparr>chanKernel := chanKernel td @ [(a, d)]\<rparr>)
           | _ \<Rightarrow> Inr td)
      | ReadPacket \<Rightarrow> read_packet now td
      | WritePacket \<Rightarrow>
          (case chanWrite td of
             [] \<Rightarrow> Inr td
           | w # rest \<Rightarrow> proc_writeTo now w (td\<lparr>chanWrite := rest\<rparr>))
      | KernelConnect a c \<Rightarrow> Inr (snd (snd (newChannelData now a c True False td)))
      | KernelClose r \<Rightarrow> Inr (snd (destroy r td))
      | KernelNotTrudp n \<Rightarrow>
          Inr (if n < length (chanKernel td)
               then (case chanKernel td ! n of (a, d) \<Rightarrow>
                       kernel_not_trudp now a d (td\<lparr>chanKernel := cut_out n (chanKernel td)\<rparr>))
               else td)
      | Timer i ks \<Rightarrow> timer_loop now i ks td
      | UserWrite r d n \<Rightarrow>
          (case Write r d n td of Inl _ \<Rightarrow> Inr td | Inr (_, td1) \<Rightarrow> Inr td1)
      | UserReadEvent \<Rightarrow> Inr (td\<lparr>chanEvent := drop 1 (chanEvent td)\<rparr>))"

text \<open>\<open>Init\<close>: no channels; the first event is sent by a goroutine of its own.\<close>

definition trudp_init :: "string \<Rightarrow> TRUDP" where
  "trudp_init localAddr =
     sendEvent None EvInitialize (bytes_of localAddr)
       \<lparr> heap = (\<lambda>_. newChannel 0 [] 0 [] 0), nextRef = 0, tcdmap = Map.empty, chanEvent = [],
         chanReader = [], chanWrite = [], chanKernel = [], chanWriter = [], answers_log = [], allowEvents = 0,
         totals = zeroPacketsStat, defaultQueueSize = DefaultQueueSize \<rparr>"

text \<open>\<open>closeChannels\<close> when the worker ends: every channel is destroyed, in map order.\<close>

fun closeChannels :: "string list \<Rightarrow> TRUDP \<Rightarrow> TRUDP" where
  "closeChannels [] td = td"
| "closeChannels (k # ks) td =
     closeChannels ks (case tcdmap td k of None \<Rightarrow> td | Some r \<Rightarrow> snd (destroy r td))"

section \<open>Facts on ids and distances\<close>

text \<open>The ids a channel uses, in order: 0, 1, 2, ... and 1 again after the largest.\<close>

definition id_seq :: "nat \<Rightarrow> u32" where
  "id_seq k = (nextID ^^ k) firstPacketID"

lemma id_seq_simps [simp]: "id_seq 0 = 0" "id_seq (Suc k) = nextID (id_seq k)"
  by (simp_all add: id_seq_def firstPacketID_def)

lemma plus_1_eq_0: "i + 1 = 0 \<longleftrightarrow> i = (- 1 :: 'a::len word)"
  by (metis add_eq_0_iff add.commute)

lemma unat_nextID: "unat i + 1 < 2 ^ 32 \<Longrightarrow> unat (nextID i) = unat i + 1"
  by (auto simp: nextID_def Let_def unat_word_ariths plus_1_eq_0 unsigned_minus_1_eq_mask mask_eq_exp_minus_1)

lemma id_seq_small: "k < 2 ^ 32 \<Longrightarrow> unat (id_seq k) = k"
proof (induction k)
  case (Suc k)
  then show ?case using unat_nextID [of "id_seq k"] by simp
qed simp

lemma id_seq_of_nat: "k < 2 ^ 32 \<Longrightarrow> id_seq k = of_nat k"
  by (simp add: word_unat_eq_iff id_seq_small unat_of_nat)

lemma sint_small: "uint (w::u64) < 2 ^ 63 \<Longrightarrow> sint w = uint w"
  by (subst sint_uint, rule signed_take_bit_int_eq_self) (auto intro: order_trans [of _ 0])

lemma sub_no_wrap:
  fixes x y :: int
  assumes "0 \<le> x" and "x < 2 ^ 32" and "0 \<le> y" and "y < 2 ^ 32"
  shows "(x + 2 ^ 32 - y) mod 2 ^ 64 = x + 2 ^ 32 - y"
  using assms by (intro mod_pos_pos_trivial) simp_all

lemma sub_mod_cases:
  fixes x y :: int
  assumes "0 \<le> x" and "x < 2 ^ 32" and "0 \<le> y" and "y < 2 ^ 32"
  shows "(x - y) mod 2 ^ 32 = (if y \<le> x then x - y else x - y + 2 ^ 32)"
proof (cases "y \<le> x")
  case True
  then show ?thesis using assms by (simp add: mod_pos_pos_trivial)
next
  case False
  have "(x - y) mod 2 ^ 32 = (x - y + 2 ^ 32) mod 2 ^ 32" by simp
  also have "\<dots> = x - y + 2 ^ 32"
    using assms False by (intro mod_pos_pos_trivial) simp_all
  finally show ?thesis using False by simp
qed

lemma modSubU_eq: "modSubU a b (of_nat packetIDlimit) = (uint a - uint b) mod 2 ^ 32"
proof -
  have a: "0 \<le> uint a" "uint a < 2 ^ 32" and b: "0 \<le> uint b" "uint b < 2 ^ 32"
    using uint_lt2p [of a] uint_lt2p [of b] by simp_all
  have ua: "uint ((ucast x :: u64) mod 0x100000000) = uint x" for x :: u32
    using uint_lt2p [of x] by (simp add: uint_mod unsigned_ucast_eq take_bit_eq_mod)
  have "uint ((ucast a :: u64) mod 0x100000000 + 0x100000000 - ucast b mod 0x100000000)
      = (uint a + 2 ^ 32 - uint b) mod 2 ^ 64"
    by (simp only: uint_word_ariths ua mod_simps) simp
  also have "\<dots> = uint a + 2 ^ 32 - uint b"
    using a b by (rule sub_no_wrap)
  finally have u: "uint (((ucast a :: u64) mod 0x100000000 + 0x100000000 - ucast b mod 0x100000000)
       mod 0x100000000) = (uint a - uint b) mod 2 ^ 32"
    by (simp add: uint_mod) (simp add: mod_add_self2 diff_add_eq [symmetric])
  have "(uint a - uint b) mod 2 ^ 32 < (2 :: int) ^ 32" by simp
  then have "(uint a - uint b) mod 2 ^ 32 < (2 :: int) ^ 63" by simp
  then show ?thesis
    using u by (simp add: modSubU_def Let_def packetIDlimit_def sint_small)
qed

lemma packetDistance_eq:
  "packetDistance e i =
     (let d = (uint i - uint e) mod 2 ^ 32 in if d < 2 ^ 31 then d else d - 2 ^ 32)"
  by (simp only: packetDistance_def modSubU_eq) (simp add: packetIDlimit_def Let_def)

lemma packetDistance_0 [simp]: "packetDistance e i = 0 \<longleftrightarrow> i = e"
proof
  have i: "0 \<le> uint i" "uint i < 2 ^ 32" and e: "0 \<le> uint e" "uint e < 2 ^ 32"
    using uint_lt2p [of i] uint_lt2p [of e] by simp_all
  have m: "(uint i - uint e) mod 2 ^ 32 < (2::int) ^ 32" by simp
  assume "packetDistance e i = 0"
  then have "(uint i - uint e) mod 2 ^ 32 = 0"
    using m unfolding packetDistance_eq Let_def by (auto split: if_splits)
  moreover have "uint i mod 2 ^ 32 = uint i" "uint e mod 2 ^ 32 = uint e" using i e by simp_all
  ultimately have "uint i = uint e" by (metis mod_eq_dvd_iff mod_0_imp_dvd)
  then show "i = e" by (simp add: word_uint_eq_iff)
qed (simp add: packetDistance_eq)

lemma packetDistance_small:
  assumes "unat i < 2 ^ 31" and "unat e \<le> 2 ^ 31"
  shows "packetDistance e i = int (unat i) - int (unat e)"
proof -
  define x y where "x = int (unat i)" and "y = int (unat e)"
  have x: "0 \<le> x" "x < 2 ^ 31" and y: "0 \<le> y" "y \<le> 2 ^ 31"
  proof -
    have "int (unat i) < int (2 ^ 31)" "int (unat e) \<le> int (2 ^ 31)"
      using assms by (simp_all only: of_nat_less_iff of_nat_le_iff)
    then show "x < 2 ^ 31" "y \<le> 2 ^ 31" by (simp_all add: x_def y_def)
  qed (simp_all add: x_def y_def)
  have "(x - y) mod 2 ^ 32 = (if y \<le> x then x - y else x - y + 2 ^ 32)"
    by (rule sub_mod_cases) (use x y in simp_all)
  then have "packetDistance e i = x - y"
    using x y unfolding packetDistance_eq Let_def uint_nat x_def [symmetric] y_def [symmetric]
    by (simp split: if_splits)
  then show ?thesis by (simp add: x_def y_def)
qed
end
