(* ===== verification/TrudpDelivery.thy ===== *)
theory TrudpDelivery
  imports TrudpProcess "HOL-Library.Multiset"
begin

text \<open>
  What the user level receives. The events of a channel since its last local reset carry
  exactly the payloads of the ids that came before the expected one, in order, whatever
  the network, the timers and the user did.
\<close>

section \<open>The receiving side of the state\<close>

text \<open>The fields of a channel that its receiving side uses.\<close>

definition rx :: "ChannelData \<Rightarrow> u32 \<times> receiveQueue \<times> string \<times> bool" where
  "rx t = (expectedID t, receiveQueue t, key t, connected t)"

text \<open>An operation that leaves the receiving side of every channel alone.\<close>

definition rx_frame :: "TRUDP \<Rightarrow> TRUDP \<Rightarrow> bool" where
  "rx_frame td td' \<longleftrightarrow> (\<forall>r. rx (heap td' r) = rx (heap td r)) \<and> tcdmap td' = tcdmap td
     \<and> nextRef td' = nextRef td \<and> chanEvent td' = chanEvent td \<and> chanReader td' = chanReader td"

lemma rx_frame_refl [simp]: "rx_frame td td"
  by (simp add: rx_frame_def)

lemma rx_frame_trans [trans]: "rx_frame a b \<Longrightarrow> rx_frame b c \<Longrightarrow> rx_frame a c"
  by (simp add: rx_frame_def)

lemma rx_frame_upd: "(\<And>t. rx (f t) = rx t) \<Longrightarrow> rx_frame td (upd r f td)"
  by (simp add: rx_frame_def upd_def)

lemma rx_frame_upd_packets [frame_simps]: "rx_frame td (upd_packets f r td)"
  by (auto simp: rx_frame_def upd_packets_def upd_def rx_def)

lemma rx_frame_upd_stat [frame_simps]: "rx_frame td (upd_stat f r td)"
  unfolding upd_stat_def by (rule rx_frame_upd) (simp add: rx_def)

lemma rx_frame_stats [frame_simps]:
  "rx_frame td (received now n r td)" "rx_frame td (ackReceived r td)" "rx_frame td (dropped r td)"
  "rx_frame td (stat_send now n r td)"
  by (simp_all add: received_def ackReceived_def dropped_def stat_send_def rx_frame_upd_packets)

lemma rx_frame_stat_repeat [frame_simps]: "rx_frame td (stat_repeat now b r td)"
proof -
  have "rx_frame td' (upd r (\<lambda>t. t\<lparr>stat := (stat t)\<lparr>packets := repeat_speed now n (packets (stat t))\<rparr>\<rparr>) td')"
    for n td' by (rule rx_frame_upd) (simp add: rx_def)
  then show ?thesis
    unfolding stat_repeat_def Let_def
    by (auto intro: rx_frame_trans [OF rx_frame_upd_packets])
qed

lemma rx_frame_writeTo [frame_simps]: "rx_frame td (pac_writeTo now p r td)"
proof -
  have 1: "rx_frame td (td\<lparr>chanWriter := x\<rparr>)" for x by (simp add: rx_frame_def)
  have 2: "rx_frame td' (upd r (\<lambda>t. t\<lparr>sendQueue := sq_Add now (sendQueueRttTime (stat t)) p (sendQueue t)\<rparr>) td')"
    for td' by (rule rx_frame_upd) (simp add: rx_def)
  show ?thesis
    unfolding pac_writeTo_def Let_def
    using rx_frame_trans [OF rx_frame_trans [OF 1 2] rx_frame_stats(4)] 1 by auto
qed

lemma rx_frame_ID [frame_simps]: "rx_frame td (snd (tcd_ID r td))"
  unfolding tcd_ID_def snd_conv by (rule rx_frame_upd) (simp add: rx_def)

text \<open>The same for operations that may panic.\<close>

definition go_all :: "('a \<Rightarrow> bool) \<Rightarrow> 'a go \<Rightarrow> bool" where
  "go_all P m \<longleftrightarrow> (\<forall>x. m = Inr x \<longrightarrow> P x)"

lemma go_all_simps [simp]: "go_all P (Inl e)" "go_all P (Inr x) = P x"
  by (simp_all add: go_all_def)

lemma go_all_bind: "go_all P m \<Longrightarrow> (\<And>x. P x \<Longrightarrow> go_all Q (f x)) \<Longrightarrow> go_all Q (go_bind m f)"
  by (cases m) auto

lemma go_all_True [simp]: "go_all (\<lambda>_. True) m"
  by (cases m) auto

lemma go_all_mono: "go_all P m \<Longrightarrow> (\<And>x. P x \<Longrightarrow> Q x) \<Longrightarrow> go_all Q m"
  by (cases m) auto

lemma rx_frame_writeToDirect: "go_all (rx_frame td) (writeToDirect now w td)"
proof -
  have "rx_frame td ((pac_writeTo now p (wtcd w) (snd (tcd_ID (wtcd w) td)))\<lparr>answers_log := l\<rparr>)" for p l
    using rx_frame_trans [OF rx_frame_ID rx_frame_writeTo] by (fastforce simp: rx_frame_def)
  then show ?thesis
    by (auto simp: writeToDirect_def Let_def split_def intro!: go_all_bind [of "\<lambda>_. True"])
qed

lemma rx_frame_proc_writeTo: "go_all (rx_frame td) (proc_writeTo now w td)"
  by (auto simp: proc_writeTo_def rx_frame_writeToDirect writeToQueue_def rx_def intro: rx_frame_upd)

lemma rx_frame_write_loop: "go_all (rx_frame td) (write_loop now r b ws td)"
proof (induction ws arbitrary: b td)
  case (Cons w ws)
  have 1: "rx_frame td (upd r (\<lambda>t. t\<lparr>writeQueue := ws\<rparr>) td)" by (rule rx_frame_upd) (simp add: rx_def)
  have "go_all (rx_frame td) (go_bind (writeToDirect now w (upd r (\<lambda>t. t\<lparr>writeQueue := ws\<rparr>) td))
             (write_loop now r False ws))"
    by (rule go_all_bind [OF rx_frame_writeToDirect])
      (use 1 Cons.IH in \<open>blast intro: go_all_mono rx_frame_trans\<close>)
  then show ?case by simp
qed simp

lemma rx_frame_writeFromQueue: "go_all (rx_frame td) (writeFromQueue now r td)"
  by (simp add: writeFromQueue_def rx_frame_write_loop)

lemma rx_frame_calculateLength [frame_simps]: "rx_frame td (sendQueueCalculateLength r td)"
  unfolding sendQueueCalculateLength_def
  by (rule rx_frame_upd) (simp add: calculateLength_def rx_def Let_def)

lemma rx_frame_writeQueueReset [frame_simps]: "rx_frame td (writeQueueReset r td)"
  by (auto simp: writeQueueReset_def rx_frame_def upd_def rx_def)

section \<open>The invariant\<close>

text \<open>
  What the user level has of a channel: the data events since its last local reset. The
  events read so far are \<open>seen\<close>, the ones still in the event channel follow.
\<close>

definition view_step :: "chref \<Rightarrow> bytes list \<Rightarrow> EventData \<Rightarrow> bytes list" where
  "view_step r acc e =
     (if Tcd e = Some r \<and> Event e = EvResetLocal then []
      else if Tcd e = Some r \<and> Event e = EvGotData then acc @ [EvData e] else acc)"

definition user_view :: "chref \<Rightarrow> EventData list \<Rightarrow> bytes list" where
  "user_view r evs = foldl (view_step r) [] evs"

lemma user_view_simps [simp]:
  "user_view r [] = []"
  "user_view r (evs @ [e]) = view_step r (user_view r evs) e"
  by (simp_all add: user_view_def)

definition rx_chan :: "(u32 \<Rightarrow> bytes) \<Rightarrow> u32 \<Rightarrow> receiveQueue \<Rightarrow> bytes list \<Rightarrow> bool" where
  "rx_chan f e q v \<longleftrightarrow>
     (\<exists>k. e = id_seq k \<and> v = map (f \<circ> id_seq) [0..<k]) \<and> (\<forall>i p. q i = Some p \<longrightarrow> Data p = f i)"

definition rx_ok :: "(string \<Rightarrow> u32 \<Rightarrow> bytes) \<Rightarrow> EventData list \<Rightarrow> TRUDP \<Rightarrow> bool" where
  "rx_ok pl seen td \<longleftrightarrow>
     (\<forall>k r. tcdmap td k = Some r \<longrightarrow> r < nextRef td \<and> key (heap td r) = k)
     \<and> (\<forall>e \<in> set (seen @ chanEvent td). \<forall>r. Tcd e = Some r \<longrightarrow> r < nextRef td)
     \<and> (\<forall>r. nextRef td \<le> r \<longrightarrow> \<not> connected (heap td r))
     \<and> (\<forall>r. rx_chan (pl (key (heap td r))) (expectedID (heap td r)) (receiveQueue (heap td r))
              (user_view r (seen @ chanEvent td)))
     \<and> (\<forall>(a, p) \<in> set (chanReader td). Type p = 0 \<longrightarrow> Data p = pl (makeKey a (int (Channel p))) (ID p))"

lemma rx_chan_init: "rx_chan f 0 Map.empty []"
  unfolding rx_chan_def by (auto intro!: exI [of _ 0])

lemma rx_chan_deliver:
  assumes "rx_chan f e q v" and "d = f e"
  shows "rx_chan f (nextID e) q (v @ [d])"
proof -
  obtain k where "e = id_seq k" "v = map (f \<circ> id_seq) [0..<k]"
    using assms(1) by (auto simp: rx_chan_def)
  then have "nextID e = id_seq (Suc k) \<and> v @ [d] = map (f \<circ> id_seq) [0..<Suc k]"
    using assms(2) by simp
  then show ?thesis using assms(1) unfolding rx_chan_def by blast
qed

lemma rx_chan_remove: "rx_chan f e q v \<Longrightarrow> rx_chan f e (rq_Remove i q) v"
  by (auto simp: rx_chan_def rq_Remove_def)

lemma rx_chan_add: "rx_chan f e q v \<Longrightarrow> Data p = f (ID p) \<Longrightarrow> rx_chan f e (rq_Add p q) v"
  by (auto simp: rx_chan_def rq_Add_def)

lemma rx_ok_frame: "rx_ok pl seen td \<Longrightarrow> rx_frame td td' \<Longrightarrow> rx_ok pl seen td'"
  by (simp add: rx_ok_def rx_frame_def rx_def)

lemma rx_okD:
  assumes "rx_ok pl seen td"
  shows "tcdmap td k = Some r \<Longrightarrow> r < nextRef td"
    and "tcdmap td k = Some r \<Longrightarrow> key (heap td r) = k"
    and "rx_chan (pl (key (heap td r))) (expectedID (heap td r)) (receiveQueue (heap td r))
              (user_view r (seen @ chanEvent td))"
    and "nextRef td \<le> r \<Longrightarrow> \<not> connected (heap td r)"
  using assms by (auto simp: rx_ok_def)

text \<open>
  A step that rewrites one channel's receiving side and sends at most one event of it.
\<close>

lemma rx_ok_upd:
  assumes ok: "rx_ok pl seen td"
    and "rx_chan (pl (key (heap td r))) (expectedID (f (heap td r))) (receiveQueue (f (heap td r)))
           (user_view r (seen @ chanEvent td))"
    and "key (f (heap td r)) = key (heap td r)"
    and "nextRef td \<le> r \<longrightarrow> \<not> connected (f (heap td r))"
  shows "rx_ok pl seen (upd r f td)"
  using assms by (auto simp: rx_ok_def upd_def)

lemma rx_ok_upd_event:
  assumes ok: "rx_ok pl seen td" and r: "r < nextRef td"
    and chan: "rx_chan (pl (key (heap td r))) (expectedID (f (heap td r))) (receiveQueue (f (heap td r)))
           (view_step r (user_view r (seen @ chanEvent td)) \<lparr> Tcd = Some r, Event = ev, EvData = d \<rparr>)"
    and key: "key (f (heap td r)) = key (heap td r)"
  shows "rx_ok pl seen (sendEvent (Some r) ev d (upd r f td))"
proof -
  have other: "view_step r' v \<lparr> Tcd = Some r, Event = ev, EvData = d \<rparr> = v" if "r' \<noteq> r" for r' v
    using that by (simp add: view_step_def)
  show ?thesis
    using assms
    by (auto simp: rx_ok_def upd_def sendEvent_def append_assoc [symmetric] other
        simp del: append_assoc)
qed

lemma upd_id: "upd r (\<lambda>t. t) td = td"
  by (simp add: upd_def)

lemma rx_ok_event:
  assumes "rx_ok pl seen td" and "r < nextRef td" and "ev \<noteq> EvResetLocal" and "ev \<noteq> EvGotData"
  shows "rx_ok pl seen (sendEvent (Some r) ev d td)"
  using rx_ok_upd_event [OF assms(1,2), of "\<lambda>t. t" ev d] rx_okD(3) [OF assms(1)] assms(3,4)
  by (simp add: view_step_def upd_id)

lemma upd_fields [simp]:
  "nextRef (upd r f td) = nextRef td" "tcdmap (upd r f td) = tcdmap td"
  "chanEvent (upd r f td) = chanEvent td" "chanReader (upd r f td) = chanReader td"
  "chanWriter (upd r f td) = chanWriter td" "answers_log (upd r f td) = answers_log td"
  "chanWrite (upd r f td) = chanWrite td" "chanKernel (upd r f td) = chanKernel td"
  "heap (upd r f td) r' = (if r' = r then f (heap td r) else heap td r')"
  by (simp_all add: upd_def)

lemma sendEvent_fields [simp]:
  "nextRef (sendEvent x ev d td) = nextRef td" "tcdmap (sendEvent x ev d td) = tcdmap td"
  "chanReader (sendEvent x ev d td) = chanReader td" "heap (sendEvent x ev d td) = heap td"
  "chanEvent (sendEvent x ev d td) = chanEvent td @ [\<lparr> Tcd = x, Event = ev, EvData = d \<rparr>]"
  by (simp_all add: sendEvent_def)

lemma rx_ok_deliver:
  assumes ok: "rx_ok pl seen td" and r: "r < nextRef td"
    and d: "d = pl (key (heap td r)) (expectedID (heap td r))"
  shows "rx_ok pl seen (sendEvent (Some r) EvGotData d (incID r td))"
  unfolding incID_def using ok r
proof (rule rx_ok_upd_event)
  show "rx_chan (pl (key (heap td r))) (expectedID ((heap td r)\<lparr>expectedID := nextID (expectedID (heap td r))\<rparr>))
     (receiveQueue ((heap td r)\<lparr>expectedID := nextID (expectedID (heap td r))\<rparr>))
     (view_step r (user_view r (seen @ chanEvent td)) \<lparr>Tcd = Some r, Event = EvGotData, EvData = d\<rparr>)"
    using rx_chan_deliver [OF rx_okD(3) [OF ok] d] by (simp add: view_step_def)
qed simp

lemma rx_ok_receiveQueueProcess:
  "rx_ok pl seen td \<Longrightarrow> r < nextRef td \<Longrightarrow> rx_ok pl seen (snd (receiveQueueProcess r td))"
proof (induction r td rule: receiveQueueProcess.induct)
  case (1 r td)
  show ?case
  proof (cases "rq_Find (expectedID (heap td r)) (receiveQueue (heap td r))")
    case None
    then show ?thesis using 1 by (subst receiveQueueProcess.simps) simp
  next
    case (Some p)
    show ?thesis
    proof (cases "sendEventAvailable td")
      case False
      then show ?thesis using 1 Some by (subst receiveQueueProcess.simps) simp
    next
      case True
      let ?td1 = "sendEvent (Some r) EvGotData (Data p) (incID r td)"
      let ?td2 = "upd r (\<lambda>t. t\<lparr>receiveQueue := rq_Remove (expectedID (heap td r)) (receiveQueue t)\<rparr>) ?td1"
      have "Data p = pl (key (heap td r)) (expectedID (heap td r))"
        using Some rx_okD(3) [OF "1.prems"(1), of r] by (simp add: rx_chan_def rq_Find_def)
      then have td1: "rx_ok pl seen ?td1" by (rule rx_ok_deliver [OF 1(2,3)])
      have "rx_ok pl seen ?td2"
        by (rule rx_ok_upd [OF td1])
          (use rx_okD(3) [OF td1, of r] rx_chan_remove "1.prems" in \<open>simp_all add: incID_def\<close>)
      then have "rx_ok pl seen (snd (receiveQueueProcess r ?td2))"
        using 1 Some True by (simp add: incID_def)
      then show ?thesis using Some True by (subst receiveQueueProcess.simps) (simp add: Let_def)
    qed
  qed
qed

lemma frame_nextRef:
  "rx_frame td td' \<Longrightarrow> nextRef td' = nextRef td"
  "rx_frame td td' \<Longrightarrow> key (heap td' r) = key (heap td r)"
  "rx_frame td td' \<Longrightarrow> tcdmap td' = tcdmap td"
  "rx_frame td td' \<Longrightarrow> chanEvent td' = chanEvent td"
  by (auto simp: rx_frame_def rx_def)

lemma rx_ok_reset:
  assumes "rx_ok pl seen td" and r: "r < nextRef td"
  shows "rx_ok pl seen (reset r td) \<and> nextRef (reset r td) = nextRef td
    \<and> key (heap (reset r td) r) = key (heap td r)"
proof -
  let ?f = "\<lambda>t. t\<lparr>sendQueue := sendQueueReset (sendQueue t), receiveQueue := receiveQueueInit\<rparr>"
  let ?td1 = "upd r ?f td"
  have td1: "rx_ok pl seen ?td1"
    by (rule rx_ok_upd [OF assms(1)])
      (use rx_okD(3,4) [OF assms(1), of r] in \<open>simp_all add: rx_chan_def receiveQueueInit_def\<close>)
  let ?td2 = "writeQueueReset r ?td1"
  have fr: "rx_frame ?td1 ?td2" by (rule rx_frame_writeQueueReset)
  have td2: "rx_ok pl seen ?td2" by (rule rx_ok_frame [OF td1 fr])
  have n: "nextRef ?td2 = nextRef td" "key (heap ?td2 r) = key (heap td r)"
    using frame_nextRef [OF fr] by simp_all
  have "receiveQueue (heap ?td2 r) = Map.empty"
    using fr by (auto simp: rx_frame_def rx_def receiveQueueInit_def)
  then have "rx_ok pl seen (reset r td)"
    unfolding reset_def using r
    by (intro rx_ok_upd_event [OF td2])
      (simp_all add: n view_step_def rx_chan_init firstPacketID_def)
  then show ?thesis using n by (simp add: reset_def)
qed

lemma rx_ok_destroy: "rx_ok pl seen td \<Longrightarrow> rx_ok pl seen (snd (destroy r td))"
proof (cases "stoppedF (heap td r)")
  case True
  then show "rx_ok pl seen td \<Longrightarrow> ?thesis" by (simp add: destroy_def)
next
  case False
  assume ok: "rx_ok pl seen td"
  let ?f = "\<lambda>t. t\<lparr>stoppedF := True, sendQueue := sendQueueReset (sendQueue t), receiveQueue := receiveQueueInit\<rparr>"
  have td1: "rx_ok pl seen (upd r ?f td)"
    by (rule rx_ok_upd [OF ok])
      (use rx_okD(3,4) [OF ok, of r] in \<open>simp_all add: rx_chan_def receiveQueueInit_def\<close>)
  let ?td2 = "writeQueueReset r (upd r ?f td)"
  have fr: "rx_frame (upd r ?f td) ?td2" by (rule rx_frame_writeQueueReset)
  have td2: "rx_ok pl seen ?td2" by (rule rx_ok_frame [OF td1 fr])
  let ?td3 = "?td2\<lparr>tcdmap := (tcdmap ?td2)(key (heap td r) := None)\<rparr>"
  have td3: "rx_ok pl seen ?td3" using td2 by (auto simp: rx_ok_def)
  show ?thesis
  proof (cases "connected (heap td r)")
    case True
    then have "r < nextRef ?td3"
      using rx_okD(4) [OF ok, of r] frame_nextRef(1) [OF fr] by (simp add: not_le [symmetric]) blast
    then have "rx_ok pl seen (sendEvent (Some r) EvDisconnected d ?td3)" for d
      by (rule rx_ok_event [OF td3]) simp_all
    then show ?thesis using False True by (simp add: destroy_def Let_def)
  next
    case False
    then show ?thesis using td3 \<open>\<not> stoppedF _\<close> by (simp add: destroy_def Let_def)
  qed
qed

lemma rx_ok_packetDataProcess:
  "rx_ok pl seen td \<Longrightarrow> r < nextRef td \<Longrightarrow> Data p = pl (key (heap td r)) (ID p) \<Longrightarrow>
     rx_ok pl seen (packetDataProcess now p r td)"
proof (induction now p r td rule: packetDataProcess.induct)
  case (1 now p r td)
  note ok = 1(2) and r = 1(3) and d = 1(4)
  let ?e = "expectedID (heap td r)"
  consider (valid) "ID p = ?e" | (zero) "ID p \<noteq> ?e" "ID p = firstPacketID"
    | (first) "ID p \<noteq> ?e" "ID p \<noteq> firstPacketID" "?e = firstPacketID"
    | (drop) "ID p \<noteq> ?e" "ID p \<noteq> firstPacketID" "?e \<noteq> firstPacketID"
        "packetDistance ?e (ID p) < 0 \<or> rq_Find (ID p) (receiveQueue (heap td r)) \<noteq> None"
    | (queue) "ID p \<noteq> ?e" "ID p \<noteq> firstPacketID" "?e \<noteq> firstPacketID"
        "\<not> packetDistance ?e (ID p) < 0" "rq_Find (ID p) (receiveQueue (heap td r)) = None"
    by blast
  then show ?case
  proof cases
    case valid
    then have "rx_ok pl seen (sendEvent (Some r) EvGotData (Data p) (incID r td))"
      using rx_ok_deliver [OF ok r, of "Data p"] d by simp
    then show ?thesis
      using valid r rx_ok_receiveQueueProcess by (subst packetDataProcess.simps) (simp add: Let_def incID_def)
  next
    case zero
    then show ?thesis
      using 1(1) [OF refl refl refl] rx_ok_reset [OF ok r] d r
      by (subst packetDataProcess.simps) (simp add: Let_def)
  next
    case first
    let ?td1 = "pac_writeTo now (newReset (Timestamp now) p) r td"
    have "rx_ok pl seen (sendEvent (Some r) EvSendReset [] ?td1)"
      by (rule rx_ok_event [OF rx_ok_frame [OF ok rx_frame_writeTo]])
        (use r frame_nextRef(1) [OF rx_frame_writeTo] in simp_all)
    then show ?thesis using first by (subst packetDataProcess.simps) (simp add: Let_def)
  next
    case drop
    have "rx_ok pl seen (dropped r td)" by (rule rx_ok_frame [OF ok rx_frame_stats(3)])
    then show ?thesis using drop
      by (subst packetDataProcess.simps) (auto simp: Let_def split: option.split)
  next
    case queue
    have "rx_ok pl seen (upd r (\<lambda>t. t\<lparr>receiveQueue := rq_Add p (receiveQueue t)\<rparr>) td)"
      by (rule rx_ok_upd [OF ok]) (use rx_okD(3,4) [OF ok, of r] rx_chan_add d in simp_all)
    then show ?thesis using queue r rx_ok_receiveQueueProcess
      by (subst packetDataProcess.simps) (simp add: Let_def)
  qed
qed

lemma makeKey_not_Nil: "makeKey a c \<noteq> []"
  by (simp add: makeKey_def)

lemma rx_ok_sendEventConnected:
  assumes "rx_ok pl seen td" and "r < nextRef td"
  shows "rx_ok pl seen (sendEventConnected b r k td)"
proof -
  have "rx_ok pl seen (upd r (\<lambda>t. t\<lparr>connected := True\<rparr>) td)"
    by (rule rx_ok_upd [OF assms(1)]) (use assms(2) rx_okD(3) [OF assms(1)] in simp_all)
  from rx_ok_event [OF this] show ?thesis using assms by (simp add: sendEventConnected_def)
qed

lemma sendEventConnected_fields [simp]:
  "nextRef (sendEventConnected b r k td) = nextRef td"
  "tcdmap (sendEventConnected b r k td) = tcdmap td"
  "chanReader (sendEventConnected b r k td) = chanReader td"
  "key (heap (sendEventConnected b r k td) r') = key (heap td r')"
  by (simp_all add: sendEventConnected_def)

lemma user_view_none: "(\<forall>e \<in> set evs. Tcd e \<noteq> Some r) \<Longrightarrow> user_view r evs = []"
  by (induction evs rule: rev_induct) (auto simp: view_step_def)

lemma rx_ok_newChannelData:
  assumes ok: "rx_ok pl seen td"
    and new: "newChannelData now a c cc sc td = (ro, k, td')"
  shows "rx_ok pl seen td' \<and> (\<forall>r. ro = Some r \<longrightarrow> r < nextRef td' \<and> key (heap td' r) = makeKey a c)"
proof (cases "tcdmap td (makeKey a c)")
  case (Some r)
  then have "r < nextRef td" "key (heap td r) = makeKey a c" using rx_okD(1,2) [OF ok] by auto
  then show ?thesis
    using new Some ok rx_ok_sendEventConnected [OF ok, of r sc]
    by (auto simp: newChannelData_def Let_def)
next
  case None
  show ?thesis
  proof (cases cc)
    case False
    then show ?thesis using new None ok by (auto simp: newChannelData_def Let_def)
  next
    case True
    let ?r = "nextRef td"
    let ?td1 = "td\<lparr>heap := (heap td)(?r := newChannel now a c (makeKey a c) (defaultQueueSize td)),
                   nextRef := ?r + 1, tcdmap := (tcdmap td)(makeKey a c \<mapsto> ?r)\<rparr>"
    have view: "user_view ?r (seen @ chanEvent td) = []"
      using ok by (intro user_view_none) (force simp: rx_ok_def)
    have "rx_ok pl seen ?td1"
      using ok view rx_chan_init
      by (auto simp: rx_ok_def newChannel_def firstPacketID_def receiveQueueInit_def less_Suc_eq)
    then have "rx_ok pl seen (sendEventConnected sc ?r (makeKey a c) ?td1)"
      by (rule rx_ok_sendEventConnected) simp
    then show ?thesis
      using new None True by (auto simp: newChannelData_def Let_def newChannel_def)
  qed
qed

lemma rx_ok_go_frame: "rx_ok pl seen td \<Longrightarrow> go_all (rx_frame td) m \<Longrightarrow> go_all (rx_ok pl seen) m"
  by (auto intro: go_all_mono rx_ok_frame)

lemma rx_ok_pac_process:
  assumes ok: "rx_ok pl seen td"
    and d: "Type p = 0 \<longrightarrow> Data p = pl (makeKey a (int (Channel p))) (ID p)"
  shows "go_all (rx_ok pl seen) (pac_process now a p td)"
proof -
  obtain ro k td1 where new: "newChannelData now a (int (Channel p)) (Type p = 0) True td = (ro, k, td1)"
    by (metis prod_cases3)
  note td1 = rx_ok_newChannelData [OF ok new]
  show ?thesis
  proof (cases ro)
    case None
    then show ?thesis using td1 new by (simp add: pac_process_def)
  next
    case (Some r)
    then have r: "r < nextRef td1" "key (heap td1 r) = makeKey a (int (Channel p))" using td1 by auto
    let ?td2 = "upd_stat (setLastTimeReceived now) r td1"
    have fr2: "rx_frame td1 ?td2" by (rule rx_frame_upd_stat)
    have ok2: "rx_ok pl seen ?td2" using rx_ok_frame [OF _ fr2] td1 by blast
    have r2: "r < nextRef ?td2" "key (heap ?td2 r) = makeKey a (int (Channel p))"
      using r frame_nextRef [OF fr2] by simp_all
    have data: "rx_ok pl seen (packetDataProcess now p r (received now n r (pac_writeTo now q r ?td2)))"
      if "Type p = 0" for n q
    proof -
      have fr: "rx_frame ?td2 (received now n r (pac_writeTo now q r ?td2))"
        by (rule rx_frame_trans [OF rx_frame_writeTo rx_frame_stats(1)])
      show ?thesis
        by (rule rx_ok_packetDataProcess [OF rx_ok_frame [OF ok2 fr]])
          (use r2 d that frame_nextRef [OF fr] in simp_all)
    qed
    have ack: "go_all (rx_ok pl seen) (writeFromQueue now r
        (upd r (\<lambda>t. t\<lparr>sendQueue := sq_Remove (ID p) (sendQueue t)\<rparr>)
          (ackReceived r (upd_stat f r ?td2))))" for f
    proof (rule rx_ok_go_frame [OF _ rx_frame_writeFromQueue], rule rx_ok_frame)
      show "rx_ok pl seen (ackReceived r (upd_stat f r ?td2))"
        by (rule rx_ok_frame [OF ok2 rx_frame_trans [OF rx_frame_upd_stat rx_frame_stats(2)]])
      show "rx_frame (ackReceived r (upd_stat f r ?td2))
          (upd r (\<lambda>t. t\<lparr>sendQueue := sq_Remove (ID p) (sendQueue t)\<rparr>) (ackReceived r (upd_stat f r ?td2)))"
        by (rule rx_frame_upd) (simp add: rx_def)
    qed
    have rst: "rx_ok pl seen (reset r (pac_writeTo now q r ?td2))" for q
      using rx_ok_reset [OF rx_ok_frame [OF ok2 rx_frame_writeTo]] r2 frame_nextRef [OF rx_frame_writeTo]
      by simp
    have ping: "rx_ok pl seen (upd_stat f r ?td2)"
      "rx_ok pl seen (sendEvent (Some r) EvGotAckPing [] (upd_stat f r ?td2))" for f
    proof -
      have 1: "rx_frame ?td2 (upd_stat f r ?td2)" by (rule rx_frame_upd_stat)
      then show "rx_ok pl seen (upd_stat f r ?td2)" by (rule rx_ok_frame [OF ok2])
      from rx_ok_event [OF this] show "rx_ok pl seen (sendEvent (Some r) EvGotAckPing [] (upd_stat f r ?td2))"
        using r2 frame_nextRef [OF 1] by simp
    qed
    show ?thesis
      using ok2 data ack rst ping rx_ok_reset [OF ok2 r2(1)] rx_ok_frame [OF ok2 rx_frame_writeTo]
      by (simp add: pac_process_def new Some Let_def)
  qed
qed

lemma rx_ok_resend_loop: "rx_ok pl seen td \<Longrightarrow> rx_ok pl seen (resend_loop now r es td)"
proof (induction es arbitrary: td)
  case (Cons e es)
  have 1: "rx_ok pl seen (stat_repeat now b r td)" for b
    by (rule rx_ok_frame [OF Cons.prems rx_frame_stat_repeat])
  have 2: "rx_ok pl seen (stat_repeat now True r (pac_writeTo now q r
      (upd r (\<lambda>t. t\<lparr>sendQueue := sq_modify e f (sendQueue t)\<rparr>) td)))" for q f
  proof -
    have "rx_frame td (upd r (\<lambda>t. t\<lparr>sendQueue := sq_modify e f (sendQueue t)\<rparr>) td)"
      by (rule rx_frame_upd) (simp add: rx_def)
    from rx_frame_trans [OF rx_frame_trans [OF this rx_frame_writeTo] rx_frame_stat_repeat]
    show ?thesis by (rule rx_ok_frame [OF Cons.prems])
  qed
  show ?case
    using Cons 1 2 rx_ok_destroy [OF Cons.prems]
    by (simp add: Let_def split: option.split)
qed simp

lemma rx_ok_keepAlive:
  assumes "rx_ok pl seen td"
  shows "go_all (rx_ok pl seen) (keepAlive now r td)"
proof -
  have w: "rx_ok pl seen (pac_writeTo now p r td')" if "rx_ok pl seen td'" for p td'
    by (rule rx_ok_frame [OF that rx_frame_writeTo])
  have i: "rx_ok pl seen (snd (tcd_ID r td'))" if "rx_ok pl seen td'" for td'
    by (rule rx_ok_frame [OF that rx_frame_ID])
  show ?thesis
    unfolding keepAlive_def
    by (rule go_all_bind [of "rx_ok pl seen"])
      (auto simp: Let_def split_def intro!: assms w i rx_ok_destroy go_all_bind [of "\<lambda>_. True"])
qed

lemma rx_ok_timer_loop: "rx_ok pl seen td \<Longrightarrow> go_all (rx_ok pl seen) (timer_loop now i ks td)"
proof (induction ks arbitrary: td)
  case (Cons k ks)
  have "go_all (rx_ok pl seen) (timer_channel now i r td)" for r
    unfolding timer_channel_def Let_def sendQueueResendProcess_def snd_conv
    by (rule go_all_bind [of "rx_ok pl seen"])
      (auto intro: rx_ok_keepAlive rx_ok_resend_loop Cons.prems rx_ok_frame rx_frame_calculateLength)
  then show ?case
    using Cons by (auto split: option.split intro: go_all_bind)
qed simp

section \<open>Runs\<close>

text \<open>
  A run: steps of the worker, the network and the user, each at its time. The events the
  user has read are kept beside the state.
\<close>

fun trudp_run :: "(time \<times> trudpStep) list \<Rightarrow> EventData list \<times> TRUDP \<Rightarrow> (EventData list \<times> TRUDP) go" where
  "trudp_run [] s = Inr s"
| "trudp_run ((now, st) # sts) (seen, td) =
     go_bind (trudp_step now st td) (\<lambda>td'.
       trudp_run sts (if st = UserReadEvent then seen @ take 1 (chanEvent td) else seen, td'))"

text \<open>
  The datagrams of a run carry, for each channel key, one stream of payloads: data packets
  with the same id have the same data. They may be lost, repeated and reordered.
\<close>

definition step_stream :: "(string \<Rightarrow> u32 \<Rightarrow> bytes) \<Rightarrow> trudpStep \<Rightarrow> bool" where
  "step_stream pl st \<longleftrightarrow>
     (case st of
        Datagram a buf \<Rightarrow>
          (case classify buf of
             DgTrudp p \<Rightarrow> Type p = 0 \<longrightarrow> Data p = pl (makeKey a (int (Channel p))) (ID p)
           | _ \<Rightarrow> True)
      | _ \<Rightarrow> True)"

lemma rx_ok_same:
  assumes "rx_ok pl seen td"
    and "heap td' = heap td" and "tcdmap td' = tcdmap td" and "nextRef td' = nextRef td"
    and "chanEvent td' = chanEvent td" and "set (chanReader td') \<subseteq> set (chanReader td)"
  shows "rx_ok pl seen td'"
  using assms by (fastforce simp: rx_ok_def)

lemma rx_ok_trudp_step:
  assumes ok: "rx_ok pl seen td" and st: "step_stream pl st"
  shows "go_all (rx_ok pl (if st = UserReadEvent then seen @ take 1 (chanEvent td) else seen))
           (trudp_step now st td)"
proof (cases st)
  case (Datagram a buf)
  then show ?thesis
    using ok st by (auto simp: trudp_step_def step_stream_def rx_ok_def split: datagram.split)
next
  case ReadPacket
  show ?thesis
  proof (cases "chanReader td")
    case Nil
    then show ?thesis using ok ReadPacket by (simp add: trudp_step_def read_packet_def)
  next
    case (Cons ap rest)
    obtain a p where ap: "ap = (a, p)" by (cases ap)
    have "rx_ok pl seen (td\<lparr>chanReader := rest\<rparr>)"
      by (rule rx_ok_same [OF ok]) (use Cons in auto)
    moreover have "Type p = 0 \<longrightarrow> Data p = pl (makeKey a (int (Channel p))) (ID p)"
      using ok Cons ap by (simp add: rx_ok_def)
    ultimately show ?thesis
      using ReadPacket Cons ap rx_ok_pac_process by (simp add: trudp_step_def read_packet_def Let_def)
  qed
next
  case WritePacket
  have "rx_ok pl seen (td\<lparr>chanWrite := ws\<rparr>)" for ws by (rule rx_ok_same [OF ok]) simp_all
  then show ?thesis
    using ok WritePacket by (auto simp: trudp_step_def split: list.split
        intro: rx_ok_go_frame [OF _ rx_frame_proc_writeTo])
next
  case (KernelConnect a c)
  obtain ro k td1 where "newChannelData now a c True False td = (ro, k, td1)" by (metis prod_cases3)
  then show ?thesis
    using rx_ok_newChannelData [OF ok] KernelConnect by (simp add: trudp_step_def)
next
  case (KernelClose r)
  then show ?thesis using rx_ok_destroy [OF ok] by (simp add: trudp_step_def)
next
  case (KernelNotTrudp n)
  obtain a d where ad: "chanKernel td ! n = (a, d)" by (cases "chanKernel td ! n")
  let ?td = "td\<lparr>chanKernel := cut_out n (chanKernel td)\<rparr>"
  have ok': "rx_ok pl seen ?td" by (rule rx_ok_same [OF ok]) simp_all
  obtain ro k td1 where new: "newChannelData now a 0 False False ?td = (ro, k, td1)" by (metis prod_cases3)
  have "rx_ok pl seen (kernel_not_trudp now a d ?td)"
    using rx_ok_newChannelData [OF ok' new] rx_ok_event [of pl seen td1 _ EvGotDataNotrudp d]
    by (auto simp: kernel_not_trudp_def new split: option.split)
  then show ?thesis using ok ad KernelNotTrudp by (simp add: trudp_step_def)
next
  case (Timer i ks)
  then show ?thesis using rx_ok_timer_loop [OF ok] by (simp add: trudp_step_def)
next
  case (UserWrite r d n)
  have "rx_ok pl seen (td\<lparr>chanWrite := ws\<rparr>)" for ws by (rule rx_ok_same [OF ok]) simp_all
  then show ?thesis using ok UserWrite by (auto simp: trudp_step_def Write_def)
next
  case UserReadEvent
  have "take 1 (chanEvent td) @ drop 1 (chanEvent td) = chanEvent td" by (rule append_take_drop_id)
  then show ?thesis using ok UserReadEvent by (auto simp: trudp_step_def rx_ok_def)
qed

lemma rx_ok_run:
  "rx_ok pl seen td \<Longrightarrow> \<forall>(now, st) \<in> set sts. step_stream pl st \<Longrightarrow>
     go_all (\<lambda>(seen', td'). rx_ok pl seen' td') (trudp_run sts (seen, td))"
proof (induction sts arbitrary: seen td)
  case (Cons nst sts)
  obtain now st where nst: "nst = (now, st)" by (cases nst)
  have "go_all (rx_ok pl (if st = UserReadEvent then seen @ take 1 (chanEvent td) else seen))
      (trudp_step now st td)"
    by (rule rx_ok_trudp_step) (use Cons nst in auto)
  then show ?case
    using Cons nst by (auto intro!: go_all_bind)
qed simp

lemma rx_ok_init: "rx_ok pl [] (trudp_init l)"
  using rx_chan_init
  by (simp add: rx_ok_def trudp_init_def sendEvent_def newChannel_def firstPacketID_def
      receiveQueueInit_def user_view_def view_step_def)

section \<open>Completeness\<close>

text \<open>
  The state of a receiver that was given the packets with the ids in \<open>S\<close>: it expects \<open>e\<close>, all
  smaller ids were delivered, the others wait in the receive queue.
\<close>

definition data_event :: "chref \<Rightarrow> (u32 \<Rightarrow> bytes) \<Rightarrow> nat \<Rightarrow> EventData" where
  "data_event r f n = \<lparr> Tcd = Some r, Event = EvGotData, EvData = f (of_nat n) \<rparr>"

definition got_queue :: "(u32 \<Rightarrow> bytes) \<Rightarrow> nat set \<Rightarrow> nat \<Rightarrow> u32 \<Rightarrow> receiveQueue \<Rightarrow> bool" where
  "got_queue f S e x q \<longleftrightarrow> unat x = e \<and> {..<e} \<subseteq> S
     \<and> (\<forall>i. q i \<noteq> None \<longleftrightarrow> unat i \<in> S \<and> e \<le> unat i) \<and> (\<forall>i p. q i = Some p \<longrightarrow> Data p = f i)"

definition got :: "chref \<Rightarrow> (u32 \<Rightarrow> bytes) \<Rightarrow> EventData list \<Rightarrow> nat set \<Rightarrow> nat \<Rightarrow> TRUDP \<Rightarrow> bool" where
  "got r f ev0 S e td \<longleftrightarrow> got_queue f S e (expectedID (heap td r)) (receiveQueue (heap td r))
     \<and> chanEvent td = ev0 @ map (data_event r f) [0..<e]"

definition room :: "EventData list \<Rightarrow> nat set \<Rightarrow> bool" where
  "room ev0 S \<longleftrightarrow> finite S \<and> S \<subseteq> {..<2 ^ 31} \<and> length ev0 + card S < chEventSize - 16"

lemma got_queueD:
  assumes "got_queue f S e x q"
  shows "unat x = e" and "{..<e} \<subseteq> S" and "q i \<noteq> None \<longleftrightarrow> unat i \<in> S \<and> e \<le> unat i"
    and "q i = Some p \<Longrightarrow> Data p = f i"
  using assms unfolding got_queue_def by blast+

lemma unat_neq_id: "unat x = e \<Longrightarrow> unat i = e \<longleftrightarrow> i = (x :: u32)"
  by (metis word_unat_eq_iff)

lemma got_queue_deliver:
  assumes g: "got_queue f S e x q" and "e \<in> S" and "e < 2 ^ 31"
  shows "got_queue f S (Suc e) (nextID x) (q(x := None))"
  unfolding got_queue_def
proof (intro conjI allI)
  note g' = got_queueD [OF g]
  show "unat (nextID x) = Suc e" using unat_nextID [of x] assms(3) g'(1) by simp
  show "{..<Suc e} \<subseteq> S" using g'(2) assms(2) by (auto simp: lessThan_Suc)
  fix i p
  show "(q(x := None)) i \<noteq> None \<longleftrightarrow> unat i \<in> S \<and> Suc e \<le> unat i"
    using g'(3) [of i] unat_neq_id [OF g'(1), of i] by (cases "i = x") auto
  show "(q(x := None)) i = Some p \<longrightarrow> Data p = f i"
    using g'(4) [of i p] by simp
qed

lemma got_queue_add:
  assumes g: "got_queue f S e x q" and "e < unat (ID p)" and d: "Data p = f (ID p)"
  shows "got_queue f (insert (unat (ID p)) S) e x (rq_Add p q)"
  unfolding got_queue_def
proof (intro conjI allI)
  note g' = got_queueD [OF g]
  show "unat x = e" by (rule g'(1))
  show "{..<e} \<subseteq> insert (unat (ID p)) S" using g'(2) by blast
  fix i p'
  show "rq_Add p q i \<noteq> None \<longleftrightarrow> unat i \<in> insert (unat (ID p)) S \<and> e \<le> unat i"
    using g'(3) [of i] unat_neq_id [OF refl, of i "ID p"] assms(2) by (auto simp: rq_Add_def)
  show "rq_Add p q i = Some p' \<longrightarrow> Data p' = f i"
    using g'(4) [of i p'] d by (auto simp: rq_Add_def)
qed

lemma got_queue_expected:
  assumes g: "got_queue f S e x q" and e: "e \<notin> S" "e < 2 ^ 31"
  shows "got_queue f (insert e S) (Suc e) (nextID x) q"
  unfolding got_queue_def
proof (intro conjI allI)
  note g' = got_queueD [OF g]
  show "unat (nextID x) = Suc e" using unat_nextID [of x] e(2) g'(1) by simp
  show "{..<Suc e} \<subseteq> insert e S" using g'(2) by (auto simp: lessThan_Suc)
  fix i p
  show "q i \<noteq> None \<longleftrightarrow> unat i \<in> insert e S \<and> Suc e \<le> unat i"
    using g'(3) [of i] e(1) by (auto simp: Suc_le_eq le_less)
  show "q i = Some p \<longrightarrow> Data p = f i"
    using g'(4) [of i p] by simp
qed

lemma got_bound:
  assumes "room ev0 S" and "got r f ev0 S e td" and "e \<in> S"
  shows "e < 2 ^ 31" and "sendEventAvailable td"
proof -
  show "e < 2 ^ 31" using assms by (auto simp: room_def)
  have "{..<e} \<subseteq> S" "finite S" using assms by (auto simp: got_def got_queue_def room_def)
  then have "card {..<e} \<le> card S" by (intro card_mono)
  then show "sendEventAvailable td"
    using assms by (simp add: got_def room_def sendEventAvailable_def)
qed

lemma data_event_unat: "unat x = e \<Longrightarrow> data_event r f e = \<lparr> Tcd = Some r, Event = EvGotData, EvData = f x \<rparr>"
  by (auto simp: data_event_def)

lemma got_receiveQueueProcess:
  "room ev0 S \<Longrightarrow> got r f ev0 S e td \<Longrightarrow>
     \<exists>e'. e' \<notin> S \<and> got r f ev0 S e' (snd (receiveQueueProcess r td))"
proof (induction r td arbitrary: e rule: receiveQueueProcess.induct)
  case (1 r td)
  let ?x = "expectedID (heap td r)" let ?q = "receiveQueue (heap td r)"
  have gq: "got_queue f S e ?x ?q" and ev: "chanEvent td = ev0 @ map (data_event r f) [0..<e]"
    using 1(3) by (simp_all add: got_def)
  show ?case
  proof (cases "?q ?x")
    case None
    then have "e \<notin> S" using got_queueD(1) [OF gq] got_queueD(3) [OF gq, of ?x] by simp
    then show ?thesis using None 1(3)
      by (subst receiveQueueProcess.simps) (auto simp: Let_def rq_Find_def)
  next
    case (Some p)
    have S: "e \<in> S" using got_queueD(1) [OF gq] got_queueD(3) [OF gq, of ?x] Some by simp
    note b = got_bound [OF 1(2,3) S]
    let ?td2 = "upd r (\<lambda>t. t\<lparr>receiveQueue := rq_Remove ?x (receiveQueue t)\<rparr>)
                  (sendEvent (Some r) EvGotData (Data p) (incID r td))"
    have "got r f ev0 S (Suc e) ?td2"
      using got_queue_deliver [OF gq S b(1)] got_queueD(4) [OF gq Some]
        data_event_unat [OF got_queueD(1) [OF gq], of r f] ev
      by (simp add: got_def incID_def rq_Remove_def)
    then obtain e' where "e' \<notin> S" "got r f ev0 S e' (snd (receiveQueueProcess r ?td2))"
      using 1(1) [OF refl _ _ 1(2)] Some b(2) by (auto simp: rq_Find_def)
    then show ?thesis
      using Some b(2) by (subst receiveQueueProcess.simps) (auto simp: Let_def rq_Find_def intro!: exI [of _ e'])
  qed
qed

lemma got_insert_data:
  assumes rm: "room ev0 (insert (unat (ID p)) S)" and g: "got r f ev0 S e td" and e: "e \<notin> S"
    and new: "unat (ID p) \<notin> S" and d: "Data p = f (ID p)" and z: "ID p = 0 \<or> 0 \<in> S"
  shows "\<exists>e'. e' \<notin> insert (unat (ID p)) S
     \<and> got r f ev0 (insert (unat (ID p)) S) e' (packetDataProcess now p r td)"
proof -
  let ?i = "ID p" let ?x = "expectedID (heap td r)" let ?S = "insert (unat ?i) S"
  have gq: "got_queue f S e ?x (receiveQueue (heap td r))"
    and ev: "chanEvent td = ev0 @ map (data_event r f) [0..<e]"
    using g by (simp_all add: got_def)
  note x = got_queueD(1) [OF gq] and sub = got_queueD(2) [OF gq]
  have i31: "unat ?i < 2 ^ 31" using rm by (simp add: room_def)
  show ?thesis
  proof (cases "?i = ?x")
    case True
    let ?td1 = "sendEvent (Some r) EvGotData (Data p) (incID r td)"
    have "got r f ev0 ?S (Suc e) ?td1"
      using got_queue_expected [OF gq e] i31 x True d ev data_event_unat [OF x, of r f]
      by (simp add: got_def incID_def)
    from got_receiveQueueProcess [OF rm this]
    show ?thesis using True by (subst packetDataProcess.simps) (simp add: Let_def)
  next
    case False
    then have ne: "unat ?i \<noteq> e" using x by (metis word_unat_eq_iff)
    have gt: "e < unat ?i" using ne sub new by (meson lessThan_iff linorder_neqE_nat subsetD)
    have "0 \<in> S" using z gt by auto
    then have x0: "?x \<noteq> 0" using x e by auto
    have i0: "?i \<noteq> 0" using gt by auto
    have "packetDistance ?x ?i = int (unat ?i) - int e"
      using packetDistance_small [of ?i ?x] gt x i31 by simp
    then have dist: "0 < packetDistance ?x ?i" using gt by linarith
    have none: "receiveQueue (heap td r) ?i = None"
      using got_queueD(3) [OF gq, of ?i] new by blast
    let ?td1 = "upd r (\<lambda>t. t\<lparr>receiveQueue := rq_Add p (receiveQueue t)\<rparr>) td"
    have "got r f ev0 ?S e ?td1"
      using got_queue_add [OF gq gt d] ev by (simp add: got_def)
    from got_receiveQueueProcess [OF rm this] obtain e' where
      "e' \<notin> ?S" "got r f ev0 ?S e' (snd (receiveQueueProcess r ?td1))" by blast
    moreover have "packetDataProcess now p r td = snd (receiveQueueProcess r ?td1)"
      by (subst packetDataProcess.simps)
        (use False x0 i0 dist gt none in \<open>simp add: Let_def firstPacketID_def rq_Find_def\<close>)
    ultimately show ?thesis by auto
  qed
qed

lemma got_all:
  assumes "room ev0 (set (map (unat \<circ> ID) ps) \<union> S)" and "got r f ev0 S e td" and "e \<notin> S"
    and "distinct (map (unat \<circ> ID) ps)" and "set (map (unat \<circ> ID) ps) \<inter> S = {}"
    and "\<forall>p \<in> set ps. Data p = f (ID p)" and "0 \<in> S \<or> ps = [] \<or> ID (hd ps) = 0"
  shows "\<exists>e'. e' \<notin> set (map (unat \<circ> ID) ps) \<union> S \<and>
     got r f ev0 (set (map (unat \<circ> ID) ps) \<union> S) e' (fold (\<lambda>p. packetDataProcess now p r) ps td)"
  using assms
proof (induction ps arbitrary: S e td)
  case (Cons p ps)
  let ?S = "insert (unat (ID p)) S"
  have sub: "?S \<subseteq> set (map (unat \<circ> ID) (p # ps)) \<union> S" by auto
  have rm: "room ev0 ?S"
  proof -
    have fin: "finite (set (map (unat \<circ> ID) (p # ps)) \<union> S)" using Cons.prems(1) by (simp add: room_def)
    have "card ?S \<le> card (set (map (unat \<circ> ID) (p # ps)) \<union> S)" by (rule card_mono [OF fin sub])
    then show ?thesis using Cons.prems(1) sub fin unfolding room_def
      by (meson finite_subset le_less_trans nat_add_left_cancel_le subset_trans)
  qed
  obtain e1 where e1: "e1 \<notin> ?S" "got r f ev0 ?S e1 (packetDataProcess now p r td)"
    using got_insert_data [OF rm Cons.prems(2,3), of now] Cons.prems(5-7) by auto
  have "set (map (unat \<circ> ID) ps) \<union> ?S = set (map (unat \<circ> ID) (p # ps)) \<union> S" by auto
  moreover have "0 \<in> ?S \<or> ps = [] \<or> ID (hd ps) = 0" using Cons.prems(7) by auto
  ultimately show ?case
    using Cons.IH [OF _ e1(2,1)] Cons.prems(1,4-6) by simp
qed auto


section \<open>Properties\<close>

text \<open>C1: in-order delivery. However the network loses, repeats, reorders and corrupts datagrams, whatever
  timers fire and whenever channels are created, reset or closed: as long as the data packets
  that pass the check carry one stream of payloads per channel key, the data events a user
  has got from a channel since its last local reset are exactly the first k payloads of that
  stream, in order, where the k-th id is the one the channel expects next.\<close>

theorem delivery_in_order:
  assumes "\<forall>(now, st) \<in> set sts. step_stream pl st"
    and "trudp_run sts ([], trudp_init me) = Inr (seen, td)"
  shows "\<exists>k. expectedID (heap td r) = id_seq k
     \<and> user_view r (seen @ chanEvent td) = map (pl (key (heap td r)) \<circ> id_seq) [0..<k]"
  using rx_ok_run [OF rx_ok_init assms(1), of me] assms(2) rx_okD(3) [of pl seen td r]
  by (simp add: rx_chan_def)

theorem delivery_in_order_witness:
  "case trudp_run [(0, Datagram ''h'' (headerCreate 0 0 1 1 7 @ [10])), (1, ReadPacket)]
          ([], trudp_init ''me'') of
     Inl _ \<Rightarrow> False
   | Inr (seen, td) \<Rightarrow> \<exists>k. expectedID (heap td 0) = id_seq k
       \<and> user_view 0 (seen @ chanEvent td) = map ((\<lambda>i. [10]) \<circ> id_seq) [0..<k]"
proof -
  let ?sts = "[(0, Datagram ''h'' (headerCreate 0 0 1 1 7 @ [10])), (1, ReadPacket)]"
  have chk: "trudpPacketCheck (headerCreate 0 0 1 1 7 @ [10])"
    by (simp add: trudpPacketCheck_create)
  have ok: "\<not> isl (trudp_run ?sts ([], trudp_init ''me''))"
    by (simp add: trudp_step_def classify_def chk Let_def read_packet_def trudp_init_def
        sendEventAvailable_def chEventSize_def pac_process_def getter_defs newChannelData_def)
  have st: "\<forall>(now, st) \<in> set ?sts. step_stream (\<lambda>_ _. [10]) st"
    by (simp add: step_stream_def classify_def chk Let_def getter_defs)
  show ?thesis
    using ok delivery_in_order [OF st, of "''me''" _ _ 0]
    by (auto split: sum.split)
qed

text \<open>C2: completeness. A channel that expects id 0 and is given the packets 0, ..., n-1 of a stream,
  packet 0 first and the others in any order, once each and interleaved as the network likes,
  delivers all n payloads in order and has nothing left in its receive queue (n at most
  2^31, and the user's event channel has room).\<close>

theorem delivery_complete:
  assumes "mset (map (unat \<circ> ID) ps) = mset [0..<n]" and "ID (hd ps) = 0"
    and "\<forall>p \<in> set ps. Data p = f (ID p)" and "n \<le> 2 ^ 31"
    and "expectedID (heap td r) = 0" and "receiveQueue (heap td r) = Map.empty"
    and "length (chanEvent td) + n < chEventSize - 16"
  shows "let td' = fold (\<lambda>p. packetDataProcess now p r) ps td
     in chanEvent td' = chanEvent td @ map (data_event r f) [0..<n]
       \<and> unat (expectedID (heap td' r)) = n \<and> receiveQueue (heap td' r) = Map.empty"
proof -
  have set: "set (map (unat \<circ> ID) ps) = {..<n}"
    using mset_eq_setD [OF assms(1)] by auto
  have "distinct (map (unat \<circ> ID) ps)"
    using assms(1) by (metis distinct_upt mset_eq_imp_distinct_iff)
  moreover have "got r f (chanEvent td) {} 0 td"
    using assms(5,6) by (simp add: got_def got_queue_def)
  moreover have "room (chanEvent td) (set (map (unat \<circ> ID) ps) \<union> {})"
    unfolding set Un_empty_right using assms(4,7) by (simp add: room_def)
  ultimately obtain e' where "e' \<notin> {..<n}"
      and g: "got r f (chanEvent td) {..<n} e' (fold (\<lambda>p. packetDataProcess now p r) ps td)"
    using got_all [of "chanEvent td" ps "{}" r f 0 td now] assms(2,3) set by auto
  moreover have "{..<e'} \<subseteq> {..<n}" using g by (simp add: got_def got_queue_def)
  ultimately have e': "e' = n" by auto
  have "receiveQueue (heap (fold (\<lambda>p. packetDataProcess now p r) ps td) r) i = None" for i
    using g e' by (auto simp: got_def got_queue_def)
  then have "receiveQueue (heap (fold (\<lambda>p. packetDataProcess now p r) ps td) r) = Map.empty"
    by blast
  then show ?thesis
    using g e' by (simp add: Let_def got_def got_queue_def)
qed

theorem delivery_complete_witness:
  "let p = (\<lambda>i. \<lparr> pdata = headerCreate i 0 1 1 7 @ [ucast i], sendQueueF = False, destoryF = False \<rparr>);
       td = snd (snd (newChannelData 0 ''h'' 1 True False (trudp_init ''me'')));
       td' = fold (\<lambda>p. packetDataProcess 5 p 0) [p 0, p 2, p 1] td
     in chanEvent td' = chanEvent td @ map (data_event 0 (\<lambda>i. [ucast i])) [0..<3]
       \<and> unat (expectedID (heap td' 0)) = 3 \<and> receiveQueue (heap td' 0) = Map.empty"
  unfolding Let_def
proof (rule delivery_complete [unfolded Let_def])
  let ?td = "snd (snd (newChannelData 0 ''h'' 1 True False (trudp_init ''me'')))"
  show "expectedID (heap ?td 0) = 0" "receiveQueue (heap ?td 0) = Map.empty"
    "length (chanEvent ?td) + 3 < chEventSize - 16"
    by (simp_all add: newChannelData_def trudp_init_def sendEvent_def makeKey_def Let_def newChannel_def
        sendEventConnected_def firstPacketID_def receiveQueueInit_def chEventSize_def)
qed (simp_all add: ID_def pac_header_def Data_def headerLength_def upt_rec)

end
