(* ===== verification/TrudpSender.thy ===== *)
theory TrudpSender
  imports TrudpDelivery
begin

text \<open>
  The sending side: the invariant that ties the channel map, the channels and their queues
  together, the order in which writes go out, the resend limit, the window, the size of
  the queue and the room in the event channel.
\<close>

section \<open>Well-formed connections\<close>

text \<open>
  A channel is in the map under its key exactly if it exists and is not stopped; its send
  queue is consistent and its waiting writes are its own.
\<close>

definition chan_ok :: "chref \<Rightarrow> ChannelData \<Rightarrow> bool" where
  "chan_ok r t \<longleftrightarrow> sq_invar (sendQueue t) \<and> (\<forall>w \<in> set (writeQueue t). wtcd w = r)"

definition td_ok :: "TRUDP \<Rightarrow> bool" where
  "td_ok td \<longleftrightarrow>
     (\<forall>k r. tcdmap td k = Some r \<longleftrightarrow> r < nextRef td \<and> \<not> stoppedF (heap td r) \<and> key (heap td r) = k)
     \<and> (\<forall>r. chan_ok r (heap td r))"

lemma td_okD:
  assumes "td_ok td"
  shows "tcdmap td k = Some r \<longleftrightarrow> r < nextRef td \<and> \<not> stoppedF (heap td r) \<and> key (heap td r) = k"
    and "sq_invar (sendQueue (heap td r))" and "w \<in> set (writeQueue (heap td r)) \<Longrightarrow> wtcd w = r"
  using assms by (auto simp: td_ok_def chan_ok_def)

lemma td_ok_same:
  "td_ok td \<Longrightarrow> heap td' = heap td \<Longrightarrow> tcdmap td' = tcdmap td \<Longrightarrow> nextRef td' = nextRef td \<Longrightarrow> td_ok td'"
  by (simp add: td_ok_def)

lemma td_ok_upd:
  assumes "td_ok td" and "key (f (heap td r)) = key (heap td r)"
    and "stoppedF (f (heap td r)) = stoppedF (heap td r)" and "chan_ok r (f (heap td r))"
  shows "td_ok (upd r f td)"
  using assms by (auto simp: td_ok_def)

lemma td_ok_upd_same:
  assumes "td_ok td" and "\<And>t. key (f t) = key t" and "\<And>t. stoppedF (f t) = stoppedF t"
    and "\<And>t. sendQueue (f t) = sendQueue t" and "\<And>t. writeQueue (f t) = writeQueue t"
  shows "td_ok (upd r f td)"
  by (rule td_ok_upd) (use assms in \<open>auto simp: td_ok_def chan_ok_def\<close>)

lemma td_ok_sendEvent: "td_ok td \<Longrightarrow> td_ok (sendEvent x ev d td)"
  by (simp add: td_ok_def)

lemma td_ok_upd_packets: "td_ok td \<Longrightarrow> td_ok (upd_packets f r td)"
  unfolding upd_packets_def by (rule td_ok_upd_same) (auto intro: td_ok_same)

lemma td_ok_stats:
  assumes "td_ok td"
  shows "td_ok (received now n r td)" "td_ok (ackReceived r td)" "td_ok (dropped r td)"
    "td_ok (stat_send now n r td)" "td_ok (upd_stat g r td)" "td_ok (stat_repeat now b r td)"
    "td_ok (incID r td)" "td_ok (snd (tcd_ID r td))"
  using assms
  by (auto simp: received_def ackReceived_def dropped_def stat_send_def upd_stat_def stat_repeat_def
      Let_def incID_def tcd_ID_def intro!: td_ok_upd_packets td_ok_upd_same)

lemma td_ok_writeTo:
  assumes "td_ok td"
  shows "td_ok (pac_writeTo now p r td)"
proof -
  have w: "td_ok (td\<lparr>chanWriter := x\<rparr>)" for x by (rule td_ok_same [OF assms]) simp_all
  have "td_ok (upd r (\<lambda>t. t\<lparr>sendQueue := sq_Add now (sendQueueRttTime (stat t)) p (sendQueue t)\<rparr>)
      (td\<lparr>chanWriter := x\<rparr>))" for x
    by (rule td_ok_upd [OF w])
      (use assms in \<open>auto simp: td_ok_def chan_ok_def intro: sq_invar_Add\<close>)
  then show ?thesis using w by (simp add: pac_writeTo_def Let_def td_ok_stats)
qed

lemma td_ok_writeToDirect: "td_ok td \<Longrightarrow> go_all td_ok (writeToDirect now w td)"
proof -
  assume ok: "td_ok td"
  have "td_ok ((pac_writeTo now p (wtcd w) (snd (tcd_ID (wtcd w) td)))\<lparr>answers_log := l\<rparr>)" for p l
    by (rule td_ok_same [OF td_ok_writeTo [OF td_ok_stats(8) [OF ok]]]) simp_all
  then show ?thesis
    by (auto simp: writeToDirect_def Let_def split_def intro!: go_all_bind [of "\<lambda>_. True"])
qed

lemma td_ok_proc_writeTo: "td_ok td \<Longrightarrow> go_all td_ok (proc_writeTo now w td)"
proof -
  assume ok: "td_ok td"
  have "td_ok (writeToQueue (wtcd w) w td)"
    unfolding writeToQueue_def
    by (rule td_ok_upd [OF ok]) (use ok in \<open>auto simp: td_ok_def chan_ok_def\<close>)
  then show ?thesis using ok by (simp add: proc_writeTo_def td_ok_writeToDirect)
qed

lemma td_ok_write_loop:
  "td_ok td \<Longrightarrow> \<forall>w \<in> set ws. wtcd w = r \<Longrightarrow> go_all td_ok (write_loop now r b ws td)"
proof (induction ws arbitrary: b td)
  case (Cons w ws)
  have "td_ok (upd r (\<lambda>t. t\<lparr>writeQueue := ws\<rparr>) td)"
    by (rule td_ok_upd) (use Cons.prems in \<open>auto simp: td_ok_def chan_ok_def\<close>)
  then show ?case
    using Cons by (auto intro!: go_all_bind [OF td_ok_writeToDirect])
qed simp

lemma td_ok_writeFromQueue: "td_ok td \<Longrightarrow> go_all td_ok (writeFromQueue now r td)"
  unfolding writeFromQueue_def by (rule td_ok_write_loop) (auto dest: td_okD)

lemma td_ok_writeQueueReset: "td_ok td \<Longrightarrow> td_ok (writeQueueReset r td)"
  unfolding writeQueueReset_def
  by (rule td_ok_upd [OF td_ok_same]) (auto simp: td_ok_def chan_ok_def)

lemma td_ok_clear_queues:
  "td_ok td \<Longrightarrow> td_ok (upd r (\<lambda>t. t\<lparr>sendQueue := sendQueueReset (sendQueue t), receiveQueue := receiveQueueInit\<rparr>) td)"
  by (rule td_ok_upd) (auto simp: td_ok_def chan_ok_def sq_invar_reset)

lemma td_ok_reset: "td_ok td \<Longrightarrow> td_ok (reset r td)"
  unfolding reset_def
  by (intro td_ok_sendEvent td_ok_upd_same td_ok_writeQueueReset td_ok_clear_queues) auto

lemma td_ok_receiveQueueProcess: "td_ok td \<Longrightarrow> td_ok (snd (receiveQueueProcess r td))"
proof (induction r td rule: receiveQueueProcess.induct)
  case (1 r td)
  have step: "td_ok (upd r (\<lambda>t. t\<lparr>receiveQueue := rq_Remove i (receiveQueue t)\<rparr>)
      (sendEvent (Some r) EvGotData d (incID r td)))" for i d
    by (rule td_ok_upd_same [OF td_ok_sendEvent [OF td_ok_stats(7) [OF 1(2)]]]) auto
  show ?case
    using 1 step by (subst receiveQueueProcess.simps) (auto simp: Let_def split: option.split)
qed

lemma td_ok_packetDataProcess: "td_ok td \<Longrightarrow> td_ok (packetDataProcess now p r td)"
proof (induction now p r td rule: packetDataProcess.induct)
  case (1 now p r td)
  have add: "td_ok (upd r (\<lambda>t. t\<lparr>receiveQueue := rq_Add p (receiveQueue t)\<rparr>) td)"
    by (rule td_ok_upd_same [OF 1(2)]) auto
  show ?case
    using 1(2) add 1(1) [OF refl refl refl] td_ok_reset [OF 1(2), of r]
    by (subst packetDataProcess.simps)
      (auto simp: Let_def split: option.split
        intro!: td_ok_receiveQueueProcess td_ok_sendEvent td_ok_stats td_ok_writeTo)
qed

lemma td_ok_destroy:
  assumes ok: "td_ok td" and r: "r < nextRef td"
  shows "td_ok (snd (destroy r td))"
proof (cases "stoppedF (heap td r)")
  case True
  then show ?thesis using ok by (simp add: destroy_def)
next
  case False
  let ?f = "\<lambda>t. t\<lparr>stoppedF := True, sendQueue := sendQueueReset (sendQueue t), receiveQueue := receiveQueueInit\<rparr>"
  let ?td1 = "writeQueueReset r (upd r ?f td)"
  have h: "heap ?td1 r' = (if r' = r then (?f (heap td r))\<lparr>writeQueue := []\<rparr> else heap td r')" for r'
    by (simp add: writeQueueReset_def)
  have m: "tcdmap ?td1 = tcdmap td" "nextRef ?td1 = nextRef td" by (simp_all add: writeQueueReset_def)
  have uniq: "r' = r" if "r' < nextRef td" "\<not> stoppedF (heap td r')" "key (heap td r') = key (heap td r)" for r'
    using that r False td_okD(1) [OF ok] by (metis option.inject)
  have "td_ok (?td1\<lparr>tcdmap := (tcdmap ?td1)(key (heap td r) := None)\<rparr>)"
    using ok r False uniq unfolding td_ok_def
    by (auto simp: h m chan_ok_def sq_invar_reset)
  then show ?thesis using False
    by (auto simp: destroy_def Let_def intro: td_ok_sendEvent)
qed

lemma nextRef_frame:
  "nextRef (pac_writeTo now p r td) = nextRef td" "nextRef (stat_repeat now b r td) = nextRef td"
  "nextRef (snd (destroy r td)) = nextRef td" "nextRef (snd (tcd_ID r td)) = nextRef td"
  using frame_nextRef(1) [OF rx_frame_writeTo] frame_nextRef(1) [OF rx_frame_stat_repeat]
    frame_nextRef(1) [OF rx_frame_ID] frame_nextRef(1) [OF rx_frame_writeQueueReset]
  by (simp_all add: destroy_def Let_def)

lemma updateTimestamp_destory: "ID (updateTimestamp now (p\<lparr>destoryF := b\<rparr>)) = ID p"
  by (simp add: updateTimestamp_fields) (simp add: ID_def pac_header_def)

lemma td_ok_resend_loop:
  "td_ok td \<Longrightarrow> r < nextRef td \<Longrightarrow>
     td_ok (resend_loop now r es td) \<and> nextRef (resend_loop now r es td) = nextRef td"
proof (induction es arbitrary: td)
  case (Cons e es)
  let ?upd = "\<lambda>p. upd r (\<lambda>t. t\<lparr>sendQueue := sq_modify e (\<lambda>d. d\<lparr>packet := p\<rparr>) (sendQueue t)\<rparr>) td"
  show ?case
  proof (cases "map_of (sq_q (sendQueue (heap td r))) e")
    case None
    then show ?thesis using Cons.prems by simp
  next
    case (Some sqd)
    let ?p = "updateTimestamp (Timestamp now) ((packet sqd)\<lparr>destoryF := False\<rparr>)"
    have "(e, sqd) \<in> set (sq_q (sendQueue (heap td r)))" using Some by (rule map_of_SomeD)
    then have id: "d = sqd" if "(e, d) \<in> set (sq_q (sendQueue (heap td r)))" for d
      using that td_okD(2) [OF Cons.prems(1), of r] unfolding sq_invar_def
      by (metis eq_key_imp_eq_value)
    have "sq_invar (sq_modify e (\<lambda>d. d\<lparr>packet := ?p\<rparr>) (sendQueue (heap td r)))"
      by (rule sq_invar_modify [OF td_okD(2) [OF Cons.prems(1)]]) (auto dest: id simp: updateTimestamp_destory)
    then have "td_ok (?upd ?p)"
      by (intro td_ok_upd [OF Cons.prems(1)]) (use td_okD(3) [OF Cons.prems(1)] in \<open>auto simp: chan_ok_def\<close>)
    then have "td_ok (stat_repeat now True r (pac_writeTo now ?p r (?upd ?p)))"
      by (intro td_ok_stats td_ok_writeTo)
    then show ?thesis
      using Cons Some td_ok_destroy [OF Cons.prems] td_ok_stats(6) [OF Cons.prems(1)]
      by (auto simp: Let_def nextRef_frame)
  qed
qed simp

lemma td_ok_sendEventConnected: "td_ok td \<Longrightarrow> td_ok (sendEventConnected b r k td)"
  unfolding sendEventConnected_def
  by (simp split: if_split, intro impI td_ok_sendEvent td_ok_upd_same) simp_all

lemma td_ok_newChannelData:
  assumes ok: "td_ok td" and new: "newChannelData now a c cc sc td = (ro, k, td')"
  shows "td_ok td' \<and> nextRef td \<le> nextRef td'"
proof (cases "tcdmap td (makeKey a c)")
  case (Some r)
  then show ?thesis
    using new ok by (auto simp: newChannelData_def Let_def intro: td_ok_sendEventConnected)
next
  case None
  show ?thesis
  proof (cases cc)
    case False
    then show ?thesis using new None ok by (auto simp: newChannelData_def Let_def)
  next
    case True
    let ?r = "nextRef td"
    let ?td1 = "td\<lparr>heap := (heap td)(?r := newChannel now a c (makeKey a c) (defaultQueueSize td)),
                   nextRef := ?r + 1, tcdmap := (tcdmap td)(makeKey a c \<mapsto> ?r)\<rparr>"
    have free: "\<not> (r < nextRef td \<and> \<not> stoppedF (heap td r) \<and> key (heap td r) = makeKey a c)" for r
      using None td_okD(1) [OF ok, of "makeKey a c" r] by simp
    have "td_ok ?td1"
      unfolding td_ok_def
    proof (intro conjI allI)
      fix k r
      show "tcdmap ?td1 k = Some r \<longleftrightarrow>
          r < nextRef ?td1 \<and> \<not> stoppedF (heap ?td1 r) \<and> key (heap ?td1 r) = k"
        using td_okD(1) [OF ok, of k r] free [of r]
        by (auto simp: newChannel_def less_Suc_eq)
    next
      fix r show "chan_ok r (heap ?td1 r)"
        using ok by (auto simp: td_ok_def chan_ok_def newChannel_def sq_invar_init)
    qed
    then show ?thesis
      using new None True by (auto simp: newChannelData_def Let_def intro: td_ok_sendEventConnected)
  qed
qed

lemma td_ok_pac_process:
  assumes ok: "td_ok td"
  shows "go_all td_ok (pac_process now a p td)"
proof -
  obtain ro k td1 where new: "newChannelData now a (int (Channel p)) (Type p = 0) True td = (ro, k, td1)"
    by (metis prod_cases3)
  have ok1: "td_ok td1" using td_ok_newChannelData [OF ok new] by blast
  have rem: "td_ok (upd r (\<lambda>t. t\<lparr>sendQueue := sq_Remove i (sendQueue t)\<rparr>) td')" if "td_ok td'" for r i td'
    by (rule td_ok_upd [OF that]) (use that in \<open>auto simp: td_ok_def chan_ok_def intro: sq_invar_Remove\<close>)
  show ?thesis
    using ok1 unfolding pac_process_def new
    by (auto simp: Let_def split: option.split
        intro!: td_ok_writeFromQueue rem td_ok_packetDataProcess td_ok_reset td_ok_writeTo td_ok_stats td_ok_sendEvent)
qed

lemma nextRef_resend: "td_ok td \<Longrightarrow> r < nextRef td \<Longrightarrow> nextRef (resend_loop now r es td) = nextRef td"
  using td_ok_resend_loop by blast

lemma td_ok_keepAlive:
  assumes "td_ok td" and "r < nextRef td"
  shows "go_all (\<lambda>td'. td_ok td' \<and> nextRef td' = nextRef td) (keepAlive now r td)"
proof -
  let ?P = "\<lambda>td'. td_ok td' \<and> nextRef td' = nextRef td"
  have "go_all ?P (if sleepTime \<le> now - lastTripTimeReceived (stat (heap td r))
        then go_bind (newPing (Timestamp now) (ch (heap td r)) (bytes_of echoMsg))
               (\<lambda>p. Inr (pac_writeTo now p r td))
        else Inr td)"
    using assms by (auto simp: nextRef_frame intro!: go_all_bind [of "\<lambda>_. True"] td_ok_writeTo)
  then show ?thesis
    unfolding keepAlive_def
    by (rule go_all_bind)
      (use assms in \<open>auto simp: Let_def split_def nextRef_frame
          intro!: td_ok_destroy go_all_bind [of "\<lambda>_. True"] td_ok_writeTo td_ok_stats\<close>)
qed

lemma td_ok_timer_channel:
  assumes ok: "td_ok td" and r: "r < nextRef td"
  shows "go_all td_ok (timer_channel now i r td)"
proof -
  let ?td1 = "snd (sendQueueResendProcess now r td)"
  have 1: "td_ok ?td1" "nextRef ?td1 = nextRef td"
    using td_ok_resend_loop [OF ok r] by (simp_all add: sendQueueResendProcess_def Let_def)
  have calc: "td_ok (sendQueueCalculateLength r td2)" if "td_ok td2" for td2
    unfolding sendQueueCalculateLength_def
    by (rule td_ok_upd_same [OF that]) (simp_all add: calculateLength_def Let_def)
  have "go_all td_ok (if i mod 33 = 0 then keepAlive now r ?td1 else Inr ?td1)"
    using 1 r go_all_mono [OF td_ok_keepAlive [OF 1(1), of r now]] by simp
  then show ?thesis
    unfolding timer_channel_def Let_def by (rule go_all_bind) (simp add: calc)
qed

lemma td_ok_timer_loop: "td_ok td \<Longrightarrow> go_all td_ok (timer_loop now i ks td)"
proof (induction ks arbitrary: td)
  case (Cons k ks)
  show ?case
  proof (cases "tcdmap td k")
    case None
    then show ?thesis using Cons by simp
  next
    case (Some r)
    then have "r < nextRef td" using td_okD(1) [OF Cons.prems] by blast
    then show ?thesis using Cons Some by (auto intro!: go_all_bind [OF td_ok_timer_channel])
  qed
qed simp

lemma td_ok_trudp_step:
  assumes ok: "td_ok td" and st: "\<forall>r. st = KernelClose r \<longrightarrow> r < nextRef td"
  shows "go_all td_ok (trudp_step now st td)"
proof (cases st)
  case (Datagram a buf)
  then show ?thesis
    using ok by (auto simp: trudp_step_def split: datagram.split intro: td_ok_same)
next
  case ReadPacket
  have "td_ok (td\<lparr>chanReader := x\<rparr>)" for x by (rule td_ok_same [OF ok]) simp_all
  then show ?thesis
    using ok ReadPacket
    by (auto simp: trudp_step_def read_packet_def Let_def split: list.split intro: td_ok_pac_process)
next
  case WritePacket
  have "td_ok (td\<lparr>chanWrite := ws\<rparr>)" for ws by (rule td_ok_same [OF ok]) simp_all
  then show ?thesis
    using ok WritePacket by (auto simp: trudp_step_def split: list.split intro: td_ok_proc_writeTo)
next
  case (KernelConnect a c)
  obtain ro k td1 where "newChannelData now a c True False td = (ro, k, td1)" by (metis prod_cases3)
  then show ?thesis
    using td_ok_newChannelData [OF ok] KernelConnect by (simp add: trudp_step_def)
next
  case (KernelClose r)
  then show ?thesis using td_ok_destroy [OF ok] st by (simp add: trudp_step_def)
next
  case (KernelNotTrudp n)
  obtain a d where ad: "chanKernel td ! n = (a, d)" by (cases "chanKernel td ! n")
  let ?td = "td\<lparr>chanKernel := cut_out n (chanKernel td)\<rparr>"
  have ok': "td_ok ?td" by (rule td_ok_same [OF ok]) simp_all
  obtain ro k td1 where new: "newChannelData now a 0 False False ?td = (ro, k, td1)" by (metis prod_cases3)
  have "td_ok (kernel_not_trudp now a d ?td)"
    using td_ok_newChannelData [OF ok' new]
    by (auto simp: kernel_not_trudp_def new split: option.split intro: td_ok_sendEvent)
  then show ?thesis using ok ad KernelNotTrudp by (simp add: trudp_step_def)
next
  case (Timer i ks)
  then show ?thesis using td_ok_timer_loop [OF ok] by (simp add: trudp_step_def)
next
  case (UserWrite r d n)
  have "td_ok (td\<lparr>chanWrite := ws\<rparr>)" for ws by (rule td_ok_same [OF ok]) simp_all
  then show ?thesis using ok UserWrite by (auto simp: trudp_step_def Write_def)
next
  case UserReadEvent
  then show ?thesis using td_ok_same [OF ok] by (simp add: trudp_step_def)
qed

lemma td_ok_init: "td_ok (trudp_init l)"
  by (simp add: td_ok_def trudp_init_def newChannel_def chan_ok_def sq_invar_init)

section \<open>Writes\<close>

text \<open>The data packet of the \<open>j\<close>-th write that leaves the queue.\<close>

definition data_packet :: "time \<Rightarrow> ChannelData \<Rightarrow> u32 \<Rightarrow> writeType \<Rightarrow> packetType" where
  "data_packet now t i w = projr (newData (Timestamp now) i (ch t) (wdata w))"

definition writable :: "writeType \<Rightarrow> bool" where
  "writable w \<longleftrightarrow> wdata w \<noteq> Some []"

lemma newData_writable:
  "writable w \<Longrightarrow> newData (Timestamp now) i (ch t) (wdata w) = Inr (data_packet now t i w)"
  by (cases "wdata w") (auto simp: writable_def data_packet_def newData_def)

lemma data_packet_fields:
  assumes "writable w"
  shows "sendQueueF (data_packet now t i w)" and "ID (data_packet now t i w) = i"
    and "wdata w = Some d \<Longrightarrow> Data (data_packet now t i w) = d"
  using assms
  by (cases "wdata w"; simp add: writable_def data_packet_def newData_def getter_defs)+


text \<open>One write that goes out.\<close>

definition sent_one :: "time \<Rightarrow> writeType \<Rightarrow> TRUDP \<Rightarrow> TRUDP \<Rightarrow> bool" where
  "sent_one now w td td' \<longleftrightarrow>
     (let t = heap td (wtcd w); t' = heap td' (wtcd w)
      in writeQueue t' = writeQueue t \<and> addr t' = addr t \<and> ch t' = ch t
         \<and> maxQueueSize t' = maxQueueSize t \<and> lastID t' = nextID (lastID t)
         \<and> sendQueue t' = sq_Add now (sendQueueRttTime (stat t)) (data_packet now t (lastID t) w) (sendQueue t)
         \<and> chanWriter td' = chanWriter td @ [(data_packet now t (lastID t) w, addr t)]
         \<and> answers_log td' = answers_log td @ [(chanAnswer w, True)])"

lemma sent_one_writeToDirect:
  "writable w \<Longrightarrow> \<exists>td'. writeToDirect now w td = Inr td' \<and> sent_one now w td td'"
  by (simp add: writeToDirect_def tcd_ID_def Let_def newData_writable sent_one_def pac_writeTo_def
      data_packet_fields stat_send_def upd_packets_def upd_def)

text \<open>The writes that leave the queue in one pass: the first \<open>n\<close>, with consecutive ids.\<close>

definition sent_many :: "time \<Rightarrow> chref \<Rightarrow> nat \<Rightarrow> TRUDP \<Rightarrow> TRUDP \<Rightarrow> bool" where
  "sent_many now r n td td' \<longleftrightarrow>
     (let t = heap td r; t' = heap td' r; ws = writeQueue t
      in n \<le> length ws \<and> writeQueue t' = drop n ws \<and> lastID t' = (nextID ^^ n) (lastID t)
         \<and> addr t' = addr t \<and> ch t' = ch t
         \<and> chanWriter td' = chanWriter td
              @ map (\<lambda>j. (data_packet now t ((nextID ^^ j) (lastID t)) (ws ! j), addr t)) [0..<n]
         \<and> answers_log td' = answers_log td @ map (\<lambda>w. (chanAnswer w, True)) (take n ws))"

lemma sent_many_0: "sent_many now r 0 td td"
  by (simp add: sent_many_def Let_def)

lemma funpow_nextID: "(nextID ^^ Suc n) x = (nextID ^^ n) (nextID x)"
  by (simp add: funpow_swap1)

lemma sent_many_Suc:
  assumes "writeQueue (heap td r) = w # ws" and "wtcd w = r"
    and one: "sent_one now w (upd r (\<lambda>t. t\<lparr>writeQueue := ws\<rparr>) td) td1"
    and "sent_many now r n td1 td'"
  shows "sent_many now r (Suc n) td td'"
proof -
  have ch: "data_packet now (heap td1 r) i w = data_packet now (heap td r) i w" for i w
    using one assms(2) by (simp add: data_packet_def sent_one_def Let_def)
  have ch': "data_packet now ((heap td r)\<lparr>writeQueue := ws\<rparr>) i w = data_packet now (heap td r) i w" for i w
    by (simp add: data_packet_def)
  show ?thesis
    using assms ch ch'
    by (simp add: sent_many_def sent_one_def Let_def upt_conv_Cons map_Suc_upt [symmetric] funpow_nextID
        del: upt_Suc funpow.simps)
qed

lemma write_loop_spec:
  "writeQueue (heap td r) = ws \<Longrightarrow> \<forall>w \<in> set ws. wtcd w = r \<and> writable w \<Longrightarrow>
     \<exists>n td'. write_loop now r b ws td = Inr td' \<and> sent_many now r n td td'
       \<and> (b \<and> ws \<noteq> [] \<longrightarrow> 0 < n) \<and> (n < length ws \<longrightarrow> \<not> canWrite r td')"
proof (induction ws arbitrary: b td)
  case Nil
  then show ?case using sent_many_0 by auto
next
  case (Cons w ws)
  show ?case
  proof (cases "b \<or> canWrite r td")
    case False
    then show ?thesis using sent_many_0 [of now r td] by (auto intro!: exI [of _ 0])
  next
    case True
    let ?td0 = "upd r (\<lambda>t. t\<lparr>writeQueue := ws\<rparr>) td"
    obtain td1 where td1: "writeToDirect now w ?td0 = Inr td1" "sent_one now w ?td0 td1"
      using sent_one_writeToDirect Cons.prems(2) by (metis list.set_intros(1))
    have "writeQueue (heap td1 r) = ws" using td1(2) Cons.prems(2) by (simp add: sent_one_def Let_def)
    then obtain n td' where n: "write_loop now r False ws td1 = Inr td'" "sent_many now r n td1 td'"
        "n < length ws \<longrightarrow> \<not> canWrite r td'"
      using Cons.IH [of td1 False] Cons.prems(2) by auto
    have "sent_many now r (Suc n) td td'"
      using sent_many_Suc [OF Cons.prems(1) _ td1(2) n(2)] Cons.prems(2) by simp
    then show ?thesis using True td1(1) n by (auto intro!: exI [of _ "Suc n"])
  qed
qed

section \<open>The window\<close>

definition window_ok :: "chref \<Rightarrow> TRUDP \<Rightarrow> bool" where
  "window_ok r td \<longleftrightarrow> int (sq_Len (sendQueue (heap td r))) \<le> maxQueueSize (heap td r)"

lemma sent_one_window:
  assumes "sent_one now w td td'" and "wtcd w = r" and "canWrite r td"
  shows "window_ok r td'"
proof -
  obtain rtt p where s: "sendQueue (heap td' r) = sq_Add now rtt p (sendQueue (heap td r))"
      and m: "maxQueueSize (heap td' r) = maxQueueSize (heap td r)"
    using assms(1,2) by (auto simp: sent_one_def Let_def)
  have "sq_Len (sendQueue (heap td' r)) \<le> sq_Len (sendQueue (heap td r)) + 1"
    unfolding s by (rule sq_Len_Add_le)
  then show ?thesis using assms(3) m by (simp add: window_ok_def canWrite_def)
qed

lemma canWrite_upd_writeQueue [simp]:
  "canWrite r (upd r (\<lambda>t. t\<lparr>writeQueue := ws\<rparr>) td) = canWrite r td"
  by (simp add: canWrite_def)

lemma window_write_loop:
  "\<forall>w \<in> set ws. wtcd w = r \<Longrightarrow> window_ok r td \<Longrightarrow> b \<longrightarrow> canWrite r td \<Longrightarrow>
     go_all (window_ok r) (write_loop now r b ws td)"
proof (induction ws arbitrary: b td)
  case (Cons w ws)
  let ?td0 = "upd r (\<lambda>t. t\<lparr>writeQueue := ws\<rparr>) td"
  show ?case
  proof (cases "canWrite r td")
    case True
    have "go_all (window_ok r) (writeToDirect now w ?td0)"
    proof (cases "writable w")
      case True
      obtain td1 where td1: "writeToDirect now w ?td0 = Inr td1" "sent_one now w ?td0 td1"
        using sent_one_writeToDirect [OF True] by blast
      have "window_ok r td1"
        by (rule sent_one_window [OF td1(2)]) (use Cons.prems \<open>canWrite r td\<close> in simp_all)
      then show ?thesis using td1(1) by simp
    next
      case False
      then show ?thesis by (simp add: writeToDirect_def writable_def newData_def Let_def split_def)
    qed
    then have "go_all (window_ok r) (go_bind (writeToDirect now w ?td0) (write_loop now r False ws))"
      by (rule go_all_bind) (use Cons in simp)
    then show ?thesis using Cons.prems by simp
  qed (use Cons.prems in simp)
qed simp

lemma window_proc_writeTo:
  assumes "window_ok (wtcd w) td"
  shows "go_all (window_ok (wtcd w)) (proc_writeTo now w td)"
proof (cases "writable w")
  case True
  obtain td1 where td1: "writeToDirect now w td = Inr td1" "sent_one now w td td1"
    using sent_one_writeToDirect [OF True] by blast
  then show ?thesis
    using assms sent_one_window [OF td1(2) refl]
    by (auto simp: proc_writeTo_def writeToQueue_def window_ok_def)
next
  case False
  then have "writeToDirect now w td = Inl IndexOutOfRange"
    by (simp add: writeToDirect_def writable_def newData_def Let_def split_def)
  then show ?thesis using assms by (simp add: proc_writeTo_def writeToQueue_def window_ok_def)
qed

text \<open>An ACK of a packet that waits makes room for the write that goes out with it.\<close>

lemma canWrite_after_ack:
  assumes "sq_invar (sendQueue (heap td r))" and "sq_Find i (sendQueue (heap td r)) \<noteq> None"
    and "window_ok r td"
  shows "canWrite r (upd r (\<lambda>t. t\<lparr>sendQueue := sq_Remove i (sendQueue t)\<rparr>) td)"
  using assms sq_Len_Remove_known [OF assms(1), of i]
  by (auto simp: canWrite_def window_ok_def)

section \<open>The size of the send queue\<close>

definition size_ok :: "ChannelData \<Rightarrow> bool" where
  "size_ok t \<longleftrightarrow> 1 \<le> maxQueueSize t \<and> maxQueueSize t \<le> 2175"

lemma size_ok_calculateLength: "size_ok t \<Longrightarrow> size_ok (calculateLength t)"
  by (auto simp: size_ok_def calculateLength_def Let_def)

text \<open>The timers of a channel as a stepper: the size stays in its range over any number of ticks.\<close>

interpretation sizes: stepper "\<lambda>s t. calculateLength (t\<lparr>stat := s\<rparr>)" size_ok
  by (unfold_locales, rule size_ok_calculateLength) (simp add: size_ok_def)

section \<open>Room for events\<close>

text \<open>Number of events an operation adds at most, or up to which it fills the event channel.\<close>

lemma chanEvent_frames:
  "chanEvent (pac_writeTo now p r td) = chanEvent td" "chanEvent (dropped r td) = chanEvent td"
  "chanEvent (received now n r td) = chanEvent td" "chanEvent (ackReceived r td) = chanEvent td"
  "chanEvent (upd_stat f r td) = chanEvent td" "chanEvent (writeQueueReset r td) = chanEvent td"
  by (rule frame_nextRef(4), rule rx_frame_writeTo rx_frame_stats rx_frame_upd_stat rx_frame_writeQueueReset)+

lemma chanEvent_receiveQueueProcess:
  "length (chanEvent (snd (receiveQueueProcess r td))) \<le> max (length (chanEvent td)) (chEventSize - 16)"
proof (induction r td rule: receiveQueueProcess.induct)
  case (1 r td)
  then show ?case
    by (subst receiveQueueProcess.simps)
      (auto simp: Let_def sendEventAvailable_def incID_def split: option.split)
qed

lemma chanEvent_reset: "length (chanEvent (reset r td)) = length (chanEvent td) + 1"
  by (simp add: reset_def chanEvent_frames)

lemma expectedID_reset: "expectedID (heap (reset r td) r) = 0"
  by (simp add: reset_def firstPacketID_def)

lemma chanEvent_packetDataProcess:
  "length (chanEvent (packetDataProcess now p r td)) \<le> max (length (chanEvent td) + 2) (chEventSize - 16)"
proof -
  have one: "length (chanEvent (packetDataProcess now p r td)) \<le> max (length (chanEvent td) + 1) (chEventSize - 16)"
    if "\<not> (ID p \<noteq> expectedID (heap td r) \<and> ID p = firstPacketID)" for td
    using that chanEvent_receiveQueueProcess [of r "sendEvent (Some r) EvGotData (Data p) (incID r td)"]
      chanEvent_receiveQueueProcess [of r "upd r (\<lambda>t. t\<lparr>receiveQueue := rq_Add p (receiveQueue t)\<rparr>) td"]
    by (subst packetDataProcess.simps)
      (auto simp: Let_def chanEvent_frames incID_def max_def split: option.split if_splits)
  show ?thesis
  proof (cases "ID p \<noteq> expectedID (heap td r) \<and> ID p = firstPacketID")
    case False
    then show ?thesis using one [of td] by auto
  next
    case True
    then have "ID p \<noteq> expectedID (heap td r)" "ID p = firstPacketID" by blast+
    then have "packetDataProcess now p r td = packetDataProcess now p r (reset r td)"
      by (subst packetDataProcess.simps) (auto simp: Let_def)
    then show ?thesis
      using one [of "reset r td"] True
      by (auto simp: expectedID_reset firstPacketID_def chanEvent_reset)
  qed
qed

lemma chanEvent_newChannelData:
  "newChannelData now a c cc sc td = (ro, k, td') \<Longrightarrow> length (chanEvent td') \<le> length (chanEvent td) + 1"
  by (auto simp: newChannelData_def Let_def sendEventConnected_def split: option.splits if_splits)

lemma chanEvent_writeFromQueue:
  "go_all (\<lambda>td'. chanEvent td' = chanEvent td) (writeFromQueue now r td)"
  by (rule go_all_mono [OF rx_frame_writeFromQueue]) (rule frame_nextRef(4))

lemma chanEvent_pac_process:
  "go_all (\<lambda>td'. length (chanEvent td') \<le> max (length (chanEvent td) + 3) (chEventSize - 16))
     (pac_process now a p td)"
proof -
  obtain ro k td1 where new: "newChannelData now a (int (Channel p)) (Type p = 0) True td = (ro, k, td1)"
    by (metis prod_cases3)
  note le = chanEvent_newChannelData [OF new]
  show ?thesis
  proof (cases ro)
    case None
    then show ?thesis using new le by (simp add: pac_process_def)
  next
    case (Some r)
    have data: "length (chanEvent (packetDataProcess now p r td2)) \<le> max (length (chanEvent td) + 3) (chEventSize - 16)"
      if "chanEvent td2 = chanEvent td1" for td2
      using chanEvent_packetDataProcess [of now p r td2] that le by simp
    have ack: "go_all (\<lambda>td'. length (chanEvent td') \<le> max (length (chanEvent td) + 3) (chEventSize - 16))
        (writeFromQueue now r td2)" if "chanEvent td2 = chanEvent td1" for td2
      by (rule go_all_mono [OF chanEvent_writeFromQueue]) (use that le in simp)
    show ?thesis
      unfolding pac_process_def new Some
      using le
      by (auto simp: Let_def chanEvent_frames chanEvent_reset intro!: data ack)
  qed
qed

section \<open>Giving up on a dead peer\<close>

lemma sq_resend_one:
  assumes "sq_invar s" and m: "map_of (sq_q s) e = Some d" and id: "ID p = ID (packet d)"
  shows "sq_Add now rtt p (sq_modify e (\<lambda>d. d\<lparr>packet := p\<rparr>) s) =
     sq_modify e (\<lambda>d. d\<lparr>packet := p, resendAttempt := resendAttempt d + 1, arrivalTime := now + rtt\<rparr>) s"
proof -
  have d: "(e, d) \<in> set (sq_q s)" using m by (rule map_of_SomeD)
  then have "sq_Find (ID (packet d)) s = Some (e, d)" using sq_Find_Some_iff [OF assms(1)] by blast
  then have "sq_idx s (ID p) = Some e" using id by (auto simp: sq_Find_def split: option.splits)
  moreover have "map_of (map (\<lambda>(e', d). (e', if e' = e then f d else d)) q) e = map_option f (map_of q e)"
    for f :: "sendQueueData \<Rightarrow> sendQueueData" and q by (induction q) auto
  ultimately have "sq_Find (ID p) (sq_modify e (\<lambda>d. d\<lparr>packet := p\<rparr>) s) = Some (e, d\<lparr>packet := p\<rparr>)"
    using m by (simp add: sq_Find_def sq_modify_def)
  then show ?thesis by (simp add: sq_Add_def) (simp add: sq_modify_def split_def comp_def)
qed

definition all_data :: "sendQueue \<Rightarrow> bool" where
  "all_data s \<longleftrightarrow> (\<forall>(e, d) \<in> set (sq_q s). sendQueueF (packet d))"

text \<open>One element of a pass: what the loop's body does to a packet that is due.\<close>

definition resend_one :: "time \<Rightarrow> chref \<Rightarrow> listElement \<Rightarrow> sendQueueData \<Rightarrow> TRUDP \<Rightarrow> TRUDP" where
  "resend_one now r e sqd td =
     (let p = updateTimestamp (Timestamp now) ((packet sqd)\<lparr>destoryF := False\<rparr>);
          td1 = upd r (\<lambda>t. t\<lparr>sendQueue := sq_modify e (\<lambda>d. d\<lparr>packet := p\<rparr>) (sendQueue t)\<rparr>) td
      in stat_repeat now True r (pac_writeTo now p r td1))"

lemma resend_loop_Cons:
  "resend_loop now r (e # es) td =
     (case map_of (sq_q (sendQueue (heap td r))) e of
        None \<Rightarrow> td
      | Some sqd \<Rightarrow>
          if \<not> arrivalTime sqd < now then stat_repeat now False r td
          else if maxResendAttempt \<le> resendAttempt sqd then snd (destroy r td)
          else resend_loop now r es (resend_one now r e sqd td))"
  by (cases "map_of (sq_q (sendQueue (heap td r))) e") (simp_all add: resend_one_def Let_def)

lemma sendQueue_stat_repeat [simp]:
  "sendQueue (heap (stat_repeat now b r td) r') = sendQueue (heap td r')"
  "stoppedF (heap (stat_repeat now b r td) r') = stoppedF (heap td r')"
  by (simp_all add: stat_repeat_def Let_def upd_packets_def upd_def)

lemma stoppedF_writeTo [simp]: "stoppedF (heap (pac_writeTo now p r td) r') = stoppedF (heap td r')"
  by (simp add: pac_writeTo_def Let_def stat_send_def upd_packets_def upd_def)

lemma sendQueue_writeTo:
  "sendQueueF p \<Longrightarrow> sendQueue (heap (pac_writeTo now p r td) r) =
     sq_Add now (sendQueueRttTime (stat (heap td r))) p (sendQueue (heap td r))"
  by (simp add: pac_writeTo_def Let_def stat_send_def upd_packets_def upd_def)

lemma sendQueueRttTime_le: "sendQueueRttTime s \<le> 530 * Millisecond"
  by (auto simp: sendQueueRttTime_def maxRTT_def defaultRTT_def Millisecond_def floor_le_iff)

lemma resend_one_queue:
  assumes ok: "sq_invar (sendQueue (heap td r))" "all_data (sendQueue (heap td r))"
    and m: "map_of (sq_q (sendQueue (heap td r))) e = Some sqd"
  shows "\<exists>p rtt. sendQueueF p \<and> ID p = ID (packet sqd) \<and> rtt \<le> 530 * Millisecond \<and>
     sendQueue (heap (resend_one now r e sqd td) r) =
       sq_modify e (\<lambda>d. d\<lparr>packet := p, resendAttempt := resendAttempt d + 1, arrivalTime := now + rtt\<rparr>)
         (sendQueue (heap td r))"
proof -
  let ?p = "updateTimestamp (Timestamp now) ((packet sqd)\<lparr>destoryF := False\<rparr>)"
  have "(e, sqd) \<in> set (sq_q (sendQueue (heap td r)))" using m by (rule map_of_SomeD)
  then have f: "sendQueueF ?p" using ok(2) by (auto simp: all_data_def updateTimestamp_def Let_def)
  have id: "ID ?p = ID (packet sqd)" by (rule updateTimestamp_destory)
  show ?thesis
    using f id sendQueueRttTime_le sq_resend_one [OF ok(1) m id]
    by (intro exI [of _ ?p] exI [of _ "sendQueueRttTime (stat (heap td r))"])
      (simp add: resend_one_def Let_def sendQueue_writeTo)
qed

lemma all_data_modify:
  "all_data s \<Longrightarrow> (\<And>d. sendQueueF (packet (f d))) \<Longrightarrow> all_data (sq_modify e f s)"
  by (fastforce simp: all_data_def sq_modify_def)

lemma sq_invar_resend:
  assumes "sq_invar s" and "map_of (sq_q s) e = Some sqd" and "ID p = ID (packet sqd)"
  shows "sq_invar (sq_modify e (\<lambda>d. d\<lparr>packet := p, resendAttempt := n d, arrivalTime := a\<rparr>) s)"
proof (rule sq_invar_modify [OF assms(1)])
  fix d assume "(e, d) \<in> set (sq_q s)"
  moreover have "(e, sqd) \<in> set (sq_q s)" using assms(2) by (rule map_of_SomeD)
  ultimately have "d = sqd" using assms(1) unfolding sq_invar_def by (metis eq_key_imp_eq_value)
  then show "ID (packet (d\<lparr>packet := p, resendAttempt := n d, arrivalTime := a\<rparr>)) = ID (packet d)"
    using assms(3) by simp
qed

text \<open>What a pass keeps of the element in front, once the loop is past it.\<close>

lemma resend_loop_stopped: "stoppedF (heap td r) \<Longrightarrow> stoppedF (heap (resend_loop now r es td) r)"
proof (induction es arbitrary: td)
  case (Cons e es)
  have "stoppedF (heap (resend_one now r e sqd td) r)" for sqd
    using Cons.prems by (simp add: resend_one_def Let_def)
  then show ?case using Cons unfolding resend_loop_Cons
    by (simp add: destroy_def split: option.split)
qed simp

definition front :: "chref \<Rightarrow> listElement \<Rightarrow> sendQueueData \<Rightarrow> TRUDP \<Rightarrow> bool" where
  "front r e d td \<longleftrightarrow> (\<exists>rest. sq_q (sendQueue (heap td r)) = (e, d) # rest)
     \<and> sq_invar (sendQueue (heap td r)) \<and> all_data (sendQueue (heap td r))"

lemma destroy_stops: "stoppedF (heap (snd (destroy r td)) r)"
  by (simp add: destroy_def Let_def writeQueueReset_def)

lemma resend_loop_front:
  "front r e d td \<Longrightarrow> e \<notin> set es \<Longrightarrow>
     stoppedF (heap (resend_loop now r es td) r) \<or> front r e d (resend_loop now r es td)"
proof (induction es arbitrary: td)
  case (Cons e1 es)
  have ok: "sq_invar (sendQueue (heap td r))" "all_data (sendQueue (heap td r))"
    using Cons.prems(1) by (auto simp: front_def)
  show ?case
  proof (cases "map_of (sq_q (sendQueue (heap td r))) e1")
    case None
    then show ?thesis using Cons.prems by (simp add: resend_loop_Cons)
  next
    case (Some sqd)
    obtain p rtt where p: "sendQueueF p" "ID p = ID (packet sqd)"
      "sendQueue (heap (resend_one now r e1 sqd td) r) =
       sq_modify e1 (\<lambda>d. d\<lparr>packet := p, resendAttempt := resendAttempt d + 1, arrivalTime := now + rtt\<rparr>)
         (sendQueue (heap td r))"
      using resend_one_queue [OF ok Some] by blast
    have "front r e d (resend_one now r e1 sqd td)"
      using Cons.prems p(1) sq_invar_resend [OF ok(1) Some p(2)] all_data_modify [OF ok(2)]
      by (auto simp: front_def p(3) sq_modify_def)
    then have "stoppedF (heap (resend_loop now r es (resend_one now r e1 sqd td)) r)
        \<or> front r e d (resend_loop now r es (resend_one now r e1 sqd td))"
      using Cons.IH Cons.prems(2) by simp
    moreover have "front r e d (stat_repeat now False r td)"
      using Cons.prems(1) by (simp add: front_def)
    ultimately show ?thesis
      using Some destroy_stops unfolding resend_loop_Cons by simp
  qed
qed simp

definition resend_pass :: "chref \<Rightarrow> time \<Rightarrow> TRUDP \<Rightarrow> TRUDP" where
  "resend_pass r now td = snd (sendQueueResendProcess now r td)"

text \<open>A pass at which the front packet is due counts one more attempt, or stops the channel.\<close>

lemma resend_pass_front:
  assumes f: "front r e d td" and due: "arrivalTime d < now"
  shows "stoppedF (heap (resend_pass r now td) r) \<or>
     (\<exists>d'. front r e d' (resend_pass r now td) \<and> resendAttempt d < maxResendAttempt
        \<and> resendAttempt d' = resendAttempt d + 1 \<and> arrivalTime d' \<le> now + 530 * Millisecond)"
proof -
  obtain rest where q: "sq_q (sendQueue (heap td r)) = (e, d) # rest"
    and ok: "sq_invar (sendQueue (heap td r))" "all_data (sendQueue (heap td r))"
    using f by (auto simp: front_def)
  have m: "map_of (sq_q (sendQueue (heap td r))) e = Some d" by (simp add: q)
  have pass: "resend_pass r now td = resend_loop now r (e # map fst rest) td"
    by (simp add: resend_pass_def sendQueueResendProcess_def Let_def q del: resend_loop.simps)
  have e: "e \<notin> set (map fst rest)" using ok(1) q by (simp add: sq_invar_def)
  show ?thesis
  proof (cases "maxResendAttempt \<le> resendAttempt d")
    case True
    then show ?thesis using m due destroy_stops unfolding pass resend_loop_Cons by simp
  next
    case False
    obtain p rtt where p: "sendQueueF p" "ID p = ID (packet d)" "rtt \<le> 530 * Millisecond"
      "sendQueue (heap (resend_one now r e d td) r) =
       sq_modify e (\<lambda>d. d\<lparr>packet := p, resendAttempt := resendAttempt d + 1, arrivalTime := now + rtt\<rparr>)
         (sendQueue (heap td r))"
      using resend_one_queue [OF ok m] by blast
    let ?d = "d\<lparr>packet := p, resendAttempt := resendAttempt d + 1, arrivalTime := now + rtt\<rparr>"
    let ?s = "sq_modify e (\<lambda>d. d\<lparr>packet := p, resendAttempt := resendAttempt d + 1, arrivalTime := now + rtt\<rparr>)
         (sendQueue (heap td r))"
    have "sq_invar ?s" "all_data ?s"
      using sq_invar_resend [OF ok(1) m p(2)] all_data_modify [OF ok(2)] p(1) by simp_all
    moreover have "\<exists>rest'. sq_q ?s = (e, ?d) # rest'" by (simp add: sq_modify_def q)
    ultimately have "front r e ?d (resend_one now r e d td)"
      unfolding front_def p(4) by blast
    from resend_loop_front [OF this e] show ?thesis
      using False m due p(3) unfolding pass resend_loop_Cons by fastforce
  qed
qed

lemma resend_passes:
  "front r e d td \<Longrightarrow> arrivalTime d < t \<Longrightarrow> sorted_wrt (\<lambda>a b. a + 530 * Millisecond < b) (t # ts) \<Longrightarrow>
     maxResendAttempt < resendAttempt d + length (t # ts) \<Longrightarrow>
     stoppedF (heap (fold (resend_pass r) (t # ts) td) r)"
proof (induction ts arbitrary: t d td)
  case Nil
  then show ?case using resend_pass_front [OF Nil(1,2)] by auto
next
  case (Cons t2 ts)
  let ?td1 = "resend_pass r t td"
  have stopped: "stoppedF (heap (fold (resend_pass r) us td1) r)" if "stoppedF (heap td1 r)" for us td1
    using that
  proof (induction us arbitrary: td1)
    case (Cons u us)
    then show ?case using resend_loop_stopped
      by (simp add: resend_pass_def sendQueueResendProcess_def Let_def)
  qed simp
  from resend_pass_front [OF Cons.prems(1,2)] show ?case
  proof (elim disjE exE conjE)
    assume "stoppedF (heap ?td1 r)"
    then show ?thesis using stopped [of ?td1 "t2 # ts"] by simp
  next
    fix d' assume d': "front r e d' ?td1" "resendAttempt d' = resendAttempt d + 1"
      "arrivalTime d' \<le> t + 530 * Millisecond"
    have "stoppedF (heap (fold (resend_pass r) (t2 # ts) ?td1) r)"
      by (rule Cons.IH [OF d'(1)]) (use Cons.prems(3,4) d' in auto)
    then show ?thesis by simp
  qed
qed

section \<open>Packets out of the stream's start\<close>

text \<open>
  A data packet with id 0 on a channel that expects another id restarts the stream, also when
  it is only the repetition of a packet 0 whose ACK was lost: the channel is reset and the
  packet delivered again.
\<close>

lemma packet_0_restarts:
  assumes "ID p = 0" and "expectedID (heap td r) \<noteq> 0"
  shows "chanEvent (packetDataProcess now p r td) = chanEvent td
      @ [\<lparr> Tcd = Some r, Event = EvResetLocal, EvData = [] \<rparr>,
         \<lparr> Tcd = Some r, Event = EvGotData, EvData = Data p \<rparr>]
    \<and> expectedID (heap (packetDataProcess now p r td) r) = 1
    \<and> lastID (heap (packetDataProcess now p r td) r) = 0
    \<and> sq_Len (sendQueue (heap (packetDataProcess now p r td) r)) = 0"
proof -
  have 1: "packetDataProcess now p r td = packetDataProcess now p r (reset r td)"
    using assms by (subst packetDataProcess.simps) (auto simp: Let_def firstPacketID_def)
  let ?td1 = "sendEvent (Some r) EvGotData (Data p) (incID r (reset r td))"
  have n0: "nextID 0 = 1" by (simp add: nextID_def)
  have q: "receiveQueue (heap ?td1 r) = Map.empty"
    by (simp add: incID_def reset_def writeQueueReset_def receiveQueueInit_def)
  then have "snd (receiveQueueProcess r ?td1) = ?td1"
    by (subst receiveQueueProcess.simps) (simp add: Let_def rq_Find_def)
  then have "packetDataProcess now p r (reset r td) = ?td1"
    using assms by (subst packetDataProcess.simps) (simp add: Let_def expectedID_reset)
  then show ?thesis unfolding 1
    by (simp add: incID_def reset_def chanEvent_frames writeQueueReset_def firstPacketID_def n0)
qed

text \<open>
  A data packet with another id that arrives before packet 0 is answered with RESET and not
  kept: on RESET the sender clears its send queue, so what was in flight is lost.
\<close>

lemma early_packet_resets_sender:
  assumes "ID p \<noteq> 0" and "expectedID (heap td r) = 0"
  shows "packetDataProcess now p r td =
     sendEvent (Some r) EvSendReset [] (pac_writeTo now (newReset (Timestamp now) p) r td)"
  using assms by (subst packetDataProcess.simps) (simp add: Let_def firstPacketID_def)

text \<open>
  An ACK whose id is not in the send queue (a second ACK of the same packet) still sends one
  waiting write, so the send queue can grow past its size.
\<close>

lemma duplicate_ack_overruns_window:
  assumes "td_ok td" and "sq_Find i (sendQueue (heap td r)) = None"
    and "writeQueue (heap td r) = [w]" and "writable w" and "wtcd w = r"
    and "int (sq_Len (sendQueue (heap td r))) = maxQueueSize (heap td r)"
    and "sq_Find (lastID (heap td r)) (sendQueue (heap td r)) = None"
  shows "\<exists>td'. writeFromQueue now r (upd r (\<lambda>t. t\<lparr>sendQueue := sq_Remove i (sendQueue t)\<rparr>) td) = Inr td'
     \<and> \<not> window_ok r td'"
proof -
  let ?td0 = "upd r (\<lambda>t. t\<lparr>sendQueue := sq_Remove i (sendQueue t)\<rparr>) td"
  let ?td1 = "upd r (\<lambda>t. t\<lparr>writeQueue := []\<rparr>) ?td0"
  obtain td' where td': "writeToDirect now w ?td1 = Inr td'" "sent_one now w ?td1 td'"
    using sent_one_writeToDirect [OF assms(4)] by blast
  have r: "sq_Remove i (sendQueue (heap td r)) = sendQueue (heap td r)"
    using assms(2) by (simp add: sq_Remove_def)
  have "writeFromQueue now r ?td0 = Inr td'"
    using td'(1) assms(3) by (simp add: writeFromQueue_def)
  moreover have "sq_Len (sendQueue (heap td' r)) = sq_Len (sendQueue (heap td r)) + 1"
    using td'(2) assms(5,7) r sq_Len_Add_new [OF td_okD(2) [OF assms(1), of r]] data_packet_fields(2) [OF assms(4)]
    by (simp add: sent_one_def Let_def)
  moreover have "maxQueueSize (heap td' r) = maxQueueSize (heap td r)"
    using td'(2) assms(5) by (simp add: sent_one_def Let_def)
  ultimately show ?thesis using assms(6) by (simp add: window_ok_def)
qed

section \<open>Keep alive\<close>

lemma keepAlive_no_panic: "\<exists>td'. keepAlive now r td = Inr td'"
proof -
  have e: "bytes_of echoMsg \<noteq> []" and h: "helloMsg \<noteq> []" by (simp_all add: echoMsg_def helloMsg_def)
  then show ?thesis
    by (simp add: keepAlive_def newPing_def newData_def Let_def split_def)
qed

lemma heap_writeTo_ping:
  "\<not> sendQueueF p \<Longrightarrow> heap (pac_writeTo now p r td) = heap td"
  by (simp add: pac_writeTo_def Let_def)

lemma keepAlive_silent_peer:
  assumes "disconnectTime \<le> now - lastTimeReceived (stat (heap td r))"
    and "\<not> sendTestMsgF (heap td r)" and "keepAlive now r td = Inr td'"
  shows "stoppedF (heap td' r)"
proof -
  have same: "\<not> sendTestMsgF (heap (snd (destroy r td1)) r)" if "heap td1 = heap td" for td1
    using assms(2) that by (simp add: destroy_def Let_def writeQueueReset_def)
  have "bytes_of echoMsg \<noteq> []" by (simp add: echoMsg_def)
  then show ?thesis
    using assms same destroy_stops
    by (auto simp: keepAlive_def newPing_def Let_def heap_writeTo_ping split: if_splits)
qed

section \<open>Properties\<close>



text \<open>Writes leave in the order they came. Of the writes that wait in a channel's write queue
  when an ACK arrives, the worker sends the first n, at least one, each as a data packet with the next
  id after the one before, answers each writer with true, leaves the rest in the queue, and stops only
  because the queue is empty or the send queue is full.\<close>

lemma writes_in_order:
  assumes "\<forall>w \<in> set (writeQueue (heap td r)). wtcd w = r \<and> writable w"
  shows "\<exists>n td'. writeFromQueue now r td = Inr td' \<and> sent_many now r n td td'
     \<and> (writeQueue (heap td r) \<noteq> [] \<longrightarrow> 0 < n)
     \<and> (n < length (writeQueue (heap td r)) \<longrightarrow> \<not> canWrite r td')"
  using write_loop_spec [OF refl assms, of now True] by (simp add: writeFromQueue_def)

lemma writes_in_order_example:
  "let td = upd 0 (\<lambda>t. t\<lparr>writeQueue := [\<lparr> wtcd = 0, wdata = Some [7], chanAnswer = 3 \<rparr>]\<rparr>) (trudp_init ''me'')
   in \<exists>n td'. writeFromQueue 5 0 td = Inr td' \<and> sent_many 5 0 n td td'
     \<and> (writeQueue (heap td 0) \<noteq> [] \<longrightarrow> 0 < n)
     \<and> (n < length (writeQueue (heap td 0)) \<longrightarrow> \<not> canWrite 0 td')"
  unfolding Let_def by (rule writes_in_order) (simp add: writable_def)

text \<open>C6: the send window. A write from the user level and an ACK of a packet that waits keep the number
  of packets without ACK within the channel's queue size.\<close>

theorem window_kept:
  assumes "td_ok td" and "window_ok r td" and "wtcd w = r"
    and "sq_Find i (sendQueue (heap td r)) \<noteq> None"
  shows "go_all (window_ok r) (proc_writeTo now w td)
    \<and> go_all (window_ok r)
        (writeFromQueue now r (upd r (\<lambda>t. t\<lparr>sendQueue := sq_Remove i (sendQueue t)\<rparr>) td))"
proof
  show "go_all (window_ok r) (proc_writeTo now w td)"
    using window_proc_writeTo [of w td now] assms(2,3) by simp
  have can: "canWrite r (upd r (\<lambda>t. t\<lparr>sendQueue := sq_Remove i (sendQueue t)\<rparr>) td)"
    by (rule canWrite_after_ack [OF td_okD(2) [OF assms(1)] assms(4,2)])
  then show "go_all (window_ok r)
        (writeFromQueue now r (upd r (\<lambda>t. t\<lparr>sendQueue := sq_Remove i (sendQueue t)\<rparr>) td))"
    unfolding writeFromQueue_def
    by (intro window_write_loop)
      (use td_okD(3) [OF assms(1)] in \<open>auto simp: canWrite_def window_ok_def\<close>)
qed

theorem window_kept_witness:
  "let p = \<lparr> pdata = headerCreate 0 0 1 1 7 @ [9], sendQueueF = True, destoryF = True \<rparr>;
       w = \<lparr> wtcd = 0, wdata = Some [7], chanAnswer = 3 \<rparr>;
       td = upd 0 (\<lambda>t. t\<lparr>sendQueue := sq_Add 0 30 p sendQueueInit, maxQueueSize := 1\<rparr>) (trudp_init ''me'')
   in go_all (window_ok 0) (proc_writeTo 5 w td)
    \<and> go_all (window_ok 0)
        (writeFromQueue 5 0 (upd 0 (\<lambda>t. t\<lparr>sendQueue := sq_Remove 0 (sendQueue t)\<rparr>) td))"
  unfolding Let_def
proof (rule window_kept, goal_cases)
  case 1
  show ?case
    by (rule td_ok_upd [OF td_ok_init])
      (simp_all add: chan_ok_def sq_invar_Add sq_invar_init trudp_init_def newChannel_def)
qed (simp_all add: window_ok_def sq_Add_def sq_Find_def sendQueueInit_def sq_Len_def ID_def pac_header_def)

text \<open>C37: giving up. While the packet in front of a channel's send queue gets no ACK, each resend pass at
  which it is due (passes more than 530 ms apart are) counts an attempt; at the latest after the pass
  that finds 50 attempts the channel is stopped, so no more than 51 passes from the first.\<close>

theorem resend_gives_up:
  assumes "front r e d td" and "arrivalTime d < t"
    and "sorted_wrt (\<lambda>a b. a + 530 * Millisecond < b) (t # ts)"
    and "maxResendAttempt < resendAttempt d + length (t # ts)"
  shows "stoppedF (heap (fold (resend_pass r) (t # ts) td) r)"
  by (rule resend_passes [OF assms])

theorem resend_gives_up_witness:
  "let p = \<lparr> pdata = headerCreate 0 0 1 1 7 @ [9], sendQueueF = True, destoryF = True \<rparr>;
       d = \<lparr> packet = p, sendTime = 0, arrivalTime = 30, resendAttempt = 49 \<rparr>;
       td = upd 0 (\<lambda>t. t\<lparr>sendQueue := \<lparr> sq_q = [(0, d)], sq_idx = [0 \<mapsto> 0], sq_fresh = 1 \<rparr>\<rparr>)
              (trudp_init ''me'')
   in stoppedF (heap (fold (resend_pass 0) [40, 600000000] td) 0)"
  unfolding Let_def
  by (rule resend_gives_up [where e = 0 and d = "\<lparr> packet = \<lparr> pdata = headerCreate 0 0 1 1 7 @ [9],
        sendQueueF = True, destoryF = True \<rparr>, sendTime = 0, arrivalTime = 30, resendAttempt = 49 \<rparr>"])
    (auto simp: front_def sq_invar_def all_data_def maxResendAttempt_def Millisecond_def ID_def pac_header_def)

text \<open>C40: the adaptive size of the send queue stays between 1 and 2175 whatever the statistic says at
  each of any number of timer ticks, starting from any size in that range (the default is 256).\<close>

theorem queue_size_bounded:
  assumes "1 \<le> maxQueueSize t" and "maxQueueSize t \<le> 2175"
  shows "let t' = fold (\<lambda>s t. calculateLength (t\<lparr>stat := s\<rparr>)) stats t
     in 1 \<le> maxQueueSize t' \<and> maxQueueSize t' \<le> 2175"
  using sizes.run_inv [of t stats] assms by (simp add: size_ok_def Let_def)

theorem queue_size_bounded_witness:
  "let t = newChannel 0 ''h'' 1 ''h:1'' DefaultQueueSize;
       t' = fold (\<lambda>s t. calculateLength (t\<lparr>stat := s\<rparr>)) [stat t, stat t] t
     in 1 \<le> maxQueueSize t' \<and> maxQueueSize t' \<le> 2175"
  using queue_size_bounded [of "newChannel 0 ''h'' 1 ''h:1'' DefaultQueueSize"
      "[stat (newChannel 0 ''h'' 1 ''h:1'' DefaultQueueSize), stat (newChannel 0 ''h'' 1 ''h:1'' DefaultQueueSize)]"]
  by (simp add: newChannel_def DefaultQueueSize_def)

text \<open>The worker never blocks on the event channel while it processes a received packet: whatever the
  packet is and however many packets wait in the receive queue, the events it sends fit.\<close>

lemma read_fits_event_channel:
  assumes "length (chanEvent td) \<le> chEventSize"
  shows "go_all (\<lambda>td'. length (chanEvent td') \<le> chEventSize) (read_packet now td)"
proof (cases "chanReader td")
  case (Cons ap rest)
  obtain a p where ap: "ap = (a, p)" by (cases ap)
  show ?thesis
  proof (cases "sendEventAvailable (td\<lparr>chanReader := rest\<rparr>)")
    case True
    then have "length (chanEvent (td\<lparr>chanReader := rest\<rparr>)) < chEventSize - 16"
      by (simp add: sendEventAvailable_def)
    then show ?thesis
      using Cons ap True go_all_mono [OF chanEvent_pac_process [of "td\<lparr>chanReader := rest\<rparr>" now a p]]
      by (simp add: read_packet_def)
  qed (use Cons ap assms in \<open>simp add: read_packet_def\<close>)
qed (use assms in \<open>simp add: read_packet_def\<close>)

lemma read_fits_event_channel_example:
  "go_all (\<lambda>td'. length (chanEvent td') \<le> chEventSize)
     (read_packet 5 ((trudp_init ''me'')\<lparr>chanReader := [(''h'', \<lparr> pdata = headerCreate 0 0 1 1 7 @ [9],
        sendQueueF = False, destoryF = False \<rparr>)]\<rparr>))"
  by (rule read_fits_event_channel) (simp add: trudp_init_def sendEvent_def chEventSize_def)

text \<open>A channel whose peer has been silent for three seconds is stopped by the next keep-alive
  tick, and the tick itself cannot panic.\<close>

lemma silent_peer_disconnected:
  assumes "disconnectTime \<le> now - lastTimeReceived (stat (heap td r))"
    and "\<not> sendTestMsgF (heap td r)"
  shows "\<exists>td'. keepAlive now r td = Inr td' \<and> stoppedF (heap td' r)"
  using keepAlive_no_panic [of now r td] keepAlive_silent_peer [OF assms] by blast

lemma silent_peer_disconnected_example:
  "\<exists>td'. keepAlive 3000000000 0 (trudp_init ''me'') = Inr td' \<and> stoppedF (heap td' 0)"
  by (rule silent_peer_disconnected)
    (simp_all add: trudp_init_def newChannel_def disconnectTime_def disconnectAfter_def Millisecond_def)

end
