(* ===== verification/CdbCli.thy ===== *)
theory CdbCli
  imports Prelude "HOL-Library.List_Lexorder" "HOL-Library.Char_ord"
begin

text \<open>
  The client package of the key-value database: \<open>services/teocdbcli\<close> (\<open>key_value.go\<close>,
  \<open>key_list.go\<close>, \<open>plugin.go\<close>, \<open>teocdbcli.go\<close>): the packets of requests and answers, in
  binary and in text, and the request of the client.

  A nil slice and an empty one are not told apart by this code: both are \<open>[]\<close>. JSON
  (\<open>encoding/json\<close>, with reflection and floats) is a parameter, see \<open>jsonData\<close>.
\<close>

section \<open>Standard library: strings\<close>

text \<open>\<open>strings.Split(s, sep)\<close> for a separator of one character.\<close>

fun Split :: "char \<Rightarrow> string \<Rightarrow> string list" where
  "Split c [] = [[]]"
| "Split c (x # xs) =
     (if x = c then [] # Split c xs
      else case Split c xs of [] \<Rightarrow> [[x]] | s # ss \<Rightarrow> (x # s) # ss)"

fun Join :: "char \<Rightarrow> string list \<Rightarrow> string" where
  "Join c [] = []"
| "Join c [s] = s"
| "Join c (s # ss) = s @ c # Join c ss"

text \<open>
  \<open>strconv.Atoi\<close>: a sign and decimal digits; the value is 0 for anything else, and the nearest
  64-bit integer when the number is out of range (both with an error).
\<close>

definition parse_digits :: "string \<Rightarrow> nat option" where
  "parse_digits s = (if s \<noteq> [] \<and> list_all is_digit s then Some (undec s) else None)"

definition Atoi :: "string \<Rightarrow> int \<times> bool" where
  "Atoi s =
     (let neg = (s \<noteq> [] \<and> hd s = CHR ''-'');
          digits = (if s \<noteq> [] \<and> (hd s = CHR ''-'' \<or> hd s = CHR ''+'') then tl s else s)
      in case parse_digits digits of
           None \<Rightarrow> (0, False)
         | Some n \<Rightarrow>
             let v = (if neg then - int n else int n)
             in if v < - (2 ^ 63) then (- (2 ^ 63), False)
                else if v \<ge> 2 ^ 63 then (2 ^ 63 - 1, False)
                else (v, True))"

section \<open>Commands and helpers\<close>

definition CmdBinary :: u8 where "CmdBinary = 129"
definition CmdSet :: u8 where "CmdSet = 130"
definition CmdGet :: u8 where "CmdGet = 131"
definition CmdList :: u8 where "CmdList = 132"
definition CmdDelete :: u8 where "CmdDelete = 138"
definition CmdFunc :: u8 where "CmdFunc = 139"
definition CmdGetID :: u8 where "CmdGetID = 140"
definition CmdSetID :: u8 where "CmdSetID = 141"
definition CmdDeleteID :: u8 where "CmdDeleteID = 142"
definition CmdListBody :: u8 where "CmdListBody = 143"
definition CmdSetQueue :: u8 where "CmdSetQueue = 144"
definition CmdGetQueue :: u8 where "CmdGetQueue = 145"

definition cdb_removeTrailingZero :: "bytes \<Rightarrow> bytes" where
  "cdb_removeTrailingZero data = (if data \<noteq> [] \<and> last data = 0 then butlast data else data)"

definition cdb_dataIsJSON :: "bytes \<Rightarrow> bool" where
  "cdb_dataIsJSON data =
     (let data = cdb_removeTrailingZero data
      in 2 \<le> length data
         \<and> (data ! 0 = byte_of_char CHR ''{'' \<and> last data = byte_of_char CHR ''}''
            \<or> data ! 0 = byte_of_char CHR ''['' \<and> last data = byte_of_char CHR '']''))"

section \<open>KeyValue\<close>

record KeyValue =
  kv_Cmd :: u8
  kv_ID :: u32
  kv_Key :: string
  kv_Value :: bytes
  kv_RequestInJSON :: bool
  kv_Err :: string

definition kv_zero :: KeyValue where
  "kv_zero = \<lparr> kv_Cmd = 0, kv_ID = 0, kv_Key = [], kv_Value = [], kv_RequestInJSON = False, kv_Err = [] \<rparr>"

text \<open>\<open>Empty\<close> leaves the command as it is.\<close>

definition kv_Empty :: "KeyValue \<Rightarrow> KeyValue" where
  "kv_Empty kv = kv\<lparr>kv_ID := 0, kv_Key := [], kv_Value := [], kv_RequestInJSON := False, kv_Err := []\<rparr>"

definition kv_MarshalBinary :: "KeyValue \<Rightarrow> bytes" where
  "kv_MarshalBinary kv =
     [kv_Cmd kv] @ le32 (kv_ID kv)
     @ le16 (of_nat (length (kv_Key kv))) @ bytes_of (kv_Key kv)
     @ [of_nat (length (kv_Err kv))] @ bytes_of (kv_Err kv)
     @ kv_Value kv"

text \<open>The local functions \<open>ReadString\<close> and \<open>ReadShortString\<close>: zeros where the data end early.\<close>

definition ReadString :: "bytes \<Rightarrow> string \<times> bytes" where
  "ReadString r =
     (case rd_u16 r of (n, r) \<Rightarrow>
      case rd_fill (unat (or_old 0 n)) r of (d, r) \<Rightarrow> (string_of d, r))"

definition ReadShortString :: "bytes \<Rightarrow> string \<times> bytes" where
  "ReadShortString r =
     (case rd_u8 r of (n, r) \<Rightarrow>
      case rd_fill (unat (or_old 0 n)) r of (d, r) \<Rightarrow> (string_of d, r))"

text \<open>
  The length of the value is computed in \<open>int\<close> and converted to \<open>uint32\<close>: it wraps when the
  lengths of the strings exceed the packet.
\<close>

definition kv_UnmarshalBinary :: "bytes \<Rightarrow> KeyValue \<Rightarrow> KeyValue" where
  "kv_UnmarshalBinary data kv =
     (if data = [] then kv_Empty kv
      else
        case rd_u8 data of (cmd, r) \<Rightarrow>
        case rd_u32 r of (pid, r) \<Rightarrow>
        case ReadString r of (key, r) \<Rightarrow>
        case ReadShortString r of (err, r) \<Rightarrow>
        let n = int (length data) - 1 - 4 - (2 + int (length key)) - (1 + int (length err))
        in case rd_fill (unat (of_int n :: u32)) r of (val, _) \<Rightarrow>
           kv\<lparr>kv_Cmd := or_old (kv_Cmd kv) cmd, kv_ID := or_old (kv_ID kv) pid,
              kv_Key := key, kv_Err := err, kv_Value := val\<rparr>)"

text \<open>
  What the JSON decoder makes of a request: the key, the id (absent, a number converted to
  \<open>uint32\<close>, or something else), the value (absent, a string, or other JSON, which is encoded again
  or refused). And what the encoder makes of an answer.
\<close>

datatype json_id = IdNil | IdNumber u32 | IdOther
datatype json_value = ValNil | ValString string | ValOther "bytes option"

record jsonData =
  jd_Key :: string
  jd_ID :: json_id
  jd_Value :: json_value

record json =
  json_request :: "bytes \<Rightarrow> jsonData"
  json_answer :: "string \<Rightarrow> u32 \<Rightarrow> bytes \<Rightarrow> bytes option"
  json_strings :: "string list \<Rightarrow> bytes"

definition kv_MarshalText :: "json \<Rightarrow> KeyValue \<Rightarrow> bytes option" where
  "kv_MarshalText js kv =
     (if kv_RequestInJSON kv then json_answer js (kv_Key kv) (kv_ID kv) (kv_Value kv)
      else Some (bytes_of (kv_Key kv @ '','' @ itoa (unat (kv_ID kv)) @ '','' @ string_of (kv_Value kv))))"

definition kv_UnmarshalText :: "json \<Rightarrow> bytes \<Rightarrow> KeyValue \<Rightarrow> string option \<times> KeyValue" where
  "kv_UnmarshalText js txt kv =
     (if txt = [] then (None, kv_Empty kv)
      else if cdb_dataIsJSON txt then
        let v = json_request js txt;
            kv = kv\<lparr>kv_RequestInJSON := True\<rparr>
        in if jd_Key v = [] then (Some ''empty key'', kv)
           else
             let kv = kv\<lparr>kv_Key := jd_Key v\<rparr>
             in case jd_ID v of
                  IdOther \<Rightarrow> (Some ''can't unmarshal json ID'', kv)
                | i \<Rightarrow>
                    let kv = kv\<lparr>kv_ID := (case i of IdNumber n \<Rightarrow> n | _ \<Rightarrow> 0)\<rparr>
                    in case jd_Value v of
                         ValNil \<Rightarrow> (None, kv\<lparr>kv_Value := []\<rparr>)
                       | ValString s \<Rightarrow> (None, kv\<lparr>kv_Value := bytes_of s\<rparr>)
                       | ValOther (Some b) \<Rightarrow> (None, kv\<lparr>kv_Value := b\<rparr>)
                       | ValOther None \<Rightarrow> (Some ''can't marshal value'', kv\<lparr>kv_Value := []\<rparr>)
      else
        let kv = kv\<lparr>kv_RequestInJSON := False, kv_ID := 0\<rparr>
        in case Split CHR '','' (string_of txt) of
             [k] \<Rightarrow> (None, kv\<lparr>kv_Key := k, kv_Value := []\<rparr>)
           | [k, x] \<Rightarrow>
               (if kv_Cmd kv = CmdGet
                then (None, kv\<lparr>kv_Key := k, kv_ID := of_int (fst (Atoi x))\<rparr>)
                else (None, kv\<lparr>kv_Key := k, kv_Value := bytes_of x\<rparr>))
           | [k, i, x] \<Rightarrow>
               (None, kv\<lparr>kv_Key := k, kv_ID := of_int (fst (Atoi i)), kv_Value := bytes_of x\<rparr>)
           | _ \<Rightarrow> (Some ''not enough parameters in text request'', kv))"

section \<open>KeyList\<close>

type_synonym KeyList = "string list"

definition kl_Append :: "string list \<Rightarrow> KeyList \<Rightarrow> KeyList" where
  "kl_Append ks k = k @ ks"

fun kl_string_loop :: "nat \<Rightarrow> string list \<Rightarrow> string \<Rightarrow> string" where
  "kl_string_loop i [] str = str"
| "kl_string_loop i (s # ss) str =
     kl_string_loop (i + 1) ss ((if i > 0 then str @ [CHR 0x0A] else str) @ s)"

definition kl_String :: "KeyList \<Rightarrow> string" where
  "kl_String k = kl_string_loop 0 k []"

fun kl_marshal_loop :: "nat \<Rightarrow> string list \<Rightarrow> bytes \<Rightarrow> bytes" where
  "kl_marshal_loop i [] d = d"
| "kl_marshal_loop i (s # ss) d =
     kl_marshal_loop (i + 1) ss ((if i > 0 then d @ [0] else d) @ bytes_of s)"

definition kl_MarshalBinary :: "KeyList \<Rightarrow> bytes" where
  "kl_MarshalBinary k = kl_marshal_loop 0 k []"

definition kl_UnmarshalBinary :: "bytes \<Rightarrow> KeyList \<Rightarrow> KeyList" where
  "kl_UnmarshalBinary data k = (if data = [] then k else Split (CHR 0x00) (string_of data))"

text \<open>\<open>MarshalJSON\<close> sorts the keys in place.\<close>

definition kl_MarshalJSON :: "json \<Rightarrow> KeyList \<Rightarrow> bytes \<times> KeyList" where
  "kl_MarshalJSON js k = (let k = sort k in (json_strings js k, k))"

section \<open>Plugin\<close>

record Plugin =
  pl_ID :: u32
  pl_Name :: string
  pl_Func :: string
  pl_Params :: "string list"
  pl_RequestInJSON :: bool

definition pl_zero :: Plugin where
  "pl_zero = \<lparr> pl_ID = 0, pl_Name = [], pl_Func = [], pl_Params = [], pl_RequestInJSON = False \<rparr>"

definition pl_Empty :: "Plugin \<Rightarrow> Plugin" where
  "pl_Empty p = p\<lparr>pl_ID := 0, pl_Name := [], pl_Func := [], pl_Params := [], pl_RequestInJSON := False\<rparr>"

definition enc_string :: "string \<Rightarrow> bytes" where
  "enc_string s = le16 (of_nat (length s)) @ bytes_of s"

definition pl_MarshalBinary :: "Plugin \<Rightarrow> bytes" where
  "pl_MarshalBinary p =
     le32 (pl_ID p) @ enc_string (pl_Name p) @ enc_string (pl_Func p)
     @ le16 (of_nat (length (pl_Params p))) @ concat (map enc_string (pl_Params p))"

fun ReadStrings :: "nat \<Rightarrow> bytes \<Rightarrow> string list \<times> bytes" where
  "ReadStrings 0 r = ([], r)"
| "ReadStrings (Suc n) r =
     (case ReadString r of (s, r) \<Rightarrow> case ReadStrings n r of (ss, r) \<Rightarrow> (s # ss, r))"

text \<open>\<open>binary.Read\<close> of a \<open>bool\<close> takes a byte; anything but zero is true.\<close>

definition pl_UnmarshalBinary :: "bytes \<Rightarrow> Plugin \<Rightarrow> Plugin" where
  "pl_UnmarshalBinary data p =
     (if data = [] then pl_Empty p
      else
        case rd_u32 data of (pid, r) \<Rightarrow>
        case ReadString r of (name, r) \<Rightarrow>
        case ReadString r of (func, r) \<Rightarrow>
        case rd_u16 r of (numP, r) \<Rightarrow>
        case ReadStrings (unat (or_old 0 numP)) r of (ps, r) \<Rightarrow>
        case rd_u8 r of (b, _) \<Rightarrow>
          p\<lparr>pl_ID := or_old (pl_ID p) pid, pl_Name := name, pl_Func := func,
            pl_Params := pl_Params p @ ps,
            pl_RequestInJSON := or_old (pl_RequestInJSON p) (map_option (\<lambda>x. x \<noteq> 0) b)\<rparr>)"

section \<open>The client\<close>

record TeocdbCli =
  cli_peerName :: string
  cli_nextID :: u32

definition cdb_New :: "string list \<Rightarrow> TeocdbCli" where
  "cdb_New peer = \<lparr> cli_peerName = (case peer of p # _ \<Rightarrow> p | [] \<Rightarrow> ''teo-cdb''), cli_nextID = 0 \<rparr>"

text \<open>
  The connector is a parameter: sending to a peer (an error or not), and waiting for an answer
  that a check function accepts (an error or the data).
\<close>

record connector =
  con_SendTo :: "string \<Rightarrow> u8 \<Rightarrow> bytes \<Rightarrow> string option"
  con_WaitFrom :: "string \<Rightarrow> u8 \<Rightarrow> (bytes \<Rightarrow> bool) \<Rightarrow> string + bytes"

definition cdb_request :: "u8 \<Rightarrow> string \<Rightarrow> bytes list \<Rightarrow> u32 \<Rightarrow> KeyValue" where
  "cdb_request cmd key val rid =
     kv_zero\<lparr>kv_Cmd := cmd, kv_ID := rid, kv_Key := key, kv_Value := concat val\<rparr>"

definition response_check :: "u32 \<Rightarrow> bytes \<Rightarrow> bool" where
  "response_check rid data \<longleftrightarrow> kv_ID (kv_UnmarshalBinary data kv_zero) = rid"

definition cdb_Send :: "connector \<Rightarrow> u8 \<Rightarrow> string \<Rightarrow> bytes list \<Rightarrow> TeocdbCli
    \<Rightarrow> (bytes \<times> string option) \<times> TeocdbCli" where
  "cdb_Send con cmd key val cdb =
     (let nextID = cli_nextID cdb + 1;
          cdb = cdb\<lparr>cli_nextID := nextID\<rparr>;
          d = kv_MarshalBinary (cdb_request cmd key val nextID)
      in case con_SendTo con (cli_peerName cdb) CmdBinary d of
           Some err \<Rightarrow> (([], Some err), cdb)
         | None \<Rightarrow>
             (case con_WaitFrom con (cli_peerName cdb) CmdBinary (response_check nextID) of
                Inl err \<Rightarrow> (([], Some err), cdb)
              | Inr data \<Rightarrow>
                  let response = kv_UnmarshalBinary data kv_zero
                  in ((kv_Value response, if kv_Err response \<noteq> [] then Some (kv_Err response) else None), cdb)))"

section \<open>Lemmas\<close>

lemma Split_not_Nil [simp]: "Split c s \<noteq> []"
  by (induction s) (auto split: list.split)

lemma Split_free: "c \<notin> set s \<Longrightarrow> Split c s = [s]"
  by (induction s) auto

lemma Split_Cons_sep: "c \<notin> set s \<Longrightarrow> Split c (s @ c # r) = s # Split c r"
  by (induction s) auto

lemma Split_Join:
  "ss \<noteq> [] \<Longrightarrow> \<forall>s \<in> set ss. c \<notin> set s \<Longrightarrow> Split c (Join c ss) = ss"
  by (induction c ss rule: Join.induct) (auto simp: Split_free Split_Cons_sep)

lemma Join_Split: "Join c (Split c s) = s"
proof (induction s)
  case (Cons x xs)
  obtain y ys where "Split c xs = y # ys" by (meson Split_not_Nil neq_Nil_conv)
  then show ?case using Cons by (cases ys) auto
qed simp

lemma Join_Cons: "Join c (s # ss) = s @ (if ss = [] then [] else c # Join c ss)"
  by (cases ss) auto

text \<open>The printed form of a number is read back.\<close>

lemma parse_digits_itoa: "parse_digits (itoa n) = Some n"
  using itoa_digits by (auto simp: parse_digits_def list_all_iff)

lemma itoa_no_sign: "hd (itoa n) \<noteq> CHR ''-''" "hd (itoa n) \<noteq> CHR ''+''"
  using itoa_digits [of "hd (itoa n)" n] by (auto simp: is_digit_def)

lemma Atoi_itoa: "n < 2 ^ 63 \<Longrightarrow> Atoi (itoa n) = (int n, True)"
  by (simp add: Atoi_def itoa_no_sign parse_digits_itoa Let_def)

lemma Atoi_no_digit: "\<not> list_all is_digit s \<Longrightarrow> hd s \<noteq> CHR ''-'' \<Longrightarrow> hd s \<noteq> CHR ''+'' \<Longrightarrow> Atoi s = (0, False)"
  by (simp add: Atoi_def parse_digits_def)

text \<open>A string with its length in 16 bits is a codec; a list of them goes through \<open>ReadStrings\<close>.\<close>

definition dec_string :: "bytes \<Rightarrow> string option \<times> bytes" where
  "dec_string r = (case ReadString r of (s, r) \<Rightarrow> (Some s, r))"

lemma unat_of_length16: "n < 65536 \<Longrightarrow> unat (of_nat n :: u16) = n"
  by (simp add: unat_of_nat)

lemma ReadString_enc [codec_simps]:
  assumes "length s < 65536"
  shows "ReadString (le16 (of_nat (length s)) @ bytes_of s @ r) = (s, r)"
  using assms by (simp add: ReadString_def codec_simps unat_of_length16)

lemma ReadShortString_enc [codec_simps]:
  assumes "length s < 256"
  shows "ReadShortString (of_nat (length s) # bytes_of s @ r) = (s, r)"
proof -
  have "unat (of_nat (length s) :: u8) = length s" using assms by (simp add: unat_of_nat)
  then show ?thesis by (simp add: ReadShortString_def codec_simps)
qed

interpretation string_codec: codec enc_string dec_string "\<lambda>s. length s < 65536"
  by unfold_locales (simp add: enc_string_def dec_string_def codec_simps)

lemma rd_many_ReadStrings:
  "rd_many dec_string n r = (case ReadStrings n r of (ss, r') \<Rightarrow> (Some ss, r'))"
  by (induction n arbitrary: r) (auto simp: dec_string_def split: prod.splits)

lemma ReadStrings_enc [codec_simps]:
  assumes "list_all (\<lambda>s. length s < 65536) ss"
  shows "ReadStrings (length ss) (concat (map enc_string ss) @ r) = (ss, r)"
  using string_codec.rd_many_concat [OF assms, of r] by (auto simp: rd_many_ReadStrings split: prod.splits)

definition kv_wf :: "KeyValue \<Rightarrow> bool" where
  "kv_wf kv \<longleftrightarrow> length (kv_Key kv) < 65536 \<and> length (kv_Err kv) < 256 \<and> length (kv_Value kv) < 2 ^ 32"

lemma kv_Unmarshal_Marshal:
  assumes "kv_wf kv"
  shows "kv_UnmarshalBinary (kv_MarshalBinary kv) old =
     kv\<lparr>kv_RequestInJSON := kv_RequestInJSON old\<rparr>"
proof -
  let ?v = "length (kv_Value kv)"
  have u: "unat (of_nat ?v :: u32) = ?v"
    using assms by (simp add: kv_wf_def unat_of_nat)
  show ?thesis
    using assms u
    by (simp add: kv_UnmarshalBinary_def kv_MarshalBinary_def codec_simps kv_wf_def Let_def rd_fill_all)
qed

lemma kl_marshal_loop_spec:
  "kl_marshal_loop (Suc i) ss d = d @ concat (map (\<lambda>s. 0 # bytes_of s) ss)"
  by (induction ss arbitrary: i d) auto

lemma byte_of_char_0 [simp]: "byte_of_char (CHR 0x00) = 0"
  by (simp add: byte_of_char_def)

lemma bytes_of_Cons: "bytes_of (c # s) = byte_of_char c # bytes_of s"
  by (simp add: bytes_of_def)

lemma concat_Join: "ss \<noteq> [] \<Longrightarrow> concat (map (\<lambda>s. 0 # bytes_of s) ss) = 0 # bytes_of (Join (CHR 0x00) ss)"
proof (induction ss)
  case (Cons s ss)
  then show ?case by (cases "ss = []") (simp_all add: Join_Cons bytes_of_Cons)
qed simp

lemma kl_MarshalBinary_Join: "kl_MarshalBinary k = bytes_of (Join (CHR 0x00) k)"
proof (cases k)
  case (Cons s ss)
  then show ?thesis
    by (cases "ss = []") (simp_all add: kl_MarshalBinary_def kl_marshal_loop_spec concat_Join Join_Cons bytes_of_Cons)
qed (simp add: kl_MarshalBinary_def)

text \<open>What \<open>String\<close> prints is split at the line ends again.\<close>

lemma kl_string_loop_spec:
  "kl_string_loop (Suc i) ss d = d @ concat (map (\<lambda>s. CHR 0x0A # s) ss)"
  by (induction ss arbitrary: i d) auto

lemma concat_Join_nl: "ss \<noteq> [] \<Longrightarrow> concat (map (\<lambda>s. c # s) ss) = c # Join c ss"
proof (induction ss)
  case (Cons s ss)
  then show ?case by (cases "ss = []") (simp_all add: Join_Cons)
qed simp

lemma kl_String_Join: "kl_String k = Join (CHR 0x0A) k"
proof (cases k)
  case (Cons s ss)
  then show ?thesis
    by (cases "ss = []") (simp_all add: kl_String_def kl_string_loop_spec concat_Join_nl Join_Cons)
qed (simp add: kl_String_def)

lemma Join_eq_Nil: "Join c ss = [] \<longleftrightarrow> ss = [] \<or> ss = [[]]"
  by (cases ss) (auto simp: Join_Cons)

lemma pl_Unmarshal_Marshal:
  assumes "length (pl_Name p) < 65536" "length (pl_Func p) < 65536" "length (pl_Params p) < 65536"
    and "list_all (\<lambda>s. length s < 65536) (pl_Params p)"
  shows "pl_UnmarshalBinary (pl_MarshalBinary p) old =
     p\<lparr>pl_Params := pl_Params old @ pl_Params p, pl_RequestInJSON := pl_RequestInJSON old\<rparr>"
proof -
  have e: "ReadString (enc_string s @ r) = (s, r)" if "length s < 65536" for s r
    using that by (simp add: enc_string_def codec_simps)
  have ne: "pl_MarshalBinary p \<noteq> []" by (simp add: pl_MarshalBinary_def le32_def)
  have ps: "ReadStrings (length (pl_Params p)) (concat (map enc_string (pl_Params p))) = (pl_Params p, [])"
    using ReadStrings_enc [OF assms(4), of "[]"] by simp
  show ?thesis
    using assms(1-3) ne
    by (simp add: pl_UnmarshalBinary_def) (simp add: pl_MarshalBinary_def codec_simps e ps unat_of_length16)
qed

section \<open>Properties\<close>

text \<open>A key-value packet survives its binary form: decoding what \<open>MarshalBinary\<close> made gives back the
  command, id, key, error and value (keys below 64 KiB, errors below 256 bytes, values below 4 GiB, the
  limits of the length fields); only the JSON flag is the receiver's own.\<close>

lemma kv_binary_roundtrip:
  assumes "length (kv_Key kv) < 65536" and "length (kv_Err kv) < 256" and "length (kv_Value kv) < 2 ^ 32"
  shows "kv_UnmarshalBinary (kv_MarshalBinary kv) old = kv\<lparr>kv_RequestInJSON := kv_RequestInJSON old\<rparr>"
  using assms by (intro kv_Unmarshal_Marshal) (simp add: kv_wf_def)

lemma kv_binary_roundtrip_example:
  "kv_UnmarshalBinary (kv_MarshalBinary (cdb_request CmdSet ''test.key'' [[1, 2], [3]] 7)) kv_zero
     = \<lparr> kv_Cmd = 130, kv_ID = 7, kv_Key = ''test.key'', kv_Value = [1, 2, 3], kv_RequestInJSON = False, kv_Err = [] \<rparr>"
  using kv_binary_roundtrip [of "cdb_request CmdSet ''test.key'' [[1, 2], [3]] 7" kv_zero]
  by (simp add: cdb_request_def kv_zero_def CmdSet_def)

text \<open>The text form: an answer in text, whose key and value have no comma and which does not look like
  JSON, is read back to the same id, key and value.\<close>

lemma kv_text_roundtrip:
  assumes "\<not> kv_RequestInJSON kv" and "CHR '','' \<notin> set (kv_Key kv)"
    and "byte_of_char CHR '','' \<notin> set (kv_Value kv)"
    and "kv_MarshalText js kv = Some txt" and "\<not> cdb_dataIsJSON txt"
  shows "kv_UnmarshalText js txt old =
     (None, old\<lparr>kv_RequestInJSON := False, kv_ID := kv_ID kv, kv_Key := kv_Key kv, kv_Value := kv_Value kv\<rparr>)"
proof -
  let ?v = "string_of (kv_Value kv)" let ?i = "itoa (unat (kv_ID kv))"
  have t: "txt = bytes_of (kv_Key kv @ '','' @ ?i @ '','' @ ?v)"
    using assms(1,4) by (simp add: kv_MarshalText_def)
  have ci: "CHR '','' \<notin> set ?i"
    using itoa_digits [of "CHR '',''"] by (auto simp: is_digit_def)
  have cv: "CHR '','' \<notin> set ?v"
    using assms(3) by (auto simp: string_of_def)
  have s: "Split CHR '','' (string_of txt) = [kv_Key kv, ?i, ?v]"
    using assms(2) ci cv by (simp add: t Split_Cons_sep Split_free del: bytes_of_append)
  have "unat (kv_ID kv) < 2 ^ 63"
    using unsigned_less [of "kv_ID kv", where 'a = nat] by simp
  then have a: "of_int (fst (Atoi ?i)) = kv_ID kv" by (simp add: Atoi_itoa)
  have "txt \<noteq> []" by (simp add: t)
  then show ?thesis using assms(5) by (simp add: kv_UnmarshalText_def s a Let_def)
qed

lemma kv_text_roundtrip_example:
  "\<forall>js. kv_UnmarshalText js (bytes_of ''k1,7,abc'') kv_zero =
     (None, kv_zero\<lparr>kv_ID := 7, kv_Key := ''k1'', kv_Value := bytes_of ''abc''\<rparr>)"
proof
  fix js :: json
  let ?kv = "kv_zero\<lparr>kv_ID := 7, kv_Key := ''k1'', kv_Value := bytes_of ''abc''\<rparr>"
  have seven: "itoa 7 = ''7''" by code_simp
  have m: "kv_MarshalText js ?kv = Some (bytes_of ''k1,7,abc'')"
    by (simp add: kv_MarshalText_def kv_zero_def seven)
  show "kv_UnmarshalText js (bytes_of ''k1,7,abc'') kv_zero =
     (None, kv_zero\<lparr>kv_ID := 7, kv_Key := ''k1'', kv_Value := bytes_of ''abc''\<rparr>)"
    using kv_text_roundtrip [of ?kv js, OF _ _ _ m, of kv_zero]
    by (simp add: kv_zero_def bytes_of_def cdb_dataIsJSON_def cdb_removeTrailingZero_def)
qed

text \<open>A list of keys without NUL survives its binary form, except that the list of one empty key and the
  empty list have no bytes and leave the receiver as it was.\<close>

lemma keylist_roundtrip:
  assumes "\<forall>s \<in> set k. nul_free s"
  shows "kl_UnmarshalBinary (kl_MarshalBinary k) old = (if k = [] \<or> k = [[]] then old else k)"
proof -
  have nul: "CHR 0x00 \<notin> set s" if "s \<in> set k" for s
    using assms that byte_of_char_0 by (metis nul_free_def)
  show ?thesis
    using Split_Join [of k "CHR 0x00"] nul
    by (auto simp: kl_UnmarshalBinary_def kl_MarshalBinary_Join Join_eq_Nil)
qed

lemma keylist_roundtrip_example:
  "kl_UnmarshalBinary (kl_MarshalBinary [''a'', ''bc'', '''']) [] = [''a'', ''bc'', '''']"
  using keylist_roundtrip [of "[''a'', ''bc'', '''']" "[]"] by (simp add: nul_free_def byte_of_char_def)

text \<open>A plugin call survives its binary form: id, name, function and parameters come back, the parameters
  after the ones the receiver had.\<close>

lemma plugin_roundtrip:
  assumes "\<forall>s \<in> set ([pl_Name p, pl_Func p] @ pl_Params p). length s < 65536" and "length (pl_Params p) < 65536"
  shows "pl_UnmarshalBinary (pl_MarshalBinary p) old =
     p\<lparr>pl_Params := pl_Params old @ pl_Params p, pl_RequestInJSON := pl_RequestInJSON old\<rparr>"
  using assms by (intro pl_Unmarshal_Marshal) (simp_all add: list_all_iff)

lemma plugin_roundtrip_example:
  "let p = \<lparr> pl_ID = 5, pl_Name = ''pl'', pl_Func = ''f'', pl_Params = [''x'', ''''], pl_RequestInJSON = False \<rparr>
   in pl_UnmarshalBinary (pl_MarshalBinary p) pl_zero = p"
  using plugin_roundtrip [of "\<lparr> pl_ID = 5, pl_Name = ''pl'', pl_Func = ''f'', pl_Params = [''x'', ''''], pl_RequestInJSON = False \<rparr>" pl_zero]
  by (simp add: pl_zero_def)

end
