(* ===== verification/Teocdb.thy ===== *)
theory Teocdb
  imports CdbCli
begin

text \<open>
  The key-value database service: \<open>services/teocdb/teocdb.go\<close>. The database (the cql session)
  and the plugins are parameters: one operation for each statement the code executes, on an
  abstract database state. The functions that retry until the database agrees may run for ever when
  it never does; there the result is \<open>None\<close>.
\<close>

section \<open>The database session\<close>

record ('d, 'row) cql =
  q_update_map :: "string \<Rightarrow> bytes \<Rightarrow> 'd \<Rightarrow> string option \<times> 'd"
  q_select_data :: "string \<Rightarrow> 'd \<Rightarrow> string + bytes"
  q_delete_data :: "string \<Rightarrow> 'd \<Rightarrow> string option \<times> 'd"
  q_select_keys :: "string \<Rightarrow> string \<Rightarrow> 'd \<Rightarrow> string list"
  q_select_datas :: "string \<Rightarrow> string \<Rightarrow> 'd \<Rightarrow> string list"
  q_update_id :: "string \<Rightarrow> int \<Rightarrow> 'd \<Rightarrow> string option \<times> 'd"
  q_select_id :: "string \<Rightarrow> 'd \<Rightarrow> string + int"
  q_update_id_if :: "string \<Rightarrow> int \<Rightarrow> int \<Rightarrow> 'd \<Rightarrow> (string + bool \<times> int) \<times> 'd"
  q_delete_id :: "string \<Rightarrow> 'd \<Rightarrow> string option \<times> 'd"
  q_insert_queue :: "string \<Rightarrow> bytes \<Rightarrow> 'd \<Rightarrow> string option \<times> 'd"
  q_select_queue :: "string \<Rightarrow> 'd \<Rightarrow> string + ('row \<times> bytes)"
  q_lock_row :: "string \<Rightarrow> 'row \<Rightarrow> 'd \<Rightarrow> (string + bool) \<times> 'd"
  q_delete_row :: "string \<Rightarrow> 'row \<Rightarrow> 'd \<Rightarrow> string option \<times> 'd"
  call_plugin :: "string \<Rightarrow> string \<Rightarrow> string list \<Rightarrow> 'd \<Rightarrow> (string + bytes) \<times> 'd"

definition ErrNotFound :: string where "ErrNotFound = ''not found''"

text \<open>An operation gives an error or data, with the database after it; \<open>None\<close> if it does not return.\<close>

type_synonym 'd op = "'d \<Rightarrow> ((string + bytes) \<times> 'd) option"

definition no_data :: "string option \<times> 'd \<Rightarrow> ((string + bytes) \<times> 'd) option" where
  "no_data r = (case r of (None, d) \<Rightarrow> Some (Inr [], d) | (Some e, d) \<Rightarrow> Some (Inl e, d))"

section \<open>Operations\<close>

definition tcdb_Set :: "('d, 'row) cql \<Rightarrow> string \<Rightarrow> bytes \<Rightarrow> 'd op" where
  "tcdb_Set q key val d = no_data (q_update_map q key val d)"

definition tcdb_Get :: "('d, 'row) cql \<Rightarrow> string \<Rightarrow> 'd op" where
  "tcdb_Get q key d = Some (q_select_data q key d, d)"

definition tcdb_Delete :: "('d, 'row) cql \<Rightarrow> string \<Rightarrow> 'd op" where
  "tcdb_Delete q key d = no_data (q_delete_data q key d)"

text \<open>
  \<open>List\<close> and \<open>ListBody\<close> select \<open>key >= k and key < k + "a"\<close>, and read until the iterator ends.
\<close>

definition tcdb_List :: "('d, 'row) cql \<Rightarrow> string \<Rightarrow> 'd \<Rightarrow> KeyList" where
  "tcdb_List q key d = fold (\<lambda>k l. kl_Append [k] l) (q_select_keys q key (key @ ''a'') d) []"

definition tcdb_ListBody :: "('d, 'row) cql \<Rightarrow> string \<Rightarrow> 'd \<Rightarrow> string list" where
  "tcdb_ListBody q key d = fold (\<lambda>x l. l @ [x]) (q_select_datas q key (key @ ''a'') d) []"

definition PluginFunc :: "('d, 'row) cql \<Rightarrow> string \<Rightarrow> bytes \<Rightarrow> 'd op" where
  "PluginFunc q fff val d =
     (let p = pl_UnmarshalBinary val pl_zero
      in Some (call_plugin q (pl_Name p) (pl_Func p) (pl_Params p) d))"

definition tcdb_SetID :: "('d, 'row) cql \<Rightarrow> string \<Rightarrow> bytes \<Rightarrow> 'd op" where
  "tcdb_SetID q key val d =
     (case Atoi (string_of val) of
        (n, True) \<Rightarrow> no_data (q_update_id q key n d)
      | (n, False) \<Rightarrow> Some (Inl ''strconv.Atoi: parsing'', d))"

text \<open>
  The loop of \<open>GetID\<close>: a conditional update, which returns the value found; it is repeated with
  that value until it applies.
\<close>

partial_function (option) id_loop ::
    "('d, 'row) cql \<Rightarrow> string \<Rightarrow> int \<Rightarrow> 'd \<Rightarrow> ((string + int) \<times> 'd) option" where
  "id_loop q key nextID d =
     (case q_update_id_if q key (nextID + 1) nextID d of
        (Inl e, d) \<Rightarrow> Some (Inl e, d)
      | (Inr (ok, n), d) \<Rightarrow> if ok then Some (Inr n, d) else id_loop q key n d)"

definition tcdb_GetID :: "('d, 'row) cql \<Rightarrow> string \<Rightarrow> 'd op" where
  "tcdb_GetID q key d =
     (let run = (\<lambda>nextID d. case id_loop q key nextID d of
                   None \<Rightarrow> None
                 | Some (Inl e, d) \<Rightarrow> Some (Inl e, d)
                 | Some (Inr n, d) \<Rightarrow> Some (Inr (bytes_of (Itoa n)), d))
      in case q_select_id q key d of
           Inr n \<Rightarrow> run n d
         | Inl e \<Rightarrow>
             if e \<noteq> ErrNotFound then Some (Inl e, d)
             else (case tcdb_SetID q key (bytes_of (Itoa 1)) d of
                     None \<Rightarrow> None
                   | Some (Inl e, d) \<Rightarrow> Some (Inl e, d)
                   | Some (Inr _, d) \<Rightarrow> run 1 d))"

definition tcdb_DeleteID :: "('d, 'row) cql \<Rightarrow> string \<Rightarrow> 'd op" where
  "tcdb_DeleteID q key d = no_data (q_delete_id q key d)"

definition tcdb_SetQueue :: "('d, 'row) cql \<Rightarrow> string \<Rightarrow> bytes \<Rightarrow> 'd op" where
  "tcdb_SetQueue q key val d = no_data (q_insert_queue q key val d)"

text \<open>The result is the data and the error, as in the code: an error of the last two statements comes with data.\<close>

partial_function (option) tcdb_GetQueue ::
    "('d, 'row) cql \<Rightarrow> string \<Rightarrow> 'd \<Rightarrow> ((bytes \<times> string option) \<times> 'd) option" where
  "tcdb_GetQueue q key d =
     (case q_select_queue q key d of
        Inl e \<Rightarrow> Some (([], Some e), d)
      | Inr (row, val) \<Rightarrow>
          (case q_lock_row q key row d of
             (Inl e, d) \<Rightarrow> Some ((val, Some e), d)
           | (Inr ok, d) \<Rightarrow>
               if \<not> ok then tcdb_GetQueue q key d
               else (case q_delete_row q key row d of (e, d) \<Rightarrow> Some ((val, e), d))))"

definition queue_op :: "('d, 'row) cql \<Rightarrow> string \<Rightarrow> 'd op" where
  "queue_op q key d =
     map_option (\<lambda>((val, e), d). (case e of None \<Rightarrow> Inr val | Some e \<Rightarrow> Inl e, d)) (tcdb_GetQueue q key d)"

section \<open>Commands\<close>

text \<open>
  What a command handler works with: the session, JSON, and the connector's \<open>SendAnswer\<close> (its
  error). A handler's result is the error it returns, the answers it sent and the database.
\<close>

record ('d, 'row) cdb_env =
  env_q :: "('d, 'row) cql"
  env_js :: json
  env_answer :: "u8 \<Rightarrow> bytes \<Rightarrow> string option"

type_synonym 'd handled = "(string option \<times> (u8 \<times> bytes) list \<times> 'd) option"

text \<open>
  The binary command. For \<open>CmdGet\<close> and \<open>CmdGetQueue\<close> the error "not found" is an answer;
  every other error ends the handler without one. Unknown commands are answered with the request.
\<close>

definition binary_answer :: "('d, 'row) cdb_env \<Rightarrow> u8 \<Rightarrow> KeyValue \<Rightarrow> 'd \<Rightarrow> 'd handled" where
  "binary_answer env cmd responce d =
     (let ret = kv_MarshalBinary responce in Some (env_answer env cmd ret, [(cmd, ret)], d))"

definition binary_notfound :: "('d, 'row) cdb_env \<Rightarrow> u8 \<Rightarrow> KeyValue
    \<Rightarrow> ((bytes \<times> string option) \<times> 'd) option \<Rightarrow> 'd handled" where
  "binary_notfound env cmd request r =
     (case r of
        None \<Rightarrow> None
      | Some ((val, None), d) \<Rightarrow> binary_answer env cmd (request\<lparr>kv_Value := val\<rparr>) d
      | Some ((val, Some e), d) \<Rightarrow>
          if e \<noteq> ErrNotFound then Some (Some e, [], d)
          else binary_answer env cmd (request\<lparr>kv_Value := val, kv_Err := e\<rparr>) d)"

definition binary_case :: "('d, 'row) cdb_env \<Rightarrow> u8 \<Rightarrow> KeyValue
    \<Rightarrow> ((string + bytes) \<times> 'd) option \<Rightarrow> 'd handled" where
  "binary_case env cmd request r =
     (case r of
        None \<Rightarrow> None
      | Some (Inr val, d) \<Rightarrow> binary_answer env cmd (request\<lparr>kv_Value := val\<rparr>) d
      | Some (Inl e, d) \<Rightarrow> Some (Some e, [], d))"

definition cdb_CmdBinary :: "('d, 'row) cdb_env \<Rightarrow> u8 \<Rightarrow> bytes \<Rightarrow> 'd \<Rightarrow> 'd handled" where
  "cdb_CmdBinary env cmd data d =
     (let q = env_q env;
          request = kv_UnmarshalBinary data kv_zero;
          c = kv_Cmd request; key = kv_Key request; val = kv_Value request
      in if c = CmdSet then binary_case env cmd request (tcdb_Set q key val d)
         else if c = CmdGet then binary_notfound env cmd request
             (map_option (\<lambda>(r, d). (case r of Inr val \<Rightarrow> (val, None) | Inl e \<Rightarrow> ([], Some e), d)) (tcdb_Get q key d))
         else if c = CmdList
           then binary_case env cmd request (Some (Inr (kl_MarshalBinary (tcdb_List q key d)), d))
         else if c = CmdListBody
           then binary_case env cmd request (Some (Inr (json_strings (env_js env) (tcdb_ListBody q key d)), d))
         else if c = CmdDelete then binary_case env cmd request (tcdb_Delete q key d)
         else if c = CmdFunc then binary_case env cmd request (PluginFunc q key val d)
         else if c = CmdGetID then binary_case env cmd request (tcdb_GetID q key d)
         else if c = CmdSetID then binary_case env cmd request (tcdb_SetID q key val d)
         else if c = CmdDeleteID then binary_case env cmd request (tcdb_DeleteID q key d)
         else if c = CmdGetQueue then binary_notfound env cmd request (tcdb_GetQueue q key d)
         else if c = CmdSetQueue then binary_case env cmd request (tcdb_SetQueue q key val d)
         else binary_answer env cmd request d)"

text \<open>
  The text commands share their frame: the request is read from the data without a trailing zero; a
  text request is answered with the value alone, a JSON request with all fields. In the JSON branch
  the errors of \<open>MarshalText\<close> and \<open>SendAnswer\<close> go to a variable of their own and are lost.
\<close>

definition text_answer :: "('d, 'row) cdb_env \<Rightarrow> u8 \<Rightarrow> KeyValue \<Rightarrow> 'd \<Rightarrow> 'd handled" where
  "text_answer env cmd responce d =
     (if \<not> kv_RequestInJSON responce
      then Some (env_answer env cmd (kv_Value responce), [(cmd, kv_Value responce)], d)
      else case kv_MarshalText (env_js env) responce of
             Some ret \<Rightarrow> Some (None, [(cmd, ret)], d)
           | None \<Rightarrow> Some (None, [], d))"

definition text_cmd :: "('d, 'row) cdb_env \<Rightarrow> u8 \<Rightarrow> bytes \<Rightarrow> (KeyValue \<Rightarrow> 'd op) \<Rightarrow> 'd \<Rightarrow> 'd handled" where
  "text_cmd env cmd data op d =
     (case kv_UnmarshalText (env_js env) (cdb_removeTrailingZero data) (kv_zero\<lparr>kv_Cmd := cmd\<rparr>) of
        (Some e, _) \<Rightarrow> Some (Some e, [], d)
      | (None, request) \<Rightarrow>
          (case op request d of
             None \<Rightarrow> None
           | Some (Inl e, d) \<Rightarrow> Some (Some e, [], d)
           | Some (Inr val, d) \<Rightarrow> text_answer env cmd (request\<lparr>kv_Value := val\<rparr>) d))"

definition cdb_CmdSet :: "('d, 'row) cdb_env \<Rightarrow> u8 \<Rightarrow> bytes \<Rightarrow> 'd \<Rightarrow> 'd handled" where
  "cdb_CmdSet env cmd data = text_cmd env cmd data (\<lambda>r. tcdb_Set (env_q env) (kv_Key r) (kv_Value r))"

definition cdb_CmdDelete :: "('d, 'row) cdb_env \<Rightarrow> u8 \<Rightarrow> bytes \<Rightarrow> 'd \<Rightarrow> 'd handled" where
  "cdb_CmdDelete env cmd data = text_cmd env cmd data (\<lambda>r. tcdb_Delete (env_q env) (kv_Key r))"

definition cdb_CmdGet :: "('d, 'row) cdb_env \<Rightarrow> u8 \<Rightarrow> bytes \<Rightarrow> 'd \<Rightarrow> 'd handled" where
  "cdb_CmdGet env cmd data = text_cmd env cmd data (\<lambda>r. tcdb_Get (env_q env) (kv_Key r))"

definition cdb_CmdList :: "('d, 'row) cdb_env \<Rightarrow> u8 \<Rightarrow> bytes \<Rightarrow> 'd \<Rightarrow> 'd handled" where
  "cdb_CmdList env cmd data = text_cmd env cmd data
     (\<lambda>r d. Some (Inr (fst (kl_MarshalJSON (env_js env) (tcdb_List (env_q env) (kv_Key r) d))), d))"

definition cdb_CmdListBody :: "('d, 'row) cdb_env \<Rightarrow> u8 \<Rightarrow> bytes \<Rightarrow> 'd \<Rightarrow> 'd handled" where
  "cdb_CmdListBody env cmd data = text_cmd env cmd data
     (\<lambda>r d. Some (Inr (json_strings (env_js env) (tcdb_ListBody (env_q env) (kv_Key r) d)), d))"

definition cdb_CmdFunc :: "('d, 'row) cdb_env \<Rightarrow> u8 \<Rightarrow> bytes \<Rightarrow> 'd \<Rightarrow> 'd handled" where
  "cdb_CmdFunc env cmd data = text_cmd env cmd data (\<lambda>r. PluginFunc (env_q env) (kv_Key r) (kv_Value r))"

definition cdb_CmdGetID :: "('d, 'row) cdb_env \<Rightarrow> u8 \<Rightarrow> bytes \<Rightarrow> 'd \<Rightarrow> 'd handled" where
  "cdb_CmdGetID env cmd data = text_cmd env cmd data (\<lambda>r. tcdb_GetID (env_q env) (kv_Key r))"

definition cdb_CmdSetID :: "('d, 'row) cdb_env \<Rightarrow> u8 \<Rightarrow> bytes \<Rightarrow> 'd \<Rightarrow> 'd handled" where
  "cdb_CmdSetID env cmd data = text_cmd env cmd data (\<lambda>r. tcdb_SetID (env_q env) (kv_Key r) (kv_Value r))"

definition cdb_CmdDeleteID :: "('d, 'row) cdb_env \<Rightarrow> u8 \<Rightarrow> bytes \<Rightarrow> 'd \<Rightarrow> 'd handled" where
  "cdb_CmdDeleteID env cmd data = text_cmd env cmd data (\<lambda>r. tcdb_DeleteID (env_q env) (kv_Key r))"

definition cdb_CmdSetQueue :: "('d, 'row) cdb_env \<Rightarrow> u8 \<Rightarrow> bytes \<Rightarrow> 'd \<Rightarrow> 'd handled" where
  "cdb_CmdSetQueue env cmd data = text_cmd env cmd data (\<lambda>r. tcdb_SetQueue (env_q env) (kv_Key r) (kv_Value r))"

definition cdb_CmdGetQueue :: "('d, 'row) cdb_env \<Rightarrow> u8 \<Rightarrow> bytes \<Rightarrow> 'd \<Rightarrow> 'd handled" where
  "cdb_CmdGetQueue env cmd data = text_cmd env cmd data (\<lambda>r. queue_op (env_q env) (kv_Key r))"

section \<open>Several processes on one database\<close>

text \<open>
  Handlers run in several workers and in several services on one database: statements of different
  callers interleave. A process is at one of the statements of \<open>GetID\<close>; a step runs that
  statement.
\<close>

datatype id_pc = IdSelect | IdCreate | IdTry int | IdDone int | IdFailed

definition id_step :: "('d, 'row) cql \<Rightarrow> string \<Rightarrow> nat \<Rightarrow> (nat \<Rightarrow> id_pc) \<times> 'd \<Rightarrow> (nat \<Rightarrow> id_pc) \<times> 'd" where
  "id_step q key c s =
     (case s of (pcs, d) \<Rightarrow>
      case pcs c of
        IdSelect \<Rightarrow>
          (case q_select_id q key d of
             Inr n \<Rightarrow> (pcs(c := IdTry n), d)
           | Inl e \<Rightarrow> if e \<noteq> ErrNotFound then (pcs(c := IdFailed), d) else (pcs(c := IdCreate), d))
      | IdCreate \<Rightarrow>
          (case tcdb_SetID q key (bytes_of (Itoa 1)) d of
             Some (Inr _, d) \<Rightarrow> (pcs(c := IdTry 1), d)
           | Some (Inl e, d) \<Rightarrow> (pcs(c := IdFailed), d)
           | None \<Rightarrow> (pcs, d))
      | IdTry n \<Rightarrow>
          (case q_update_id_if q key (n + 1) n d of
             (Inl e, d) \<Rightarrow> (pcs(c := IdFailed), d)
           | (Inr (ok, m), d) \<Rightarrow> (pcs(c := if ok then IdDone m else IdTry m), d))
      | _ \<Rightarrow> s)"

definition id_run :: "('d, 'row) cql \<Rightarrow> string \<Rightarrow> nat list \<Rightarrow> (nat \<Rightarrow> id_pc) \<times> 'd \<Rightarrow> (nat \<Rightarrow> id_pc) \<times> 'd" where
  "id_run q key sched s = fold (id_step q key) sched s"

lemma id_run_simps [simp]:
  "id_run q key [] s = s" "id_run q key (c # cs) s = id_run q key cs (id_step q key c s)"
  by (simp_all add: id_run_def)

text \<open>The steps are those of the function: run alone, a process does what \<open>GetID\<close> does.\<close>

lemma id_loop_steps:
  assumes "id_loop q key n d = Some r"
  shows "\<exists>k. id_run q key (replicate k c) (pcs(c := IdTry n), d)
       = (pcs(c := case fst r of Inr m \<Rightarrow> IdDone m | Inl _ \<Rightarrow> IdFailed), snd r)"
  using _ assms
proof (rule id_loop.raw_induct [where P = "\<lambda>q key n d r. \<exists>k. id_run q key (replicate k c) (pcs(c := IdTry n), d)
       = (pcs(c := case fst r of Inr m \<Rightarrow> IdDone m | Inl _ \<Rightarrow> IdFailed), snd r)"], goal_cases)
  case (1 loop q key n d r)
  obtain x d' where u: "q_update_id_if q key (n + 1) n d = (x, d')" by fastforce
  show ?case
  proof (cases "\<exists>m. x = Inr (False, m)")
    case True
    then obtain m where x: "x = Inr (False, m)" by blast
    with 1(2) u have "loop q key m d' = Some r" by simp
    from 1(1) [OF this] obtain k where
      "id_run q key (replicate k c) (pcs(c := IdTry m), d')
        = (pcs(c := case fst r of Inr m \<Rightarrow> IdDone m | Inl _ \<Rightarrow> IdFailed), snd r)" by blast
    then show ?thesis using u x by (intro exI [of _ "Suc k"]) (simp add: id_step_def)
  next
    case False
    then have "r = (case x of Inl e \<Rightarrow> Inl e | Inr (ok, m) \<Rightarrow> Inr m, d')"
      using 1(2) u by (auto split: sum.splits prod.splits if_splits)
    then show ?thesis using u False
      by (intro exI [of _ 1]) (auto simp: id_step_def split: sum.splits)
  qed
qed

lemma id_run_append: "id_run q key (xs @ ys) s = id_run q key ys (id_run q key xs s)"
  by (simp add: id_run_def)

lemma GetID_steps:
  assumes "tcdb_GetID q key d = Some (Inr val, d')"
  shows "\<exists>k n. id_run q key (replicate k c) (pcs(c := IdSelect), d) = (pcs(c := IdDone n), d')
    \<and> val = bytes_of (Itoa n)"
proof -
  have loop: "\<exists>k n. id_run q key (replicate k c) (pcs(c := IdTry i), d1) = (pcs(c := IdDone n), d')
      \<and> val = bytes_of (Itoa n)"
    if "id_loop q key i d1 = Some (Inr n, d')" "val = bytes_of (Itoa n)" for i n d1
    using id_loop_steps [OF that(1), where c=c and pcs=pcs] that(2) by auto
  show ?thesis
  proof (cases "q_select_id q key d")
    case (Inr i)
    then obtain n where "id_loop q key i d = Some (Inr n, d')" "val = bytes_of (Itoa n)"
      using assms by (auto simp: tcdb_GetID_def Let_def split: option.splits sum.splits)
    from loop [OF this] obtain k n where
      "id_run q key (replicate k c) (pcs(c := IdTry i), d) = (pcs(c := IdDone n), d')"
      "val = bytes_of (Itoa n)" by blast
    then show ?thesis using Inr
      by (intro exI [of _ "Suc k"] exI [of _ n]) (simp add: id_step_def)
  next
    case (Inl e)
    then obtain x d1 n where *: "e = ErrNotFound" "tcdb_SetID q key (bytes_of (Itoa 1)) d = Some (Inr x, d1)"
      "id_loop q key 1 d1 = Some (Inr n, d')" "val = bytes_of (Itoa n)"
      using assms by (auto simp: tcdb_GetID_def Let_def split: option.splits sum.splits if_splits)
    from loop [OF *(3,4)] obtain k n where
      "id_run q key (replicate k c) (pcs(c := IdTry 1), d1) = (pcs(c := IdDone n), d')"
      "val = bytes_of (Itoa n)" by blast
    then show ?thesis using Inl *(1,2)
      by (intro exI [of _ "Suc (Suc k)"] exI [of _ n]) (simp add: id_step_def)
  qed
qed

text \<open>
  The documented behaviour of the statements on a counter: a read sees the value; a conditional
  update compares and swaps atomically and returns the value it found. Every statement may fail; a
  conditional update that fails may or may not have been applied.
\<close>

definition id_laws :: "('d, 'row) cql \<Rightarrow> string \<Rightarrow> ('d \<Rightarrow> int option) \<Rightarrow> bool" where
  "id_laws q key ctr \<longleftrightarrow>
     (\<forall>d n. q_select_id q key d = Inr n \<longrightarrow> ctr d = Some n)
   \<and> (\<forall>d. q_select_id q key d = Inl ErrNotFound \<longrightarrow> ctr d = None)
   \<and> (\<forall>d new old r d'. q_update_id_if q key new old d = (r, d') \<longrightarrow>
        (case r of
           Inl e \<Rightarrow> ctr d' = ctr d \<or> ctr d = Some old \<and> ctr d' = Some new
         | Inr (True, m) \<Rightarrow> ctr d = Some old \<and> ctr d' = Some new \<and> m = old
         | Inr (False, m) \<Rightarrow> ctr d \<noteq> Some old \<and> ctr d' = ctr d \<and> (\<forall>n. ctr d = Some n \<longrightarrow> m = n)))"

definition ids_ok :: "('d \<Rightarrow> int option) \<Rightarrow> int \<Rightarrow> (nat \<Rightarrow> id_pc) \<times> 'd \<Rightarrow> bool" where
  "ids_ok ctr c0 s \<longleftrightarrow> (case s of (pcs, d) \<Rightarrow>
     (\<exists>c. ctr d = Some c \<and> c0 \<le> c \<and> (\<forall>a n. pcs a = IdDone n \<longrightarrow> c0 \<le> n \<and> n < c))
   \<and> (\<forall>a. pcs a \<noteq> IdCreate)
   \<and> (\<forall>a b n. pcs a = IdDone n \<longrightarrow> pcs b = IdDone n \<longrightarrow> a = b))"

lemma ids_ok_step:
  assumes "id_laws q key ctr" and "ids_ok ctr c0 s"
  shows "ids_ok ctr c0 (id_step q key p s)"
proof -
  obtain pcs d where s: "s = (pcs, d)" by (cases s)
  note cas = assms(1) [unfolded id_laws_def, THEN conjunct2, THEN conjunct2, rule_format]
  show ?thesis
  proof (cases "pcs p")
    case IdSelect
    then show ?thesis using assms
      by (auto simp: ids_ok_def s id_step_def id_laws_def split: sum.splits)
  next
    case (IdTry n)
    obtain r d' where u: "q_update_id_if q key (n + 1) n d = (r, d')" by fastforce
    show ?thesis
    proof (cases r)
      case (Inl e)
      then show ?thesis using assms(2) cas [OF u] IdTry u
        by (fastforce simp: ids_ok_def s id_step_def)
    next
      case (Inr x)
      obtain ok m where x: "x = (ok, m)" by (cases x)
      show ?thesis
      proof (cases ok)
        case True
        then have "ctr d = Some n" "ctr d' = Some (n + 1)" "m = n" using cas [OF u] Inr x by auto
        then show ?thesis using assms(2) IdTry u Inr x True
          by (fastforce simp: ids_ok_def s id_step_def)
      next
        case False
        then have "ctr d' = ctr d" using cas [OF u] Inr x by simp
        then show ?thesis using assms(2) IdTry u Inr x False
          by (auto simp: ids_ok_def s id_step_def)
      qed
    qed
  qed (use assms(2) in \<open>auto simp: ids_ok_def s id_step_def\<close>)
qed

lemma ids_ok_run:
  "id_laws q key ctr \<Longrightarrow> ids_ok ctr c0 s \<Longrightarrow> ids_ok ctr c0 (id_run q key sched s)"
  by (induction sched arbitrary: s) (simp_all add: ids_ok_step)

text \<open>The same for \<open>GetQueue\<close>.\<close>

datatype 'row q_pc = QSelect | QLock 'row bytes | QDelete 'row bytes | QDone 'row bytes | QFailed

definition q_step :: "('d, 'row) cql \<Rightarrow> string \<Rightarrow> nat \<Rightarrow> (nat \<Rightarrow> 'row q_pc) \<times> 'd \<Rightarrow> (nat \<Rightarrow> 'row q_pc) \<times> 'd" where
  "q_step q key c s =
     (case s of (pcs, d) \<Rightarrow>
      case pcs c of
        QSelect \<Rightarrow>
          (case q_select_queue q key d of
             Inl e \<Rightarrow> (pcs(c := QFailed), d)
           | Inr (row, val) \<Rightarrow> (pcs(c := QLock row val), d))
      | QLock row val \<Rightarrow>
          (case q_lock_row q key row d of
             (Inl e, d) \<Rightarrow> (pcs(c := QFailed), d)
           | (Inr ok, d) \<Rightarrow> (pcs(c := if ok then QDelete row val else QSelect), d))
      | QDelete row val \<Rightarrow>
          (case q_delete_row q key row d of
             (None, d) \<Rightarrow> (pcs(c := QDone row val), d)
           | (Some e, d) \<Rightarrow> (pcs(c := QFailed), d))
      | _ \<Rightarrow> s)"

definition q_run :: "('d, 'row) cql \<Rightarrow> string \<Rightarrow> nat list \<Rightarrow> (nat \<Rightarrow> 'row q_pc) \<times> 'd \<Rightarrow> (nat \<Rightarrow> 'row q_pc) \<times> 'd" where
  "q_run q key sched s = fold (q_step q key) sched s"

lemma q_run_simps [simp]:
  "q_run q key [] s = s" "q_run q key (c # cs) s = q_run q key cs (q_step q key c s)"
  by (simp_all add: q_run_def)

lemma GetQueue_steps:
  assumes "tcdb_GetQueue q key d = Some ((val, None), d')"
  shows "\<exists>k row. q_run q key (replicate k c) (pcs(c := QSelect), d) = (pcs(c := QDone row val), d')"
proof -
  have "snd (fst r) = None \<longrightarrow>
      (\<exists>k row. q_run q key (replicate k c) (pcs(c := QSelect), d) = (pcs(c := QDone row (fst (fst r))), snd r))"
    if "tcdb_GetQueue q key d = Some r" for r
    using _ that
  proof (rule tcdb_GetQueue.raw_induct [where P = "\<lambda>q key d r. snd (fst r) = None \<longrightarrow>
      (\<exists>k row. q_run q key (replicate k c) (pcs(c := QSelect), d) = (pcs(c := QDone row (fst (fst r))), snd r))"], goal_cases)
    case (1 loop q key d r)
    show ?case
    proof
      assume none: "snd (fst r) = None"
      then obtain row val where sel: "q_select_queue q key d = Inr (row, val)"
        using 1(2) by (auto split: sum.splits)
      obtain x d1 where l: "q_lock_row q key row d = (x, d1)" by fastforce
      then obtain ok where x: "x = Inr ok" using 1(2) sel none by (auto split: sum.splits)
      show "\<exists>k row. q_run q key (replicate k c) (pcs(c := QSelect), d) = (pcs(c := QDone row (fst (fst r))), snd r)"
      proof (cases ok)
        case True
        obtain e d2 where dl: "q_delete_row q key row d1 = (e, d2)" by fastforce
        then have "r = ((val, e), d2)" using 1(2) sel l x True by auto
        then show ?thesis using none sel l x True dl
          by (intro exI [of _ 3] exI [of _ row]) (simp add: eval_nat_numeral q_step_def)
      next
        case False
        then have "loop q key d1 = Some r" using 1(2) sel l x by simp
        from 1(1) [OF this] none obtain k row' where
          "q_run q key (replicate k c) (pcs(c := QSelect), d1) = (pcs(c := QDone row' (fst (fst r))), snd r)"
          by blast
        then show ?thesis using sel l x False
          by (intro exI [of _ "Suc (Suc k)"] exI [of _ row']) (simp add: q_step_def)
      qed
    qed
  qed
  from this [OF assms] show ?thesis by simp
qed

text \<open>
  The documented behaviour of the statements on the rows of a queue that are not locked: a select
  returns one of them; a lock is taken atomically by one caller and not on a row that is locked
  or gone; a deletion touches its row only. Each may fail; a lock that fails may have been taken.
\<close>

definition queue_laws :: "('d, 'row) cql \<Rightarrow> string \<Rightarrow> ('d \<Rightarrow> 'row \<rightharpoonup> bytes) \<Rightarrow> bool" where
  "queue_laws q key free \<longleftrightarrow>
     (\<forall>d row val. q_select_queue q key d = Inr (row, val) \<longrightarrow> free d row = Some val)
   \<and> (\<forall>d row r d'. q_lock_row q key row d = (r, d') \<longrightarrow>
        (case r of
           Inl e \<Rightarrow> free d' = free d \<or> free d' = (free d)(row := None)
         | Inr True \<Rightarrow> row \<in> dom (free d) \<and> free d' = (free d)(row := None)
         | Inr False \<Rightarrow> free d' = free d))
   \<and> (\<forall>d row e d'. q_delete_row q key row d = (e, d') \<longrightarrow> row \<notin> dom (free d) \<longrightarrow> free d' = free d)"

fun taken :: "'row q_pc \<Rightarrow> ('row \<times> bytes) option" where
  "taken (QDelete row val) = Some (row, val)"
| "taken (QDone row val) = Some (row, val)"
| "taken _ = None"

definition queue_ok :: "('d \<Rightarrow> 'row \<rightharpoonup> bytes) \<Rightarrow> ('row \<rightharpoonup> bytes) \<Rightarrow> (nat \<Rightarrow> 'row q_pc) \<times> 'd \<Rightarrow> bool" where
  "queue_ok free F s \<longleftrightarrow> (case s of (pcs, d) \<Rightarrow>
     free d \<subseteq>\<^sub>m F
   \<and> (\<forall>a row val. pcs a = QLock row val \<longrightarrow> F row = Some val)
   \<and> (\<forall>a row val. taken (pcs a) = Some (row, val) \<longrightarrow> F row = Some val \<and> row \<notin> dom (free d))
   \<and> (\<forall>a b row val val'. taken (pcs a) = Some (row, val) \<longrightarrow> taken (pcs b) = Some (row, val') \<longrightarrow> a = b))"

lemma queue_okI:
  assumes "free d \<subseteq>\<^sub>m F"
    and "\<And>a row val. pcs a = QLock row val \<Longrightarrow> F row = Some val"
    and "\<And>a row val. taken (pcs a) = Some (row, val) \<Longrightarrow> F row = Some val \<and> row \<notin> dom (free d)"
    and "\<And>a b row val val'. taken (pcs a) = Some (row, val) \<Longrightarrow> taken (pcs b) = Some (row, val') \<Longrightarrow> a = b"
  shows "queue_ok free F (pcs, d)"
  using assms unfolding queue_ok_def by blast

lemma queue_ok_idle:
  assumes "queue_ok free F (pcs, d)" and "free d' \<subseteq>\<^sub>m free d" and "taken pc = None \<or> taken pc = taken (pcs p)"
    and "\<forall>row val. pc = QLock row val \<longrightarrow> F row = Some val"
  shows "queue_ok free F (pcs(p := pc), d')"
proof (rule queue_okI)
  show "free d' \<subseteq>\<^sub>m F" using assms(1,2) map_le_trans unfolding queue_ok_def by blast
next
  fix a row val
  assume "(pcs(p := pc)) a = QLock row val"
  then show "F row = Some val" using assms(1,4) by (auto simp: queue_ok_def split: if_splits)
next
  fix a row val
  assume "taken ((pcs(p := pc)) a) = Some (row, val)"
  then have "taken (pcs a) = Some (row, val)" using assms(3) by (auto split: if_splits)
  moreover have "dom (free d') \<subseteq> dom (free d)" using assms(2) by (rule map_le_implies_dom_le)
  ultimately show "F row = Some val \<and> row \<notin> dom (free d')" using assms(1) unfolding queue_ok_def by blast
next
  fix a b row val val'
  assume "taken ((pcs(p := pc)) a) = Some (row, val)" "taken ((pcs(p := pc)) b) = Some (row, val')"
  then have "taken (pcs a) = Some (row, val)" "taken (pcs b) = Some (row, val')"
    using assms(3) by (auto split: if_splits)
  then show "a = b" using assms(1) unfolding queue_ok_def by blast
qed

lemma map_le_minus: "m(k := None) \<subseteq>\<^sub>m m"
  by (simp add: map_le_def)

lemma queue_ok_take:
  assumes "queue_ok free F (pcs, d)" and "pcs p = QLock row val" and "row \<in> dom (free d)"
    and "free d' = (free d)(row := None)"
  shows "queue_ok free F (pcs(p := QDelete row val), d')"
proof (rule queue_okI)
  show "free d' \<subseteq>\<^sub>m F"
    using assms(1,4) map_le_minus map_le_trans unfolding queue_ok_def by (metis (mono_tags, lifting) case_prod_conv)
  show "F r = Some v" if "(pcs(p := QDelete row val)) a = QLock r v" for a r v
    using assms(1) that by (auto simp: queue_ok_def split: if_splits)
  show "F r = Some v \<and> r \<notin> dom (free d')" if "taken ((pcs(p := QDelete row val)) a) = Some (r, v)" for a r v
    using assms that by (auto simp: queue_ok_def split: if_splits)
  show "a = b" if "taken ((pcs(p := QDelete row val)) a) = Some (r, v)"
      "taken ((pcs(p := QDelete row val)) b) = Some (r, v')" for a b r v v'
    using assms(1,3) that unfolding queue_ok_def by (auto split: if_splits)
qed

lemma queue_ok_step:
  assumes "queue_laws q key free" and "queue_ok free F s"
  shows "queue_ok free F (q_step q key p s)"
proof -
  obtain pcs d where s: "s = (pcs, d)" by (cases s)
  note ok = assms(2) [unfolded s]
  show ?thesis
  proof (cases "pcs p")
    case QSelect
    show ?thesis
    proof (cases "q_select_queue q key d")
      case (Inr x)
      then obtain row val where x: "q_select_queue q key d = Inr (row, val)" by (cases x) auto
      then have "free d row = Some val" using assms(1) by (simp add: queue_laws_def)
      then have "F row = Some val" using ok by (auto simp: queue_ok_def map_le_def dom_def)
      then show ?thesis using QSelect x queue_ok_idle [OF ok map_le_refl, of "QLock row val" p]
        by (simp add: s q_step_def)
    qed (use QSelect queue_ok_idle [OF ok map_le_refl, of QFailed p] in \<open>simp add: s q_step_def\<close>)
  next
    case (QLock row val)
    obtain r d' where l: "q_lock_row q key row d = (r, d')" by fastforce
    note law = assms(1) [unfolded queue_laws_def, THEN conjunct2, THEN conjunct1, rule_format, OF l]
    show ?thesis
    proof (cases r)
      case (Inl e)
      then have "free d' \<subseteq>\<^sub>m free d" using law map_le_minus by auto
      then show ?thesis using QLock l Inl queue_ok_idle [OF ok, of d' QFailed p]
        by (simp add: s q_step_def)
    next
      case (Inr b)
      show ?thesis
      proof (cases b)
        case True
        then show ?thesis using queue_ok_take [OF ok QLock, of d'] law QLock l Inr
          by (simp add: s q_step_def)
      next
        case False
        then have "free d' = free d" using law Inr by simp
        then show ?thesis using queue_ok_idle [OF ok, of d' QSelect p] QLock l Inr False
          by (simp add: s q_step_def)
      qed
    qed
  next
    case (QDelete row val)
    obtain e d' where l: "q_delete_row q key row d = (e, d')" by fastforce
    have "taken (pcs p) = Some (row, val)" using QDelete by simp
    then have "row \<notin> dom (free d)" using ok unfolding queue_ok_def by blast
    then have same: "free d' = free d" using assms(1) l unfolding queue_laws_def by blast
    show ?thesis
    proof (cases e)
      case None
      then show ?thesis using queue_ok_idle [OF ok, of d' "QDone row val" p] QDelete l same
        by (simp add: s q_step_def)
    next
      case (Some x)
      then show ?thesis using queue_ok_idle [OF ok, of d' QFailed p] QDelete l same
        by (simp add: s q_step_def)
    qed
  qed (use ok in \<open>simp_all add: s q_step_def\<close>)
qed

lemma queue_ok_run:
  "queue_laws q key free \<Longrightarrow> queue_ok free F s \<Longrightarrow> queue_ok free F (q_run q key sched s)"
  by (induction sched arbitrary: s) (simp_all add: queue_ok_step)

section \<open>Reads and writes\<close>

text \<open>The documented behaviour of the statements on the table of keys.\<close>

definition map_laws :: "('d, 'row) cql \<Rightarrow> ('d \<Rightarrow> string \<rightharpoonup> bytes) \<Rightarrow> bool" where
  "map_laws q st \<longleftrightarrow>
     (\<forall>k v d. fst (q_update_map q k v d) = None \<and> st (snd (q_update_map q k v d)) = (st d)(k \<mapsto> v))
   \<and> (\<forall>k d. q_select_data q k d = (case st d k of Some v \<Rightarrow> Inr v | None \<Rightarrow> Inl ErrNotFound))
   \<and> (\<forall>k d. fst (q_delete_data q k d) = None \<and> st (snd (q_delete_data q k d)) = (st d)(k := None))"

lemma decode_request:
  assumes "length key < 65536" and "length val < 2 ^ 32"
  shows "kv_UnmarshalBinary (kv_MarshalBinary (cdb_request cmd key [val] rid)) kv_zero = cdb_request cmd key [val] rid"
  using kv_Unmarshal_Marshal [of "cdb_request cmd key [val] rid" kv_zero] assms
  by (simp add: kv_wf_def cdb_request_def kv_zero_def)

lemma decode_answer:
  assumes "length key < 65536" and "length val < 2 ^ 32" and "length x < 2 ^ 32" and "length e < 256"
  shows "kv_UnmarshalBinary (kv_MarshalBinary ((cdb_request cmd key [val] rid)\<lparr>kv_Value := x, kv_Err := e\<rparr>)) kv_zero
    = (cdb_request cmd key [val] rid)\<lparr>kv_Value := x, kv_Err := e\<rparr>"
  using kv_Unmarshal_Marshal [of "(cdb_request cmd key [val] rid)\<lparr>kv_Value := x, kv_Err := e\<rparr>" kv_zero] assms
  by (simp add: kv_wf_def cdb_request_def kv_zero_def)

text \<open>The effect of the three commands on the table, and their answers (value and error).\<close>

definition cmd_effect :: "u8 \<Rightarrow> string \<Rightarrow> bytes \<Rightarrow> (string \<rightharpoonup> bytes) \<Rightarrow> (string \<rightharpoonup> bytes)" where
  "cmd_effect cmd key val m =
     (if cmd = CmdSet then m(key \<mapsto> val) else if cmd = CmdDelete then m(key := None) else m)"

definition cmd_answer :: "u8 \<Rightarrow> string \<Rightarrow> (string \<rightharpoonup> bytes) \<Rightarrow> bytes \<times> string" where
  "cmd_answer cmd key m =
     (if cmd = CmdGet then case m key of Some x \<Rightarrow> (x, []) | None \<Rightarrow> ([], ErrNotFound) else ([], []))"

lemma cmd_distinct [simp]:
  "CmdGet \<noteq> CmdSet" "CmdSet \<noteq> CmdGet" "CmdDelete \<noteq> CmdSet" "CmdDelete \<noteq> CmdGet" "CmdGet \<noteq> CmdDelete"
  "CmdDelete \<noteq> CmdList" "CmdDelete \<noteq> CmdListBody"
  by (simp_all add: CmdSet_def CmdGet_def CmdDelete_def CmdList_def CmdListBody_def)

lemma CmdBinary_spec:
  assumes "map_laws (env_q env) st" and "cmd = CmdSet \<or> cmd = CmdGet \<or> cmd = CmdDelete"
    and "length key < 65536" and "length val < 2 ^ 32"
  shows "\<exists>d'. st d' = cmd_effect cmd key val (st d)
     \<and> cdb_CmdBinary env CmdBinary (kv_MarshalBinary (cdb_request cmd key [val] rid)) d =
         binary_answer env CmdBinary ((cdb_request cmd key [val] rid)
           \<lparr>kv_Value := fst (cmd_answer cmd key (st d)), kv_Err := snd (cmd_answer cmd key (st d))\<rparr>) d'"
proof -
  define R where "R = cdb_request cmd key [val] rid"
  have dec: "kv_UnmarshalBinary (kv_MarshalBinary R) kv_zero = R"
    unfolding R_def by (rule decode_request [OF assms(3,4)])
  have r: "kv_Cmd R = cmd" "kv_Key R = key" "kv_Value R = val" "R\<lparr>kv_Value := v, kv_Err := []\<rparr> = R\<lparr>kv_Value := v\<rparr>" for v
    by (simp_all add: R_def cdb_request_def kv_zero_def)
  have "\<exists>d'. st d' = cmd_effect cmd key val (st d)
     \<and> cdb_CmdBinary env CmdBinary (kv_MarshalBinary R) d =
         binary_answer env CmdBinary (R\<lparr>kv_Value := fst (cmd_answer cmd key (st d)),
           kv_Err := snd (cmd_answer cmd key (st d))\<rparr>) d'"
    using assms(2)
  proof (elim disjE)
    assume c: "cmd = CmdSet"
    obtain d' where d': "q_update_map (env_q env) key val d = (None, d')" "st d' = (st d)(key \<mapsto> val)"
      using assms(1) unfolding map_laws_def by (metis prod.collapse)
    then show ?thesis
      by (intro exI [of _ d'])
        (simp add: cdb_CmdBinary_def dec r c tcdb_Set_def no_data_def binary_case_def cmd_effect_def cmd_answer_def)
  next
    assume c: "cmd = CmdGet"
    have "q_select_data (env_q env) key d = (case st d key of Some v \<Rightarrow> Inr v | None \<Rightarrow> Inl ErrNotFound)"
      using assms(1) by (simp add: map_laws_def)
    then show ?thesis
      by (intro exI [of _ d], cases "st d key")
        (simp_all add: cdb_CmdBinary_def dec r c tcdb_Get_def binary_notfound_def cmd_effect_def cmd_answer_def)
  next
    assume c: "cmd = CmdDelete"
    obtain d' where d': "q_delete_data (env_q env) key d = (None, d')" "st d' = (st d)(key := None)"
      using assms(1) unfolding map_laws_def by (metis prod.collapse)
    then show ?thesis
      by (intro exI [of _ d'])
        (simp add: cdb_CmdBinary_def dec r c tcdb_Delete_def no_data_def binary_case_def cmd_effect_def cmd_answer_def)
  qed
  then show ?thesis by (simp only: R_def)
qed

section \<open>A session in memory\<close>

text \<open>An instance of the parameter, on which the laws hold: three tables.\<close>

record mem_db =
  m_map :: "string \<rightharpoonup> bytes"
  m_ids :: "string \<rightharpoonup> int"
  m_queue :: "string \<Rightarrow> (nat \<times> bytes) list"
  m_fresh :: nat

definition mem_empty :: mem_db where
  "mem_empty = \<lparr> m_map = Map.empty, m_ids = Map.empty, m_queue = (\<lambda>_. []), m_fresh = 0 \<rparr>"

definition mem_cql :: "(mem_db, nat) cql" where
  "mem_cql =
     \<lparr> q_update_map = (\<lambda>k v d. (None, d\<lparr>m_map := (m_map d)(k \<mapsto> v)\<rparr>)),
       q_select_data = (\<lambda>k d. case m_map d k of Some v \<Rightarrow> Inr v | None \<Rightarrow> Inl ErrNotFound),
       q_delete_data = (\<lambda>k d. (None, d\<lparr>m_map := (m_map d)(k := None)\<rparr>)),
       q_select_keys = (\<lambda>a b d. []),
       q_select_datas = (\<lambda>a b d. []),
       q_update_id = (\<lambda>k n d. (None, d\<lparr>m_ids := (m_ids d)(k \<mapsto> n)\<rparr>)),
       q_select_id = (\<lambda>k d. case m_ids d k of Some n \<Rightarrow> Inr n | None \<Rightarrow> Inl ErrNotFound),
       q_update_id_if = (\<lambda>k new old d.
          if m_ids d k = Some old then (Inr (True, old), d\<lparr>m_ids := (m_ids d)(k \<mapsto> new)\<rparr>)
          else (Inr (False, case m_ids d k of Some n \<Rightarrow> n | None \<Rightarrow> 0), d)),
       q_delete_id = (\<lambda>k d. (None, d\<lparr>m_ids := (m_ids d)(k := None)\<rparr>)),
       q_insert_queue = (\<lambda>k v d. (None, d\<lparr>m_queue := (m_queue d)(k := m_queue d k @ [(m_fresh d, v)]),
                                          m_fresh := m_fresh d + 1\<rparr>)),
       q_select_queue = (\<lambda>k d. case m_queue d k of [] \<Rightarrow> Inl ErrNotFound | x # _ \<Rightarrow> Inr x),
       q_lock_row = (\<lambda>k r d. if r \<in> fst ` set (m_queue d k)
          then (Inr True, d\<lparr>m_queue := (m_queue d)(k := filter (\<lambda>(r', _). r' \<noteq> r) (m_queue d k))\<rparr>)
          else (Inr False, d)),
       q_delete_row = (\<lambda>k r d. (None, d)),
       call_plugin = (\<lambda>n f ps d. (Inl ''no plugin'', d)) \<rparr>"

lemma mem_map_laws: "map_laws mem_cql m_map"
  by (simp add: map_laws_def mem_cql_def)

lemma mem_id_laws: "id_laws mem_cql k (\<lambda>d. m_ids d k)"
  by (auto simp: id_laws_def mem_cql_def split: option.splits if_splits)

lemma map_of_filter_row: "map_of (filter (\<lambda>(r', _). r' \<noteq> r) xs) = (map_of xs)(r := None)"
  by (induction xs) auto

lemma fst_in_image: "(r, b) \<in> A \<Longrightarrow> r \<in> fst ` A"
  by force

lemma mem_queue_laws: "queue_laws mem_cql k (\<lambda>d. map_of (m_queue d k))"
  unfolding queue_laws_def
proof (intro conjI allI impI)
  show "map_of (m_queue d k) row = Some val" if "q_select_queue mem_cql k d = Inr (row, val)" for d row val
    using that by (auto simp: mem_cql_def split: list.splits)
  show "case r of Inl e \<Rightarrow> map_of (m_queue d' k) = map_of (m_queue d k)
           \<or> map_of (m_queue d' k) = (map_of (m_queue d k))(row := None)
      | Inr True \<Rightarrow> row \<in> dom (map_of (m_queue d k)) \<and> map_of (m_queue d' k) = (map_of (m_queue d k))(row := None)
      | Inr False \<Rightarrow> map_of (m_queue d' k) = map_of (m_queue d k)"
    if "q_lock_row mem_cql k row d = (r, d')" for d row r d'
    using that by (auto simp: mem_cql_def map_of_filter_row dom_map_of_conv_image_fst split: if_splits intro: fst_in_image)
  show "map_of (m_queue d' k) = map_of (m_queue d k)" if "q_delete_row mem_cql k row d = (e, d')" for d row e d'
    using that by (simp add: mem_cql_def)
qed

text \<open>
  Two callers that ask for the first id of a name together both find no counter and both create it:
  if one is done before the other creates, both get 1.
\<close>

lemma SetID_one: "tcdb_SetID mem_cql k (bytes_of (Itoa 1)) d = Some (Inr [], d\<lparr>m_ids := (m_ids d)(k \<mapsto> 1)\<rparr>)"
proof -
  have "Atoi (itoa (Suc 0)) = (1, True)" using Atoi_itoa [of "Suc 0"] by simp
  then show ?thesis by (simp add: tcdb_SetID_def Itoa_def no_data_def mem_cql_def)
qed

lemma mem_ids_simps:
  "q_select_id mem_cql k d = (case m_ids d k of Some n \<Rightarrow> Inr n | None \<Rightarrow> Inl ErrNotFound)"
  "q_update_id_if mem_cql k new old d =
     (if m_ids d k = Some old then (Inr (True, old), d\<lparr>m_ids := (m_ids d)(k \<mapsto> new)\<rparr>)
      else (Inr (False, case m_ids d k of Some n \<Rightarrow> n | None \<Rightarrow> 0), d))"
  by (simp_all add: mem_cql_def)

lemma mem_queue_simps:
  "q_select_queue mem_cql k d = (case m_queue d k of [] \<Rightarrow> Inl ErrNotFound | x # _ \<Rightarrow> Inr x)"
  "q_lock_row mem_cql k r d =
     (if r \<in> fst ` set (m_queue d k)
      then (Inr True, d\<lparr>m_queue := (m_queue d)(k := filter (\<lambda>(r', _). r' \<noteq> r) (m_queue d k))\<rparr>)
      else (Inr False, d))"
  "q_delete_row mem_cql k r d = (None, d)"
  by (simp_all add: mem_cql_def)

lemma first_id_race:
  "let pcs = fst (id_run mem_cql ''k'' [0, 1, 0, 0, 1, 1] (\<lambda>_. IdSelect, mem_empty))
   in pcs 0 = IdDone 1 \<and> pcs 1 = IdDone 1"
  by (simp add: id_step_def mem_ids_simps mem_empty_def SetID_one)

text \<open>A counter deleted after \<open>GetID\<close> has read it keeps the conditional update from ever applying.\<close>

lemma get_id_spins:
  assumes "m_ids d k = None"
  shows "id_loop mem_cql k n d = None"
proof -
  have "q = mem_cql \<longrightarrow> m_ids d k \<noteq> None" if "id_loop q k n d = Some r" for q k n d r
    using _ that
  proof (rule id_loop.raw_induct [where P = "\<lambda>q k n d r. q = mem_cql \<longrightarrow> m_ids d k \<noteq> None"], goal_cases)
    case (1 loop q k n d r)
    show ?case
    proof
      assume q: "q = mem_cql"
      show "m_ids d k \<noteq> None"
      proof
        assume "m_ids d k = None"
        then have "q_update_id_if q k (n + 1) n d = (Inr (False, 0), d)" by (simp add: q mem_cql_def)
        then have "loop q k 0 d = Some r" using 1(2) by simp
        then show False using 1(1) q \<open>m_ids d k = None\<close> by blast
      qed
    qed
  qed
  then show ?thesis using assms by (metis not_None_eq)
qed

section \<open>Properties\<close>

text \<open>Set, get and delete through the binary command, with the codec of the client on both sides. For a
  database whose statements behave as documented, the service answers a request once; the client accepts
  the answer as the one to its request; the table changes as the command says and not otherwise; and a
  get returns the stored value, or the error "not found" when there is none.\<close>

lemma binary_command_effect:
  assumes "map_laws (env_q env) st" and "cmd = CmdSet \<or> cmd = CmdGet \<or> cmd = CmdDelete"
    and "length key < 65536" and "length val < 2 ^ 32" and "\<forall>x. st d key = Some x \<longrightarrow> length x < 2 ^ 32"
  shows "\<exists>ans d'. cdb_CmdBinary env CmdBinary (kv_MarshalBinary (cdb_request cmd key [val] rid)) d
       = Some (env_answer env CmdBinary ans, [(CmdBinary, ans)], d')
     \<and> response_check rid ans
     \<and> st d' = (if cmd = CmdSet then (st d)(key \<mapsto> val) else if cmd = CmdDelete then (st d)(key := None) else st d)
     \<and> kv_Value (kv_UnmarshalBinary ans kv_zero) = (if cmd = CmdGet then case_option [] id (st d key) else [])
     \<and> (kv_Err (kv_UnmarshalBinary ans kv_zero) = ErrNotFound \<longleftrightarrow> cmd = CmdGet \<and> st d key = None)"
proof -
  let ?a = "cmd_answer cmd key (st d)"
  let ?r = "(cdb_request cmd key [val] rid)\<lparr>kv_Value := fst ?a, kv_Err := snd ?a\<rparr>"
  obtain d' where d': "st d' = cmd_effect cmd key val (st d)"
    "cdb_CmdBinary env CmdBinary (kv_MarshalBinary (cdb_request cmd key [val] rid)) d = binary_answer env CmdBinary ?r d'"
    using CmdBinary_spec [OF assms(1-4)] by blast
  have "length (fst ?a) < 2 ^ 32" "length (snd ?a) < 256"
    using assms(5) by (auto simp: cmd_answer_def ErrNotFound_def split: option.split)
  then have dec: "kv_UnmarshalBinary (kv_MarshalBinary ?r) kv_zero = ?r"
    using decode_answer [OF assms(3,4)] by blast
  have id: "kv_ID ?r = rid" by (simp add: cdb_request_def)
  have v: "kv_Value ?r = (if cmd = CmdGet then case_option [] id (st d key) else [])"
    "kv_Err ?r = ErrNotFound \<longleftrightarrow> cmd = CmdGet \<and> st d key = None"
    by (auto simp: cmd_answer_def ErrNotFound_def split: option.split)
  show ?thesis
    using d' dec id v
    by (intro exI [of _ "kv_MarshalBinary ?r"] exI [of _ d'])
      (simp add: binary_answer_def Let_def response_check_def cmd_effect_def)
qed

lemma binary_command_effect_example:
  "let env = \<lparr> env_q = mem_cql, env_js = undefined, env_answer = (\<lambda>c b. None) \<rparr>;
       d = mem_empty\<lparr>m_map := [''k'' \<mapsto> [4, 2]]\<rparr>
   in \<exists>ans d'. cdb_CmdBinary env CmdBinary (kv_MarshalBinary (cdb_request CmdGet ''k'' [[]] 9)) d
       = Some (None, [(CmdBinary, ans)], d')
     \<and> response_check 9 ans \<and> m_map d' = [''k'' \<mapsto> [4, 2]]
     \<and> kv_Value (kv_UnmarshalBinary ans kv_zero) = [4, 2]"
  unfolding Let_def
  using binary_command_effect [of "\<lparr> env_q = mem_cql, env_js = undefined, env_answer = (\<lambda>c b. None) \<rparr>" m_map
      CmdGet "''k''" "[]" "mem_empty\<lparr>m_map := [''k'' \<mapsto> [4, 2]]\<rparr>" 9]
  by (auto simp: mem_map_laws CmdGet_def CmdSet_def CmdDelete_def)



text \<open>C14: a queue element is given out once. However the statements of any number of callers of
  \<open>GetQueue\<close> interleave and whatever of them fail, each element that a caller gets was in the queue
  with that value, is not free any more, and no other caller gets it.\<close>

theorem queue_element_once:
  assumes "queue_laws q key free" and "q_run q key sched (\<lambda>_. QSelect, d0) = (pcs, d)"
    and "pcs a = QDone row val"
  shows "free d0 row = Some val \<and> free d row = None \<and> (\<forall>b val'. pcs b = QDone row val' \<longrightarrow> b = a)"
proof -
  have "queue_ok free (free d0) (\<lambda>_. QSelect, d0)" by (simp add: queue_ok_def)
  from queue_ok_run [OF assms(1) this, of sched] have ok: "queue_ok free (free d0) (pcs, d)"
    by (simp add: assms(2))
  have t: "taken (pcs a) = Some (row, val)" using assms(3) by simp
  then have "free d0 row = Some val \<and> row \<notin> dom (free d)" using ok unfolding queue_ok_def by blast
  moreover have "b = a" if "pcs b = QDone row val'" for b val'
  proof -
    have "taken (pcs b) = Some (row, val')" using that by simp
    then show ?thesis using ok t unfolding queue_ok_def by blast
  qed
  ultimately show ?thesis by auto
qed

theorem queue_element_once_witness:
  "let pcs = fst (q_run mem_cql ''q'' [0, 1, 0, 0, 1, 1, 1, 1]
       (\<lambda>_. QSelect, mem_empty\<lparr>m_queue := (\<lambda>_. [(0, [7]), (1, [8])])\<rparr>))
   in pcs 1 = QDone 1 [8] \<and> (\<forall>b val'. pcs b = QDone 1 val' \<longrightarrow> b = 1)"
proof -
  let ?s = "q_run mem_cql ''q'' [0, 1, 0, 0, 1, 1, 1, 1]
       (\<lambda>_. QSelect, mem_empty\<lparr>m_queue := (\<lambda>_. [(0, [7]), (1, [8])])\<rparr>)"
  have run: "fst ?s 1 = QDone 1 [8]"
    by (simp add: q_step_def mem_queue_simps mem_empty_def)
  show ?thesis
    using queue_element_once [OF mem_queue_laws [of "''q''"] prod.collapse [symmetric] run] run
    unfolding Let_def by blast
qed

end
