(* ===== verification/Users.thy ===== *)
theory Users
  imports Prelude
begin

text \<open>
  The users service: \<open>services/teouserscli/teouserscli.go\<close> (requests and answers) and
  \<open>services/teousers/process.go\<close> (the commands), with the handler of the command "check user" in
  \<open>teonet/app/teocdb/main.go\<close>. UUIDs (package gocql) and the database are parameters.
\<close>

section \<open>Packets\<close>

type_synonym UUID = bytes

definition emptyUUID :: UUID where "emptyUUID = replicate 16 0"

record UserRequest =
  ur_ReqID :: u32
  ur_Prefix :: string
  ur_ID :: UUID

record UserResponce =
  us_ReqID :: u32
  us_ID :: UUID
  us_AccessToken :: UUID
  us_Prefix :: string

text \<open>
  \<open>UUID.String\<close>, \<open>ParseUUID\<close> and \<open>UUIDFromBytes\<close> (an error, or the 16 bytes). The values of
  \<open>TimeUUID()\<close> are arguments of the functions that call it.
\<close>

record uuid_lib =
  uu_String :: "UUID \<Rightarrow> string"
  uu_Parse :: "string \<Rightarrow> string + UUID"
  uu_FromBytes :: "bytes \<Rightarrow> string + UUID"

definition dash :: u8 where "dash = byte_of_char CHR ''-''"

definition ur_MarshalText :: "uuid_lib \<Rightarrow> UserRequest \<Rightarrow> bytes" where
  "ur_MarshalText L req = bytes_of (ur_Prefix req) @ [dash] @ bytes_of (uu_String L (ur_ID req))"

text \<open>
  \<open>bytes.SplitN(data, "-", 2)\<close> gives the part before the first dash and, if there is one, the
  rest; never no part. Without a dash the id is a new one.
\<close>

definition ur_UnmarshalText1 :: "uuid_lib \<Rightarrow> UUID \<Rightarrow> bytes \<Rightarrow> UserRequest \<Rightarrow> string option \<times> UserRequest" where
  "ur_UnmarshalText1 L newID data req =
     (let pre = takeWhile (\<lambda>b. b \<noteq> dash) data;
          req = req\<lparr>ur_Prefix := string_of pre\<rparr>
      in if dash \<in> set data
         then (case uu_Parse L (string_of (drop (length pre + 1) data)) of
                 Inl e \<Rightarrow> (Some e, req\<lparr>ur_ID := emptyUUID\<rparr>)
               | Inr u \<Rightarrow> (if u = emptyUUID then Some ''empty UUID'' else None, req\<lparr>ur_ID := u\<rparr>))
         else (None, req\<lparr>ur_ID := newID\<rparr>))"

definition ur_MarshalBinary :: "uuid_lib \<Rightarrow> UserRequest \<Rightarrow> bytes" where
  "ur_MarshalBinary L req =
     le32 (ur_ReqID req) @ bytes_of (ur_Prefix req) @ [dash] @ bytes_of (uu_String L (ur_ID req))"

text \<open>The slice \<open>data[4:]\<close> panics when the data are shorter.\<close>

definition ur_UnmarshalBinary :: "uuid_lib \<Rightarrow> UUID \<Rightarrow> bytes \<Rightarrow> UserRequest \<Rightarrow> (string option \<times> UserRequest) go" where
  "ur_UnmarshalBinary L newID data req =
     (case rd_u32 data of (v, _) \<Rightarrow>
        let req = req\<lparr>ur_ReqID := or_old (ur_ReqID req) v\<rparr>
        in if length data < 4 then Inl SliceOutOfRange
           else Inr (ur_UnmarshalText1 L newID (drop 4 data) req))"

definition us_MarshalBinary :: "UserResponce \<Rightarrow> bytes" where
  "us_MarshalBinary res = le32 (us_ReqID res) @ us_ID res @ us_AccessToken res @ bytes_of (us_Prefix res)"

definition us_UnmarshalBinary :: "bytes \<Rightarrow> UserResponce \<Rightarrow> UserResponce" where
  "us_UnmarshalBinary data res =
     (case rd_u32 data of (v, r) \<Rightarrow>
      case rd_take 16 r of (i, r) \<Rightarrow>
      case rd_take 16 r of (t, r) \<Rightarrow>
      let res = res\<lparr>us_ReqID := or_old (us_ReqID res) v, us_ID := or_old (us_ID res) i,
                    us_AccessToken := or_old (us_AccessToken res) t\<rparr>
      in if length data > 36
         then case rd_fill (length data - 36) r of (d, _) \<Rightarrow> res\<lparr>us_Prefix := string_of d\<rparr>
         else res)"

section \<open>Commands\<close>

record User =
  usr_ID :: UUID
  usr_AccessToken :: UUID
  usr_Prefix :: string
  usr_Name :: string
  usr_LastOnline :: int

text \<open>
  The statements: select by the id of a user structure, select by the id of a request (its
  destination is passed by value), select by access token (fills id, token and prefix of the answer),
  and insert.
\<close>

record 'd users_db =
  db_get :: "UUID \<Rightarrow> 'd \<Rightarrow> string option"
  db_get_req :: "UUID \<Rightarrow> 'd \<Rightarrow> string option"
  db_getAccess :: "UserResponce \<Rightarrow> 'd \<Rightarrow> string + UserResponce"
  db_set :: "User \<Rightarrow> 'd \<Rightarrow> string option \<times> 'd"

record 'd users_env =
  ue_lib :: uuid_lib
  ue_db :: "'d users_db"
  ue_answer :: "u8 \<Rightarrow> bytes \<Rightarrow> string option"

definition ur_zero :: UserRequest where
  "ur_zero = \<lparr> ur_ReqID = 0, ur_Prefix = [], ur_ID = emptyUUID \<rparr>"

text \<open>Results: the error, the answers sent, the database; and what the command returns.\<close>

type_synonym ('r, 'd) com = "('r \<times> string option \<times> (u8 \<times> bytes) list \<times> 'd) go"

definition ComCheckUser :: "'d users_env \<Rightarrow> UUID \<Rightarrow> u8 \<Rightarrow> bytes \<Rightarrow> 'd \<Rightarrow> (bool, 'd) com" where
  "ComCheckUser env newID cmd data d =
     (let id = (case uu_FromBytes (ue_lib env) data of
                  Inr u \<Rightarrow> Inr u
                | Inl _ \<Rightarrow> (case ur_UnmarshalText1 (ue_lib env) newID data ur_zero of
                            (Some e, _) \<Rightarrow> Inl e
                          | (None, req) \<Rightarrow> Inr (ur_ID req)))
      in case id of
           Inl e \<Rightarrow> Inr (False, Some e, [], d)
         | Inr u \<Rightarrow>
             let exists = (db_get (ue_db env) u d = None);
                 ans = [if exists then 1 else 0]
             in Inr (exists, ue_answer env cmd ans, [(cmd, ans)], d))"

definition ComCheckAccess :: "'d users_env \<Rightarrow> UUID \<Rightarrow> u8 \<Rightarrow> bytes \<Rightarrow> 'd \<Rightarrow> (UserResponce option, 'd) com" where
  "ComCheckAccess env newID cmd data d =
     go_bind (ur_UnmarshalBinary (ue_lib env) newID data ur_zero) (\<lambda>(err, req).
       case err of
         Some e \<Rightarrow> Inr (None, Some e, [], d)
       | None \<Rightarrow>
           (let res = \<lparr> us_ReqID = ur_ReqID req, us_ID = emptyUUID, us_AccessToken = ur_ID req, us_Prefix = [] \<rparr>
            in case db_getAccess (ue_db env) res d of
                 Inl e \<Rightarrow> Inr (Some res, Some e, [], d)
               | Inr res \<Rightarrow>
                   let ans = us_MarshalBinary res
                   in Inr (Some res, ue_answer env cmd ans, [(cmd, ans)], d)))"

definition ErrUserAlreadyExists :: string where
  "ErrUserAlreadyExists = ''user with selected id already exists''"

text \<open>
  The three values of \<open>TimeUUID()\<close>: the one in the decoder, the one for a wrong or empty id, the access token.
\<close>

definition ComCreateUser :: "'d users_env \<Rightarrow> UUID \<times> UUID \<times> UUID \<Rightarrow> int \<Rightarrow> u8 \<Rightarrow> bytes \<Rightarrow> 'd
    \<Rightarrow> (UserResponce option, 'd) com" where
  "ComCreateUser env ids now cmd data d =
     (case ids of (newID, newID2, tok) \<Rightarrow>
      go_bind (ur_UnmarshalBinary (ue_lib env) newID data ur_zero) (\<lambda>(err, req).
        let req = (if err \<noteq> None \<or> ur_ID req = emptyUUID then req\<lparr>ur_ID := newID2\<rparr> else req)
        in if db_get_req (ue_db env) (ur_ID req) d = None
           then Inr (None, Some ErrUserAlreadyExists, [], d)
           else
             let user = \<lparr> usr_ID = ur_ID req, usr_AccessToken = tok, usr_Prefix = ur_Prefix req,
                          usr_Name = ''Player-1'', usr_LastOnline = now \<rparr>
             in case db_set (ue_db env) user d of
                  (Some e, d) \<Rightarrow> Inr (None, Some e, [], d)
                | (None, d) \<Rightarrow>
                    let res = \<lparr> us_ReqID = ur_ReqID req, us_ID = usr_ID user,
                                us_AccessToken = usr_AccessToken user, us_Prefix = usr_Prefix user \<rparr>;
                        ans = us_MarshalBinary res
                    in Inr (Some res, ue_answer env cmd ans, [(cmd, ans)], d)))"

text \<open>The handler: check the access token and, if that fails with any error, create the user.\<close>

definition CheckUser :: "'d users_env \<Rightarrow> UUID \<Rightarrow> UUID \<times> UUID \<times> UUID \<Rightarrow> int \<Rightarrow> u8 \<Rightarrow> bytes \<Rightarrow> 'd
    \<Rightarrow> (UserResponce option, 'd) com" where
  "CheckUser env newID ids now cmd data d =
     go_bind (ComCheckAccess env newID cmd data d) (\<lambda>(res, err, ans, d).
       case err of
         None \<Rightarrow> Inr (res, None, ans, d)
       | Some _ \<Rightarrow> go_bind (ComCreateUser env ids now cmd data d)
                    (\<lambda>(res, err, ans', d). Inr (res, err, ans @ ans', d)))"

section \<open>Lemmas\<close>

lemma us_Unmarshal_Marshal:
  assumes "length (us_ID res) = 16" and "length (us_AccessToken res) = 16"
  shows "us_UnmarshalBinary (us_MarshalBinary res) old =
     (if us_Prefix res = [] then res\<lparr>us_Prefix := us_Prefix old\<rparr> else res)"
  using assms
  by (simp add: us_UnmarshalBinary_def us_MarshalBinary_def codec_simps Let_def rd_fill_all)

lemma request_text_split:
  assumes "CHR ''-'' \<notin> set p"
  shows "takeWhile (\<lambda>b. b \<noteq> dash) (bytes_of p @ dash # r) = bytes_of p"
  using assms by (subst takeWhile_append2) (auto simp: bytes_of_def dash_def)

lemma ur_Unmarshal_Marshal:
  assumes "CHR ''-'' \<notin> set (ur_Prefix req)" and "uu_Parse L (uu_String L (ur_ID req)) = Inr (ur_ID req)"
  shows "ur_UnmarshalBinary L newID (ur_MarshalBinary L req) old =
     Inr (if ur_ID req = emptyUUID then Some ''empty UUID'' else None, req)"
  using assms
  by (simp add: ur_UnmarshalBinary_def ur_MarshalBinary_def codec_simps ur_UnmarshalText1_def
      request_text_split Let_def)

lemma short_request_panics:
  "length data < 4 \<Longrightarrow> CheckUser env newID ids now cmd data d = Inl SliceOutOfRange"
  by (simp add: CheckUser_def ComCheckAccess_def ur_UnmarshalBinary_def split: prod.split)

section \<open>Properties\<close>

text \<open>The answer of the users service survives its binary form; an empty prefix leaves the one the
  receiver had.\<close>

lemma user_answer_roundtrip:
  assumes "length (us_ID res) = 16" and "length (us_AccessToken res) = 16"
  shows "us_UnmarshalBinary (us_MarshalBinary res) old =
     (if us_Prefix res = [] then res\<lparr>us_Prefix := us_Prefix old\<rparr> else res)"
  by (rule us_Unmarshal_Marshal [OF assms])

lemma user_answer_roundtrip_example:
  "let r = \<lparr> us_ReqID = 77, us_ID = replicate 16 1, us_AccessToken = replicate 16 2, us_Prefix = ''tg001'' \<rparr>
   in us_UnmarshalBinary (us_MarshalBinary r) r = r"
  using user_answer_roundtrip [of "\<lparr> us_ReqID = 77, us_ID = replicate 16 1, us_AccessToken = replicate 16 2, us_Prefix = ''tg001'' \<rparr>"
      "\<lparr> us_ReqID = 77, us_ID = replicate 16 1, us_AccessToken = replicate 16 2, us_Prefix = ''tg001'' \<rparr>"]
  by simp

text \<open>The command "check user" on a request made by the client (a prefix without a dash, an id that
  UUID parsing reads back): when the token is in the database the service answers with that user and
  stores nothing; when it is not and the id is free, exactly one user with the request's id and prefix is
  stored and the one answer names the request, the id, the new access token and the prefix.\<close>

lemma check_user_answers:
  assumes "CHR ''-'' \<notin> set (ur_Prefix req)" and "uu_Parse (ue_lib env) (uu_String (ue_lib env) (ur_ID req)) = Inr (ur_ID req)"
    and "ur_ID req \<noteq> emptyUUID"
    and "asked = \<lparr> us_ReqID = ur_ReqID req, us_ID = emptyUUID, us_AccessToken = ur_ID req, us_Prefix = [] \<rparr>"
    and "user = \<lparr> usr_ID = ur_ID req, usr_AccessToken = tok, usr_Prefix = ur_Prefix req,
                 usr_Name = ''Player-1'', usr_LastOnline = now \<rparr>"
    and "created = \<lparr> us_ReqID = ur_ReqID req, us_ID = ur_ID req, us_AccessToken = tok, us_Prefix = ur_Prefix req \<rparr>"
    and "\<forall>b. ue_answer env cmd b = None" and "fst (db_set (ue_db env) user d) = None"
  shows "CheckUser env newID (i1, i2, tok) now cmd (ur_MarshalBinary (ue_lib env) req) d =
     (case db_getAccess (ue_db env) asked d of
        Inr res \<Rightarrow> Inr (Some res, None, [(cmd, us_MarshalBinary res)], d)
      | Inl _ \<Rightarrow>
          if db_get_req (ue_db env) (ur_ID req) d = None then Inr (None, Some ErrUserAlreadyExists, [], d)
          else Inr (Some created, None, [(cmd, us_MarshalBinary created)], snd (db_set (ue_db env) user d)))"
  using ur_Unmarshal_Marshal [OF assms(1,2)] assms(3-)
  by (cases "db_set (ue_db env) user d")
    (auto simp: CheckUser_def ComCheckAccess_def ComCreateUser_def Let_def split: sum.split)

text \<open>An instance: ids are printed as they are, the database is a map from tokens to users.\<close>

definition toy_uuid :: uuid_lib where
  "toy_uuid = \<lparr> uu_String = string_of, uu_Parse = (\<lambda>s. Inr (bytes_of s)), uu_FromBytes = (\<lambda>b. Inl ''wrong length'') \<rparr>"

definition mem_users :: "(UUID \<rightharpoonup> User) users_db" where
  "mem_users =
     \<lparr> db_get = (\<lambda>u d. if d u = None then Some ''not found'' else None),
       db_get_req = (\<lambda>u d. if d u = None then Some ''not found'' else None),
       db_getAccess = (\<lambda>r d. Inl ''not found''),
       db_set = (\<lambda>u d. (None, d(usr_ID u \<mapsto> u))) \<rparr>"

lemma check_user_answers_example:
  "let res = \<lparr> us_ReqID = 3, us_ID = [1, 2], us_AccessToken = [9], us_Prefix = ''tg001'' \<rparr>
   in \<exists>d'. CheckUser \<lparr> ue_lib = toy_uuid, ue_db = mem_users, ue_answer = (\<lambda>c b. None) \<rparr> [] ([], [], [9]) 5 133
     (ur_MarshalBinary toy_uuid \<lparr> ur_ReqID = 3, ur_Prefix = ''tg001'', ur_ID = [1, 2] \<rparr>) Map.empty
   = Inr (Some res, None, [(133, us_MarshalBinary res)], d') \<and> d' [1, 2] \<noteq> None"
  using check_user_answers [of "\<lparr> ur_ReqID = 3, ur_Prefix = ''tg001'', ur_ID = [1, 2] \<rparr>"
      "\<lparr> ue_lib = toy_uuid, ue_db = mem_users, ue_answer = (\<lambda>c b. None) \<rparr>", OF _ _ _ refl refl refl,
      of 133 "[9]" 5 Map.empty "[]" "[]" "[]"]
  by (auto simp: toy_uuid_def mem_users_def emptyUUID_def eval_nat_numeral)

end
