(* ===== verification/RoomStats.thy ===== *)
theory RoomStats
  imports Users
begin

text \<open>
  The packets between the room controller and its statistic in the database:
  \<open>services/teoroomcli/stats/teoroomcli_stats.go\<close>; the commands of the room client,
  \<open>services/teoroomcli/teoroomcli.go\<close>; and the database side, \<open>services/teoroom/stats/process.go\<close>.
\<close>

section \<open>Times\<close>

text \<open>
  The binary form of \<open>time.Time\<close>: version 1, seconds and nanoseconds, the zone's offset in minutes,
  big-endian, 15 bytes. \<open>UnmarshalBinary\<close> refuses another length or version and leaves its receiver.
\<close>

record go_time =
  t_sec :: u64
  t_nsec :: u32
  t_off :: u16

definition zero_time :: go_time where "zero_time = \<lparr> t_sec = 0, t_nsec = 0, t_off = -1 \<rparr>"

definition time_Marshal :: "go_time \<Rightarrow> bytes" where
  "time_Marshal t = [1] @ rev (le64 (t_sec t)) @ rev (le32 (t_nsec t)) @ rev (le16 (t_off t))"

definition time_Unmarshal :: "bytes \<Rightarrow> go_time \<Rightarrow> go_time" where
  "time_Unmarshal b old =
     (if length b \<noteq> 15 \<or> b ! 0 \<noteq> 1 then old
      else \<lparr> t_sec = un64 (rev (take 8 (drop 1 b))),
             t_nsec = (case rev (take 4 (drop 9 b)) of [w, x, y, z] \<Rightarrow> un32 w x y z | _ \<Rightarrow> 0),
             t_off = (case rev (take 2 (drop 13 b)) of [x, y] \<Rightarrow> un16 x y | _ \<Rightarrow> 0) \<rparr>)"

definition tlen :: nat where "tlen = length (time_Marshal zero_time)"

section \<open>Requests and answers\<close>

definition CmdSetRoomCreated :: u8 where "CmdSetRoomCreated = 134"
definition CmdSetRoomState :: u8 where "CmdSetRoomState = 135"
definition CmdSetClientState :: u8 where "CmdSetClientState = 136"
definition CmdRoomsByCreated :: u8 where "CmdRoomsByCreated = 137"

text \<open>
  The decoders return whether an error occurred, with the receiver as far as it was filled.
  A field whose read fails keeps its value.
\<close>

record RoomCreateRequest =
  rc_RoomID :: UUID
  rc_RoomNum :: u32

definition rc_Marshal :: "RoomCreateRequest \<Rightarrow> bytes" where
  "rc_Marshal req = rc_RoomID req @ le32 (rc_RoomNum req)"

definition rc_Unmarshal :: "bytes \<Rightarrow> RoomCreateRequest \<Rightarrow> bool \<times> RoomCreateRequest" where
  "rc_Unmarshal data req =
     (case rd_take 16 data of
        (None, _) \<Rightarrow> (True, req)
      | (Some i, r) \<Rightarrow>
          (case rd_u32 r of (v, _) \<Rightarrow>
             (v = None, req\<lparr>rc_RoomID := i, rc_RoomNum := or_old (rc_RoomNum req) v\<rparr>)))"

definition rcr_Marshal :: "UUID \<Rightarrow> bytes" where
  "rcr_Marshal i = i"

definition rcr_Unmarshal :: "bytes \<Rightarrow> UUID \<Rightarrow> bool \<times> UUID" where
  "rcr_Unmarshal data i = (case rd_take 16 data of (v, _) \<Rightarrow> (v = None, or_old i v))"

record RoomStateRequest =
  rs_RoomID :: UUID
  rs_Status :: u8

definition rs_Marshal :: "RoomStateRequest \<Rightarrow> bytes" where
  "rs_Marshal req = rs_RoomID req @ [rs_Status req]"

definition rs_Unmarshal :: "bytes \<Rightarrow> RoomStateRequest \<Rightarrow> bool \<times> RoomStateRequest" where
  "rs_Unmarshal data req =
     (case rd_take 16 data of
        (None, _) \<Rightarrow> (True, req)
      | (Some i, r) \<Rightarrow>
          (case rd_u8 r of (v, _) \<Rightarrow>
             (v = None, req\<lparr>rs_RoomID := i, rs_Status := or_old (rs_Status req) v\<rparr>)))"

record ClientStateRequest =
  cs_State :: u8
  cs_RoomID :: UUID
  cs_ID :: UUID
  cs_GameStat :: bytes

definition cs_Marshal :: "ClientStateRequest \<Rightarrow> bytes" where
  "cs_Marshal req = [cs_State req] @ cs_RoomID req @ cs_ID req @ cs_GameStat req"

definition cs_Unmarshal :: "bytes \<Rightarrow> ClientStateRequest \<Rightarrow> bool \<times> ClientStateRequest" where
  "cs_Unmarshal data req =
     (case rd_u8 data of (s, r) \<Rightarrow>
      case rd_take 16 r of (rm, r) \<Rightarrow>
      case rd_take 16 r of (i, r) \<Rightarrow>
      let req = req\<lparr>cs_State := or_old (cs_State req) s, cs_RoomID := or_old (cs_RoomID req) rm,
                    cs_ID := or_old (cs_ID req) i\<rparr>
      in (i = None,
          if length data > 33
          then case rd_fill (length data - 33) r of (g, _) \<Rightarrow> req\<lparr>cs_GameStat := g\<rparr>
          else req))"

record RoomByCreatedRequest =
  rb_ReqID :: u32
  rb_From :: go_time
  rb_To :: go_time
  rb_Limit :: u32

definition rb_Marshal :: "RoomByCreatedRequest \<Rightarrow> bytes" where
  "rb_Marshal req = le32 (rb_ReqID req) @ time_Marshal (rb_From req) @ time_Marshal (rb_To req) @ le32 (rb_Limit req)"

definition rb_Unmarshal :: "bytes \<Rightarrow> RoomByCreatedRequest \<Rightarrow> bool \<times> RoomByCreatedRequest" where
  "rb_Unmarshal data req =
     (case rd_u32 data of
        (None, _) \<Rightarrow> (True, req)
      | (Some q, r) \<Rightarrow>
          let req = req\<lparr>rb_ReqID := q\<rparr>
          in case rd_take tlen r of
               (None, _) \<Rightarrow> (True, req)
             | (Some f, r) \<Rightarrow>
                 let req = req\<lparr>rb_From := time_Unmarshal f (rb_From req)\<rparr>
                 in case rd_take tlen r of
                      (None, _) \<Rightarrow> (True, req)
                    | (Some t, r) \<Rightarrow>
                        let req = req\<lparr>rb_To := time_Unmarshal t (rb_To req)\<rparr>
                        in case rd_u32 r of (v, _) \<Rightarrow>
                             (v = None, req\<lparr>rb_Limit := or_old (rb_Limit req) v\<rparr>))"

record StatRoom =
  sr_ID :: UUID
  sr_RoomNum :: u32
  sr_Created :: go_time
  sr_Started :: go_time
  sr_Closed :: go_time
  sr_Stopped :: go_time
  sr_State :: u8

record RoomByCreatedResponce =
  rr_ReqID :: u32
  rr_Rooms :: "StatRoom list"

definition enc_room :: "StatRoom \<Rightarrow> bytes" where
  "enc_room v = sr_ID v @ le32 (sr_RoomNum v) @ time_Marshal (sr_Created v) @ time_Marshal (sr_Started v)
     @ time_Marshal (sr_Closed v) @ time_Marshal (sr_Stopped v) @ [sr_State v]"

definition rr_Marshal :: "RoomByCreatedResponce \<Rightarrow> bytes" where
  "rr_Marshal res = le32 (rr_ReqID res) @ concat (map enc_room (rr_Rooms res))"

text \<open>The body of the loop after the id: the room as far as it was read, and whether all was read.\<close>

definition rd_time :: "bytes \<Rightarrow> bytes option \<times> bytes" where
  "rd_time r = rd_take tlen r"

definition new_room :: "UUID \<Rightarrow> StatRoom" where
  "new_room i = \<lparr> sr_ID = i, sr_RoomNum = 0, sr_Created = zero_time, sr_Started = zero_time,
                  sr_Closed = zero_time, sr_Stopped = zero_time, sr_State = 0 \<rparr>"

definition rd_room :: "UUID \<Rightarrow> bytes \<Rightarrow> bool \<times> StatRoom \<times> bytes" where
  "rd_room i r =
     (case rd_u32 r of
        (None, r) \<Rightarrow> (True, new_room i, r)
      | (Some n, r) \<Rightarrow>
          (case rd_time r of
             (None, r) \<Rightarrow> (True, (new_room i)\<lparr>sr_RoomNum := n\<rparr>, r)
           | (Some a, r) \<Rightarrow>
               let v = (new_room i)\<lparr>sr_RoomNum := n, sr_Created := time_Unmarshal a zero_time\<rparr>
               in case rd_time r of
                    (None, r) \<Rightarrow> (True, v, r)
                  | (Some b, r) \<Rightarrow>
                      let v = v\<lparr>sr_Started := time_Unmarshal b zero_time\<rparr>
                      in case rd_time r of
                           (None, r) \<Rightarrow> (True, v, r)
                         | (Some c, r) \<Rightarrow>
                             let v = v\<lparr>sr_Closed := time_Unmarshal c zero_time\<rparr>
                             in case rd_time r of
                                  (None, r) \<Rightarrow> (True, v, r)
                                | (Some d, r) \<Rightarrow>
                                    let v = v\<lparr>sr_Stopped := time_Unmarshal d zero_time\<rparr>
                                    in case rd_u8 r of
                                         (None, r) \<Rightarrow> (True, v, r)
                                       | (Some s, r) \<Rightarrow> (False, v\<lparr>sr_State := s\<rparr>, r)))"

text \<open>The loop ends when an id cannot be read, with no error; a room cut short is an error.\<close>

lemma rd_take_shorter: "rd_take n r = (v, r') \<Longrightarrow> length r' \<le> length r"
  by (auto simp: rd_take_def split: if_splits)

lemma rd_u8_shorter: "rd_u8 r = (v, r') \<Longrightarrow> length r' \<le> length r"
  by (cases r rule: rd_u8.cases) auto

lemma rd_u32_shorter: "rd_u32 r = (v, r') \<Longrightarrow> length r' \<le> length r"
  by (cases r rule: rd_u32.cases) auto

lemma rd_room_shorter: "rd_room i r = (e, v, r') \<Longrightarrow> length r' \<le> length r"
  unfolding rd_room_def rd_time_def Let_def
  by (auto split: prod.splits option.splits dest!: rd_take_shorter rd_u8_shorter rd_u32_shorter)

function rooms_loop :: "bytes \<Rightarrow> bool \<times> StatRoom list" where
  "rooms_loop r =
     (case rd_take 16 r of
        (None, _) \<Rightarrow> (False, [])
      | (Some i, r1) \<Rightarrow>
          (case rd_room i r1 of (err, v, r2) \<Rightarrow>
             if err then (True, [v])
             else case rooms_loop r2 of (err, vs) \<Rightarrow> (err, v # vs)))"
  by pat_completeness auto
termination
  by (relation "measure length")
    (auto simp: rd_take_def dest!: rd_room_shorter [OF sym] split: if_splits)

declare rooms_loop.simps [simp del]

definition rr_Unmarshal :: "bytes \<Rightarrow> RoomByCreatedResponce \<Rightarrow> bool \<times> RoomByCreatedResponce" where
  "rr_Unmarshal data res =
     (case rd_u32 data of (q, r) \<Rightarrow>
      case rooms_loop r of (err, rooms) \<Rightarrow>
        (err, res\<lparr>rr_ReqID := or_old (rr_ReqID res) q, rr_Rooms := rooms\<rparr>))"

section \<open>Sending\<close>

text \<open>What is sent to the peer \<open>teo-cdb\<close>: the command and the data.\<close>

definition SendRoomCreate :: "UUID \<Rightarrow> u32 \<Rightarrow> u8 \<times> bytes" where
  "SendRoomCreate roomID roomNum =
     (CmdSetRoomCreated, rc_Marshal \<lparr> rc_RoomID = roomID, rc_RoomNum = roomNum \<rparr>)"

definition SendRoomState :: "UUID \<Rightarrow> u8 \<Rightarrow> u8 \<times> bytes" where
  "SendRoomState roomID status =
     (CmdSetRoomState, rs_Marshal \<lparr> rs_RoomID = roomID, rs_Status = status \<rparr>)"

definition ClientAdded :: u8 where "ClientAdded = 0"
definition ClientLoadded :: u8 where "ClientLoadded = 1"
definition ClientStarted :: u8 where "ClientStarted = 2"
definition ClientLeave :: u8 where "ClientLeave = 3"
definition ClientDisconnected :: u8 where "ClientDisconnected = 4"

definition SendClientState :: "u8 \<Rightarrow> UUID \<Rightarrow> UUID \<Rightarrow> bytes list \<Rightarrow> u8 \<times> bytes" where
  "SendClientState state roomID cid statAr =
     (let stat = (case statAr of [] \<Rightarrow> [] | s # _ \<Rightarrow> s)
      in (CmdSetClientState, cs_Marshal \<lparr> cs_State = state, cs_RoomID = roomID, cs_ID = cid, cs_GameStat = stat \<rparr>))"

text \<open>
  \<open>SendRoomByCreated\<close>: the request that is sent, and the check of an answer. The request id is the limit.
\<close>

definition rooms_request :: "go_time \<Rightarrow> go_time \<Rightarrow> u32 \<Rightarrow> u8 \<times> bytes" where
  "rooms_request from_time to_time limit =
     (CmdRoomsByCreated,
      rb_Marshal \<lparr> rb_ReqID = limit, rb_From = from_time, rb_To = to_time, rb_Limit = limit \<rparr>)"

definition rooms_check :: "u32 \<Rightarrow> bytes \<Rightarrow> RoomByCreatedResponce \<Rightarrow> bool \<times> RoomByCreatedResponce" where
  "rooms_check reqID data res =
     (case rr_Unmarshal data res of (err, res) \<Rightarrow> (\<not> err \<and> rr_ReqID res = reqID, res))"

section \<open>The room client\<close>

definition ComRoomRequest_cmd :: u8 where "ComRoomRequest_cmd = 129"
definition ComRoomRequestAnswer :: u8 where "ComRoomRequestAnswer = 129"
definition ComRoomData_cmd :: u8 where "ComRoomData_cmd = 130"
definition ComDisconnect_cmd :: u8 where "ComDisconnect_cmd = 131"
definition ComStart :: u8 where "ComStart = 132"

text \<open>An argument of type \<open>interface{}\<close>, by the cases of the type switches.\<close>

datatype cli_arg = ArgNil | ArgBytes bytes | ArgByte u8 | ArgOther

definition RoomRequest :: "cli_arg \<Rightarrow> (u8 \<times> bytes) go" where
  "RoomRequest data =
     (case data of
        ArgNil \<Rightarrow> Inr (ComRoomRequest_cmd, [])
      | ArgBytes d \<Rightarrow> Inr (ComRoomRequest_cmd, d)
      | _ \<Rightarrow> Inl ExplicitPanic)"

definition cli_Disconnect :: "cli_arg \<Rightarrow> (u8 \<times> bytes) go" where
  "cli_Disconnect data =
     (case data of
        ArgNil \<Rightarrow> Inr (ComDisconnect_cmd, [])
      | ArgBytes d \<Rightarrow> Inr (ComDisconnect_cmd, d)
      | ArgByte b \<Rightarrow> Inr (ComDisconnect_cmd, [b])
      | ArgOther \<Rightarrow> Inl ExplicitPanic)"

text \<open>
  The items of \<open>Data\<close>: nil (written as a string, which \<open>binary.Write\<close> refuses), a value that
  marshals itself (or fails), an \<open>int\<close>, or a value of fixed size (its bytes, or refused).
\<close>

datatype data_item = ItemNil | ItemMarshal "bytes option" | ItemInt int | ItemFixed "bytes option"

fun cli_Data_loop :: "data_item list \<Rightarrow> bytes \<Rightarrow> bytes option" where
  "cli_Data_loop [] buf = Some buf"
| "cli_Data_loop (ItemNil # is) buf = None"
| "cli_Data_loop (ItemMarshal (Some dd) # is) buf = cli_Data_loop is (buf @ dd)"
| "cli_Data_loop (ItemMarshal None # is) buf = None"
| "cli_Data_loop (ItemInt d # is) buf = cli_Data_loop is (buf @ le64 (of_int d))"
| "cli_Data_loop (ItemFixed (Some dd) # is) buf = cli_Data_loop is (buf @ dd)"
| "cli_Data_loop (ItemFixed None # is) buf = None"

definition cli_Data :: "data_item list \<Rightarrow> (u8 \<times> bytes) option" where
  "cli_Data items = map_option (Pair ComRoomData_cmd) (cli_Data_loop items [])"

section \<open>The database side\<close>

text \<open>
  \<open>services/teoroom/stats/process.go\<close>. The statements that set one column each are parameters,
  and so is the selection of rooms.
\<close>

record 'd stats_db =
  sd_setCreating :: "UUID \<Rightarrow> u32 \<Rightarrow> 'd \<Rightarrow> string option \<times> 'd"
  sd_setRunning :: "UUID \<Rightarrow> 'd \<Rightarrow> string option \<times> 'd"
  sd_setClosed :: "UUID \<Rightarrow> 'd \<Rightarrow> string option \<times> 'd"
  sd_setStopped :: "UUID \<Rightarrow> 'd \<Rightarrow> string option \<times> 'd"
  sd_setAdded :: "UUID \<Rightarrow> UUID \<Rightarrow> 'd \<Rightarrow> string option \<times> 'd"
  sd_setLoadded :: "UUID \<Rightarrow> UUID \<Rightarrow> 'd \<Rightarrow> string option \<times> 'd"
  sd_setStarted :: "UUID \<Rightarrow> UUID \<Rightarrow> 'd \<Rightarrow> string option \<times> 'd"
  sd_setLeave :: "UUID \<Rightarrow> UUID \<Rightarrow> 'd \<Rightarrow> string option \<times> 'd"
  sd_setDisconnected :: "UUID \<Rightarrow> UUID \<Rightarrow> 'd \<Rightarrow> string option \<times> 'd"
  sd_getByCreated :: "go_time \<Rightarrow> go_time \<Rightarrow> u32 \<Rightarrow> 'd \<Rightarrow> string + StatRoom list"

definition rc_zero :: RoomCreateRequest where
  "rc_zero = \<lparr> rc_RoomID = emptyUUID, rc_RoomNum = 0 \<rparr>"

definition rs_zero :: RoomStateRequest where
  "rs_zero = \<lparr> rs_RoomID = emptyUUID, rs_Status = 0 \<rparr>"

definition cs_zero :: ClientStateRequest where
  "cs_zero = \<lparr> cs_State = 0, cs_RoomID = emptyUUID, cs_ID = emptyUUID, cs_GameStat = [] \<rparr>"

definition rb_zero :: RoomByCreatedRequest where
  "rb_zero = \<lparr> rb_ReqID = 0, rb_From = zero_time, rb_To = zero_time, rb_Limit = 0 \<rparr>"

text \<open>A command gives the error, the answers and the database; errors of the decoders are ignored.\<close>

definition ComRoomCreated :: "'d stats_db \<Rightarrow> (u8 \<Rightarrow> bytes \<Rightarrow> string option) \<Rightarrow> u8 \<Rightarrow> bytes \<Rightarrow> 'd
    \<Rightarrow> string option \<times> (u8 \<times> bytes) list \<times> 'd" where
  "ComRoomCreated db ans cmd data d =
     (let req = snd (rc_Unmarshal data rc_zero)
      in case sd_setCreating db (rc_RoomID req) (rc_RoomNum req) d of
           (Some e, d) \<Rightarrow> (Some e, [], d)
         | (None, d) \<Rightarrow> let b = rcr_Marshal (rc_RoomID req) in (ans cmd b, [(cmd, b)], d))"

definition ComRoomStateChanged :: "'d stats_db \<Rightarrow> bytes \<Rightarrow> 'd \<Rightarrow> string option \<times> 'd" where
  "ComRoomStateChanged db data d =
     (let req = snd (rs_Unmarshal data rs_zero)
      in if rs_Status req = 1 then sd_setRunning db (rs_RoomID req) d
         else if rs_Status req = 2 then sd_setClosed db (rs_RoomID req) d
         else if rs_Status req = 3 then sd_setStopped db (rs_RoomID req) d
         else (None, d))"

definition ComClientStatus :: "'d stats_db \<Rightarrow> bytes \<Rightarrow> 'd \<Rightarrow> string option \<times> 'd" where
  "ComClientStatus db data d =
     (let req = snd (cs_Unmarshal data cs_zero); s = cs_State req; rm = cs_RoomID req; i = cs_ID req
      in if s = ClientAdded then sd_setAdded db rm i d
         else if s = ClientLoadded then sd_setLoadded db rm i d
         else if s = ClientStarted then sd_setStarted db rm i d
         else if s = ClientLeave then sd_setLeave db rm i d
         else if s = ClientDisconnected then sd_setDisconnected db rm i d
         else (None, d))"

definition ComGetRoomsByCreated :: "'d stats_db \<Rightarrow> (u8 \<Rightarrow> bytes \<Rightarrow> string option) \<Rightarrow> u8 \<Rightarrow> bytes \<Rightarrow> 'd
    \<Rightarrow> (StatRoom list \<times> string option) \<times> (u8 \<times> bytes) list" where
  "ComGetRoomsByCreated db ans cmd data d =
     (let req = snd (rb_Unmarshal data rb_zero)
      in case sd_getByCreated db (rb_From req) (rb_To req) (rb_Limit req) d of
           Inl e \<Rightarrow> (([], Some e), [])
         | Inr rooms \<Rightarrow>
             let b = rr_Marshal \<lparr> rr_ReqID = rb_ReqID req, rr_Rooms = rooms \<rparr>
             in case ans cmd b of
                  Some e \<Rightarrow> ((rooms, Some e), [(cmd, b)])
                | None \<Rightarrow> ((rooms, if fst (rr_Unmarshal b \<lparr> rr_ReqID = rb_ReqID req, rr_Rooms = rooms \<rparr>)
                                   then Some ''unexpected EOF'' else None), [(cmd, b)]))"

section \<open>Lemmas\<close>

lemma length_time_Marshal [simp]: "length (time_Marshal t) = 15"
  by (simp add: time_Marshal_def)

lemma tlen_15 [simp]: "tlen = 15"
  by (simp add: tlen_def)

lemma time_Unmarshal_Marshal [simp]: "time_Unmarshal (time_Marshal t) old = t"
proof -
  have "un64 (le64 (t_sec t)) = t_sec t" using un64_le64 [of "t_sec t" "[]"] by simp
  then show ?thesis
    by (simp add: time_Unmarshal_def time_Marshal_def) (simp add: le32_def le16_def)
qed

text \<open>A time and a room are codecs; the loop of the answer reads the rooms one after the other.\<close>

definition dec_time :: "bytes \<Rightarrow> go_time option \<times> bytes" where
  "dec_time r = (case rd_time r of (v, r) \<Rightarrow> (map_option (\<lambda>b. time_Unmarshal b zero_time) v, r))"

interpretation time_codec: codec time_Marshal dec_time "\<lambda>_. True"
  by unfold_locales (simp add: dec_time_def rd_time_def codec_simps)

lemma rd_time_Marshal [codec_simps]: "rd_time (time_Marshal t @ r) = (Some (time_Marshal t), r)"
  by (simp add: rd_time_def codec_simps)

definition dec_room :: "bytes \<Rightarrow> StatRoom option \<times> bytes" where
  "dec_room r =
     (case rd_take 16 r of
        (None, r) \<Rightarrow> (None, r)
      | (Some i, r) \<Rightarrow> (case rd_room i r of (err, v, r) \<Rightarrow> (if err then None else Some v, r)))"

lemma rd_room_enc:
  "rd_room (sr_ID v) (drop 16 (enc_room v @ r)) = (False, v, r)" if "length (sr_ID v) = 16"
  using that by (simp add: enc_room_def rd_room_def codec_simps Let_def new_room_def)

interpretation room_codec: codec enc_room dec_room "\<lambda>v. length (sr_ID v) = 16"
proof
  fix v :: StatRoom and r
  assume l: "length (sr_ID v) = 16"
  have "rd_take 16 (enc_room v @ r) = (Some (sr_ID v), drop 16 (enc_room v @ r))"
    using l by (simp add: enc_room_def rd_take_def)
  then show "dec_room (enc_room v @ r) = (Some v, r)"
    using rd_room_enc [OF l, of r] by (simp add: dec_room_def)
qed

lemma rooms_loop_Nil [simp]: "rooms_loop [] = (False, [])"
  by (simp add: rooms_loop.simps [of "[]"] rd_take_def)

lemma rooms_loop_Cons:
  assumes "dec_room r = (Some v, r')"
  shows "rooms_loop r = (case rooms_loop r' of (err, vs) \<Rightarrow> (err, v # vs))"
  using assms by (subst rooms_loop.simps) (auto simp: dec_room_def split: prod.splits option.splits if_splits)

lemma rooms_loop_enc:
  "list_all (\<lambda>v. length (sr_ID v) = 16) vs \<Longrightarrow> rooms_loop (concat (map enc_room vs)) = (False, vs)"
proof (induction vs)
  case (Cons v vs)
  then show ?case using rooms_loop_Cons [OF room_codec.dec_enc [of v "concat (map enc_room vs)"]] by simp
qed simp

text \<open>A packet that ends inside a room: the room is kept with the fields read, and an error is returned.\<close>

lemma rr_Unmarshal_cut:
  "rr_Unmarshal (le32 7 @ replicate 16 1 @ [5]) res
     = (True, res\<lparr>rr_ReqID := 7, rr_Rooms := [new_room (replicate 16 1)]\<rparr>)"
proof -
  have "rd_take 16 (replicate 16 1 @ [5]) = (Some (replicate 16 (1 :: u8)), [5])"
    by (simp add: codec_simps)
  then have "rooms_loop (replicate 16 1 @ [5]) = (True, [new_room (replicate 16 1)])"
    by (subst rooms_loop.simps) (simp add: rd_room_def)
  then show ?thesis by (simp add: rr_Unmarshal_def codec_simps)
qed

section \<open>Properties\<close>

text \<open>The requests of the room controller and of the statistic's client survive their binary forms, for ids
  of 16 bytes; an empty game statistic leaves the receiver's.\<close>

lemma room_requests_roundtrip:
  assumes "length i = 16" and "length j = 16"
  shows "rc_Unmarshal (rc_Marshal \<lparr> rc_RoomID = i, rc_RoomNum = n \<rparr>) a = (False, \<lparr> rc_RoomID = i, rc_RoomNum = n \<rparr>)
     \<and> rs_Unmarshal (rs_Marshal \<lparr> rs_RoomID = i, rs_Status = s \<rparr>) b = (False, \<lparr> rs_RoomID = i, rs_Status = s \<rparr>)
     \<and> cs_Unmarshal (cs_Marshal \<lparr> cs_State = s, cs_RoomID = i, cs_ID = j, cs_GameStat = g \<rparr>) c
         = (False, \<lparr> cs_State = s, cs_RoomID = i, cs_ID = j, cs_GameStat = if g = [] then cs_GameStat c else g \<rparr>)
     \<and> rb_Unmarshal (rb_Marshal q) e = (False, q)"
  using assms
  by (simp add: rc_Unmarshal_def rc_Marshal_def rs_Unmarshal_def rs_Marshal_def cs_Unmarshal_def cs_Marshal_def
      rb_Unmarshal_def rb_Marshal_def codec_simps Let_def rd_fill_all u32_codec.dec_enc_all)

lemma room_requests_roundtrip_example:
  "cs_Unmarshal (snd (SendClientState ClientStarted (replicate 16 1) (replicate 16 2) [[9, 9]])) cs_zero
     = (False, \<lparr> cs_State = 2, cs_RoomID = replicate 16 1, cs_ID = replicate 16 2, cs_GameStat = [9, 9] \<rparr>)"
  using room_requests_roundtrip [of "replicate 16 1" "replicate 16 2" 0 rc_zero 2 rs_zero "[9, 9]" cs_zero rb_zero rb_zero]
  by (simp add: SendClientState_def ClientStarted_def)

text \<open>An answer with any number of rooms survives its binary form: the loop, which only stops when the
  data end, returns the same rooms with all their times and no error.\<close>

lemma rooms_answer_roundtrip:
  assumes "\<forall>v \<in> set (rr_Rooms res). length (sr_ID v) = 16"
  shows "rr_Unmarshal (rr_Marshal res) old = (False, res)"
  using assms by (simp add: rr_Unmarshal_def rr_Marshal_def codec_simps rooms_loop_enc list_all_iff)

lemma rooms_answer_roundtrip_example:
  "let res = \<lparr> rr_ReqID = 5, rr_Rooms = [new_room (replicate 16 1), (new_room (replicate 16 2))\<lparr>sr_State := 3\<rparr>] \<rparr>
   in rr_Unmarshal (rr_Marshal res) res = (False, res)"
  unfolding Let_def by (rule rooms_answer_roundtrip) (simp add: new_room_def)

end
