(* ===== verification/Room.thy ===== *)
theory Room
  imports RoomStats "HOL-Library.AList"
begin

text \<open>
  The room controller: \<open>services/teoroom\<close> (\<open>room.go\<close>, \<open>client.go\<close>, \<open>teoroom.go\<close>,
  \<open>teoroom_mroom.go\<close>, \<open>teoruum_mcli.go\<close>). Rooms and clients are objects behind pointers: a
  heap of each, with references. The goroutines that wait and then act are timers: they are recorded
  when they start, and a step fires one. Commands and timers are processed one at a time.
\<close>

section \<open>State\<close>

datatype roomState = RoomCreating | RoomRunning | RoomClosed | RoomStopped

definition state_code :: "roomState \<Rightarrow> u8" where
  "state_code s = (case s of RoomCreating \<Rightarrow> 0 | RoomRunning \<Rightarrow> 1 | RoomClosed \<Rightarrow> 2 | RoomStopped \<Rightarrow> 3)"

record GameParameters =
  gp_Name :: string
  gp_GameTime :: int
  gp_GameClosedAfter :: int
  gp_MaxClientsInRoom :: int
  gp_MinClientsToStart :: int
  gp_WaitForMinClients :: int
  gp_WaitForMaxClients :: int

definition default_parameters :: GameParameters where
  "default_parameters =
     \<lparr> gp_Name = ''g001'', gp_GameTime = 12000, gp_GameClosedAfter = 10000, gp_MaxClientsInRoom = 10,
       gp_MinClientsToStart = 2, gp_WaitForMinClients = 30000,
       gp_WaitForMaxClients = 10000 \<rparr>"

type_synonym cref = nat
type_synonym rref = nat

record L0Addr =
  l0a_addr :: string
  l0a_port :: int

record Client =
  cl_name :: string
  cl_data :: "bytes list"
  cl_L0 :: L0Addr

text \<open>
  \<open>cliwas\<close>: for each name that was in the room the client and whether it is ready (state 1).
  It is a map; the loop over it only counts.
\<close>

record Room =
  rm_id :: u32
  rm_roomID :: UUID
  rm_state :: roomState
  rm_client :: "cref option list"
  rm_cliwas :: "(string \<times> (cref \<times> bool)) list"
  rm_gparam :: GameParameters

datatype room_timer = WaitTimer rref | GameTimer rref | CloseTimer rref

text \<open>
  The maps \<open>mroom\<close> and \<open>mcli\<close>, the heaps, what was sent to clients (address, name, command,
  data), what was sent to the statistic, and the timers that run. The rooms map is an association
  list because one function searches it in its iteration order; Go's order is random.
\<close>

record Teoroom =
  tr_roomID :: u32
  tr_creating :: "u32 list"
  tr_mroom :: "(u32 \<times> rref) list"
  tr_mcli :: "string \<rightharpoonup> cref"
  tr_rooms :: "rref \<Rightarrow> Room"
  tr_nextRoom :: rref
  tr_clients :: "cref \<Rightarrow> Client"
  tr_nextClient :: cref
  tr_sent :: "(L0Addr \<times> string \<times> u8 \<times> bytes) list"
  tr_stats :: "(u8 \<times> bytes) list"
  tr_timers :: "room_timer list"

text \<open>
  UUID parsing, and whether sending to a client fails (its L0 server is not in the ARP table), are
  parameters.
\<close>

record room_env =
  re_parse :: "string \<Rightarrow> string + UUID"
  re_fails :: "string \<Rightarrow> bool"

definition teoroom_New :: Teoroom where
  "teoroom_New =
     \<lparr> tr_roomID = 0, tr_creating = [], tr_mroom = [], tr_mcli = Map.empty,
       tr_rooms = (\<lambda>_. \<lparr> rm_id = 0, rm_roomID = [], rm_state = RoomCreating, rm_client = [],
                         rm_cliwas = [], rm_gparam = default_parameters \<rparr>),
       tr_nextRoom = 0,
       tr_clients = (\<lambda>_. \<lparr> cl_name = [], cl_data = [], cl_L0 = \<lparr> l0a_addr = [], l0a_port = 0 \<rparr> \<rparr>),
       tr_nextClient = 0, tr_sent = [], tr_stats = [], tr_timers = [] \<rparr>"

definition upd_room :: "rref \<Rightarrow> (Room \<Rightarrow> Room) \<Rightarrow> Teoroom \<Rightarrow> Teoroom" where
  "upd_room r f tr = tr\<lparr>tr_rooms := (tr_rooms tr)(r := f (tr_rooms tr r))\<rparr>"

definition upd_client :: "cref \<Rightarrow> (Client \<Rightarrow> Client) \<Rightarrow> Teoroom \<Rightarrow> Teoroom" where
  "upd_client c f tr = tr\<lparr>tr_clients := (tr_clients tr)(c := f (tr_clients tr c))\<rparr>"

section \<open>The maps\<close>

definition mroom_find :: "u32 \<Rightarrow> Teoroom \<Rightarrow> rref option" where
  "mroom_find key tr = map_of (tr_mroom tr) key"

definition mroom_set :: "u32 \<Rightarrow> rref \<Rightarrow> Teoroom \<Rightarrow> Teoroom" where
  "mroom_set key val tr = tr\<lparr>tr_mroom := AList.update key val (tr_mroom tr)\<rparr>"

definition mroom_delete :: "u32 \<Rightarrow> Teoroom \<Rightarrow> Teoroom" where
  "mroom_delete key tr = tr\<lparr>tr_mroom := AList.delete key (tr_mroom tr)\<rparr>"

definition mcli_find :: "string \<Rightarrow> Teoroom \<Rightarrow> cref option" where
  "mcli_find key tr = tr_mcli tr key"

definition mcli_set :: "string \<Rightarrow> cref \<Rightarrow> Teoroom \<Rightarrow> Teoroom" where
  "mcli_set key val tr = tr\<lparr>tr_mcli := (tr_mcli tr)(key \<mapsto> val)\<rparr>"

definition mcli_delete :: "string \<Rightarrow> Teoroom \<Rightarrow> Teoroom" where
  "mcli_delete key tr = tr\<lparr>tr_mcli := (tr_mcli tr)(key := None)\<rparr>"

text \<open>\<open>get\<close> is \<open>find\<close> with an error.\<close>

definition mroom_get :: "u32 \<Rightarrow> Teoroom \<Rightarrow> string + rref" where
  "mroom_get key tr =
     (case mroom_find key tr of
        None \<Rightarrow> Inl (''roomID '' @ itoa (unat key) @ '' does not exists'') | Some r \<Rightarrow> Inr r)"

definition mcli_get :: "string \<Rightarrow> Teoroom \<Rightarrow> string + cref" where
  "mcli_get key tr =
     (case mcli_find key tr of
        None \<Rightarrow> Inl (''client '' @ key @ '' does not exists'') | Some c \<Rightarrow> Inr c)"

interpretation mcli: table "\<lambda>t k. mcli_find k t" mcli_set mcli_delete "\<lambda>_ _. True" "\<lambda>_. True"
  by unfold_locales (auto simp: mcli_find_def mcli_set_def mcli_delete_def)

interpretation mroom: table "\<lambda>t k. mroom_find k t" mroom_set mroom_delete "\<lambda>_ _. True" "\<lambda>_. True"
  by unfold_locales (auto simp: mroom_find_def mroom_set_def mroom_delete_def update_conv' delete_conv')

section \<open>Sending\<close>

definition SendToClientAddr :: "room_env \<Rightarrow> L0Addr \<Rightarrow> string \<Rightarrow> u8 \<Rightarrow> bytes \<Rightarrow> Teoroom \<Rightarrow> bool \<times> Teoroom" where
  "SendToClientAddr env l0 client cmd data tr =
     (re_fails env client, tr\<lparr>tr_sent := tr_sent tr @ [(l0, client, cmd, data)]\<rparr>)"

definition stat_msg :: "u8 \<times> bytes \<Rightarrow> Teoroom \<Rightarrow> Teoroom" where
  "stat_msg m tr = tr\<lparr>tr_stats := tr_stats tr @ [m]\<rparr>"

text \<open>
  \<open>Client.sendState\<close>: the part of the name after its first dash is the client's id; without one,
  or when it is not a UUID, nothing is sent.
\<close>

definition cli_sendState :: "room_env \<Rightarrow> cref \<Rightarrow> u8 \<Rightarrow> UUID \<Rightarrow> Teoroom \<Rightarrow> Teoroom" where
  "cli_sendState env c state roomID tr =
     (let name = cl_name (tr_clients tr c)
      in if CHR ''-'' \<notin> set name then tr
         else case re_parse env (tl (dropWhile (\<lambda>x. x \<noteq> CHR ''-'') name)) of
                Inl _ \<Rightarrow> tr
              | Inr u \<Rightarrow> stat_msg (SendClientState state roomID u []) tr)"

definition setState :: "rref \<Rightarrow> roomState \<Rightarrow> Teoroom \<Rightarrow> Teoroom" where
  "setState r s tr =
     stat_msg (SendRoomState (rm_roomID (tr_rooms tr r)) (state_code s)) (upd_room r (\<lambda>x. x\<lparr>rm_state := s\<rparr>) tr)"

text \<open>\<open>funcToClients\<close>: the function is called for the clients at the positions, as they are found.\<close>

fun funcToClients_loop :: "rref \<Rightarrow> (cref \<Rightarrow> Teoroom \<Rightarrow> Teoroom go) \<Rightarrow> nat list \<Rightarrow> Teoroom \<Rightarrow> Teoroom go" where
  "funcToClients_loop r f [] tr = Inr tr"
| "funcToClients_loop r f (i # is) tr =
     (case rm_client (tr_rooms tr r) ! i of
        None \<Rightarrow> funcToClients_loop r f is tr
      | Some c \<Rightarrow> go_bind (f c tr) (funcToClients_loop r f is))"

definition funcToClients :: "rref \<Rightarrow> (cref \<Rightarrow> Teoroom \<Rightarrow> Teoroom go) \<Rightarrow> Teoroom \<Rightarrow> Teoroom go" where
  "funcToClients r f tr = funcToClients_loop r f [0..<length (rm_client (tr_rooms tr r))] tr"

definition send_cmd :: "room_env \<Rightarrow> u8 \<Rightarrow> bytes \<Rightarrow> cref \<Rightarrow> Teoroom \<Rightarrow> Teoroom" where
  "send_cmd env cmd data c tr =
     snd (SendToClientAddr env (cl_L0 (tr_clients tr c)) (cl_name (tr_clients tr c)) cmd data tr)"

definition sendToClients :: "room_env \<Rightarrow> rref \<Rightarrow> u8 \<Rightarrow> bytes \<Rightarrow> Teoroom \<Rightarrow> Teoroom go" where
  "sendToClients env r cmd data tr = funcToClients r (\<lambda>c tr. Inr (send_cmd env cmd data c tr)) tr"

section \<open>Rooms\<close>

definition newRoom :: "UUID \<Rightarrow> GameParameters \<Rightarrow> Teoroom \<Rightarrow> rref \<times> Teoroom" where
  "newRoom uuid gp tr =
     (let rid = tr_roomID tr; r = tr_nextRoom tr;
          tr = tr\<lparr>tr_roomID := rid + 1, tr_nextRoom := r + 1,
                  tr_rooms := (tr_rooms tr)(r := \<lparr> rm_id = rid, rm_roomID = uuid, rm_state = RoomCreating,
                    rm_client = [], rm_cliwas = [], rm_gparam = gp \<rparr>)\<rparr>;
          tr = stat_msg (SendRoomCreate uuid rid) tr;
          tr = tr\<lparr>tr_creating := tr_creating tr @ [rid]\<rparr>
      in (r, mroom_set rid r tr))"

definition numClients :: "Room \<Rightarrow> nat" where
  "numClients r = length (filter (\<lambda>c. c \<noteq> None) (rm_client r))"

definition addClient :: "rref \<Rightarrow> cref \<Rightarrow> Teoroom \<Rightarrow> nat \<times> Teoroom" where
  "addClient r c tr =
     (length (rm_client (tr_rooms tr r)),
      upd_room r (\<lambda>x. x\<lparr>rm_client := rm_client x @ [Some c],
                        rm_cliwas := AList.update (cl_name (tr_clients tr c)) (c, False) (rm_cliwas x)\<rparr>) tr)"

definition startRoom :: "room_env \<Rightarrow> rref \<Rightarrow> Teoroom \<Rightarrow> Teoroom go" where
  "startRoom env r tr =
     (let tr = setState r RoomRunning tr
      in go_bind (sendToClients env r ComStart [] tr) (\<lambda>tr.
         go_bind (funcToClients r (\<lambda>c tr. Inr (case mcli_find (cl_name (tr_clients tr c)) tr of
                    Some c' \<Rightarrow> cli_sendState env c' ClientStarted (rm_roomID (tr_rooms tr r)) tr
                  | None \<Rightarrow> tr)) tr) (\<lambda>tr.
         let gp = rm_gparam (tr_rooms tr r)
         in Inr (tr\<lparr>tr_timers := tr_timers tr @ [GameTimer r]
                 @ (if gp_GameClosedAfter gp \<ge> gp_GameTime gp then [] else [CloseTimer r])\<rparr>))))"

text \<open>The loop that counts the ready clients and starts the game at the minimum.\<close>

fun ready_loop :: "room_env \<Rightarrow> rref \<Rightarrow> int \<Rightarrow> (string \<times> (cref \<times> bool)) list \<Rightarrow> Teoroom \<Rightarrow> Teoroom go" where
  "ready_loop env r numReady [] tr = Inr tr"
| "ready_loop env r numReady ((_, (_, ready)) # ws) tr =
     (if ready
      then if numReady + 1 \<ge> gp_MinClientsToStart (rm_gparam (tr_rooms tr r))
           then startRoom env r tr
           else ready_loop env r (numReady + 1) ws tr
      else ready_loop env r numReady ws tr)"

definition clientReady :: "room_env \<Rightarrow> rref \<Rightarrow> nat \<Rightarrow> Teoroom \<Rightarrow> Teoroom go" where
  "clientReady env r clientID tr =
     (if clientID \<ge> length (rm_client (tr_rooms tr r)) then Inl IndexOutOfRange
      else case rm_client (tr_rooms tr r) ! clientID of
        None \<Rightarrow> Inl NilPointer
      | Some c \<Rightarrow>
          let room = tr_rooms tr r; u = rm_roomID room; name = cl_name (tr_clients tr c);
              tr = cli_sendState env c ClientLoadded u tr;
              tr = (if rm_state room = RoomClosed \<or> rm_state room = RoomStopped
                    then send_cmd env ComDisconnect_cmd [] c (cli_sendState env c ClientDisconnected u tr)
                    else tr)
          in case map_of (rm_cliwas room) name of
               None \<Rightarrow> Inl NilPointer
             | Some (w, _) \<Rightarrow>
                 let tr = upd_room r (\<lambda>x. x\<lparr>rm_cliwas := AList.update name (w, True) (rm_cliwas x)\<rparr>) tr
                 in if rm_state room = RoomRunning
                    then sendToClients env r ComStart [] (cli_sendState env c ClientAdded u tr)
                    else ready_loop env r 0 (rm_cliwas (tr_rooms tr r)) tr)"

section \<open>Clients\<close>

definition newClient :: "string \<Rightarrow> L0Addr \<Rightarrow> Teoroom \<Rightarrow> cref \<times> Teoroom" where
  "newClient name l0 tr =
     (let c = tr_nextClient tr
      in (c, mcli_set name c
               (tr\<lparr>tr_nextClient := c + 1,
                   tr_clients := (tr_clients tr)(c := \<lparr> cl_name = name, cl_data = [], cl_L0 = l0 \<rparr>)\<rparr>)))"

definition room_accepts :: "string \<Rightarrow> Room \<Rightarrow> bool" where
  "room_accepts name r \<longleftrightarrow>
     rm_state r \<noteq> RoomClosed \<and> rm_state r \<noteq> RoomStopped \<and> map_of (rm_cliwas r) name = None
     \<and> int (length (rm_client r)) < gp_MaxClientsInRoom (rm_gparam r)"

fun find_room :: "string \<Rightarrow> u32 list \<Rightarrow> Teoroom \<Rightarrow> rref option" where
  "find_room name [] tr = None"
| "find_room name (rid # rids) tr =
     (case mroom_find rid tr of
        Some r \<Rightarrow> if room_accepts name (tr_rooms tr r) then Some r else find_room name rids tr
      | None \<Rightarrow> find_room name rids tr)"

text \<open>
  \<open>roomRequest\<close>, with the UUID and the parameters a new room gets: the room's id and the position.
\<close>

definition roomRequest :: "UUID \<Rightarrow> GameParameters \<Rightarrow> cref \<Rightarrow> Teoroom \<Rightarrow> (u32 \<times> nat) \<times> Teoroom" where
  "roomRequest uuid gp c tr =
     (case find_room (cl_name (tr_clients tr c)) (tr_creating tr) tr of
        Some r \<Rightarrow> (case addClient r c tr of (i, tr) \<Rightarrow> ((rm_id (tr_rooms tr r), i), tr))
      | None \<Rightarrow>
          (case newRoom uuid gp tr of (r, tr) \<Rightarrow>
             let tr = tr\<lparr>tr_timers := tr_timers tr @ [WaitTimer r]\<rparr>
             in case addClient r c tr of (i, tr) \<Rightarrow> ((rm_id (tr_rooms tr r), i), tr)))"

fun index_of_client :: "cref \<Rightarrow> nat \<Rightarrow> cref option list \<Rightarrow> nat option" where
  "index_of_client c i [] = None"
| "index_of_client c i (x # xs) = (if x = Some c then Some i else index_of_client c (i + 1) xs)"

fun roomClientID_loop :: "cref \<Rightarrow> (u32 \<times> rref) list \<Rightarrow> Teoroom \<Rightarrow> (u32 \<times> nat) option" where
  "roomClientID_loop c [] tr = None"
| "roomClientID_loop c ((rid, r) # ms) tr =
     (case index_of_client c 0 (rm_client (tr_rooms tr r)) of
        Some i \<Rightarrow> Some (rid, i)
      | None \<Rightarrow> roomClientID_loop c ms tr)"

definition roomClientID :: "cref \<Rightarrow> Teoroom \<Rightarrow> string + u32 \<times> nat" where
  "roomClientID c tr =
     (case roomClientID_loop c (tr_mroom tr) tr of
        Some x \<Rightarrow> Inr x
      | None \<Rightarrow> Inl (''can't find client '' @ cl_name (tr_clients tr c) @ '' in room structure''))"

section \<open>Commands\<close>

text \<open>The callback of the two functions below is \<open>SendToClientAddr\<close>.\<close>

fun existing_loop :: "room_env \<Rightarrow> cref \<Rightarrow> string \<Rightarrow> bytes list \<Rightarrow> Teoroom \<Rightarrow> Teoroom" where
  "existing_loop env c name [] tr = tr"
| "existing_loop env c name (d # ds) tr =
     existing_loop env c name ds (snd (SendToClientAddr env (cl_L0 (tr_clients tr c)) name ComRoomData_cmd d tr))"

fun existing_clients :: "room_env \<Rightarrow> cref \<Rightarrow> string \<Rightarrow> nat \<Rightarrow> nat \<Rightarrow> cref option list \<Rightarrow> Teoroom \<Rightarrow> Teoroom" where
  "existing_clients env c name cliID i [] tr = tr"
| "existing_clients env c name cliID i (x # xs) tr =
     existing_clients env c name cliID (i + 1) xs
       (case x of
          None \<Rightarrow> tr
        | Some c' \<Rightarrow> if i \<noteq> cliID then existing_loop env c name (cl_data (tr_clients tr c')) tr else tr)"

definition sendExistingData :: "room_env \<Rightarrow> string \<Rightarrow> Teoroom \<Rightarrow> Teoroom" where
  "sendExistingData env client tr =
     (case mcli_get client tr of
        Inl _ \<Rightarrow> tr
      | Inr c \<Rightarrow>
          (case roomClientID c tr of
             Inl _ \<Rightarrow> tr
           | Inr (rid, cliID) \<Rightarrow>
               (case mroom_get rid tr of
                  Inl _ \<Rightarrow> tr
                | Inr r \<Rightarrow> existing_clients env c client cliID 0 (rm_client (tr_rooms tr r)) tr)))"

text \<open>The loop that resends: it stops at the first client that cannot be reached.\<close>

fun resend_clients :: "room_env \<Rightarrow> nat \<Rightarrow> u8 \<Rightarrow> bytes \<Rightarrow> nat \<Rightarrow> cref option list \<Rightarrow> Teoroom \<Rightarrow> string option \<times> Teoroom" where
  "resend_clients env cliID cmd data i [] tr = (None, tr)"
| "resend_clients env cliID cmd data i (x # xs) tr =
     (case x of
        None \<Rightarrow> resend_clients env cliID cmd data (i + 1) xs tr
      | Some c \<Rightarrow>
          if i = cliID then resend_clients env cliID cmd data (i + 1) xs tr
          else (case SendToClientAddr env (cl_L0 (tr_clients tr c)) (cl_name (tr_clients tr c)) cmd data tr of
                  (True, tr) \<Rightarrow> (Some ''can't find l0 server in arp table'', tr)
                | (False, tr) \<Rightarrow> resend_clients env cliID cmd data (i + 1) xs tr))"

definition resendData :: "room_env \<Rightarrow> string \<Rightarrow> u8 \<Rightarrow> bytes \<Rightarrow> Teoroom \<Rightarrow> (string option \<times> Teoroom) go" where
  "resendData env client cmd data tr =
     (case mcli_get client tr of
        Inl e \<Rightarrow> Inr (Some e, tr)
      | Inr c \<Rightarrow>
          (case roomClientID c tr of
             Inl e \<Rightarrow> Inr (Some e, tr)
           | Inr (rid, cliID) \<Rightarrow>
               go_bind
                 (if cl_data (tr_clients tr c) = []
                  then let tr = sendExistingData env client tr
                       in case mroom_get rid tr of
                            Inl e \<Rightarrow> Inr (Some e, tr)
                          | Inr r \<Rightarrow> go_bind (clientReady env r cliID tr) (\<lambda>tr. Inr (None, tr))
                  else Inr (None, tr))
                 (\<lambda>(err, tr).
                    if err \<noteq> None then Inr (err, tr)
                    else
                      let tr = upd_client c (\<lambda>x. x\<lparr>cl_data := (if cl_data x = [] then [data] else (cl_data x)[0 := data])\<rparr>) tr
                      in case mroom_get rid tr of
                           Inl e \<Rightarrow> Inr (Some e, tr)
                         | Inr r \<Rightarrow> Inr (resend_clients env cliID cmd data 0 (rm_client (tr_rooms tr r)) tr))))"

definition ComRoomRequest :: "room_env \<Rightarrow> UUID \<Rightarrow> GameParameters \<Rightarrow> string \<Rightarrow> L0Addr \<Rightarrow> Teoroom \<Rightarrow> string option \<times> Teoroom" where
  "ComRoomRequest env uuid gp client l0 tr =
     (case mcli_find client tr of
        Some _ \<Rightarrow> (Some (''client '' @ client @ '' is already in room''), tr)
      | None \<Rightarrow>
          (case newClient client l0 tr of (c, tr) \<Rightarrow>
           case roomRequest uuid gp c tr of ((rid, cliID), tr) \<Rightarrow>
           case SendToClientAddr env l0 client ComRoomRequestAnswer [of_nat cliID] tr of (_, tr) \<Rightarrow>
             (case mroom_get rid tr of
                Inl e \<Rightarrow> (Some e, tr)
              | Inr r \<Rightarrow>
                  (case mcli_get client tr of
                     Inl e \<Rightarrow> (Some e, tr)
                   | Inr c \<Rightarrow> (None, cli_sendState env c ClientAdded (rm_roomID (tr_rooms tr r)) tr)))))"

definition ComRoomData :: "room_env \<Rightarrow> string \<Rightarrow> bytes \<Rightarrow> Teoroom \<Rightarrow> Teoroom go" where
  "ComRoomData env client data tr =
     go_bind (resendData env client ComRoomData_cmd data tr) (\<lambda>(_, tr). Inr tr)"

definition ComDisconnect :: "room_env \<Rightarrow> string \<Rightarrow> Teoroom \<Rightarrow> (string option \<times> Teoroom) go" where
  "ComDisconnect env client tr =
     (case mcli_get client tr of
        Inl e \<Rightarrow> Inr (Some e, tr)
      | Inr c \<Rightarrow>
          (case roomClientID c tr of
             Inl e \<Rightarrow> Inr (Some e, mcli_delete client tr)
           | Inr (rid, cliID) \<Rightarrow>
               go_bind (resendData env client ComDisconnect_cmd [of_nat cliID] tr) (\<lambda>(_, tr).
                 case mroom_get rid tr of
                   Inl e \<Rightarrow> Inr (Some e, tr)
                 | Inr r \<Rightarrow>
                     if cliID \<ge> length (rm_client (tr_rooms tr r)) then Inl IndexOutOfRange
                     else Inr (None, mcli_delete client
                                 (upd_room r (\<lambda>x. x\<lparr>rm_client := (rm_client x)[cliID := None]\<rparr>) tr)))))"

section \<open>Timers\<close>

text \<open>A client of the room is told to disconnect and taken out of the controller.\<close>

definition disconnect_member :: "room_env \<Rightarrow> cref \<Rightarrow> Teoroom \<Rightarrow> Teoroom go" where
  "disconnect_member env c tr =
     go_bind (ComDisconnect env (cl_name (tr_clients tr c)) (send_cmd env ComDisconnect_cmd [] c tr)) (\<lambda>(_, tr). Inr tr)"

definition wait_timeout :: "room_env \<Rightarrow> rref \<Rightarrow> Teoroom \<Rightarrow> Teoroom go" where
  "wait_timeout env r tr =
     (let room = tr_rooms tr r
      in if \<not> (rm_state room = RoomCreating
               \<and> int (numClients room) < gp_MinClientsToStart (rm_gparam room)) then Inr tr
         else funcToClients r (disconnect_member env) (setState r RoomStopped tr))"

definition game_over :: "room_env \<Rightarrow> rref \<Rightarrow> Teoroom \<Rightarrow> Teoroom go" where
  "game_over env r tr =
     funcToClients r (\<lambda>c tr.
       disconnect_member env c
         (case mcli_find (cl_name (tr_clients tr c)) tr of
            Some c' \<Rightarrow> cli_sendState env c' ClientDisconnected (rm_roomID (tr_rooms tr r)) tr
          | None \<Rightarrow> tr))
       (setState r RoomStopped tr)"

definition close_room :: "rref \<Rightarrow> Teoroom \<Rightarrow> Teoroom go" where
  "close_room r tr =
     (if rm_state (tr_rooms tr r) = RoomStopped then Inr tr else Inr (setState r RoomClosed tr))"

section \<open>The controller\<close>

text \<open>
  One step: a command from a client, a timer that fires (one that runs), or the parameters of a room
  that arrive late from the database.
\<close>

datatype roomStep =
    RoomRequestFrom string L0Addr UUID GameParameters
  | RoomDataFrom string bytes
  | DisconnectFrom string
  | Fires room_timer
  | ParametersRead rref GameParameters

definition fire :: "room_env \<Rightarrow> room_timer \<Rightarrow> Teoroom \<Rightarrow> Teoroom go" where
  "fire env t tr =
     (if t \<notin> set (tr_timers tr) then Inr tr
      else
        let tr = tr\<lparr>tr_timers := remove1 t (tr_timers tr)\<rparr>
        in case t of
             WaitTimer r \<Rightarrow> wait_timeout env r tr
           | GameTimer r \<Rightarrow> game_over env r tr
           | CloseTimer r \<Rightarrow> close_room r tr)"

definition room_step :: "room_env \<Rightarrow> roomStep \<Rightarrow> Teoroom \<Rightarrow> Teoroom go" where
  "room_step env st tr =
     (case st of
        RoomRequestFrom client l0 uuid gp \<Rightarrow> Inr (snd (ComRoomRequest env uuid gp client l0 tr))
      | RoomDataFrom client data \<Rightarrow> ComRoomData env client data tr
      | DisconnectFrom client \<Rightarrow> go_bind (ComDisconnect env client tr) (\<lambda>(_, tr). Inr tr)
      | Fires t \<Rightarrow> fire env t tr
      | ParametersRead r gp \<Rightarrow> Inr (upd_room r (\<lambda>x. x\<lparr>rm_gparam := gp\<rparr>) tr))"

fun room_run :: "room_env \<Rightarrow> roomStep list \<Rightarrow> Teoroom \<Rightarrow> Teoroom go" where
  "room_run env [] tr = Inr tr"
| "room_run env (st # sts) tr = go_bind (room_step env st tr) (room_run env sts)"

section \<open>What the operations leave alone\<close>

text \<open>
  Two states with the same membership: maps, counters, positions, names, addresses and the names
  that were in each room. Sending, state changes and data do not touch it.
\<close>

definition same :: "Teoroom \<Rightarrow> Teoroom \<Rightarrow> bool" where
  "same tr tr' \<longleftrightarrow>
     tr_roomID tr' = tr_roomID tr \<and> tr_mroom tr' = tr_mroom tr \<and> tr_mcli tr' = tr_mcli tr
   \<and> tr_nextRoom tr' = tr_nextRoom tr \<and> tr_nextClient tr' = tr_nextClient tr \<and> tr_creating tr' = tr_creating tr
   \<and> (\<forall>r. rm_id (tr_rooms tr' r) = rm_id (tr_rooms tr r) \<and> rm_client (tr_rooms tr' r) = rm_client (tr_rooms tr r)
         \<and> dom (map_of (rm_cliwas (tr_rooms tr' r))) = dom (map_of (rm_cliwas (tr_rooms tr r))))
   \<and> (\<forall>c. cl_name (tr_clients tr' c) = cl_name (tr_clients tr c) \<and> cl_L0 (tr_clients tr' c) = cl_L0 (tr_clients tr c))"

lemma same_refl [simp]: "same tr tr"
  by (simp add: same_def)

lemma same_trans: "same a b \<Longrightarrow> same b c \<Longrightarrow> same a c"
  by (simp add: same_def)

lemma same_frames:
  "same tr (tr\<lparr>tr_sent := x\<rparr>)" "same tr (tr\<lparr>tr_stats := y\<rparr>)" "same tr (tr\<lparr>tr_timers := z\<rparr>)"
  "same tr (upd_room r (\<lambda>m. m\<lparr>rm_state := s\<rparr>) tr)" "same tr (upd_room r (\<lambda>m. m\<lparr>rm_gparam := g\<rparr>) tr)"
  "same tr (upd_client c (\<lambda>x. x\<lparr>cl_data := d x\<rparr>) tr)"
  by (simp_all add: same_def upd_room_def upd_client_def)

lemma same_stat_msg: "same tr (stat_msg m tr)"
  by (simp add: stat_msg_def same_frames)

lemma same_send_cmd: "same tr (send_cmd env cmd data c tr)"
  by (simp add: send_cmd_def SendToClientAddr_def same_frames)

lemma same_cli_sendState: "same tr (cli_sendState env c s u tr)"
  by (auto simp: cli_sendState_def Let_def same_stat_msg split: sum.split)

lemma same_setState: "same tr (setState r s tr)"
  unfolding setState_def by (rule same_trans [OF same_frames(4) same_stat_msg])

lemma same_cliwas:
  assumes "name \<in> dom (map_of (rm_cliwas (tr_rooms tr r)))"
  shows "same tr (upd_room r (\<lambda>x. x\<lparr>rm_cliwas := AList.update name v (rm_cliwas x)\<rparr>) tr)"
  using assms by (auto simp: same_def upd_room_def update_conv')

lemma funcToClients_loop_ok:
  assumes "\<And>c t. P t \<Longrightarrow> go_ok P (f c t)"
  shows "P tr \<Longrightarrow> go_ok P (funcToClients_loop r f is tr)"
  using assms by (induction "is" arbitrary: tr) (auto split: option.split intro: go_ok_bind)

lemma funcToClients_same:
  assumes "\<And>c t. go_ok (same t) (f c t)"
  shows "go_ok (same tr) (funcToClients r f tr)"
  unfolding funcToClients_def
  by (rule funcToClients_loop_ok) (auto intro: go_ok_mono [OF assms] same_trans)

lemma same_sendToClients: "go_ok (same tr) (sendToClients env r cmd data tr)"
  unfolding sendToClients_def by (rule funcToClients_same) (simp add: same_send_cmd)

lemma same_startRoom: "go_ok (same tr) (startRoom env r tr)"
  unfolding startRoom_def Let_def
proof (rule go_ok_bind)
  show "go_ok (same tr) (sendToClients env r ComStart [] (setState r RoomRunning tr))"
    by (rule go_ok_mono [OF same_sendToClients]) (rule same_trans [OF same_setState])
  fix t1
  assume t1: "same tr t1"
  show "go_ok (same tr) (go_bind (funcToClients r (\<lambda>c tr. Inr (case mcli_find (cl_name (tr_clients tr c)) tr of
        Some c' \<Rightarrow> cli_sendState env c' ClientStarted (rm_roomID (tr_rooms tr r)) tr | None \<Rightarrow> tr)) t1)
      (\<lambda>tr. Inr (tr\<lparr>tr_timers := tr_timers tr @ [GameTimer r]
         @ (if gp_GameTime (rm_gparam (tr_rooms tr r)) \<le> gp_GameClosedAfter (rm_gparam (tr_rooms tr r))
            then [] else [CloseTimer r])\<rparr>)))"
  proof (rule go_ok_bind)
    show "go_ok (same t1) (funcToClients r (\<lambda>c tr. Inr (case mcli_find (cl_name (tr_clients tr c)) tr of
        Some c' \<Rightarrow> cli_sendState env c' ClientStarted (rm_roomID (tr_rooms tr r)) tr | None \<Rightarrow> tr)) t1)"
      by (rule funcToClients_same) (auto simp: same_cli_sendState split: option.split)
  qed (auto intro: same_trans [OF t1] same_trans [OF _ same_frames(3)])
qed

lemma same_ready_loop: "go_ok (same tr) (ready_loop env r n ws tr)"
  by (induction env r n ws tr rule: ready_loop.induct) (auto intro: same_startRoom)

lemma same_clientReady:
  assumes "i < length (rm_client (tr_rooms tr r))" and "rm_client (tr_rooms tr r) ! i = Some c"
    and "cl_name (tr_clients tr c) \<in> dom (map_of (rm_cliwas (tr_rooms tr r)))"
  shows "go_ok (same tr) (clientReady env r i tr)"
proof -
  let ?room = "tr_rooms tr r" let ?u = "rm_roomID ?room" let ?name = "cl_name (tr_clients tr c)"
  define t1 where "t1 = cli_sendState env c ClientLoadded ?u tr"
  define t2 where "t2 = (if rm_state ?room = RoomClosed \<or> rm_state ?room = RoomStopped
     then send_cmd env ComDisconnect_cmd [] c (cli_sendState env c ClientDisconnected ?u t1) else t1)"
  obtain w x where w: "map_of (rm_cliwas ?room) ?name = Some (w, x)" using assms(3) by auto
  define t3 where "t3 = upd_room r (\<lambda>x. x\<lparr>rm_cliwas := AList.update ?name (w, True) (rm_cliwas x)\<rparr>) t2"
  have s2: "same tr t2"
    unfolding t2_def t1_def
    by (auto intro: same_trans [OF same_cli_sendState] same_trans [OF same_cli_sendState same_send_cmd] same_cli_sendState)
  have "?name \<in> dom (map_of (rm_cliwas (tr_rooms t2 r)))" using s2 assms(3) by (simp add: same_def)
  then have s3: "same tr t3" unfolding t3_def by (rule same_trans [OF s2 same_cliwas])
  have "clientReady env r i tr =
     (if rm_state ?room = RoomRunning
      then sendToClients env r ComStart [] (cli_sendState env c ClientAdded ?u t3)
      else ready_loop env r 0 (rm_cliwas (tr_rooms t3 r)) t3)"
    using assms(1,2) w unfolding clientReady_def Let_def t3_def t2_def t1_def by simp
  then show ?thesis
    using same_trans [OF s3] same_trans [OF same_trans [OF s3 same_cli_sendState]]
    by (auto intro: go_ok_mono [OF same_sendToClients] go_ok_mono [OF same_ready_loop])
qed

lemma same_existing_loop: "same tr (existing_loop env c name ds tr)"
  by (induction ds arbitrary: tr)
    (auto simp: SendToClientAddr_def intro: same_trans [OF same_frames(1)])

lemma same_existing_clients: "same tr (existing_clients env c name cliID i xs tr)"
  by (induction xs arbitrary: i tr) (auto split: option.split intro: same_trans [OF same_existing_loop])

lemma same_sendExistingData: "same tr (sendExistingData env client tr)"
  by (auto simp: sendExistingData_def same_existing_clients split: sum.split)

lemma same_resend_clients: "same tr (snd (resend_clients env cliID cmd data i xs tr))"
  by (induction xs arbitrary: i tr)
    (auto simp: SendToClientAddr_def same_frames split: option.split bool.split intro: same_trans [OF same_frames(1)])

section \<open>The invariant\<close>

text \<open>The client stands at a position of a room.\<close>

definition placed :: "Teoroom \<Rightarrow> rref \<Rightarrow> nat \<Rightarrow> cref \<Rightarrow> bool" where
  "placed tr r i c \<longleftrightarrow> r < tr_nextRoom tr \<and> i < length (rm_client (tr_rooms tr r))
     \<and> rm_client (tr_rooms tr r) ! i = Some c"

text \<open>
  The rooms map holds every room made so far under its number; connected names and positions
  correspond one to one; and a room remembers the names of its members.
\<close>

definition rooms_mapped :: "Teoroom \<Rightarrow> bool" where
  "rooms_mapped tr \<longleftrightarrow>
     tr_nextRoom tr \<le> 2 ^ 32 \<and> tr_roomID tr = of_nat (tr_nextRoom tr)
   \<and> (\<forall>rid. mroom_find rid tr = (if unat rid < tr_nextRoom tr then Some (unat rid) else None))
   \<and> distinct (map fst (tr_mroom tr))
   \<and> (\<forall>r < tr_nextRoom tr. rm_id (tr_rooms tr r) = of_nat r)"

definition room_ok :: "Teoroom \<Rightarrow> bool" where
  "room_ok tr \<longleftrightarrow>
     rooms_mapped tr
   \<and> (\<forall>name c. tr_mcli tr name = Some c \<longrightarrow>
        c < tr_nextClient tr \<and> cl_name (tr_clients tr c) = name \<and> (\<exists>r i. placed tr r i c))
   \<and> (\<forall>r i c. placed tr r i c \<longrightarrow>
        tr_mcli tr (cl_name (tr_clients tr c)) = Some c
      \<and> cl_name (tr_clients tr c) \<in> dom (map_of (rm_cliwas (tr_rooms tr r))))
   \<and> (\<forall>r i c r' i'. placed tr r i c \<longrightarrow> placed tr r' i' c \<longrightarrow> r = r' \<and> i = i')"

lemma room_okD:
  assumes "room_ok tr"
  shows "rooms_mapped tr"
    and "tr_mcli tr name = Some c \<Longrightarrow> c < tr_nextClient tr \<and> cl_name (tr_clients tr c) = name \<and> (\<exists>r i. placed tr r i c)"
    and "placed tr r i c \<Longrightarrow> tr_mcli tr (cl_name (tr_clients tr c)) = Some c"
    and "placed tr r i c \<Longrightarrow> cl_name (tr_clients tr c) \<in> dom (map_of (rm_cliwas (tr_rooms tr r)))"
    and "placed tr r i c \<Longrightarrow> placed tr r' i' c \<Longrightarrow> r = r' \<and> i = i'"
  using assms unfolding room_ok_def by blast+

lemma same_at: "same tr tr' \<Longrightarrow> placed tr' r i c \<longleftrightarrow> placed tr r i c"
  by (simp add: same_def placed_def)

lemma same_rooms_mapped: "same tr tr' \<Longrightarrow> rooms_mapped tr' \<longleftrightarrow> rooms_mapped tr"
  by (simp add: same_def rooms_mapped_def mroom_find_def)

lemma room_ok_same: "same tr tr' \<Longrightarrow> room_ok tr \<Longrightarrow> room_ok tr'"
  unfolding room_ok_def by (simp add: same_at same_rooms_mapped) (simp add: same_def)

lemma mroom_get_room:
  assumes "rooms_mapped tr" and "r < tr_nextRoom tr"
  shows "mroom_get (of_nat r) tr = Inr r"
proof -
  have "r < 2 ^ 32" using assms by (simp add: rooms_mapped_def)
  then have "unat (of_nat r :: u32) = r" by (simp add: unat_of_nat)
  then show ?thesis using assms by (simp add: mroom_get_def rooms_mapped_def)
qed

text \<open>The search finds the place of a client.\<close>

lemma index_of_client_Some:
  "index_of_client c k xs = Some i \<Longrightarrow> k \<le> i \<and> i - k < length xs \<and> xs ! (i - k) = Some c"
proof (induction xs arbitrary: k)
  case (Cons x xs)
  show ?case
  proof (cases "x = Some c")
    case False
    then have "index_of_client c (k + 1) xs = Some i" using Cons.prems by simp
    then have "k + 1 \<le> i \<and> i - (k + 1) < length xs \<and> xs ! (i - (k + 1)) = Some c" by (rule Cons.IH)
    then show ?thesis by (auto simp: nth_Cons')
  qed (use Cons.prems in auto)
qed simp

lemma index_of_client_None: "index_of_client c k xs = None \<longleftrightarrow> Some c \<notin> set xs"
  by (induction xs arbitrary: k) auto

lemma mroom_entry:
  assumes "rooms_mapped tr" and "(rid, r) \<in> set (tr_mroom tr)"
  shows "r < tr_nextRoom tr \<and> rid = of_nat r"
proof -
  have "map_of (tr_mroom tr) rid = Some r"
    using assms by (intro map_of_is_SomeI) (auto simp: rooms_mapped_def)
  then have "unat rid < tr_nextRoom tr" "unat rid = r"
    using assms(1) by (auto simp: rooms_mapped_def mroom_find_def split: if_splits)
  then show ?thesis by auto
qed

lemma roomClientID_loop_sound:
  assumes "rooms_mapped tr" and "set ms \<subseteq> set (tr_mroom tr)" and "roomClientID_loop c ms tr = Some (rid, i)"
  shows "\<exists>r. rid = of_nat r \<and> placed tr r i c"
  using assms(2,3)
proof (induction ms)
  case (Cons m ms)
  obtain rid' r where m: "m = (rid', r)" by (cases m)
  show ?case
  proof (cases "index_of_client c 0 (rm_client (tr_rooms tr r))")
    case None
    then show ?thesis using Cons m by simp
  next
    case (Some j)
    then have "rid = rid'" "i = j" using Cons.prems(2) m by auto
    moreover have "j < length (rm_client (tr_rooms tr r))" "rm_client (tr_rooms tr r) ! j = Some c"
      using index_of_client_Some [OF Some] by auto
    moreover have "r < tr_nextRoom tr \<and> rid' = of_nat r"
      using mroom_entry [OF assms(1), of rid' r] Cons.prems(1) m by auto
    ultimately show ?thesis by (auto simp: placed_def)
  qed
qed simp

lemma roomClientID_loop_None:
  "roomClientID_loop c ms tr = None \<Longrightarrow> (rid, r) \<in> set ms \<Longrightarrow> Some c \<notin> set (rm_client (tr_rooms tr r))"
  by (induction ms) (auto simp: index_of_client_None split: option.splits)

lemma roomClientID_at:
  assumes "room_ok tr" and "placed tr r i c"
  shows "roomClientID c tr = Inr (of_nat r, i)"
proof -
  note rm = room_okD(1) [OF assms(1)]
  have r: "r < tr_nextRoom tr" using assms(2) by (simp add: placed_def)
  have "mroom_find (of_nat r) tr = Some r"
    using mroom_get_room [OF rm r] by (simp add: mroom_get_def split: option.splits)
  then have "(of_nat r, r) \<in> set (tr_mroom tr)" by (simp add: mroom_find_def map_of_SomeD)
  moreover have "Some c \<in> set (rm_client (tr_rooms tr r))"
    using assms(2) by (auto simp: placed_def in_set_conv_nth)
  ultimately obtain rid j where l: "roomClientID_loop c (tr_mroom tr) tr = Some (rid, j)"
    using roomClientID_loop_None by (cases "roomClientID_loop c (tr_mroom tr) tr") fastforce+
  from roomClientID_loop_sound [OF rm subset_refl this] room_okD(5) [OF assms(1) assms(2)]
  have "rid = of_nat r" "j = i" by blast+
  then show ?thesis using l by (simp add: roomClientID_def)
qed

text \<open>Whatever the order of the search, the place found is the same.\<close>

lemma roomClientID_order:
  assumes "room_ok tr" and "placed tr r i c" and "set ms = set (tr_mroom tr)"
  shows "roomClientID_loop c ms tr = Some (of_nat r, i)"
proof -
  note s = assms(3)
  have "roomClientID_loop c ms tr \<noteq> None"
  proof
    assume none: "roomClientID_loop c ms tr = None"
    have "roomClientID c tr = Inr (of_nat r, i)" by (rule roomClientID_at [OF assms(1,2)])
    then have "roomClientID_loop c (tr_mroom tr) tr = Some (of_nat r, i)"
      by (simp add: roomClientID_def split: option.splits)
    moreover have "roomClientID_loop c (tr_mroom tr) tr = None" if "\<forall>(rid, r) \<in> set m. Some c \<notin> set (rm_client (tr_rooms tr r))"
      and "m = tr_mroom tr" for m
    proof -
      have "roomClientID_loop c m tr = None"
        using that(1) by (induction m) (auto simp: index_of_client_None split: option.split)
      then show ?thesis using that(2) by simp
    qed
    ultimately show False using roomClientID_loop_None [OF none] s by fastforce
  qed
  then obtain rid j where l: "roomClientID_loop c ms tr = Some (rid, j)" by auto
  from roomClientID_loop_sound [OF room_okD(1) [OF assms(1)] _ l] s room_okD(5) [OF assms(1,2)]
  show ?thesis using l by blast
qed

section \<open>Commands and the invariant\<close>

lemma resendData_at:
  assumes "room_ok tr" and "placed tr r i c" and "client = cl_name (tr_clients tr c)"
  shows "go_ok (\<lambda>(e, t). same tr t) (resendData env client cmd data tr)"
proof -
  have g: "mcli_get client tr = Inr c"
    using room_okD(3) [OF assms(1,2)] assms(3) by (simp add: mcli_get_def mcli_find_def)
  have id: "roomClientID c tr = Inr (of_nat r, i)" by (rule roomClientID_at [OF assms(1,2)])
  have room: "mroom_get (of_nat r) t = Inr r" if "same tr t" for t
  proof (rule mroom_get_room)
    show "rooms_mapped t" using same_rooms_mapped [OF that] room_okD(1) [OF assms(1)] by simp
    show "r < tr_nextRoom t" using that assms(2) by (simp add: same_def placed_def)
  qed
  have ready: "go_ok (same tr) (clientReady env r i t)" if t: "same tr t" for t
  proof (rule go_ok_mono [OF same_clientReady])
    have pl: "placed t r i c" using same_at [OF t] assms(2) by simp
    then show "i < length (rm_client (tr_rooms t r))" "rm_client (tr_rooms t r) ! i = Some c"
      by (simp_all add: placed_def)
    show "cl_name (tr_clients t c) \<in> dom (map_of (rm_cliwas (tr_rooms t r)))"
      using room_okD(4) [OF room_ok_same [OF t assms(1)] pl] .
  qed (rule same_trans [OF t])
  have first: "go_ok (\<lambda>(e, t). e = None \<and> same tr t)
     (if cl_data (tr_clients tr c) = []
      then let tr = sendExistingData env client tr
           in case mroom_get (of_nat r) tr of
                Inl e \<Rightarrow> Inr (Some e, tr)
              | Inr r \<Rightarrow> go_bind (clientReady env r i tr) (\<lambda>tr. Inr (None, tr))
      else Inr (None, tr))"
  proof (cases "cl_data (tr_clients tr c) = []")
    case True
    have "go_ok (\<lambda>(e, t). e = None \<and> same tr t)
        (go_bind (clientReady env r i (sendExistingData env client tr)) (\<lambda>tr. Inr (None, tr)))"
      by (rule go_ok_bind [OF ready [OF same_sendExistingData]]) simp
    then show ?thesis using True by (simp add: Let_def room [OF same_sendExistingData])
  qed simp
  have "go_ok (\<lambda>(e, t). same tr t)
     ((\<lambda>(err, t). if err \<noteq> None then Inr (err, t)
         else let t = upd_client c (\<lambda>x. x\<lparr>cl_data := (if cl_data x = [] then [data] else (cl_data x)[0 := data])\<rparr>) t
              in case mroom_get (of_nat r) t of
                   Inl e \<Rightarrow> Inr (Some e, t)
                 | Inr r \<Rightarrow> Inr (resend_clients env i cmd data 0 (rm_client (tr_rooms t r)) t)) x)"
    if x0: "(\<lambda>(e, t). e = None \<and> same tr t) x" for x
  proof -
    obtain t where x: "x = (None, t)" and t: "same tr t" using x0 by (cases x) auto
    let ?t = "upd_client c (\<lambda>x. x\<lparr>cl_data := (if cl_data x = [] then [data] else (cl_data x)[0 := data])\<rparr>) t"
    have t': "same tr ?t" by (rule same_trans [OF t same_frames(6)])
    obtain e t'' where rc: "resend_clients env i cmd data 0 (rm_client (tr_rooms ?t r)) ?t = (e, t'')"
      by fastforce
    have "same tr t''"
      using same_trans [OF t' same_resend_clients [of ?t env i cmd data 0 "rm_client (tr_rooms ?t r)"]] rc by simp
    then show ?thesis by (simp add: x Let_def room [OF t'] rc)
  qed
  note tail = this
  show ?thesis
    unfolding resendData_def by (simp only: g id sum.case prod.case) (rule go_ok_bind [OF first], rule tail)
qed

text \<open>Taking a client off its position and out of the map.\<close>

definition take_off :: "rref \<Rightarrow> nat \<Rightarrow> string \<Rightarrow> Teoroom \<Rightarrow> Teoroom" where
  "take_off r i client tr = mcli_delete client (upd_room r (\<lambda>x. x\<lparr>rm_client := (rm_client x)[i := None]\<rparr>) tr)"

lemma placed_take_off:
  "placed (take_off r i client tr) r' j c \<longleftrightarrow> placed tr r' j c \<and> (r', j) \<noteq> (r, i)"
  by (cases "r' = r"; cases "j = i") (auto simp: take_off_def mcli_delete_def upd_room_def placed_def)

lemma rooms_mapped_take_off: "rooms_mapped (take_off r i client tr) = rooms_mapped tr"
proof -
  have "rm_id (tr_rooms (take_off r i client tr) r') = rm_id (tr_rooms tr r')" for r'
    by (simp add: take_off_def mcli_delete_def upd_room_def)
  moreover have "tr_mroom (take_off r i client tr) = tr_mroom tr" "tr_nextRoom (take_off r i client tr) = tr_nextRoom tr"
    "tr_roomID (take_off r i client tr) = tr_roomID tr"
    by (simp_all add: take_off_def mcli_delete_def upd_room_def)
  ultimately show ?thesis by (simp add: rooms_mapped_def mroom_find_def)
qed

lemma room_ok_take_off:
  assumes ok: "room_ok tr" and p: "placed tr r i c"
  shows "room_ok (take_off r i (cl_name (tr_clients tr c)) tr)"
proof -
  let ?n = "cl_name (tr_clients tr c)" let ?t = "take_off r i ?n tr"
  have t: "tr_mcli ?t = (tr_mcli tr)(?n := None)" "tr_clients ?t = tr_clients tr"
    "tr_nextClient ?t = tr_nextClient tr" "rm_cliwas (tr_rooms ?t r') = rm_cliwas (tr_rooms tr r')" for r'
    by (simp_all add: take_off_def mcli_delete_def upd_room_def)
  have other: "\<exists>r' j. placed tr r' j d \<and> (r', j) \<noteq> (r, i)" if m: "tr_mcli tr name = Some d" "name \<noteq> ?n" for name d
  proof -
    obtain r' j where d: "cl_name (tr_clients tr d) = name" "placed tr r' j d" using room_okD(2) [OF ok m(1)] by blast
    have "d \<noteq> c" using d(1) m(2) by (metis (no_types))
    then have "(r', j) \<noteq> (r, i)" using d(2) p unfolding placed_def by (metis option.inject prod.inject)
    then show ?thesis using d(2) by blast
  qed
  have names: "cl_name (tr_clients tr d) \<noteq> ?n" if "placed tr r' j d" "(r', j) \<noteq> (r, i)" for d r' j
  proof
    assume eq: "cl_name (tr_clients tr d) = ?n"
    have "Some d = Some c" using room_okD(3) [OF ok that(1)] room_okD(3) [OF ok p] unfolding eq by (rule trans [OF sym])
    then have "d = c" by simp
    then have "placed tr r' j c" using that(1) by (simp only:)
    from room_okD(5) [OF ok p this] that(2) show False by simp
  qed
  show ?thesis
    unfolding room_ok_def rooms_mapped_take_off placed_take_off t
  proof (intro conjI allI impI)
    show "rooms_mapped tr" by (rule room_okD(1) [OF ok])
  next
    fix name d
    assume "((tr_mcli tr)(?n := None)) name = Some d"
    then have m: "tr_mcli tr name = Some d" "name \<noteq> ?n" by (auto split: if_splits)
    show "d < tr_nextClient tr" "cl_name (tr_clients tr d) = name" using room_okD(2) [OF ok m(1)] by simp_all
    show "\<exists>r' j. placed tr r' j d \<and> (r', j) \<noteq> (r, i)" by (rule other [OF m])
  next
    fix r' j d
    assume d: "placed tr r' j d \<and> (r', j) \<noteq> (r, i)"
    then have "cl_name (tr_clients tr d) \<noteq> ?n" using names by blast
    then show "((tr_mcli tr)(?n := None)) (cl_name (tr_clients tr d)) = Some d"
      using room_okD(3) [OF ok d [THEN conjunct1]] by simp
    show "cl_name (tr_clients tr d) \<in> dom (map_of (rm_cliwas (tr_rooms tr r')))"
      using room_okD(4) [OF ok] d by blast
    fix r'' j'
    assume "placed tr r'' j' d \<and> (r'', j') \<noteq> (r, i)"
    then show "r' = r''" "j = j'" using room_okD(5) [OF ok] d by blast+
  qed
qed

lemma ComDisconnect_at:
  assumes ok: "room_ok tr" and p: "placed tr r i c" and n: "client = cl_name (tr_clients tr c)"
  shows "go_ok (\<lambda>(e, t). e = None \<and> (\<exists>t0. same tr t0 \<and> t = take_off r i client t0)) (ComDisconnect env client tr)"
proof -
  have g: "mcli_get client tr = Inr c"
    using room_okD(3) [OF ok p] n by (simp add: mcli_get_def mcli_find_def)
  have id: "roomClientID c tr = Inr (of_nat r, i)" by (rule roomClientID_at [OF ok p])
  have tail: "go_ok (\<lambda>(e, t). e = None \<and> (\<exists>t0. same tr t0 \<and> t = take_off r i client t0))
     ((\<lambda>(_, t). case mroom_get (of_nat r) t of
         Inl e \<Rightarrow> Inr (Some e, t)
       | Inr r \<Rightarrow> if length (rm_client (tr_rooms t r)) \<le> i then Inl IndexOutOfRange
                 else Inr (None, mcli_delete client (upd_room r (\<lambda>x. x\<lparr>rm_client := (rm_client x)[i := None]\<rparr>) t))) x)"
    if x0: "(\<lambda>(e, t). same tr t) x" for x
  proof -
    obtain e t where x: "x = (e, t)" and t: "same tr t" using x0 by (cases x) auto
    have pt: "placed t r i c" using same_at [OF t] p by simp
    then have "mroom_get (of_nat r) t = Inr r"
      using mroom_get_room [OF room_okD(1) [OF room_ok_same [OF t ok]]] by (simp add: placed_def)
    then show ?thesis using pt t by (auto simp: x placed_def take_off_def)
  qed
  show ?thesis
    unfolding ComDisconnect_def
    by (simp only: g id sum.case prod.case) (rule go_ok_bind [OF resendData_at [OF ok p n]], rule tail)
qed

lemma room_ok_after_take_off:
  assumes "room_ok tr" and "placed tr r i c" and "same tr t0"
  shows "room_ok (take_off r i (cl_name (tr_clients tr c)) t0)"
proof -
  have "cl_name (tr_clients t0 c) = cl_name (tr_clients tr c)" using assms(3) by (simp add: same_def)
  then show ?thesis
    using room_ok_take_off [OF room_ok_same [OF assms(3,1)], of r i c] same_at [OF assms(3)] assms(2) by simp
qed

lemma ComDisconnect_absent: "tr_mcli tr client = None \<Longrightarrow> \<exists>e. ComDisconnect env client tr = Inr (Some e, tr)"
  by (simp add: ComDisconnect_def mcli_get_def mcli_find_def)

text \<open>The invariant, with at most so many rooms.\<close>

definition kept :: "nat \<Rightarrow> Teoroom \<Rightarrow> bool" where
  "kept n tr \<longleftrightarrow> room_ok tr \<and> tr_nextRoom tr \<le> n"

lemma kept_same: "same tr t \<Longrightarrow> kept n tr \<Longrightarrow> kept n t"
  unfolding kept_def by (metis room_ok_same same_def)

lemma kept_ComDisconnect:
  assumes k: "kept n tr"
  shows "go_ok (\<lambda>(e, t). kept n t) (ComDisconnect env client tr)"
proof (cases "tr_mcli tr client")
  case None
  then show ?thesis using ComDisconnect_absent [OF None, of env] k by auto
next
  case (Some c)
  have ok: "room_ok tr" using k by (simp add: kept_def)
  then obtain r i where p: "placed tr r i c" and n: "client = cl_name (tr_clients tr c)"
    using room_okD(2) [OF ok Some] by auto
  have "kept n (take_off r i (cl_name (tr_clients tr c)) t)" if "same tr t" for t
    using room_ok_after_take_off [OF ok p that] k that
    by (simp add: kept_def same_def take_off_def mcli_delete_def upd_room_def)
  then show ?thesis
    by (intro go_ok_mono [OF ComDisconnect_at [OF ok p n]]) (auto simp: n)
qed

lemma kept_disconnect_member:
  assumes "kept n tr"
  shows "go_ok (kept n) (disconnect_member env c tr)"
  unfolding disconnect_member_def
  by (rule go_ok_bind [OF kept_ComDisconnect [OF kept_same [OF same_send_cmd assms]]]) auto

lemma same_ComRoomData:
  assumes ok: "room_ok tr"
  shows "go_ok (same tr) (ComRoomData env client data tr)"
proof (cases "tr_mcli tr client")
  case None
  then show ?thesis by (simp add: ComRoomData_def resendData_def mcli_get_def mcli_find_def)
next
  case (Some c)
  then obtain r i where p: "placed tr r i c" and n: "client = cl_name (tr_clients tr c)"
    using room_okD(2) [OF ok Some] by auto
  show ?thesis unfolding ComRoomData_def by (rule go_ok_bind [OF resendData_at [OF ok p n]]) auto
qed

lemma kept_game_over:
  assumes ok: "kept n tr"
  shows "go_ok (kept n) (game_over env r tr)"
  unfolding game_over_def funcToClients_def
proof (rule funcToClients_loop_ok [where P = "kept n"])
  show "kept n (setState r RoomStopped tr)" by (rule kept_same [OF same_setState ok])
  fix c t
  assume "kept n t"
  then show "go_ok (kept n) (disconnect_member env c
         (case mcli_find (cl_name (tr_clients t c)) t of
            Some c' \<Rightarrow> cli_sendState env c' ClientDisconnected (rm_roomID (tr_rooms t r)) t
          | None \<Rightarrow> t))"
    by (intro kept_disconnect_member) (auto split: option.split intro: kept_same [OF same_cli_sendState])
qed

lemma kept_wait_timeout:
  assumes ok: "kept n tr"
  shows "go_ok (kept n) (wait_timeout env r tr)"
proof -
  have "go_ok (kept n) (funcToClients r (disconnect_member env) (setState r RoomStopped tr))"
    unfolding funcToClients_def
    by (rule funcToClients_loop_ok [where P = "kept n"])
      (auto intro: kept_disconnect_member kept_same [OF same_setState ok])
  then show ?thesis using ok by (simp add: wait_timeout_def Let_def)
qed

lemma kept_fire:
  assumes "kept n tr"
  shows "go_ok (kept n) (fire env t tr)"
proof -
  have "kept n (tr\<lparr>tr_timers := z\<rparr>)" for z by (rule kept_same [OF same_frames(3) assms])
  then show ?thesis
    using assms by (auto simp: fire_def Let_def close_room_def kept_game_over kept_wait_timeout
        intro: kept_same [OF same_setState] split: room_timer.split)
qed

section \<open>Room requests\<close>

text \<open>A state in which one connected client has no place yet.\<close>

definition homeless :: "cref \<Rightarrow> string \<Rightarrow> Teoroom \<Rightarrow> bool" where
  "homeless c name tr \<longleftrightarrow>
     room_ok (mcli_delete name tr) \<and> tr_mcli tr name = Some c \<and> c < tr_nextClient tr
   \<and> cl_name (tr_clients tr c) = name \<and> (\<forall>r i. \<not> placed tr r i c)"

lemma placed_mcli_delete [simp]: "placed (mcli_delete name tr) r i c = placed tr r i c"
  by (simp add: placed_def mcli_delete_def)

lemma rooms_mapped_mcli_delete [simp]: "rooms_mapped (mcli_delete name tr) = rooms_mapped tr"
  by (simp add: rooms_mapped_def mcli_delete_def mroom_find_def)

lemma homelessD:
  assumes "homeless c name tr"
  shows "rooms_mapped tr"
    and "tr_mcli tr n = Some d \<Longrightarrow> n \<noteq> name \<Longrightarrow> d < tr_nextClient tr \<and> cl_name (tr_clients tr d) = n \<and> (\<exists>r i. placed tr r i d)"
    and "placed tr r i d \<Longrightarrow> cl_name (tr_clients tr d) \<noteq> name \<and> tr_mcli tr (cl_name (tr_clients tr d)) = Some d"
    and "placed tr r i d \<Longrightarrow> cl_name (tr_clients tr d) \<in> dom (map_of (rm_cliwas (tr_rooms tr r)))"
    and "placed tr r i d \<Longrightarrow> placed tr r' i' d \<Longrightarrow> r = r' \<and> i = i'"
proof -
  have ok: "room_ok (mcli_delete name tr)" using assms by (simp add: homeless_def)
  have m: "tr_mcli (mcli_delete name tr) = (tr_mcli tr)(name := None)" "tr_clients (mcli_delete name tr) = tr_clients tr"
    "tr_nextClient (mcli_delete name tr) = tr_nextClient tr" "tr_rooms (mcli_delete name tr) = tr_rooms tr"
    by (simp_all add: mcli_delete_def)
  show "rooms_mapped tr" using room_okD(1) [OF ok] by simp
  show "tr_mcli tr n = Some d \<Longrightarrow> n \<noteq> name \<Longrightarrow> d < tr_nextClient tr \<and> cl_name (tr_clients tr d) = n \<and> (\<exists>r i. placed tr r i d)"
    using room_okD(2) [OF ok, of n d] by (simp add: m)
  show "placed tr r i d \<Longrightarrow> cl_name (tr_clients tr d) \<noteq> name \<and> tr_mcli tr (cl_name (tr_clients tr d)) = Some d"
    using room_okD(3) [OF ok, of r i d] by (simp add: m split: if_splits)
  show "placed tr r i d \<Longrightarrow> cl_name (tr_clients tr d) \<in> dom (map_of (rm_cliwas (tr_rooms tr r)))"
    using room_okD(4) [OF ok, of r i d] unfolding placed_mcli_delete m .
  show "placed tr r i d \<Longrightarrow> placed tr r' i' d \<Longrightarrow> r = r' \<and> i = i'"
    using room_okD(5) [OF ok, of r i d r' i'] by simp
qed

lemma homeless_same: "same tr tr' \<Longrightarrow> homeless c name tr \<Longrightarrow> homeless c name tr'"
proof -
  assume s: "same tr tr'" and h: "homeless c name tr"
  have "same (mcli_delete name tr) (mcli_delete name tr')" using s by (simp add: same_def mcli_delete_def)
  then show ?thesis using h room_ok_same same_at [OF s] s unfolding homeless_def by (auto simp: same_def)
qed

lemma newClient_homeless:
  assumes ok: "room_ok tr" and none: "tr_mcli tr name = None" and n: "newClient name l0 tr = (c, t)"
  shows "homeless c name t" and "tr_rooms t = tr_rooms tr" "tr_nextRoom t = tr_nextRoom tr" "tr_mroom t = tr_mroom tr"
    "tr_creating t = tr_creating tr" "tr_sent t = tr_sent tr"
proof -
  have c: "c = tr_nextClient tr" and t: "t = mcli_set name c (tr\<lparr>tr_nextClient := c + 1,
      tr_clients := (tr_clients tr)(c := \<lparr> cl_name = name, cl_data = [], cl_L0 = l0 \<rparr>)\<rparr>)"
    using n by (auto simp: newClient_def Let_def)
  have pl: "placed t r i d = placed tr r i d" for r i d by (simp add: placed_def t mcli_set_def)
  have lt: "d < c" if "placed tr r i d" for r i d
    using room_okD(2) [OF ok room_okD(3) [OF ok that]] c by simp
  have del: "tr_mcli (mcli_delete name t) = tr_mcli tr"
    using none by (simp add: t mcli_set_def mcli_delete_def fun_upd_idem)
  have old: "tr_clients (mcli_delete name t) d = tr_clients tr d" if "d < c" for d
    using that by (simp add: t mcli_set_def mcli_delete_def)
  have rest: "tr_rooms (mcli_delete name t) = tr_rooms tr" "tr_nextClient (mcli_delete name t) = c + 1"
    by (simp_all add: t mcli_set_def mcli_delete_def)
  have rm: "rooms_mapped t = rooms_mapped tr" by (simp add: rooms_mapped_def t mcli_set_def mroom_find_def)
  have "room_ok (mcli_delete name t)"
    unfolding room_ok_def placed_mcli_delete rooms_mapped_mcli_delete pl rm del rest
  proof (intro conjI allI impI)
    show "rooms_mapped tr" by (rule room_okD(1) [OF ok])
  next
    fix nm d
    assume m: "tr_mcli tr nm = Some d"
    have "d < c" using room_okD(2) [OF ok m] c by simp
    then show "d < c + 1" "cl_name (tr_clients (mcli_delete name t) d) = nm"
      using room_okD(2) [OF ok m] old by simp_all
    show "\<exists>r i. placed tr r i d" using room_okD(2) [OF ok m] by blast
  next
    fix r i d
    assume p: "placed tr r i d"
    show "tr_mcli tr (cl_name (tr_clients (mcli_delete name t) d)) = Some d"
      "cl_name (tr_clients (mcli_delete name t) d) \<in> dom (map_of (rm_cliwas (tr_rooms tr r)))"
      unfolding old [OF lt [OF p]] by (rule room_okD(3) [OF ok p], rule room_okD(4) [OF ok p])
    fix r' i'
    assume "placed tr r' i' d"
    then show "r = r'" "i = i'" using room_okD(5) [OF ok p] by blast+
  qed
  then show "homeless c name t"
    using lt pl by (auto simp: homeless_def t mcli_set_def)
  show "tr_rooms t = tr_rooms tr" "tr_nextRoom t = tr_nextRoom tr" "tr_mroom t = tr_mroom tr" "tr_creating t = tr_creating tr"
    "tr_sent t = tr_sent tr"
    by (simp_all add: t mcli_set_def)
qed

lemma newRoom_homeless:
  assumes h: "homeless c name tr" and lt: "tr_nextRoom tr < 2 ^ 32" and n: "newRoom uuid gp tr = (r, t)"
  shows "homeless c name t" and "r = tr_nextRoom tr" and "tr_nextRoom t = r + 1" and "rm_client (tr_rooms t r) = []"
    and "rm_id (tr_rooms t r) = of_nat r" and "\<And>r'. r' < r \<Longrightarrow> tr_rooms t r' = tr_rooms tr r'"
    and "tr_clients t = tr_clients tr" "tr_sent t = tr_sent tr" "tr_mcli t = tr_mcli tr"
    and "rm_gparam (tr_rooms t r) = gp"
proof -
  have r: "r = tr_nextRoom tr" and t: "t = mroom_set (tr_roomID tr) r
      ((stat_msg (SendRoomCreate uuid (tr_roomID tr)) (tr\<lparr>tr_roomID := tr_roomID tr + 1, tr_nextRoom := r + 1,
          tr_rooms := (tr_rooms tr)(r := \<lparr> rm_id = tr_roomID tr, rm_roomID = uuid, rm_state = RoomCreating,
            rm_client = [], rm_cliwas = [], rm_gparam = gp \<rparr>)\<rparr>))
        \<lparr>tr_creating := tr_creating tr @ [tr_roomID tr]\<rparr>)"
    using n by (auto simp: newRoom_def Let_def stat_msg_def)
  note rm = homelessD(1) [OF h]
  have id: "tr_roomID tr = of_nat r" using rm r by (simp add: rooms_mapped_def)
  have ur: "unat (of_nat r :: u32) = r" using lt r by (simp add: unat_of_nat)
  have fields: "tr_nextRoom t = r + 1" "tr_mcli t = tr_mcli tr" "tr_clients t = tr_clients tr"
    "tr_nextClient t = tr_nextClient tr" "tr_roomID t = of_nat r + 1"
    "tr_rooms t = (tr_rooms tr)(r := \<lparr> rm_id = of_nat r, rm_roomID = uuid, rm_state = RoomCreating,
            rm_client = [], rm_cliwas = [], rm_gparam = gp \<rparr>)"
    "tr_mroom t = AList.update (of_nat r) r (tr_mroom tr)" "tr_sent t = tr_sent tr"
    by (simp_all add: t mroom_set_def stat_msg_def id)
  have pl: "placed t r' i d = placed tr r' i d" for r' i d
    by (auto simp: placed_def fields r less_Suc_eq)
  have "rooms_mapped t"
    unfolding rooms_mapped_def fields mroom_find_def
  proof (intro conjI allI impI)
    show "r + 1 \<le> 2 ^ 32" using lt r by simp
    show "of_nat r + 1 = (of_nat (r + 1) :: u32)" by simp
    show "distinct (map fst (AList.update (of_nat r) r (tr_mroom tr)))"
      using rm by (simp add: rooms_mapped_def distinct_update)
    fix rid :: u32
    have "rid = of_nat r \<longleftrightarrow> unat rid = r" using ur by (metis word_unat_eq_iff)
    then show "map_of (AList.update (of_nat r) r (tr_mroom tr)) rid = (if unat rid < r + 1 then Some (unat rid) else None)"
      using rm r by (auto simp: rooms_mapped_def mroom_find_def update_conv')
  next
    fix r'
    assume "r' < r + 1"
    then show "rm_id (((tr_rooms tr)(r := \<lparr> rm_id = of_nat r, rm_roomID = uuid, rm_state = RoomCreating,
            rm_client = [], rm_cliwas = [], rm_gparam = gp \<rparr>)) r') = of_nat r'"
      using rm r by (auto simp: rooms_mapped_def)
  qed
  moreover have "rm_cliwas (tr_rooms t r') = rm_cliwas (tr_rooms tr r')" if "placed tr r' i d" for r' i d
    using that by (auto simp: fields placed_def r)
  ultimately show "homeless c name t"
    using h unfolding homeless_def room_ok_def placed_mcli_delete rooms_mapped_mcli_delete pl
    by (auto simp: fields mcli_delete_def)
  show "r = tr_nextRoom tr" "tr_nextRoom t = r + 1" "rm_client (tr_rooms t r) = []" "rm_id (tr_rooms t r) = of_nat r"
    "tr_clients t = tr_clients tr" "tr_sent t = tr_sent tr" "tr_mcli t = tr_mcli tr" "rm_gparam (tr_rooms t r) = gp"
    by (simp_all add: r fields)
  show "\<And>r'. r' < r \<Longrightarrow> tr_rooms t r' = tr_rooms tr r'" by (simp add: fields)
qed

lemma addClient_placed:
  assumes h: "homeless c name tr" and r: "r < tr_nextRoom tr" and a: "addClient r c tr = (i, t)"
  shows "room_ok t" and "i = length (rm_client (tr_rooms tr r))" and "placed t r i c"
    and "\<And>r' j d. placed t r' j d \<longleftrightarrow> placed tr r' j d \<or> (r', j, d) = (r, i, c)"
    and "rm_id (tr_rooms t r) = of_nat r"
    and "tr_clients t = tr_clients tr" "tr_sent t = tr_sent tr" "tr_mcli t = tr_mcli tr" "tr_nextRoom t = tr_nextRoom tr"
    and "\<And>r'. rm_client (tr_rooms t r') = rm_client (tr_rooms tr r') @ (if r' = r then [Some c] else [])"
proof -
  have i: "i = length (rm_client (tr_rooms tr r))"
    and t: "t = upd_room r (\<lambda>x. x\<lparr>rm_client := rm_client x @ [Some c],
                rm_cliwas := AList.update name (c, False) (rm_cliwas x)\<rparr>) tr"
    using a h by (auto simp: addClient_def homeless_def)
  show "i = length (rm_client (tr_rooms tr r))" by (rule i)
  show fields: "tr_clients t = tr_clients tr" "tr_sent t = tr_sent tr" "tr_mcli t = tr_mcli tr" "tr_nextRoom t = tr_nextRoom tr"
    by (simp_all add: t upd_room_def)
  show pl: "placed t r' j d \<longleftrightarrow> placed tr r' j d \<or> (r', j, d) = (r, i, c)" for r' j d
    using r by (auto simp: placed_def t upd_room_def nth_append i less_Suc_eq)
  then show "placed t r i c" by simp
  have ids: "rm_id (tr_rooms t r') = rm_id (tr_rooms tr r')" for r' by (simp add: t upd_room_def)
  have rm: "rooms_mapped t = rooms_mapped tr"
    unfolding rooms_mapped_def ids by (simp add: t upd_room_def mroom_find_def)
  have was: "dom (map_of (rm_cliwas (tr_rooms t r'))) = dom (map_of (rm_cliwas (tr_rooms tr r'))) \<union> (if r' = r then {name} else {})" for r'
    by (auto simp: t upd_room_def update_conv')
  show "rm_id (tr_rooms t r) = of_nat r"
    using homelessD(1) [OF h] r unfolding ids by (simp add: rooms_mapped_def)
  show "rm_client (tr_rooms t r') = rm_client (tr_rooms tr r') @ (if r' = r then [Some c] else [])" for r'
    by (simp add: t upd_room_def)
  have c: "tr_mcli tr name = Some c" "cl_name (tr_clients tr c) = name" "c < tr_nextClient tr" "\<not> placed tr r' j c" for r' j
    using h by (simp_all add: homeless_def)
  have next': "tr_nextClient t = tr_nextClient tr" by (simp add: t upd_room_def)
  show "room_ok t"
    unfolding room_ok_def rm fields next' pl
  proof (intro conjI allI impI)
    show "rooms_mapped tr" by (rule homelessD(1) [OF h])
  next
    fix n d
    assume m: "tr_mcli tr n = Some d"
    show "d < tr_nextClient tr" "cl_name (tr_clients tr d) = n" "\<exists>r' j. placed tr r' j d \<or> (r', j, d) = (r, i, c)"
      using m c homelessD(2) [OF h m] by (cases "n = name"; auto)+
  next
    fix r' j d
    assume p: "placed tr r' j d \<or> (r', j, d) = (r, i, c)"
    show "tr_mcli tr (cl_name (tr_clients tr d)) = Some d"
      using p homelessD(3) [OF h, of r' j d] c by auto
    show "cl_name (tr_clients tr d) \<in> dom (map_of (rm_cliwas (tr_rooms t r')))"
      unfolding was using p homelessD(4) [OF h, of r' j d] c(2) by auto
    fix r'' j'
    assume q: "placed tr r'' j' d \<or> (r'', j', d) = (r, i, c)"
    show "r' = r''" "j = j'" using p q c(4) homelessD(5) [OF h, of r' j d r'' j'] by auto
  qed
qed

lemma find_room_Some:
  assumes "find_room name rids tr = Some r"
  shows "\<exists>rid \<in> set rids. mroom_find rid tr = Some r \<and> room_accepts name (tr_rooms tr r)"
  using assms by (induction rids) (auto split: option.splits if_splits)

lemma find_room_None:
  assumes "find_room name rids tr = None" and "rid \<in> set rids" and "mroom_find rid tr = Some r"
  shows "\<not> room_accepts name (tr_rooms tr r)"
  using assms by (induction rids) (auto split: option.splits if_splits)

text \<open>A room of the list of open rooms takes the client.\<close>

definition open_room :: "string \<Rightarrow> Teoroom \<Rightarrow> rref \<Rightarrow> bool" where
  "open_room name tr r \<longleftrightarrow>
     (\<exists>rid \<in> set (tr_creating tr). mroom_find rid tr = Some r)
   \<and> rm_state (tr_rooms tr r) \<in> {RoomCreating, RoomRunning}
   \<and> name \<notin> dom (map_of (rm_cliwas (tr_rooms tr r)))
   \<and> int (length (rm_client (tr_rooms tr r))) < gp_MaxClientsInRoom (rm_gparam (tr_rooms tr r))"

lemma open_room_iff:
  "open_room name tr r \<longleftrightarrow>
     (\<exists>rid \<in> set (tr_creating tr). mroom_find rid tr = Some r) \<and> room_accepts name (tr_rooms tr r)"
proof -
  have "s \<in> {RoomCreating, RoomRunning} \<longleftrightarrow> s \<noteq> RoomClosed \<and> s \<noteq> RoomStopped" for s
    by (cases s) auto
  then show ?thesis by (auto simp add: open_room_def room_accepts_def domIff simp del: not_None_eq)
qed

lemma roomRequest_placed:
  assumes h: "homeless c name tr" and lt: "tr_nextRoom tr < 2 ^ 32" and q: "roomRequest uuid gp c tr = ((rid, i), t)"
  shows "\<exists>r. room_ok t \<and> placed t r i c \<and> rid = of_nat r
     \<and> (if Ex (open_room name tr) then open_room name tr r \<and> r < tr_nextRoom tr \<and> i = length (rm_client (tr_rooms tr r))
        else r = tr_nextRoom tr \<and> i = 0)
     \<and> tr_mcli t = tr_mcli tr \<and> tr_clients t = tr_clients tr \<and> tr_sent t = tr_sent tr
     \<and> tr_nextRoom t \<le> Suc (tr_nextRoom tr)
     \<and> (\<forall>r' < tr_nextRoom tr. rm_client (tr_rooms t r') = rm_client (tr_rooms tr r') @ (if r' = r then [Some c] else []))"
proof (cases "find_room name (tr_creating tr) tr")
  case (Some r)
  have n: "cl_name (tr_clients tr c) = name" using h by (simp add: homeless_def)
  from find_room_Some [OF Some] obtain k where k: "k \<in> set (tr_creating tr)" "mroom_find k tr = Some r"
    "room_accepts name (tr_rooms tr r)" by blast
  then have r: "r < tr_nextRoom tr" and o: "open_room name tr r"
    using homelessD(1) [OF h] by (auto simp: rooms_mapped_def open_room_iff split: if_splits)
  obtain j u where a: "addClient r c tr = (j, u)" by fastforce
  have e: "rid = rm_id (tr_rooms u r)" "i = j" "t = u" using q by (auto simp add: roomRequest_def n Some a)
  note p = addClient_placed [OF h r a]
  show ?thesis
    using p(1,2,3,5,6,7,8,9,10) r o unfolding e by (intro exI [of _ r]) auto
next
  case None
  have n: "cl_name (tr_clients tr c) = name" using h by (simp add: homeless_def)
  have o: "\<not> Ex (open_room name tr)" using find_room_None [OF None] by (auto simp: open_room_iff)
  obtain r t1 where nr: "newRoom uuid gp tr = (r, t1)" by fastforce
  let ?t = "t1\<lparr>tr_timers := tr_timers t1 @ [WaitTimer r]\<rparr>"
  obtain j u where a: "addClient r c ?t = (j, u)" by fastforce
  have e: "rid = rm_id (tr_rooms u r)" "i = j" "t = u" using q by (auto simp add: roomRequest_def n None nr a Let_def)
  note f = newRoom_homeless [OF h lt nr]
  have h': "homeless c name ?t" by (rule homeless_same [OF same_frames(3) f(1)])
  have r': "r < tr_nextRoom ?t" using f(3) by simp
  note p = addClient_placed [OF h' r' a]
  have "\<forall>r' < tr_nextRoom tr. rm_client (tr_rooms u r') = rm_client (tr_rooms tr r')"
    using p(10) f(2,6) by simp
  then show ?thesis
    using p(1,2,3,5,6,7,8,9) f(2,3,4,7,8,9) o unfolding e by (intro exI [of _ r]) auto
qed

text \<open>A connected client's request is refused; else it gets a place.\<close>

lemma ComRoomRequest_connected:
  "tr_mcli tr client = Some c \<Longrightarrow> \<exists>e. ComRoomRequest env uuid gp client l0 tr = (Some e, tr)"
  by (simp add: ComRoomRequest_def mcli_find_def)

lemma ComRoomRequest_placed:
  assumes ok: "room_ok tr" and lt: "tr_nextRoom tr < 2 ^ 32" and none: "tr_mcli tr client = None"
    and q: "ComRoomRequest env uuid gp client l0 tr = (e, t)"
  shows "e = None \<and> room_ok t \<and> tr_nextRoom t \<le> Suc (tr_nextRoom tr) \<and> (\<exists>r i c. placed t r i c \<and> tr_mcli t client = Some c
     \<and> tr_sent t = tr_sent tr @ [(l0, client, ComRoomRequestAnswer, [of_nat i])]
     \<and> (if Ex (open_room client tr) then open_room client tr r \<and> r < tr_nextRoom tr \<and> i = length (rm_client (tr_rooms tr r))
        else r = tr_nextRoom tr \<and> i = 0)
     \<and> (\<forall>r' < tr_nextRoom tr. rm_client (tr_rooms t r') = rm_client (tr_rooms tr r') @ (if r' = r then [Some c] else [])))"
proof -
  obtain c t1 where n: "newClient client l0 tr = (c, t1)" by fastforce
  obtain rid i t2 where rq: "roomRequest uuid gp c t1 = ((rid, i), t2)" by (metis surj_pair)
  note h = newClient_homeless [OF ok none n]
  have lt1: "tr_nextRoom t1 < 2 ^ 32" using lt h(3) by simp
  obtain r where p: "room_ok t2" "placed t2 r i c" "rid = of_nat r"
     "if Ex (open_room client t1) then open_room client t1 r \<and> r < tr_nextRoom t1 \<and> i = length (rm_client (tr_rooms t1 r))
        else r = tr_nextRoom t1 \<and> i = 0"
     "tr_mcli t2 = tr_mcli t1" "tr_sent t2 = tr_sent t1" "tr_nextRoom t2 \<le> Suc (tr_nextRoom t1)"
     "\<forall>r' < tr_nextRoom t1. rm_client (tr_rooms t2 r') = rm_client (tr_rooms t1 r') @ (if r' = r then [Some c] else [])"
    using roomRequest_placed [OF h(1) lt1 rq] by blast
  let ?t3 = "t2\<lparr>tr_sent := tr_sent t2 @ [(l0, client, ComRoomRequestAnswer, [of_nat i])]\<rparr>"
  have s3: "same t2 ?t3" by (rule same_frames(1))
  have "r < tr_nextRoom ?t3" using p(2) by (simp add: placed_def)
  then have g: "mroom_get (of_nat r) ?t3 = Inr r"
    using mroom_get_room room_okD(1) [OF room_ok_same [OF s3 p(1)]] by blast
  have mc: "tr_mcli t2 client = Some c" using p(5) h(1) by (simp add: homeless_def)
  have res: "e = None" "t = cli_sendState env c ClientAdded (rm_roomID (tr_rooms ?t3 r)) ?t3"
    using q none g mc by (simp_all add: ComRoomRequest_def mcli_find_def mcli_get_def n rq p(3) SendToClientAddr_def)
  have s: "same t2 t" unfolding res(2) by (rule same_trans [OF s3 same_cli_sendState])
  have sent: "tr_sent t = tr_sent tr @ [(l0, client, ComRoomRequestAnswer, [of_nat i])]"
    unfolding res(2) using p(6) h(6)
    by (auto simp: cli_sendState_def Let_def stat_msg_def split: sum.split)
  have o: "open_room client t1 = open_room client tr"
    by (rule ext) (simp add: open_room_iff h mroom_find_def)
  have "tr_nextRoom t \<le> Suc (tr_nextRoom tr)" using s p(7) h(3) by (simp add: same_def)
  moreover have mem: "tr_mcli t client = Some c" "rm_client (tr_rooms t r') = rm_client (tr_rooms t2 r')" for r'
    using s mc by (simp_all add: same_def)
  moreover have "\<forall>r' < tr_nextRoom tr. rm_client (tr_rooms t r') = rm_client (tr_rooms tr r') @ (if r' = r then [Some c] else [])"
    using p(8) h(2,3) mem(2) by simp
  moreover have "placed t r i c" using same_at [OF s] p(2) by simp
  moreover note p(4) [unfolded o h(2,3)]
  ultimately show ?thesis
    using res(1) room_ok_same [OF s p(1)] sent by blast
qed

lemma kept_Suc: "kept n tr \<Longrightarrow> kept (Suc n) tr"
  by (simp add: kept_def)

lemma kept_step:
  assumes k: "kept n tr" and lt: "n < 2 ^ 32"
  shows "go_ok (kept (Suc n)) (room_step env st tr)"
proof (cases st)
  case (RoomRequestFrom client l0 uuid gp)
  obtain e t where q: "ComRoomRequest env uuid gp client l0 tr = (e, t)" by fastforce
  show ?thesis
  proof (cases "tr_mcli tr client")
    case None
    have k': "room_ok tr" "tr_nextRoom tr \<le> n" using k by (simp_all add: kept_def)
    have "tr_nextRoom tr < 2 ^ 32" using k' lt by simp
    note p = ComRoomRequest_placed [OF k'(1) this None q]
    with k' show ?thesis by (auto simp: room_step_def RoomRequestFrom q kept_def)
  next
    case (Some c)
    then show ?thesis using ComRoomRequest_connected [OF Some, of env uuid gp l0] k
      by (auto simp: room_step_def RoomRequestFrom kept_def)
  qed
next
  case (RoomDataFrom client data)
  have "go_ok (same tr) (ComRoomData env client data tr)" using k same_ComRoomData by (simp add: kept_def)
  then show ?thesis
    by (auto simp: room_step_def RoomDataFrom elim!: go_ok_mono intro: kept_Suc kept_same [OF _ k])
next
  case (DisconnectFrom client)
  show ?thesis
    by (simp add: room_step_def DisconnectFrom) (rule go_ok_bind [OF kept_ComDisconnect [OF k]], auto intro: kept_Suc)
next
  case (Fires t)
  show ?thesis by (auto simp: room_step_def Fires intro: kept_Suc go_ok_mono [OF kept_fire [OF k]])
next
  case (ParametersRead r gp)
  show ?thesis by (auto simp: room_step_def ParametersRead intro: kept_Suc kept_same [OF same_frames(5) k])
qed

lemma kept_run:
  "kept n tr \<Longrightarrow> n + length sts \<le> 2 ^ 32 \<Longrightarrow> go_ok (kept (n + length sts)) (room_run env sts tr)"
proof (induction sts arbitrary: n tr)
  case (Cons st sts)
  show ?case
    unfolding room_run.simps
  proof (rule go_ok_bind [OF kept_step [OF Cons.prems(1)]])
    show "n < 2 ^ 32" using Cons.prems(2) by simp
    fix t
    assume "kept (Suc n) t"
    then show "go_ok (kept (n + length (st # sts))) (room_run env sts t)" using Cons.IH [of "Suc n" t] Cons.prems(2) by simp
  qed
qed simp

lemma kept_New: "kept 0 teoroom_New"
  by (auto simp: kept_def teoroom_New_def room_ok_def rooms_mapped_def mroom_find_def placed_def)

section \<open>Starting the game\<close>

lemma sending_only [simp]:
  "tr_rooms (stat_msg m tr) = tr_rooms tr" "tr_timers (stat_msg m tr) = tr_timers tr"
  "tr_mcli (stat_msg m tr) = tr_mcli tr" "tr_sent (stat_msg m tr) = tr_sent tr" "tr_clients (stat_msg m tr) = tr_clients tr"
  "tr_rooms (send_cmd env cmd data c tr) = tr_rooms tr" "tr_timers (send_cmd env cmd data c tr) = tr_timers tr"
  "tr_mcli (send_cmd env cmd data c tr) = tr_mcli tr" "tr_clients (send_cmd env cmd data c tr) = tr_clients tr"
  "tr_rooms (cli_sendState env c s u tr) = tr_rooms tr" "tr_timers (cli_sendState env c s u tr) = tr_timers tr"
  "tr_mcli (cli_sendState env c s u tr) = tr_mcli tr" "tr_sent (cli_sendState env c s u tr) = tr_sent tr"
  "tr_clients (cli_sendState env c s u tr) = tr_clients tr"
  by (auto simp: stat_msg_def send_cmd_def SendToClientAddr_def cli_sendState_def Let_def split: sum.split)

text \<open>The members of a room, in order of position; those other than one position.\<close>

definition members :: "rref \<Rightarrow> Teoroom \<Rightarrow> cref list" where
  "members r tr = List.map_filter id (rm_client (tr_rooms tr r))"

definition msg_to :: "Teoroom \<Rightarrow> u8 \<Rightarrow> bytes \<Rightarrow> cref \<Rightarrow> L0Addr \<times> string \<times> u8 \<times> bytes" where
  "msg_to tr cmd data c = (cl_L0 (tr_clients tr c), cl_name (tr_clients tr c), cmd, data)"

lemma send_cmd_sent: "tr_sent (send_cmd env cmd data c tr) = tr_sent tr @ [msg_to tr cmd data c]"
  by (simp add: send_cmd_def SendToClientAddr_def msg_to_def)

lemma funcToClients_sends:
  assumes f: "\<And>c t. tr_rooms t = tr_rooms tr \<Longrightarrow> tr_clients t = tr_clients tr \<Longrightarrow> \<exists>t'. f c t = Inr t'
      \<and> tr_rooms t' = tr_rooms t \<and> tr_clients t' = tr_clients t \<and> tr_timers t' = tr_timers t \<and> tr_sent t' = tr_sent t @ g c"
    and "set is \<subseteq> {..<length (rm_client (tr_rooms tr r))}"
  shows "tr_rooms t = tr_rooms tr \<Longrightarrow> tr_clients t = tr_clients tr \<Longrightarrow> \<exists>t'. funcToClients_loop r f is t = Inr t'
      \<and> tr_rooms t' = tr_rooms t \<and> tr_clients t' = tr_clients t \<and> tr_timers t' = tr_timers t
      \<and> tr_sent t' = tr_sent t @ concat (map g (List.map_filter (\<lambda>i. rm_client (tr_rooms tr r) ! i) is))"
  using assms(2)
proof (induction "is" arbitrary: t)
  case (Cons i "is")
  show ?case
  proof (cases "rm_client (tr_rooms tr r) ! i")
    case None
    then show ?thesis using Cons.IH [of t] Cons.prems by (simp add: map_filter_simps)
  next
    case (Some c)
    obtain t1 where t1: "f c t = Inr t1" "tr_rooms t1 = tr_rooms t" "tr_clients t1 = tr_clients t"
      "tr_timers t1 = tr_timers t" "tr_sent t1 = tr_sent t @ g c"
      using f Cons.prems by blast
    then show ?thesis using Some Cons.IH [of t1] Cons.prems by (auto simp: map_filter_simps)
  qed
qed (simp add: map_filter_simps)

lemma map_filter_nth: "List.map_filter (\<lambda>i. xs ! i) [0..<length xs] = List.map_filter id xs"
proof -
  have "List.map_filter id (map ((!) xs) [0..<length xs]) = List.map_filter (\<lambda>i. xs ! i) [0..<length xs]"
    by (simp add: map_filter_def filter_map comp_def)
  then show ?thesis by (simp add: map_nth)
qed

lemma funcToClients_members:
  assumes f: "\<And>c t. tr_rooms t = tr_rooms tr \<Longrightarrow> tr_clients t = tr_clients tr \<Longrightarrow> \<exists>t'. f c t = Inr t'
      \<and> tr_rooms t' = tr_rooms t \<and> tr_clients t' = tr_clients t \<and> tr_timers t' = tr_timers t \<and> tr_sent t' = tr_sent t @ g c"
  shows "\<exists>t'. funcToClients r f tr = Inr t' \<and> tr_rooms t' = tr_rooms tr \<and> tr_clients t' = tr_clients tr
      \<and> tr_timers t' = tr_timers tr \<and> tr_sent t' = tr_sent tr @ concat (map g (members r tr))"
  unfolding funcToClients_def members_def map_filter_nth [symmetric]
  by (rule funcToClients_sends [OF f]) auto

lemma sendToClients_members:
  "\<exists>t'. sendToClients env r cmd data tr = Inr t' \<and> tr_rooms t' = tr_rooms tr \<and> tr_clients t' = tr_clients tr
      \<and> tr_timers t' = tr_timers tr \<and> tr_sent t' = tr_sent tr @ map (msg_to tr cmd data) (members r tr)"
proof -
  have "\<exists>t'. sendToClients env r cmd data tr = Inr t' \<and> tr_rooms t' = tr_rooms tr \<and> tr_clients t' = tr_clients tr
      \<and> tr_timers t' = tr_timers tr \<and> tr_sent t' = tr_sent tr @ concat (map (\<lambda>c. [msg_to tr cmd data c]) (members r tr))"
    unfolding sendToClients_def by (rule funcToClients_members) (simp add: send_cmd_sent, simp add: msg_to_def)
  then show ?thesis by (simp add: concat_map_singleton)
qed

lemma startRoom_effect:
  "\<exists>t. startRoom env r tr = Inr t
     \<and> tr_rooms t = (tr_rooms tr)(r := (tr_rooms tr r)\<lparr>rm_state := RoomRunning\<rparr>) \<and> tr_clients t = tr_clients tr
     \<and> tr_sent t = tr_sent tr @ map (msg_to tr ComStart []) (members r tr)
     \<and> tr_timers t = tr_timers tr @ [GameTimer r]
        @ (if gp_GameClosedAfter (rm_gparam (tr_rooms tr r)) \<ge> gp_GameTime (rm_gparam (tr_rooms tr r)) then [] else [CloseTimer r])"
proof -
  let ?t0 = "setState r RoomRunning tr"
  have t0: "tr_rooms ?t0 = (tr_rooms tr)(r := (tr_rooms tr r)\<lparr>rm_state := RoomRunning\<rparr>)" "tr_clients ?t0 = tr_clients tr"
    "tr_sent ?t0 = tr_sent tr" "tr_timers ?t0 = tr_timers tr" "members r ?t0 = members r tr"
    by (simp_all add: setState_def upd_room_def members_def)
  obtain t1 where t1: "sendToClients env r ComStart [] ?t0 = Inr t1" "tr_rooms t1 = tr_rooms ?t0" "tr_clients t1 = tr_clients ?t0"
    "tr_timers t1 = tr_timers ?t0" "tr_sent t1 = tr_sent ?t0 @ map (msg_to ?t0 ComStart []) (members r ?t0)"
    using sendToClients_members by blast
  let ?f = "\<lambda>c tr. Inr (case mcli_find (cl_name (tr_clients tr c)) tr of
                    Some c' \<Rightarrow> cli_sendState env c' ClientStarted (rm_roomID (tr_rooms tr r)) tr | None \<Rightarrow> tr) :: Teoroom go"
  have "\<exists>t'. funcToClients r ?f t1 = Inr t' \<and> tr_rooms t' = tr_rooms t1 \<and> tr_clients t' = tr_clients t1
      \<and> tr_timers t' = tr_timers t1 \<and> tr_sent t' = tr_sent t1 @ concat (map (\<lambda>c. []) (members r t1))"
    by (rule funcToClients_members) (auto split: option.split)
  then obtain t2 where t2: "funcToClients r ?f t1 = Inr t2" "tr_rooms t2 = tr_rooms t1" "tr_clients t2 = tr_clients t1"
    "tr_timers t2 = tr_timers t1" "tr_sent t2 = tr_sent t1" by auto
  have m: "msg_to ?t0 = msg_to tr" by (intro ext) (simp add: msg_to_def t0)
  show ?thesis
    using t0 t1 t2 by (simp add: startRoom_def Let_def m)
qed

definition ready_count :: "(string \<times> (cref \<times> bool)) list \<Rightarrow> int" where
  "ready_count ws = int (length (filter (\<lambda>(_, _, ready). ready) ws))"

lemma ready_loop_count:
  "ready_loop env r n ws tr =
     (if ready_count ws \<ge> 1 \<and> n + ready_count ws \<ge> gp_MinClientsToStart (rm_gparam (tr_rooms tr r))
      then startRoom env r tr else Inr tr)"
  by (induction env r n ws tr rule: ready_loop.induct) (auto simp: ready_count_def)

text \<open>
  A member's first data in a room that is not running: it counts as ready, and the game starts
  when the ready clients reach the minimum.
\<close>

lemma clientReady_starts:
  assumes ok: "room_ok tr" and p: "placed tr r i c" and st: "rm_state (tr_rooms tr r) \<noteq> RoomRunning"
    and ws: "map_of (rm_cliwas (tr_rooms tr r)) (cl_name (tr_clients tr c)) = Some (w, x)"
  shows "\<exists>t. clientReady env r i tr = Inr t
     \<and> (let n = ready_count (AList.update (cl_name (tr_clients tr c)) (w, True) (rm_cliwas (tr_rooms tr r)));
            start = n \<ge> 1 \<and> n \<ge> gp_MinClientsToStart (rm_gparam (tr_rooms tr r))
        in rm_state (tr_rooms t r) = (if start then RoomRunning else rm_state (tr_rooms tr r))
         \<and> (GameTimer r \<in> set (tr_timers t) \<longleftrightarrow> start \<or> GameTimer r \<in> set (tr_timers tr))
         \<and> (start \<longrightarrow> (\<exists>sent. tr_sent t = sent @ map (msg_to tr ComStart []) (members r tr))))"
proof -
  let ?room = "tr_rooms tr r" let ?name = "cl_name (tr_clients tr c)"
  have i: "i < length (rm_client ?room)" "rm_client ?room ! i = Some c" using p by (simp_all add: placed_def)
  define t1 where "t1 = cli_sendState env c ClientLoadded (rm_roomID ?room) tr"
  define t2 where "t2 = (if rm_state ?room = RoomClosed \<or> rm_state ?room = RoomStopped
     then send_cmd env ComDisconnect_cmd [] c (cli_sendState env c ClientDisconnected (rm_roomID ?room) t1) else t1)"
  define t3 where "t3 = upd_room r (\<lambda>x. x\<lparr>rm_cliwas := AList.update ?name (w, True) (rm_cliwas x)\<rparr>) t2"
  have r: "clientReady env r i tr = ready_loop env r 0 (rm_cliwas (tr_rooms t3 r)) t3"
    using i st ws unfolding clientReady_def Let_def t3_def t2_def t1_def by simp
  have t3: "tr_rooms t3 r = ?room\<lparr>rm_cliwas := AList.update ?name (w, True) (rm_cliwas ?room)\<rparr>"
    "tr_clients t3 = tr_clients tr" "tr_timers t3 = tr_timers tr" "members r t3 = members r tr"
    by (simp_all add: t3_def t2_def t1_def upd_room_def members_def)
  have m: "msg_to t3 = msg_to tr" by (intro ext) (simp add: msg_to_def t3)
  obtain t where t: "startRoom env r t3 = Inr t"
    "tr_rooms t = (tr_rooms t3)(r := (tr_rooms t3 r)\<lparr>rm_state := RoomRunning\<rparr>)"
    "tr_sent t = tr_sent t3 @ map (msg_to tr ComStart []) (members r tr)"
    "tr_timers t = tr_timers t3 @ [GameTimer r]
        @ (if gp_GameClosedAfter (rm_gparam (tr_rooms t3 r)) \<ge> gp_GameTime (rm_gparam (tr_rooms t3 r)) then [] else [CloseTimer r])"
    using startRoom_effect [of env r t3] unfolding m t3(4) by blast
  let ?n = "ready_count (AList.update ?name (w, True) (rm_cliwas ?room))"
  show ?thesis
  proof (cases "?n \<ge> 1 \<and> ?n \<ge> gp_MinClientsToStart (rm_gparam ?room)")
    case True
    then show ?thesis unfolding r ready_loop_count using t by (auto simp: t3)
  next
    case False
    then show ?thesis unfolding r ready_loop_count by (auto simp: t3)
  qed
qed

lemma ready_count_marked: "ready_count (AList.update name (w, True) ws) \<ge> 1"
proof -
  have "(name, w, True) \<in> set (AList.update name (w, True) ws)"
    by (induction ws) auto
  then have "filter (\<lambda>(_, _, ready). ready) (AList.update name (w, True) ws) \<noteq> []"
    by (auto simp: filter_empty_conv)
  then show ?thesis unfolding ready_count_def by (cases "filter (\<lambda>(_, _, ready). ready) (AList.update name (w, True) ws)") auto
qed

section \<open>Data between clients\<close>

text \<open>The other members, in order of position.\<close>

fun others :: "nat \<Rightarrow> nat \<Rightarrow> cref option list \<Rightarrow> cref list" where
  "others i k [] = []"
| "others i k (x # xs) = (case x of Some c \<Rightarrow> if k = i then [] else [c] | None \<Rightarrow> []) @ others i (k + 1) xs"

lemma resend_clients_others:
  assumes "\<And>name. \<not> re_fails env name"
  shows "resend_clients env i cmd data k xs tr =
     (None, tr\<lparr>tr_sent := tr_sent tr @ map (msg_to tr cmd data) (others i k xs)\<rparr>)"
  by (induction xs arbitrary: k tr)
    (auto simp: SendToClientAddr_def msg_to_def assms split: option.split)

lemma resendData_others:
  assumes ok: "room_ok tr" and p: "placed tr r i c" and d: "cl_data (tr_clients tr c) \<noteq> []"
    and f: "\<And>name. \<not> re_fails env name"
  shows "\<exists>t. resendData env (cl_name (tr_clients tr c)) cmd data tr = Inr (None, t) \<and> same tr t
     \<and> tr_sent t = tr_sent tr @ map (msg_to tr cmd data) (others i 0 (rm_client (tr_rooms tr r)))
     \<and> cl_data (tr_clients t c) = (cl_data (tr_clients tr c))[0 := data]"
proof -
  let ?t = "upd_client c (\<lambda>x. x\<lparr>cl_data := (if cl_data x = [] then [data] else (cl_data x)[0 := data])\<rparr>) tr"
  have g: "mcli_get (cl_name (tr_clients tr c)) tr = Inr c"
    using room_okD(3) [OF ok p] by (simp add: mcli_get_def mcli_find_def)
  have s: "same tr ?t" by (rule same_frames(6))
  have room: "mroom_get (of_nat r) ?t = Inr r"
    by (rule mroom_get_room) (use room_okD(1) [OF room_ok_same [OF s ok]] p in \<open>simp_all add: placed_def upd_client_def\<close>)
  have m: "msg_to ?t cmd data = msg_to tr cmd data" by (rule ext) (simp add: msg_to_def upd_client_def)
  have "resendData env (cl_name (tr_clients tr c)) cmd data tr =
     Inr (None, ?t\<lparr>tr_sent := tr_sent ?t @ map (msg_to tr cmd data) (others i 0 (rm_client (tr_rooms ?t r)))\<rparr>)"
    by (simp add: resendData_def g roomClientID_at [OF ok p] d room resend_clients_others [OF f] m Let_def)
  moreover have "same tr (?t\<lparr>tr_sent := x\<rparr>)" for x by (rule same_trans [OF s same_frames(1)])
  ultimately show ?thesis using d by (auto simp: upd_client_def)
qed

section \<open>Leaving\<close>

text \<open>The state after one client left: off its position and out of the map, all else as it was.\<close>

definition left_room :: "rref \<Rightarrow> nat \<Rightarrow> string \<Rightarrow> Teoroom \<Rightarrow> Teoroom \<Rightarrow> bool" where
  "left_room r i name tr t \<longleftrightarrow>
     room_ok t \<and> tr_mcli t = (tr_mcli tr)(name := None)
   \<and> (\<forall>r'. rm_client (tr_rooms t r') = (if r' = r then (rm_client (tr_rooms tr r))[i := None] else rm_client (tr_rooms tr r')))
   \<and> tr_nextRoom t = tr_nextRoom tr \<and> (\<forall>c. cl_name (tr_clients t c) = cl_name (tr_clients tr c))"

lemma left_take_off:
  assumes "room_ok tr" and "placed tr r i c" and "same tr t0"
  shows "left_room r i (cl_name (tr_clients tr c)) tr (take_off r i (cl_name (tr_clients tr c)) t0)"
  using room_ok_after_take_off [OF assms] assms(3) unfolding left_room_def
  by (simp add: take_off_def mcli_delete_def upd_room_def same_def)

lemma left_same: "same tr t0 \<Longrightarrow> left_room r i name t0 t \<Longrightarrow> left_room r i name tr t"
  by (simp add: left_room_def same_def)

lemma ComDisconnect_left:
  assumes ok: "room_ok tr" and p: "placed tr r i c"
  shows "go_ok (\<lambda>(e, t). e = None \<and> left_room r i (cl_name (tr_clients tr c)) tr t)
     (ComDisconnect env (cl_name (tr_clients tr c)) tr)"
  by (rule go_ok_mono [OF ComDisconnect_at [OF ok p refl]]) (auto simp: left_take_off [OF ok p])

lemma disconnect_member_left:
  assumes ok: "room_ok tr" and p: "placed tr r i c"
  shows "go_ok (left_room r i (cl_name (tr_clients tr c)) tr) (disconnect_member env c tr)"
proof -
  let ?t = "send_cmd env ComDisconnect_cmd [] c tr"
  have s: "same tr ?t" by (rule same_send_cmd)
  have ok': "room_ok ?t" and p': "placed ?t r i c" using room_ok_same [OF s ok] same_at [OF s] p by simp_all
  have "go_ok (\<lambda>(e, t). e = None \<and> left_room r i (cl_name (tr_clients tr c)) ?t t)
      (ComDisconnect env (cl_name (tr_clients tr c)) ?t)"
    using ComDisconnect_left [OF ok' p', of env] by simp
  then show ?thesis unfolding disconnect_member_def
    by (rule go_ok_bind) (auto intro: left_same [OF s])
qed

text \<open>Going through the positions takes every member off, and only those.\<close>

definition emptied :: "rref \<Rightarrow> nat set \<Rightarrow> Teoroom \<Rightarrow> Teoroom \<Rightarrow> bool" where
  "emptied r is tr t \<longleftrightarrow>
     room_ok t \<and> tr_nextRoom t = tr_nextRoom tr
   \<and> (\<forall>r'. r' \<noteq> r \<longrightarrow> rm_client (tr_rooms t r') = rm_client (tr_rooms tr r'))
   \<and> length (rm_client (tr_rooms t r)) = length (rm_client (tr_rooms tr r))
   \<and> (\<forall>i < length (rm_client (tr_rooms tr r)).
        rm_client (tr_rooms t r) ! i = (if i \<in> is then None else rm_client (tr_rooms tr r) ! i))
   \<and> (\<forall>r' j d. r' \<noteq> r \<longrightarrow> placed tr r' j d \<longrightarrow> tr_mcli t (cl_name (tr_clients tr d)) = Some d)
   \<and> (\<forall>c. cl_name (tr_clients t c) = cl_name (tr_clients tr c))"

lemma nth_update_None: "j < length xs \<Longrightarrow> xs[i := None] ! j = (if j = i then None else xs ! j)"
  by (cases "i = j") simp_all

lemma emptied_left:
  assumes "emptied r is tr t" and "left_room r i (cl_name (tr_clients t c)) t t'" and "placed t r i c"
  shows "emptied r (insert i is) tr t'"
proof -
  have ok: "room_ok t" using assms(1) by (simp add: emptied_def)
  have "cl_name (tr_clients tr d) \<noteq> cl_name (tr_clients t c)" if q: "r' \<noteq> r" "placed tr r' j d" for r' j d
  proof
    assume eq: "cl_name (tr_clients tr d) = cl_name (tr_clients t c)"
    have "placed t r' j d" using assms(1) q by (simp add: emptied_def placed_def)
    moreover have "tr_mcli t (cl_name (tr_clients tr d)) = Some d" using assms(1) q by (simp add: emptied_def)
    ultimately have "d = c" using room_okD(3) [OF ok assms(3)] eq by simp
    then show False using room_okD(5) [OF ok assms(3), of r' j] \<open>placed t r' j d\<close> q(1) by simp
  qed
  then show ?thesis using assms(1,2) unfolding emptied_def left_room_def by (auto simp: nth_update_None)
qed

lemma emptied_same: "same t0 t \<Longrightarrow> emptied r is tr t0 \<Longrightarrow> emptied r is tr t"
proof -
  assume s: "same t0 t" and e: "emptied r is tr t0"
  have f: "rm_client (tr_rooms t r') = rm_client (tr_rooms t0 r')" "cl_name (tr_clients t c) = cl_name (tr_clients t0 c)"
    "tr_mcli t = tr_mcli t0" "tr_nextRoom t = tr_nextRoom t0" for r' c
    using s by (simp_all add: same_def)
  have "room_ok t" using room_ok_same [OF s] e by (simp add: emptied_def)
  then show ?thesis using e by (simp add: emptied_def f)
qed

lemma funcToClients_loop_empties:
  assumes f: "\<And>c t. \<exists>t0. same t t0 \<and> f c t = disconnect_member env c t0"
    and r: "r < tr_nextRoom tr"
  shows "emptied r D tr t \<Longrightarrow> set is \<subseteq> {..<length (rm_client (tr_rooms tr r))} \<Longrightarrow>
     go_ok (emptied r (D \<union> set is) tr) (funcToClients_loop r f is t)"
proof (induction "is" arbitrary: t D)
  case (Cons i "is")
  have i: "i < length (rm_client (tr_rooms tr r))" using Cons.prems(2) by simp
  show ?case
  proof (cases "rm_client (tr_rooms t r) ! i")
    case None
    have "emptied r (insert i D) tr t" using Cons.prems(1) None i by (auto simp: emptied_def)
    from Cons.IH [OF this] Cons.prems(2) show ?thesis by (simp add: None)
  next
    case (Some c)
    obtain t0 where t0: "same t t0" "f c t = disconnect_member env c t0" using f by blast
    have e: "emptied r D tr t0" by (rule emptied_same [OF t0(1) Cons.prems(1)])
    have p: "placed t0 r i c"
      using Cons.prems(1) Some i r same_at [OF t0(1)] by (simp add: placed_def emptied_def)
    have "go_ok (emptied r (insert i D) tr) (disconnect_member env c t0)"
      by (rule go_ok_mono [OF disconnect_member_left [OF _ p]]) (use e emptied_left [OF e _ p] in \<open>auto simp: emptied_def\<close>)
    then have "go_ok (emptied r (insert i D \<union> set is) tr) (go_bind (disconnect_member env c t0) (funcToClients_loop r f is))"
    proof (rule go_ok_bind)
      fix u
      assume "emptied r (insert i D) tr u"
      from Cons.IH [OF this] Cons.prems(2)
      show "go_ok (emptied r (insert i D \<union> set is) tr) (funcToClients_loop r f is u)" by simp
    qed
    then show ?thesis by (simp add: Some t0(2))
  qed
qed simp

lemma game_over_emptied:
  assumes ok: "room_ok tr" and r: "r < tr_nextRoom tr"
  shows "go_ok (emptied r {..<length (rm_client (tr_rooms tr r))} tr) (game_over env r tr)"
proof -
  let ?t = "setState r RoomStopped tr"
  have "emptied r {} tr tr" using ok room_okD(3) [OF ok] by (simp add: emptied_def)
  then have e: "emptied r {} tr ?t" by (rule emptied_same [OF same_setState])
  have l: "rm_client (tr_rooms ?t r) = rm_client (tr_rooms tr r)" using same_setState by (simp add: same_def)
  have "go_ok (emptied r ({} \<union> set [0..<length (rm_client (tr_rooms tr r))]) tr) (game_over env r tr)"
    unfolding game_over_def funcToClients_def l
    by (rule funcToClients_loop_empties [OF _ r e])
      (auto split: option.split intro: same_cli_sendState same_refl)
  then show ?thesis by (simp add: atLeast0LessThan)
qed

text \<open>The ready marks after one name is marked.\<close>

definition marked_ready :: "string \<Rightarrow> (string \<times> (cref \<times> bool)) list \<Rightarrow> (string \<times> (cref \<times> bool)) list" where
  "marked_ready name ws =
     (case map_of ws name of Some (w, _) \<Rightarrow> AList.update name (w, True) ws | None \<Rightarrow> ws)"

text \<open>A room that was stopped starts again when a member without data sends its first data.\<close>

lemma stopped_room_restarts:
  assumes "room_ok tr" and "placed tr r i c" and "rm_state (tr_rooms tr r) = RoomStopped"
    and "ready_count (marked_ready (cl_name (tr_clients tr c)) (rm_cliwas (tr_rooms tr r)))
           \<ge> gp_MinClientsToStart (rm_gparam (tr_rooms tr r))"
  shows "go_ok (\<lambda>t. rm_state (tr_rooms t r) = RoomRunning) (clientReady env r i tr)"
proof -
  obtain w x where ws: "map_of (rm_cliwas (tr_rooms tr r)) (cl_name (tr_clients tr c)) = Some (w, x)"
    using room_okD(4) [OF assms(1,2)] by auto
  from clientReady_starts [OF assms(1,2) _ ws, of env] assms(3,4) ready_count_marked
  show ?thesis by (auto simp: Let_def marked_ready_def ws)
qed

section \<open>Properties\<close>

text \<open>
  A run used to apply the properties: three clients come, the first two send data, so the game
  starts in room 0.
\<close>

definition sample_env :: room_env where
  "sample_env = \<lparr> re_parse = (\<lambda>_. Inl []), re_fails = (\<lambda>_. False) \<rparr>"

definition sample_steps :: "roomStep list" where
  "sample_steps =
     (let l0 = \<lparr> l0a_addr = ''l0'', l0a_port = 9000 \<rparr>; u = replicate 16 0; gp = default_parameters
      in [RoomRequestFrom ''a'' l0 u gp, RoomRequestFrom ''b'' l0 u gp, RoomRequestFrom ''c'' l0 u gp,
          RoomDataFrom ''a'' [1]])"

definition sample_room :: Teoroom where
  "sample_room = (case room_run sample_env sample_steps teoroom_New of Inr t \<Rightarrow> t | Inl _ \<Rightarrow> teoroom_New)"

lemma sample_room_ok: "room_ok sample_room"
proof -
  have "go_ok (kept (0 + length sample_steps)) (room_run sample_env sample_steps teoroom_New)"
    by (rule kept_run [OF kept_New]) (simp add: sample_steps_def Let_def)
  then show ?thesis by (auto simp: sample_room_def go_ok_def kept_def)
qed

lemma sample_room_facts:
  "tr_mcli sample_room ''a'' = Some 0" "tr_mcli sample_room ''b'' = Some 1" "tr_mcli sample_room ''d'' = None"
  "tr_nextRoom sample_room = 1" "rm_client (tr_rooms sample_room 0) = [Some 0, Some 1, Some 2]"
  "cl_name (tr_clients sample_room 0) = ''a''" "cl_name (tr_clients sample_room 1) = ''b''"
  "cl_data (tr_clients sample_room 0) = [[1]]" "rm_state (tr_rooms sample_room 0) = RoomCreating"
  by code_simp+

text \<open>C12: from the start, whatever commands and timers come in whatever order (below 2 to the 32
  of them), the controller never panics, and membership stays consistent: the rooms map holds every
  room under its number, connected names and positions correspond one to one, and every member's
  name is among those the room remembers.\<close>

theorem rooms_stay_consistent:
  "length sts \<le> 2 ^ 32 \<Longrightarrow> \<exists>t. room_run env sts teoroom_New = Inr t \<and> room_ok t"
  using kept_run [OF kept_New, of sts env] by (auto simp: go_ok_def kept_def)

theorem rooms_stay_consistent_witness:
  "\<exists>t. room_run sample_env sample_steps teoroom_New = Inr t \<and> room_ok t"
  by (rule rooms_stay_consistent) (simp add: sample_steps_def Let_def)



text \<open>C32: the data a client sends, once it has sent data before, goes to exactly the other members of its
  room, each once and in order of position, at the address each connected from; the client's
  stored data is the new data; membership is as it was. Sending does not fail.\<close>

theorem data_to_others:
  assumes "room_ok tr" and "placed tr r i c" and "cl_data (tr_clients tr c) \<noteq> []"
    and "\<And>name. \<not> re_fails env name"
  shows "\<exists>t. ComRoomData env (cl_name (tr_clients tr c)) data tr = Inr t \<and> same tr t
     \<and> tr_sent t = tr_sent tr @ map (msg_to tr ComRoomData_cmd data) (others i 0 (rm_client (tr_rooms tr r)))
     \<and> cl_data (tr_clients t c) = (cl_data (tr_clients tr c))[0 := data]"
  using resendData_others [OF assms, of ComRoomData_cmd data] by (auto simp: ComRoomData_def)

theorem data_to_others_witness:
  "\<exists>t. ComRoomData sample_env ''a'' [7] sample_room = Inr t \<and> cl_data (tr_clients t 0) = [[7]]"
proof -
  have "placed sample_room 0 0 0" by (simp add: placed_def sample_room_facts)
  from data_to_others [OF sample_room_ok this, of sample_env "[7]"] show ?thesis
    by (auto simp: sample_room_facts sample_env_def)
qed

text \<open>C33: when a client disconnects it is taken out of the map and off its position; every other position of
  every room, every other name and the controller's consistency stay. There is no panic, even
  when members cannot be reached or the game starts on the way.\<close>

theorem disconnect_exact:
  assumes "room_ok tr" and "tr_mcli tr client = Some c"
  shows "\<exists>t r i. ComDisconnect env client tr = Inr (None, t) \<and> placed tr r i c \<and> left_room r i client tr t"
proof -
  obtain r i where p: "placed tr r i c" and n: "cl_name (tr_clients tr c) = client"
    using room_okD(2) [OF assms] by blast
  show ?thesis using ComDisconnect_left [OF assms(1) p, of env] p unfolding n by (auto simp: go_ok_def)
qed

theorem disconnect_exact_witness:
  "\<exists>t r i. ComDisconnect sample_env ''a'' sample_room = Inr (None, t) \<and> left_room r i ''a'' sample_room t"
  using disconnect_exact [OF sample_room_ok sample_room_facts(1)] by blast

text \<open>The end of the game empties the room: no panic, every position of the room is free, and the
  positions and names of all other rooms' members are as they were.\<close>

lemma game_over_empties:
  assumes "room_ok tr" and "r < tr_nextRoom tr"
  shows "\<exists>t. game_over env r tr = Inr t \<and> numClients (tr_rooms t r) = 0 \<and> room_ok t
     \<and> (\<forall>r' j d. r' \<noteq> r \<longrightarrow> placed tr r' j d \<longrightarrow>
          placed t r' j d \<and> tr_mcli t (cl_name (tr_clients tr d)) = Some d)"
proof -
  obtain t where t: "game_over env r tr = Inr t" and e: "emptied r {..<length (rm_client (tr_rooms tr r))} tr t"
    using game_over_emptied [OF assms, of env] by (auto simp: go_ok_def)
  have "filter (\<lambda>c. c \<noteq> None) (rm_client (tr_rooms t r)) = []"
    using e by (auto simp: filter_empty_conv emptied_def in_set_conv_nth)
  then show ?thesis using t e by (auto simp: numClients_def emptied_def placed_def)
qed

lemma game_over_empties_example:
  "\<exists>t. game_over sample_env 0 sample_room = Inr t \<and> numClients (tr_rooms t 0) = 0"
  using game_over_empties [OF sample_room_ok, of 0 sample_env] by (auto simp: sample_room_facts(4))

text \<open>C34: when a member of a room that is not running sends its first data, the game starts exactly when the
  ready clients, this one counted, reach the room's minimum: then the room is running, its end is
  scheduled and every member gets the start command; else the room's state stays.\<close>

theorem game_starts_at_minimum:
  assumes "room_ok tr" and "placed tr r i c" and "rm_state (tr_rooms tr r) \<noteq> RoomRunning"
  shows "\<exists>t. clientReady env r i tr = Inr t
     \<and> (let start = gp_MinClientsToStart (rm_gparam (tr_rooms tr r))
                      \<le> ready_count (marked_ready (cl_name (tr_clients tr c)) (rm_cliwas (tr_rooms tr r)))
        in rm_state (tr_rooms t r) = (if start then RoomRunning else rm_state (tr_rooms tr r))
         \<and> (GameTimer r \<in> set (tr_timers t) \<longleftrightarrow> start \<or> GameTimer r \<in> set (tr_timers tr))
         \<and> (start \<longrightarrow> (\<exists>sent. tr_sent t = sent @ map (msg_to tr ComStart []) (members r tr))))"
proof -
  obtain w x where ws: "map_of (rm_cliwas (tr_rooms tr r)) (cl_name (tr_clients tr c)) = Some (w, x)"
    using room_okD(4) [OF assms(1,2)] by auto
  from clientReady_starts [OF assms ws, of env] ready_count_marked
  show ?thesis by (simp add: Let_def marked_ready_def ws)
qed

theorem game_starts_at_minimum_witness:
  "\<exists>t. clientReady sample_env 0 1 sample_room = Inr t \<and> rm_state (tr_rooms t 0) = RoomRunning"
proof -
  have p: "placed sample_room 0 1 1" by (simp add: placed_def sample_room_facts)
  have "gp_MinClientsToStart (rm_gparam (tr_rooms sample_room 0))
      \<le> ready_count (marked_ready (cl_name (tr_clients sample_room 1)) (rm_cliwas (tr_rooms sample_room 0)))" by code_simp
  with game_starts_at_minimum [OF sample_room_ok p, of sample_env] show ?thesis
    by (auto simp del: One_nat_def simp add: sample_room_facts(9) Let_def)
qed

end
