(* ===== verification/TeoPacket.thy ===== *)
theory TeoPacket
  imports Prelude
begin

text \<open>
  Teonet packets: \<open>teonet/teonet/packet.go\<close> over \<open>teonet/teonet/packet.c\<close>. A packet is
  a byte for the length of the sender's name with its final NUL, the name, the NUL, a command byte and the
  data. \<open>Parse\<close> accepts exactly the packets \<open>PacketCreateNew\<close> can build.
\<close>

section \<open>Data\<close>

text \<open>\<open>ksnCorePacketData\<close>, with the sender as a string; the address, the port and the flag
  are set for a packet that came through an L0 server.\<close>

record ksnCorePacketData =
  rd_raw :: bytes
  rd_from :: string
  rd_from_len :: nat
  rd_cmd :: u8
  rd_data :: bytes
  rd_addr :: string
  rd_port :: int
  rd_l0_f :: bool

record L0PacketData =
  l0_addr :: string
  l0_port :: int
  l0_ok :: bool

record Packet =
  pac_bytes :: bytes
  pac_l0 :: "L0PacketData option"

definition PACKET_HEADER_ADD_SIZE :: nat where
  "PACKET_HEADER_ADD_SIZE = 2"

section \<open>Creating and parsing\<close>

text \<open>\<open>createPacketFrom\<close>: the name with its NUL, its length cut to a byte.\<close>

definition createPacketFrom :: "u8 \<Rightarrow> bytes \<Rightarrow> bytes \<Rightarrow> bytes" where
  "createPacketFrom cmd from data = of_nat (length from) # from @ cmd # data"

definition PacketCreateNew :: "string \<Rightarrow> u8 \<Rightarrow> bytes \<Rightarrow> Packet" where
  "PacketCreateNew from cmd data =
     \<lparr> pac_bytes = createPacketFrom cmd (bytes_of from @ [0]) data, pac_l0 = None \<rparr>"

text \<open>
  \<open>parsePacket\<close>. \<open>strlen\<close> stops at the first NUL, and there is one within the name: the
  check before has seen it at the name's end.
\<close>

definition parsePacket :: "bytes \<Rightarrow> ksnCorePacketData option" where
  "parsePacket p =
     (let n = unat (p ! 0)
      in if n \<noteq> 0 \<and> n + PACKET_HEADER_ADD_SIZE \<le> length p \<and> p ! n = 0
            \<and> length (takeWhile (\<lambda>x. x \<noteq> 0) (drop 1 p)) + 1 = n
         then Some \<lparr> rd_raw = p, rd_from = string_of (takeWhile (\<lambda>x. x \<noteq> 0) (drop 1 p)),
                     rd_from_len = n, rd_cmd = p ! (n + 1), rd_data = drop (n + 2) p,
                     rd_addr = [], rd_port = 0, rd_l0_f = False \<rparr>
         else None)"

definition Parse :: "Packet \<Rightarrow> (string + ksnCorePacketData) go" where
  "Parse pac =
     (if pac_bytes pac = [] then Inl IndexOutOfRange
      else Inr (case parsePacket (pac_bytes pac) of
                  None \<Rightarrow> Inl ''not valid packet''
                | Some rd \<Rightarrow> Inr rd))"

section \<open>Getters\<close>

definition FromLen :: "Packet \<Rightarrow> nat go" where
  "FromLen pac = (if pac_bytes pac = [] then Inl IndexOutOfRange else Inr (unat (pac_bytes pac ! 0)))"

definition Cmd :: "Packet \<Rightarrow> u8 go" where
  "Cmd pac = go_bind (FromLen pac) (\<lambda>n.
     if n + 1 < length (pac_bytes pac) then Inr (pac_bytes pac ! (n + 1)) else Inl IndexOutOfRange)"

definition From :: "Packet \<Rightarrow> string go" where
  "From pac =
     (if 1 < length (pac_bytes pac) then c_string (drop 1 (pac_bytes pac)) else Inl IndexOutOfRange)"

definition DataLen :: "Packet \<Rightarrow> int go" where
  "DataLen pac = go_bind (FromLen pac) (\<lambda>n.
     Inr (int (length (pac_bytes pac)) - int n - int PACKET_HEADER_ADD_SIZE))"

definition PData :: "Packet \<Rightarrow> bytes go" where
  "PData pac = go_bind (DataLen pac) (\<lambda>l. go_bind (FromLen pac) (\<lambda>n.
     Inr (if 0 < l then drop (n + PACKET_HEADER_ADD_SIZE) (pac_bytes pac) else [])))"

text \<open>\<open>Packet\<close> of parsed data keeps the address of the L0 server.\<close>

definition rd_Packet :: "ksnCorePacketData \<Rightarrow> Packet" where
  "rd_Packet rd =
     \<lparr> pac_bytes = rd_raw rd,
       pac_l0 = Some \<lparr> l0_addr = rd_addr rd, l0_port = rd_port rd, l0_ok = rd_l0_f rd \<rparr> \<rparr>"

definition setL0 :: "string \<Rightarrow> int \<Rightarrow> ksnCorePacketData \<Rightarrow> ksnCorePacketData" where
  "setL0 a port rd = rd\<lparr>rd_addr := a, rd_port := port, rd_l0_f := True\<rparr>"

definition L0 :: "Packet \<Rightarrow> (string \<times> int \<times> bool) go" where
  "L0 pac = (case pac_l0 pac of
       None \<Rightarrow> Inl NilPointer
     | Some l \<Rightarrow> Inr (l0_addr l, l0_port l, l0_ok l))"

definition removeTrailingZero :: "bytes \<Rightarrow> bytes" where
  "removeTrailingZero d = (if d \<noteq> [] \<and> last d = 0 then butlast d else d)"

section \<open>Lemmas\<close>

definition name_ok :: "string \<Rightarrow> bool" where
  "name_ok s \<longleftrightarrow> nul_free s \<and> length s < 255"

definition parsed :: "string \<Rightarrow> u8 \<Rightarrow> bytes \<Rightarrow> ksnCorePacketData" where
  "parsed from cmd data =
     \<lparr> rd_raw = pac_bytes (PacketCreateNew from cmd data), rd_from = from, rd_from_len = length from + 1,
       rd_cmd = cmd, rd_data = data, rd_addr = [], rd_port = 0, rd_l0_f = False \<rparr>"

lemma takeWhile_name: "nul_free s \<Longrightarrow> takeWhile (\<lambda>x. x \<noteq> 0) (bytes_of s @ 0 # r) = bytes_of s"
  by (subst takeWhile_append2) (auto simp: nul_free_bytes)

lemma parsePacket_create:
  assumes "name_ok from"
  shows "parsePacket (pac_bytes (PacketCreateNew from cmd data)) = Some (parsed from cmd data)"
proof -
  have n: "unat (of_nat (Suc (length from)) :: u8) = Suc (length from)"
    using assms by (simp add: name_ok_def unat_of_nat del: of_nat_Suc)
  show ?thesis
    using assms n
    by (simp add: parsePacket_def PacketCreateNew_def createPacketFrom_def parsed_def name_ok_def
        takeWhile_name nth_append Let_def PACKET_HEADER_ADD_SIZE_def del: of_nat_Suc)
qed

lemma parsePacket_sound:
  assumes p: "parsePacket p = Some rd" and ne: "p \<noteq> []"
  shows "name_ok (rd_from rd) \<and> p = pac_bytes (PacketCreateNew (rd_from rd) (rd_cmd rd) (rd_data rd))
    \<and> rd = parsed (rd_from rd) (rd_cmd rd) (rd_data rd)"
proof -
  obtain b q where pq: "p = b # q" using ne by (cases p) auto
  let ?w = "takeWhile (\<lambda>x. x \<noteq> 0) q" let ?n = "unat b"
  have n: "?n + 2 \<le> length p" "q ! (?n - 1) = 0" "length ?w + 1 = ?n"
    and rd: "rd = \<lparr> rd_raw = p, rd_from = string_of ?w, rd_from_len = ?n, rd_cmd = p ! (?n + 1),
                    rd_data = drop (?n + 2) p, rd_addr = [], rd_port = 0, rd_l0_f = False \<rparr>"
    using p by (auto simp: pq parsePacket_def Let_def PACKET_HEADER_ADD_SIZE_def nth_Cons' split: if_splits)
  have len: "length ?w < length q" using n pq by simp
  have w: "0 \<notin> set ?w" by (auto dest: set_takeWhileD)
  have "b = of_nat (length ?w + 1)" using n(3) by (metis of_nat_unat ucast_id)
  moreover have "take (length ?w) q = ?w" by (metis takeWhile_eq_take)
  then have "q = ?w @ drop (length ?w) q" by (metis append_take_drop_id)
  moreover have "drop (length ?w) q = 0 # drop (Suc (length ?w)) q"
    using len n(2,3) by (metis Cons_nth_drop_Suc add_diff_cancel_right')
  moreover have "drop (Suc (length ?w)) q = q ! (Suc (length ?w)) # drop (Suc (Suc (length ?w))) q"
    using n pq by (intro Cons_nth_drop_Suc [symmetric]) simp
  ultimately have q: "p = of_nat (length ?w + 1) # ?w @ 0 # q ! Suc (length ?w) # drop (Suc (Suc (length ?w))) q"
    using pq by metis
  have "length ?w < 255" using n(3) unsigned_less [where ?'a = nat, of b] by simp
  then have "name_ok (rd_from rd)" using w rd by (simp add: name_ok_def nul_free_bytes)
  moreover have p2: "p = pac_bytes (PacketCreateNew (rd_from rd) (rd_cmd rd) (rd_data rd))"
    using q rd n(3) by (simp add: PacketCreateNew_def createPacketFrom_def pq)
  moreover have "rd = parsed (rd_from rd) (rd_cmd rd) (rd_data rd)"
    unfolding parsed_def p2 [symmetric] using rd n(3) by simp
  ultimately show ?thesis by blast
qed

text \<open>The getters of a packet agree with the parsed data.\<close>

lemma getters_create:
  fixes cmd data
  assumes "name_ok from"
  defines "pac \<equiv> PacketCreateNew from cmd data"
  shows "FromLen pac = Inr (length from + 1)" and "Cmd pac = Inr cmd" and "From pac = Inr from"
    and "DataLen pac = Inr (int (length data))" and "PData pac = Inr data"
proof -
  have n: "unat (of_nat (Suc (length from)) :: u8) = Suc (length from)"
    using assms(1) by (simp add: name_ok_def unat_of_nat del: of_nat_Suc)
  show len: "FromLen pac = Inr (length from + 1)"
    using n by (simp add: FromLen_def pac_def PacketCreateNew_def createPacketFrom_def del: of_nat_Suc)
  then show "DataLen pac = Inr (int (length data))"
    by (simp add: DataLen_def pac_def PacketCreateNew_def createPacketFrom_def PACKET_HEADER_ADD_SIZE_def)
  then show "PData pac = Inr data"
    using len by (simp add: PData_def) (simp add: pac_def PacketCreateNew_def createPacketFrom_def PACKET_HEADER_ADD_SIZE_def)
  show "Cmd pac = Inr cmd"
    using len by (simp add: Cmd_def) (simp add: pac_def PacketCreateNew_def createPacketFrom_def nth_append)
  show "From pac = Inr from"
    using assms(1) by (simp add: From_def pac_def PacketCreateNew_def createPacketFrom_def c_string_bytes_of name_ok_def)
qed

section \<open>Properties\<close>

text \<open>C38: \<open>Parse\<close> and \<open>PacketCreateNew\<close> are inverse to each other: a received byte string parses to
  some data exactly if it is the packet that \<open>PacketCreateNew\<close> builds from the parsed sender,
  command and data, the sender being a name of at most 254 characters without NUL.\<close>

theorem parse_iff_created:
  "Parse \<lparr> pac_bytes = p, pac_l0 = l \<rparr> = Inr (Inr rd) \<longleftrightarrow>
     name_ok (rd_from rd) \<and> p = pac_bytes (PacketCreateNew (rd_from rd) (rd_cmd rd) (rd_data rd))
     \<and> rd = parsed (rd_from rd) (rd_cmd rd) (rd_data rd)"
    (is "?L \<longleftrightarrow> ?R")
proof
  assume ?L
  then have "p \<noteq> []" "parsePacket p = Some rd" by (auto simp: Parse_def split: if_splits option.splits)
  then show ?R using parsePacket_sound by blast
next
  assume R: ?R
  then have "p \<noteq> []" by (simp add: PacketCreateNew_def createPacketFrom_def)
  moreover have "parsePacket p = Some rd" using R parsePacket_create by metis
  ultimately show ?L by (simp add: Parse_def)
qed

end
