(* ===== verification/TeoSplit.thy ===== *)
theory TeoSplit
  imports TeoPacket "HOL-Library.Multiset"
begin

text \<open>
  Splitting large commands into subpackets and combining them: \<open>teonet/teonet/split.go\<close>. A
  subpacket starts with the number of the split packet and its own number, the last one
  marked by the high bit; the first also carries the command, in its last byte.
\<close>

section \<open>State\<close>

record receiveData =
  rec_rd :: ksnCorePacketData
  rec_tcd :: "nat option"

record splitPacket =
  packetNum :: u16
  split_m :: "string \<rightharpoonup> receiveData"

definition maxDataLen :: nat where "maxDataLen = 448"
definition lastPacketFlag :: u16 where "lastPacketFlag = 0x8000"
definition CmdSplit :: u8 where "CmdSplit = 68"

definition splitNew :: splitPacket where
  "splitNew = \<lparr> packetNum = 0, split_m = Map.empty \<rparr>"

section \<open>Splitting\<close>

text \<open>One subpacket: the closure \<open>callback\<close>.\<close>

definition subpacket :: "u16 \<Rightarrow> u8 \<Rightarrow> nat \<Rightarrow> bytes \<Rightarrow> bool \<Rightarrow> bytes" where
  "subpacket pn cmd num data lastSubpacket =
     (let sn = of_nat num;
          sn1 = (if lastSubpacket then sn OR lastPacketFlag else sn)
      in le16 pn @ le16 sn1 @ data @ (if sn1 = 0 then [cmd] else []))"

function split_loop :: "u16 \<Rightarrow> u8 \<Rightarrow> nat \<Rightarrow> bytes \<Rightarrow> bytes list" where
  "split_loop pn cmd num data =
     (if data = [] then []
      else let l = length data;
               lst = (l \<le> maxDataLen);
               l' = (if lst then l else maxDataLen)
           in subpacket pn cmd num (take l' data) lst # split_loop pn cmd (num + 1) (drop l' data))"
  by pat_completeness auto
termination
  by (relation "measure (\<lambda>(pn, cmd, num, data). length data)") (auto simp: maxDataLen_def)

declare split_loop.simps [simp del]

text \<open>The calls of the callback, in order, the number of subpackets and the new state.\<close>

definition split_data :: "u8 \<Rightarrow> bytes \<Rightarrow> splitPacket \<Rightarrow> (u8 \<times> bytes) list \<times> nat \<times> splitPacket" where
  "split_data cmd data sp =
     (if length data < maxDataLen then ([(cmd, data)], 0, sp)
      else let pn = packetNum sp + 1; subs = split_loop pn cmd 0 data
           in (map (Pair CmdSplit) subs, length subs, sp\<lparr>packetNum := pn\<rparr>))"

section \<open>Combining\<close>

definition split_makeKey :: "string \<Rightarrow> u16 \<Rightarrow> u16 \<Rightarrow> string" where
  "split_makeKey from pn sn = from @ '':'' @ itoa (unat pn) @ '':'' @ itoa (unat sn)"

text \<open>
  The loop over the subpackets: \<open>i\<close> runs to the last number; each found subpacket is
  appended and deleted, a missing one ends the loop with an error. \<open>todo\<close> counts what is left.
\<close>

fun combine_loop ::
  "string \<Rightarrow> u16 \<Rightarrow> nat \<Rightarrow> nat \<Rightarrow> bytes \<Rightarrow> u8 \<Rightarrow> (string \<rightharpoonup> receiveData)
     \<Rightarrow> ((string + bytes \<times> u8) \<times> (string \<rightharpoonup> receiveData)) go" where
  "combine_loop from pn i 0 packet cmd m = Inr (Inr (packet, cmd), m)"
| "combine_loop from pn i (Suc todo) packet cmd m =
     (let k = split_makeKey from pn (of_nat i)
      in case m k of
           None \<Rightarrow> Inr (Inl ''the subpacket has not received or added to the map'', m)
         | Some r \<Rightarrow>
             let d = rd_data (rec_rd r)
             in if length d < 4 then Inl SliceOutOfRange
                else let data = drop 4 d
                     in if i = 0 then
                          (if data = [] then Inl IndexOutOfRange
                           else combine_loop from pn (i + 1) todo (packet @ butlast data) (last data)
                                  (m(k := None)))
                        else combine_loop from pn (i + 1) todo (packet @ data) cmd (m(k := None)))"

text \<open>
  \<open>combine\<close>: the numbers are read with errors ignored; the packet is kept, and if it is
  the last one the whole is put together. \<open>Inr ([], 0)\<close> is the nil packet of the code.
\<close>

definition combine :: "receiveData \<Rightarrow> splitPacket \<Rightarrow> ((string + bytes \<times> u8) \<times> splitPacket) go" where
  "combine r sp =
     (let (pn, b1) = rd_u16 (rd_data (rec_rd r));
          (sn, b2) = rd_u16 b1;
          pn1 = or_old 0 pn; sn1 = or_old 0 sn;
          lastPacket = (sn1 AND lastPacketFlag \<noteq> 0);
          sn2 = sn1 AND (lastPacketFlag - 1);
          from = rd_from (rec_rd r);
          m = (split_m sp)(split_makeKey from pn1 sn2 \<mapsto> r)
      in if \<not> lastPacket then Inr (Inr ([], 0), sp\<lparr>split_m := m\<rparr>)
         else go_bind (combine_loop from pn1 0 (unat sn2 + 1) [] 0 m)
                (\<lambda>(res, m'). Inr (res, sp\<lparr>split_m := m'\<rparr>)))"

text \<open>\<open>removeClient\<close> drops what is kept of a client.\<close>

definition has_prefix :: "string \<Rightarrow> string \<Rightarrow> bool" where
  "has_prefix p s \<longleftrightarrow> take (length p) s = p"

definition removeClient :: "string \<Rightarrow> splitPacket \<Rightarrow> splitPacket" where
  "removeClient client sp =
     sp\<lparr>split_m := (\<lambda>k. if has_prefix (client @ '':'') k then None else split_m sp k)\<rparr>"

text \<open>
  \<open>cmdSplit\<close> up to its last call: what it returns on an error or while the packet is not complete, or
  the received data of the combined packet, which it hands to \<open>command.process\<close>.
\<close>

definition cmdSplit :: "receiveData \<Rightarrow> splitPacket \<Rightarrow> ((string + receiveData option) \<times> splitPacket) go" where
  "cmdSplit r sp =
     go_bind (combine r sp) (\<lambda>(res, sp').
       case res of
         Inl e \<Rightarrow> Inr (Inl ''can't combine packets'', sp')
       | Inr (data, cmd) \<Rightarrow>
           if data = [] then Inr (Inr None, sp')
           else go_bind (Parse (PacketCreateNew (rd_from (rec_rd r)) cmd data)) (\<lambda>p.
             case p of
               Inl e \<Rightarrow> Inr (Inl ''can't parse combined packet'', sp')
             | Inr rd \<Rightarrow> Inr (Inr (Some \<lparr> rec_rd = rd, rec_tcd = rec_tcd r \<rparr>), sp')))"

section \<open>Keys\<close>

lemma split_makeKey_eq_iff [simp]:
  "split_makeKey f pn sn = split_makeKey f' pn' sn' \<longleftrightarrow> f = f' \<and> pn = pn' \<and> sn = sn'"
proof
  assume "split_makeKey f pn sn = split_makeKey f' pn' sn'"
  then have "(f @ '':'' @ itoa (unat pn)) @ CHR '':'' # itoa (unat sn)
      = (f' @ '':'' @ itoa (unat pn')) @ CHR '':'' # itoa (unat sn')"
    by (simp add: split_makeKey_def)
  then have "f @ '':'' @ itoa (unat pn) = f' @ '':'' @ itoa (unat pn') \<and> unat sn = unat sn'"
    by (rule colon_itoa_unique [THEN iffD1])
  moreover from this have "f = f' \<and> unat pn = unat pn'"
    by (intro colon_itoa_unique [THEN iffD1]) simp
  ultimately show "f = f' \<and> pn = pn' \<and> sn = sn'"
    by (simp add: word_unat_eq_iff)
qed simp

section \<open>The pieces of a large command\<close>

definition pieces :: "bytes \<Rightarrow> nat" where
  "pieces data = (length data + (maxDataLen - 1)) div maxDataLen"

definition piece :: "bytes \<Rightarrow> nat \<Rightarrow> bytes" where
  "piece data i = take maxDataLen (drop (i * maxDataLen) data)"

lemma pieces_step:
  assumes "maxDataLen < length data"
  shows "pieces data = Suc (pieces (drop maxDataLen data))"
proof -
  have "length data + 447 = (length data - 448 + 447) + 448" using assms by (simp add: maxDataLen_def)
  then show ?thesis by (simp add: pieces_def maxDataLen_def)
qed

lemma pieces_one: "data \<noteq> [] \<Longrightarrow> length data \<le> maxDataLen \<Longrightarrow> pieces data = 1"
  by (auto simp: pieces_def maxDataLen_def Suc_le_eq intro!: div_nat_eqI)

lemma pieces_0: "pieces data = 0 \<longleftrightarrow> data = []"
  by (auto simp: pieces_def maxDataLen_def div_eq_0_iff Suc_le_eq not_less)

lemma split_loop_eq:
  "split_loop pn cmd num data =
     map (\<lambda>i. subpacket pn cmd (num + i) (piece data i) (Suc i = pieces data)) [0..<pieces data]"
proof (induction pn cmd num data rule: split_loop.induct)
  case (1 pn cmd num data)
  show ?case
  proof (cases "data = [] \<or> length data \<le> maxDataLen")
    case True
    then show ?thesis
    proof (cases "data = []")
      case False
      then show ?thesis using True pieces_one [OF False]
        by (subst split_loop.simps) (simp add: Let_def piece_def, subst split_loop.simps, simp)
    qed (subst split_loop.simps, simp add: pieces_def maxDataLen_def)
  next
    case False
    let ?d = "drop maxDataLen data"
    have n: "pieces data = Suc (pieces ?d)" using False by (intro pieces_step) simp
    have d: "?d \<noteq> []" using False by simp
    have pc: "piece ?d i = piece data (Suc i)" for i
      by (simp add: piece_def add.commute)
    have "split_loop pn cmd num data = subpacket pn cmd num (piece data 0) False
        # split_loop pn cmd (num + 1) ?d"
      using False by (subst split_loop.simps) (simp add: Let_def piece_def)
    moreover have "split_loop pn cmd (num + 1) ?d =
        map (\<lambda>i. subpacket pn cmd (num + 1 + i) (piece ?d i) (Suc i = pieces ?d)) [0..<pieces ?d]"
      using 1 [OF _ refl refl refl] False by simp
    moreover have "pieces ?d \<noteq> 0" using d pieces_0 by blast
    ultimately show ?thesis
      by (simp add: n pc upt_conv_Cons map_Suc_upt [symmetric] comp_def del: upt_Suc)
  qed
qed

lemma concat_pieces: "concat (map (piece data) [0..<pieces data]) = data"
proof (induction "length data" arbitrary: data rule: less_induct)
  case less
  show ?case
  proof (cases "data = [] \<or> length data \<le> maxDataLen")
    case True
    then show ?thesis
    proof (cases "data = []")
      case False
      then show ?thesis using True pieces_one [OF False] by (simp add: piece_def)
    qed (simp add: pieces_def maxDataLen_def)
  next
    case False
    let ?d = "drop maxDataLen data"
    have n: "pieces data = Suc (pieces ?d)" using False by (intro pieces_step) simp
    have pc: "piece ?d i = piece data (Suc i)" for i
      by (simp add: piece_def add.commute)
    have "concat (map (piece ?d) [0..<pieces ?d]) = ?d"
      using less False by (simp add: maxDataLen_def)
    then have "concat (map (\<lambda>i. piece data (Suc i)) [0..<pieces ?d]) = ?d"
      by (simp only: pc [symmetric])
    then show ?thesis
      by (simp add: n pc upt_conv_Cons map_Suc_upt [symmetric] comp_def piece_def [of _ 0] del: upt_Suc)
  qed
qed

section \<open>Reading a subpacket back\<close>

definition sub_num :: "nat \<Rightarrow> bool \<Rightarrow> u16" where
  "sub_num n lst = (if lst then of_nat n OR lastPacketFlag else of_nat n)"

lemma bit_flag: "bit lastPacketFlag n \<longleftrightarrow> n = 15"
  using bit_exp_iff [where ?'a = u16, of 15 n] by (auto simp: lastPacketFlag_def)

lemma bit_num_mask: "bit (lastPacketFlag - 1) n \<longleftrightarrow> n < 15"
proof -
  have "lastPacketFlag - 1 = (mask 15 :: u16)" by (simp add: lastPacketFlag_def mask_eq_exp_minus_1)
  then show ?thesis by (auto simp: bit_simps)
qed

lemma of_nat_small_bit: "n < 2 ^ 15 \<Longrightarrow> bit (of_nat n :: u16) k \<Longrightarrow> k < 15"
proof -
  assume n: "n < 2 ^ 15" and b: "bit (of_nat n :: u16) k"
  have "take_bit 15 (of_nat n :: u16) = of_nat (take_bit 15 n)" by (rule of_nat_take_bit [symmetric])
  also have "take_bit 15 n = n" by (rule take_bit_nat_eq_self [OF n])
  finally have "bit (take_bit 15 (of_nat n :: u16)) k" using b by (simp only:)
  then show "k < 15" by (simp only: bit_take_bit_iff)
qed

lemma sub_num_bit: "bit (sub_num n lst) k \<longleftrightarrow> bit (of_nat n :: u16) k \<or> (lst \<and> k = 15)"
proof (cases lst)
  case True
  then show ?thesis by (simp only: sub_num_def bit_or_iff bit_flag if_True simp_thms)
next
  case False
  then show ?thesis by (simp only: sub_num_def if_False simp_thms)
qed

lemma sub_num_flag:
  assumes n: "n < 2 ^ 15"
  shows "sub_num n lst AND lastPacketFlag = (if lst then lastPacketFlag else 0)"
proof (rule bit_word_eqI)
  fix k
  have "\<not> bit (of_nat n :: u16) 15" using of_nat_small_bit [OF n, of 15] by blast
  then have "bit (sub_num n lst AND lastPacketFlag) k \<longleftrightarrow> lst \<and> k = 15"
    unfolding bit_and_iff sub_num_bit bit_flag by blast
  also have "\<dots> \<longleftrightarrow> bit (if lst then lastPacketFlag else 0 :: u16) k"
    by (simp add: bit_flag)
  finally show "bit (sub_num n lst AND lastPacketFlag) k \<longleftrightarrow> bit (if lst then lastPacketFlag else 0 :: u16) k" .
qed

lemma sub_num_num:
  assumes n: "n < 2 ^ 15"
  shows "sub_num n lst AND (lastPacketFlag - 1) = of_nat n"
proof (rule bit_word_eqI)
  fix k
  show "bit (sub_num n lst AND (lastPacketFlag - 1)) k \<longleftrightarrow> bit (of_nat n :: u16) k"
    using of_nat_small_bit [OF n, of k] unfolding bit_and_iff bit_num_mask sub_num_bit by linarith
qed

lemma flag_nonzero: "lastPacketFlag \<noteq> 0"
  by (simp add: lastPacketFlag_def)

lemma of_nat_u16_0: "n < 2 ^ 15 \<Longrightarrow> (of_nat n :: u16) = 0 \<longleftrightarrow> n = 0"
  unfolding word_unat_eq_iff by (simp add: unat_of_nat)

lemma sub_num_zero:
  assumes n: "n < 2 ^ 15"
  shows "sub_num n lst = 0 \<longleftrightarrow> n = 0 \<and> \<not> lst"
proof (cases lst)
  case True
  have "sub_num n lst AND lastPacketFlag \<noteq> 0"
    using True sub_num_flag [OF n, of lst] flag_nonzero by simp
  then have "sub_num n lst \<noteq> 0" by auto
  then show ?thesis using True by simp
next
  case False
  then show ?thesis using of_nat_u16_0 [OF n] by (simp add: sub_num_def)
qed

lemma sub_num_fields:
  assumes "n < 2 ^ 15"
  shows "sub_num n lst AND lastPacketFlag \<noteq> 0 \<longleftrightarrow> lst"
    and "sub_num n lst AND (lastPacketFlag - 1) = of_nat n"
    and "sub_num n lst = 0 \<longleftrightarrow> n = 0 \<and> \<not> lst"
  using sub_num_flag [OF assms] sub_num_num [OF assms] sub_num_zero [OF assms] flag_nonzero by simp_all

text \<open>A received packet that carries subpacket \<open>i\<close> of a command.\<close>

definition carries :: "string \<Rightarrow> u16 \<Rightarrow> u8 \<Rightarrow> bytes \<Rightarrow> nat \<Rightarrow> receiveData \<Rightarrow> bool" where
  "carries from pn cmd data i r \<longleftrightarrow> rd_from (rec_rd r) = from
     \<and> rd_data (rec_rd r) = subpacket pn cmd i (piece data i) (Suc i = pieces data)"

lemma subpacket_eq:
  "subpacket pn cmd i d lst = le16 pn @ le16 (sub_num i lst) @ d @ (if sub_num i lst = 0 then [cmd] else [])"
  by (simp add: subpacket_def sub_num_def Let_def)

lemma carries_fields:
  assumes "carries from pn cmd data i r" and "i < 2 ^ 15"
  shows "rd_from (rec_rd r) = from" and "4 \<le> length (rd_data (rec_rd r))"
    and "drop 4 (rd_data (rec_rd r)) =
      piece data i @ (if i = 0 \<and> Suc i \<noteq> pieces data then [cmd] else [])"
  using assms sub_num_fields(3) [OF assms(2)]
  by (simp_all add: carries_def subpacket_eq le16_def)

lemma combine_carries:
  assumes c: "carries from pn cmd data i r" and i: "i < 2 ^ 15"
  shows "combine r sp =
     (let m = (split_m sp)(split_makeKey from pn (of_nat i) \<mapsto> r)
      in if Suc i \<noteq> pieces data then Inr (Inr ([], 0), sp\<lparr>split_m := m\<rparr>)
         else go_bind (combine_loop from pn 0 (i + 1) [] 0 m)
                (\<lambda>(res, m'). Inr (res, sp\<lparr>split_m := m'\<rparr>)))"
proof -
  define lst where "lst = (Suc i = pieces data)"
  have u: "unat (of_nat i :: u16) = i" using i by (simp add: unat_of_nat)
  obtain rest where d: "rd_data (rec_rd r) = le16 pn @ le16 (sub_num i lst) @ rest"
    using c by (auto simp: carries_def subpacket_eq lst_def)
  have f: "rd_from (rec_rd r) = from" using c by (simp add: carries_def)
  have flag: "sub_num i lst AND lastPacketFlag = 0 \<longleftrightarrow> \<not> lst"
    using sub_num_fields(1) [OF i, of lst] by blast
  show ?thesis
    by (simp add: combine_def d f codec_simps Let_def flag sub_num_fields(2) [OF i] u lst_def [symmetric]
        del: combine_loop.simps)
qed

lemma of_nat_u16_inj: "i < 2 ^ 15 \<Longrightarrow> j < 2 ^ 15 \<Longrightarrow> (of_nat i :: u16) = of_nat j \<longleftrightarrow> i = j"
  by (simp add: word_unat_eq_iff unat_of_nat)

lemma combine_loop_ok:
  assumes "i + todo = pieces data" and "pieces data \<le> 2 ^ 15" and "2 \<le> pieces data"
    and "\<forall>j. i \<le> j \<and> j < pieces data \<longrightarrow>
           (\<exists>r. m (split_makeKey from pn (of_nat j)) = Some r \<and> carries from pn cmd data j r)"
  shows "combine_loop from pn i todo packet c m =
     Inr (Inr (packet @ concat (map (piece data) [i..<pieces data]), if i = 0 then cmd else c),
          \<lambda>k. if \<exists>j. i \<le> j \<and> j < pieces data \<and> k = split_makeKey from pn (of_nat j) then None else m k)"
  using assms
proof (induction todo arbitrary: i packet c m)
  case 0
  then show ?case by (auto simp: fun_eq_iff)
next
  case (Suc todo)
  let ?n = "pieces data" let ?k = "\<lambda>j. split_makeKey from pn (of_nat j)"
  have i: "i < ?n" "i < 2 ^ 15" using Suc.prems(1,2) by auto
  obtain r where r: "m (?k i) = Some r" "carries from pn cmd data i r"
    using Suc.prems(4) i by blast
  note f = carries_fields [OF r(2) i(2)]
  let ?m = "m(?k i := None)"
  have keys: "?k j = ?k i \<longleftrightarrow> j = i" if "j < ?n" for j
    using that i Suc.prems(2) of_nat_u16_inj [of j i] by auto
  have IH: "combine_loop from pn (Suc i) todo p c' ?m =
     Inr (Inr (p @ concat (map (piece data) [Suc i..<?n]), c'),
          \<lambda>k. if \<exists>j. Suc i \<le> j \<and> j < ?n \<and> k = ?k j then None else ?m k)" for p c'
  proof (subst Suc.IH)
    show "\<forall>j. Suc i \<le> j \<and> j < ?n \<longrightarrow> (\<exists>r. ?m (?k j) = Some r \<and> carries from pn cmd data j r)"
      using Suc.prems(4) keys by auto
  qed (use Suc.prems in auto)
  have map: "(\<lambda>k. if \<exists>j. Suc i \<le> j \<and> j < ?n \<and> k = ?k j then None else ?m k)
      = (\<lambda>k. if \<exists>j. i \<le> j \<and> j < ?n \<and> k = ?k j then None else m k)"
    using i(1) by (auto simp: fun_eq_iff le_eq_less_or_eq Suc_le_eq)
  have cc: "concat (map (piece data) [i..<?n]) = piece data i @ concat (map (piece data) [Suc i..<?n])"
    using i(1) by (simp add: upt_conv_Cons)
  show ?case
  proof (cases "i = 0")
    case True
    then have d: "drop 4 (rd_data (rec_rd r)) = piece data 0 @ [cmd]" using f(3) Suc.prems(3) by auto
    then show ?thesis
      using True r(1) f(2) IH map cc by (simp add: Let_def not_less)
  next
    case False
    then show ?thesis
      using r(1) f(2,3) IH map cc by (simp add: Let_def not_less)
  qed
qed

text \<open>Feeding received packets to \<open>combine\<close> one after the other.\<close>

fun combine_all :: "receiveData list \<Rightarrow> splitPacket \<Rightarrow> ((string + bytes \<times> u8) list \<times> splitPacket) go" where
  "combine_all [] sp = Inr ([], sp)"
| "combine_all (r # rs) sp = go_bind (combine r sp) (\<lambda>(res, sp').
     go_bind (combine_all rs sp') (\<lambda>(ress, sp''). Inr (res # ress, sp'')))"

lemma go_bind_assoc: "go_bind (go_bind m f) g = go_bind m (\<lambda>x. go_bind (f x) g)"
  by (cases m) auto

lemma combine_all_parts:
  assumes "\<forall>(i, r) \<in> set irs. carries from pn cmd data i r \<and> i < 2 ^ 15 \<and> Suc i \<noteq> pieces data"
  shows "combine_all (map snd irs @ rs) sp =
     go_bind (combine_all rs (sp\<lparr>split_m := split_m sp ++ map_of (rev (map (\<lambda>(i, r). (split_makeKey from pn (of_nat i), r)) irs))\<rparr>))
       (\<lambda>(ress, sp'). Inr (replicate (length irs) (Inr ([], 0)) @ ress, sp'))"
  using assms
proof (induction irs arbitrary: sp)
  case Nil
  show ?case by (cases "combine_all rs sp") (auto simp: split_def)
next
  case (Cons ir irs)
  obtain i r where ir: "ir = (i, r)" by (cases ir)
  have "combine r sp = Inr (Inr ([], 0), sp\<lparr>split_m := (split_m sp)(split_makeKey from pn (of_nat i) \<mapsto> r)\<rparr>)"
    using Cons.prems ir by (subst combine_carries [of _ pn cmd data i]) (auto simp: Let_def)
  moreover have "(split_m sp)(k \<mapsto> r) ++ map_of (rev xs) = split_m sp ++ map_of (rev ((k, r) # xs))"
    for k and xs :: "(string \<times> receiveData) list"
    by simp
  ultimately show ?case
    using Cons.IH [of "sp\<lparr>split_m := (split_m sp)(split_makeKey from pn (of_nat i) \<mapsto> r)\<rparr>"] Cons.prems ir
    by (simp add: go_bind_assoc) (simp add: split_def fun_upd_def)
qed


text \<open>What the receiver has of a subpacket: the parsed packet that carried it.\<close>

definition received_from :: "string \<Rightarrow> nat option \<Rightarrow> bytes \<Rightarrow> receiveData" where
  "received_from from tcd d = \<lparr> rec_rd = parsed from CmdSplit d, rec_tcd = tcd \<rparr>"

lemma split_data_large:
  assumes "maxDataLen < length data"
  shows "split_data cmd data s =
     (map (\<lambda>i. (CmdSplit, subpacket (packetNum s + 1) cmd i (piece data i) (Suc i = pieces data))) [0..<pieces data],
      pieces data, s\<lparr>packetNum := packetNum s + 1\<rparr>)"
  using assms by (simp add: split_data_def split_loop_eq Let_def comp_def)

lemma pieces_bounds:
  assumes "maxDataLen < length data" and "length data \<le> maxDataLen * 2 ^ 15"
  shows "2 \<le> pieces data" and "pieces data \<le> 2 ^ 15"
  using assms by (auto simp: pieces_def maxDataLen_def div_le_mono less_eq_div_iff_mult_less_eq
      intro!: order_trans [OF div_le_mono [of "length data + 447" "448 * 32768 + 447" 448]])

lemma map_of_parts:
  assumes "i \<in> set order" and "\<forall>j \<in> set order. j < 2 ^ 15"
  shows "map_of (rev (map (\<lambda>j. (split_makeKey from pn (of_nat j), f j)) order)) (split_makeKey from pn (of_nat i))
     = Some (f i)"
proof -
  let ?l = "rev (map (\<lambda>j. (split_makeKey from pn (of_nat j), f j)) order)"
  have "(split_makeKey from pn (of_nat i), f i) \<in> set ?l" using assms(1) by auto
  then obtain y where y: "map_of ?l (split_makeKey from pn (of_nat i)) = Some y"
    using weak_map_of_SomeI by metis
  then obtain j where j: "j \<in> set order" "(of_nat j :: u16) = of_nat i" "y = f j"
    using map_of_SomeD [OF y] by auto
  then have "j = i" using assms of_nat_u16_inj [of j i] by blast
  then show ?thesis using y j(3) by (simp only:)
qed

section \<open>Properties\<close>

text \<open>C15: splitting and combining is the identity. The subpackets that \<open>split\<close> makes of a command with more
  than 448 bytes (up to 14,680,064), received from one sender in any order that ends with the
  last subpacket, give no result until the last and then exactly the command and its data;
  nothing of them stays in the map, and what the map holds of other senders and packets is untouched.\<close>

theorem split_combine_roundtrip:
  assumes "split_data cmd data s = (outs, n, s')"
    and "maxDataLen < length data" and "length data \<le> maxDataLen * 2 ^ 15"
    and "mset order = mset [0..<n - 1]"
  shows "\<exists>sp'. combine_all (map (\<lambda>i. received_from name tcd (snd (outs ! i))) (order @ [n - 1])) sp
       = Inr (replicate (n - 1) (Inr ([], 0)) @ [Inr (data, cmd)], sp')
     \<and> (\<forall>i < n. split_m sp' (split_makeKey name (packetNum s') (of_nat i)) = None)
     \<and> (\<forall>f pn sn. (f, pn) \<noteq> (name, packetNum s') \<longrightarrow>
           split_m sp' (split_makeKey f pn sn) = split_m sp (split_makeKey f pn sn))"
proof -
  let ?pn = "packetNum s + 1" let ?k = "\<lambda>i. split_makeKey name ?pn (of_nat i)"
  let ?r = "\<lambda>i. received_from name tcd (snd (outs ! i))"
  note b = pieces_bounds [OF assms(2,3)]
  have outs: "outs = map (\<lambda>i. (CmdSplit, subpacket ?pn cmd i (piece data i) (Suc i = pieces data))) [0..<pieces data]"
    and n: "n = pieces data" and s': "s' = s\<lparr>packetNum := ?pn\<rparr>"
    using split_data_large [OF assms(2), of cmd s] unfolding assms(1) prod.inject by blast+
  have pn: "packetNum s' = ?pn" by (simp add: s')
  have "set order = set [0..<n - 1]" by (rule mset_eq_setD [OF assms(4)])
  moreover have "length order = length [0..<n - 1]" by (rule mset_eq_length [OF assms(4)])
  ultimately have ord: "set order = {..<n - 1}" "length order = n - 1"
    by (simp_all add: lessThan_atLeast0)
  have car: "carries name ?pn cmd data i (?r i)" if "i < n" for i
  proof -
    have "outs ! i = (CmdSplit, subpacket ?pn cmd i (piece data i) (Suc i = pieces data))"
      unfolding outs using that n by simp
    then show ?thesis by (simp add: carries_def received_from_def parsed_def)
  qed
  let ?irs = "map (\<lambda>i. (i, ?r i)) order"
  let ?m = "split_m sp ++ map_of (rev (map (\<lambda>i. (?k i, ?r i)) order))"
  have ok: "\<forall>(i, r) \<in> set ?irs. carries name ?pn cmd data i r \<and> i < 2 ^ 15 \<and> Suc i \<noteq> pieces data"
    using car ord b n by auto
  have parts: "combine_all (map ?r (order @ [n - 1])) sp =
     go_bind (combine_all [?r (n - 1)] (sp\<lparr>split_m := ?m\<rparr>))
       (\<lambda>(ress, sp'). Inr (replicate (n - 1) (Inr ([], 0)) @ ress, sp'))"
    using combine_all_parts [OF ok, of "[?r (n - 1)]" sp] ord(2) by (simp add: comp_def)
  let ?m1 = "?m(?k (n - 1) \<mapsto> ?r (n - 1))"
  have all: "\<forall>j. 0 \<le> j \<and> j < pieces data \<longrightarrow> (\<exists>r. ?m1 (?k j) = Some r \<and> carries name ?pn cmd data j r)"
  proof (intro allI impI)
    fix j assume "0 \<le> j \<and> j < pieces data"
    then have j: "j < n" using n by simp
    show "\<exists>r. ?m1 (?k j) = Some r \<and> carries name ?pn cmd data j r"
    proof (cases "j = n - 1")
      case True
      then show ?thesis using car [OF j] by simp
    next
      case False
      then have "j \<in> set order" using j ord by auto
      moreover have small: "i < 2 ^ 15" if "i < n" for i using that b n by linarith
      ultimately have some: "map_of (rev (map (\<lambda>i. (?k i, ?r i)) order)) (?k j) = Some (?r j)"
        using ord(1) by (intro map_of_parts) auto
      have "(of_nat j :: u16) \<noteq> of_nat (n - 1)"
        using of_nat_u16_inj [OF small [OF j] small, of "n - 1"] False j by linarith
      then have "?m1 (?k j) = Some (?r j)" using some by simp
      then show ?thesis using car [OF j] by blast
    qed
  qed
  let ?m2 = "\<lambda>k. if \<exists>j. 0 \<le> j \<and> j < pieces data \<and> k = ?k j then None else ?m1 k"
  have "combine_loop name ?pn 0 n [] 0 ?m1 =
      Inr (Inr ([] @ concat (map (piece data) [0..<pieces data]), if (0::nat) = 0 then cmd else 0), ?m2)"
    by (rule combine_loop_ok [OF _ b(2) b(1) all]) (simp only: n add_0)
  then have whole: "combine_loop name ?pn 0 n [] 0 ?m1 = Inr (Inr (data, cmd), ?m2)"
    unfolding concat_pieces by (simp only: append_Nil if_True refl)
  have l15: "n - 1 < 2 ^ 15" and ln: "Suc (n - 1) = pieces data" and nn: "n - 1 + 1 = n" and lt: "n - 1 < n"
    using b n by auto
  have "combine (?r (n - 1)) (sp\<lparr>split_m := ?m\<rparr>) =
      go_bind (combine_loop name ?pn 0 n [] 0 ?m1) (\<lambda>(res, m'). Inr (res, sp\<lparr>split_m := m'\<rparr>))"
    unfolding combine_carries [OF car [OF lt] l15] Let_def ln nn by simp
  then have "combine (?r (n - 1)) (sp\<lparr>split_m := ?m\<rparr>) = Inr (Inr (data, cmd), sp\<lparr>split_m := ?m2\<rparr>)"
    unfolding whole by simp
  then have run: "combine_all (map ?r (order @ [n - 1])) sp =
      Inr (replicate (n - 1) (Inr ([], 0)) @ [Inr (data, cmd)], sp\<lparr>split_m := ?m2\<rparr>)"
    unfolding parts by simp
  have gone: "?m2 (?k i) = None" if "i < n" for i
    using that n by auto
  have other: "?m2 (split_makeKey f q sn) = split_m sp (split_makeKey f q sn)" if "(f, q) \<noteq> (name, ?pn)" for f q sn
  proof -
    have ne: "split_makeKey f q sn \<noteq> ?k i" for i using that by auto
    then have "map_of (rev (map (\<lambda>i. (?k i, ?r i)) order)) (split_makeKey f q sn) = None"
      by (auto simp: map_of_eq_None_iff image_iff)
    then show ?thesis using ne by (simp add: map_add_def del: split_makeKey_eq_iff)
  qed
  show ?thesis
    using run gone other unfolding pn by (intro exI [of _ "sp\<lparr>split_m := ?m2\<rparr>"]) simp
qed

theorem split_combine_roundtrip_witness:
  "\<exists>outs s' sp'. split_data 129 (replicate 500 7) splitNew = (outs, 2, s')
     \<and> combine_all (map (\<lambda>i. received_from ''a'' None (snd (outs ! i))) ([0] @ [2 - 1])) splitNew
       = Inr (replicate (2 - 1) (Inr ([], 0)) @ [Inr (replicate 500 7, 129)], sp')"
proof -
  have large: "maxDataLen < length (replicate 500 (7 :: u8))" by (simp add: maxDataLen_def)
  have n: "pieces (replicate 500 7) = 2" by (simp add: pieces_def maxDataLen_def)
  obtain outs s' where s: "split_data 129 (replicate 500 7) splitNew = (outs, 2, s')"
    using split_data_large [OF large, of 129 splitNew] unfolding n by blast
  moreover have "length (replicate 500 (7 :: u8)) \<le> maxDataLen * 2 ^ 15" by (simp add: maxDataLen_def)
  moreover have "mset [0] = mset [0..<2 - 1]" by (simp add: upt_rec)
  ultimately show ?thesis
    using split_combine_roundtrip [OF s large, of "[0]" "''a''" None splitNew] by blast
qed

section \<open>The boundary of the split\<close>

text \<open>
  A command with exactly 448 bytes is too large to be sent whole and becomes a single subpacket
  marked as the last, number 0x8000, so the command byte is not appended; \<open>combine\<close> then takes
  the last byte of the data for the command.
\<close>

lemma split_448:
  assumes "length data = maxDataLen"
  shows "split_data cmd data s =
    ([(CmdSplit, le16 (packetNum s + 1) @ le16 0x8000 @ data)], 1, s\<lparr>packetNum := packetNum s + 1\<rparr>)"
proof -
  have "pieces data = 1" by (rule pieces_one) (use assms in \<open>auto simp: maxDataLen_def\<close>)
  then show ?thesis using assms
    by (simp add: split_data_def split_loop_eq Let_def subpacket_def lastPacketFlag_def piece_def upt_rec)
qed

lemma combine_448:
  assumes "length data = maxDataLen"
  shows "\<exists>sp'. combine (received_from name tcd (le16 pn @ le16 0x8000 @ data)) sp
     = Inr (Inr (butlast data, last data), sp')"
proof -
  have ne: "data \<noteq> []" using assms by (auto simp: maxDataLen_def)
  have f: "(0x8000 :: u16) AND lastPacketFlag \<noteq> 0" "(0x8000 :: u16) AND (lastPacketFlag - 1) = 0"
    by (simp_all add: lastPacketFlag_def)
  have d4: "drop 4 (le16 pn @ le16 0x8000 @ data) = data" by (simp add: le16_def)
  show ?thesis
    using ne by (simp add: combine_def received_from_def parsed_def codec_simps Let_def f d4)
qed

text \<open>A client whose name has no colon is removed completely and alone: after \<open>removeClient\<close> the map
  has none of its subpackets and all those of other names without a colon.\<close>

lemma removeClient_exact:
  assumes "CHR '':'' \<notin> set client" and "CHR '':'' \<notin> set other"
  shows "split_m (removeClient client sp) (split_makeKey other pn sn) =
     (if other = client then None else split_m sp (split_makeKey other pn sn))"
proof -
  have "has_prefix (client @ '':'') (other @ CHR '':'' # r) \<longleftrightarrow> other = client" for r
    using assms
  proof (induction client arbitrary: other)
    case Nil
    then show ?case by (cases other) (auto simp: has_prefix_def)
  next
    case (Cons c cs)
    then show ?case by (cases other) (auto simp: has_prefix_def)
  qed
  then show ?thesis by (simp add: removeClient_def split_makeKey_def)
qed

lemma removeClient_exact_example:
  "split_m (removeClient ''ann'' splitNew) (split_makeKey ''bob'' 1 2) =
     (if ''bob'' = ''ann'' then None else split_m splitNew (split_makeKey ''bob'' 1 2))"
  by (rule removeClient_exact) simp_all

end
