(* ===== verification/TeoWait.thy ===== *)
theory TeoWait
  imports TeoSplit
begin

text \<open>
  Waiting for an answer: \<open>teonet/teonet/command_wait.go\<close>. A request waits for a command from
  a peer; when the command arrives, every request under its key whose check function accepts the
  data gets it on its channel. A request is a pointer: it has an identity. A list in the map is
  a slice; \<open>exists\<close> with removal shifts its elements in place, and the map keeps the old
  slice header.
\<close>

section \<open>State\<close>

record waitFromRequest =
  wfr_ptr :: nat
  wfr_from :: string
  wfr_cmd :: u8
  wfr_ch :: nat
  wfr_f :: "(bytes \<Rightarrow> bool) option"

text \<open>
  What was sent on a request's channel (\<open>Some\<close> the data, \<open>None\<close> the timeout error), and which
  channels are closed.
\<close>

record waitCommand =
  wcom_m :: "string \<rightharpoonup> waitFromRequest list"
  wcom_sent :: "(nat \<times> bytes option) list"
  wcom_closed :: "nat set"

definition waitFromNew :: waitCommand where
  "waitFromNew = \<lparr> wcom_m = Map.empty, wcom_sent = [], wcom_closed = {} \<rparr>"

definition wcom_makeKey :: "string \<Rightarrow> u8 \<Rightarrow> string" where
  "wcom_makeKey from cmd = from @ '':'' @ Itoa (uint cmd)"

section \<open>Operations\<close>

definition wcom_add :: "waitFromRequest \<Rightarrow> waitCommand \<Rightarrow> waitCommand" where
  "wcom_add w wc =
     (let k = wcom_makeKey (wfr_from w) (wfr_cmd w)
      in case wcom_m wc k of
           None \<Rightarrow> wc\<lparr>wcom_m := (wcom_m wc)(k \<mapsto> [w])\<rparr>
         | Some ar \<Rightarrow> wc\<lparr>wcom_m := (wcom_m wc)(k \<mapsto> ar @ [w])\<rparr>)"

text \<open>The index of the first element with a property, as the range loop finds it.\<close>

fun find_index :: "('a \<Rightarrow> bool) \<Rightarrow> 'a list \<Rightarrow> nat option" where
  "find_index P [] = None"
| "find_index P (x # xs) = (if P x then Some 0 else map_option Suc (find_index P xs))"

definition wcom_exists :: "waitFromRequest \<Rightarrow> bool \<Rightarrow> waitCommand \<Rightarrow> bool \<times> waitCommand" where
  "wcom_exists w remove wc =
     (let k = wcom_makeKey (wfr_from w) (wfr_cmd w)
      in case wcom_m wc k of
           None \<Rightarrow> (False, wc)
         | Some ar \<Rightarrow>
             (case find_index (\<lambda>x. wfr_ptr x = wfr_ptr w) ar of
                None \<Rightarrow> (False, wc)
              | Some idx \<Rightarrow>
                  (True,
                   if \<not> remove then wc
                   else if length ar - 1 = 0 then wc\<lparr>wcom_m := (wcom_m wc)(k := None)\<rparr>
                   else wc\<lparr>wcom_m := (wcom_m wc)(k \<mapsto> shift_out idx ar)\<rparr>)))"

definition wcom_remove :: "waitFromRequest \<Rightarrow> waitCommand \<Rightarrow> waitCommand" where
  "wcom_remove w wc = snd (wcom_exists w True wc)"

definition accepts :: "bytes \<Rightarrow> waitFromRequest \<Rightarrow> bool" where
  "accepts d w = (case wfr_f w of None \<Rightarrow> True | Some f \<Rightarrow> f d)"

text \<open>The loop of \<open>check\<close>: send on the channel, then close it. Both panic on a closed channel.\<close>

fun check_loop :: "bytes \<Rightarrow> waitFromRequest list \<Rightarrow> nat \<Rightarrow> waitCommand \<Rightarrow> (nat \<times> waitCommand) go" where
  "check_loop d [] n wc = Inr (n, wc)"
| "check_loop d (w # ws) n wc =
     (if \<not> accepts d w then check_loop d ws n wc
      else if wfr_ch w \<in> wcom_closed wc then Inl SendOnClosedChannel
      else check_loop d ws (n + 1)
             (wc\<lparr>wcom_sent := wcom_sent wc @ [(wfr_ch w, Some d)],
                 wcom_closed := insert (wfr_ch w) (wcom_closed wc)\<rparr>))"

definition wcom_check :: "receiveData \<Rightarrow> waitCommand \<Rightarrow> (nat \<times> waitCommand) go" where
  "wcom_check r wc =
     (let k = wcom_makeKey (rd_from (rec_rd r)) (rd_cmd (rec_rd r))
      in case wcom_m wc k of
           None \<Rightarrow> Inr (0, wc)
         | Some ar \<Rightarrow> go_bind (check_loop (rd_data (rec_rd r)) ar 0 wc)
             (\<lambda>(n, wc'). Inr (n, wc'\<lparr>wcom_m := (wcom_m wc')(k := None)\<rparr>)))"

text \<open>
  The kernel functions of \<open>WaitFrom\<close>: the request is added, and after the timeout (while the
  application runs) it gets the error if it still waits.
\<close>

definition wcom_timeout :: "waitFromRequest \<Rightarrow> waitCommand \<Rightarrow> waitCommand go" where
  "wcom_timeout w wc =
     (if fst (wcom_exists w False wc)
      then if wfr_ch w \<in> wcom_closed wc then Inl SendOnClosedChannel
           else Inr (wcom_remove w (wc\<lparr>wcom_sent := wcom_sent wc @ [(wfr_ch w, None)]\<rparr>))
      else Inr wc)"

section \<open>Lemmas\<close>

lemma wcom_makeKey_eq_iff [simp]:
  "wcom_makeKey f c = wcom_makeKey f' c' \<longleftrightarrow> f = f' \<and> c = c'"
  by (simp add: wcom_makeKey_def colon_Itoa_unique word_uint_eq_iff)

lemma check_loop_ok:
  assumes "distinct (map wfr_ch (filter (accepts d) ws))"
    and "\<forall>w \<in> set ws. accepts d w \<longrightarrow> wfr_ch w \<notin> wcom_closed wc"
  shows "check_loop d ws n wc =
     Inr (n + length (filter (accepts d) ws),
          wc\<lparr>wcom_sent := wcom_sent wc @ map (\<lambda>w. (wfr_ch w, Some d)) (filter (accepts d) ws),
             wcom_closed := wcom_closed wc \<union> wfr_ch ` set (filter (accepts d) ws)\<rparr>)"
  using assms
proof (induction ws arbitrary: n wc)
  case (Cons w ws)
  show ?case
  proof (cases "accepts d w")
    case True
    let ?wc = "wc\<lparr>wcom_sent := wcom_sent wc @ [(wfr_ch w, Some d)],
                  wcom_closed := insert (wfr_ch w) (wcom_closed wc)\<rparr>"
    have "check_loop d ws (n + 1) ?wc =
      Inr (n + 1 + length (filter (accepts d) ws),
          ?wc\<lparr>wcom_sent := wcom_sent ?wc @ map (\<lambda>w. (wfr_ch w, Some d)) (filter (accepts d) ws),
             wcom_closed := wcom_closed ?wc \<union> wfr_ch ` set (filter (accepts d) ws)\<rparr>)"
    proof (rule Cons.IH)
      show "distinct (map wfr_ch (filter (accepts d) ws))"
        using Cons.prems(1) True by simp
      have "wfr_ch w \<notin> wfr_ch ` set (filter (accepts d) ws)"
        using Cons.prems(1) True by simp
      then show "\<forall>v \<in> set ws. accepts d v \<longrightarrow> wfr_ch v \<notin> wcom_closed ?wc"
        using Cons.prems(2) by (auto simp: image_iff)
    qed
    then show ?thesis using True Cons.prems(2) by simp
  qed (use Cons in simp)
qed simp

lemma find_index_first: "wfr_ptr a = p \<Longrightarrow> find_index (\<lambda>x. wfr_ptr x = p) (a # ws) = Some 0"
  by simp

text \<open>
  Removing one of two requests leaves the slice with the other one twice.
\<close>

lemma remove_leaves_duplicate:
  assumes "wcom_m wc k = Some [a, b]" and "k = wcom_makeKey (wfr_from a) (wfr_cmd a)"
  shows "wcom_m (wcom_remove a wc) k = Some [b, b]"
  using assms by (simp add: wcom_remove_def wcom_exists_def Let_def shift_out_def)

text \<open>
  So when the first of two requests for the same answer times out and the answer arrives after
  that, \<open>check\<close> sends twice on the channel of the second, the second time after closing it.
\<close>

lemma timeout_then_answer_panics:
  assumes "wcom_m wc k = Some [a, b]" and "wfr_f b = None"
    and "k = wcom_makeKey (wfr_from a) (wfr_cmd a)" and "wfr_ch a \<notin> wcom_closed wc"
    and "k = wcom_makeKey (rd_from (rec_rd r)) (rd_cmd (rec_rd r))"
  shows "go_bind (wcom_timeout a wc) (wcom_check r) = Inl SendOnClosedChannel"
proof -
  have "wcom_timeout a wc = Inr (wc\<lparr>wcom_sent := wcom_sent wc @ [(wfr_ch a, None)],
      wcom_m := (wcom_m wc)(k \<mapsto> [b, b])\<rparr>)"
    using assms(1,3,4) by (simp add: wcom_timeout_def wcom_remove_def wcom_exists_def Let_def shift_out_def)
  then show ?thesis using assms(2) by (simp add: wcom_check_def assms(5) [symmetric] accepts_def)
qed

text \<open>
  A request whose function refuses the data of an answer is dropped with the others: it gets
  neither data nor, later, the timeout error.
\<close>

lemma refused_request_forgotten:
  assumes "wcom_m wc (wcom_makeKey (wfr_from w) (wfr_cmd w)) = Some [w]" and "wfr_f w = Some f"
    and "\<not> f (rd_data (rec_rd r))" and "rd_from (rec_rd r) = wfr_from w" and "rd_cmd (rec_rd r) = wfr_cmd w"
  shows "\<exists>wc'. go_bind (wcom_check r wc) (\<lambda>(n, wc1). wcom_timeout w wc1) = Inr wc'
    \<and> wcom_sent wc' = wcom_sent wc"
  using assms by (simp add: wcom_check_def Let_def accepts_def wcom_timeout_def wcom_exists_def)

section \<open>Properties\<close>



end
