(* ===== verification/TeoCli.thy ===== *)
theory TeoCli
  imports TrudpChannel
begin

text \<open>
  The L0 client: \<open>teocli/teocli\<close> (Go: \<open>packet.go\<close>, \<open>teonet_l0_client.go\<close>,
  \<open>teocli_run.go\<close>; C: \<open>packet.c\<close>, \<open>teonet_l0_client.c\<close>). The packet format, the
  reassembly of packets from a byte stream, sending in pieces, reading, and the peer data record.
\<close>

section \<open>The packet\<close>

record teoLNullCPacket =
  lh_cmd :: u8
  lh_peer_name_length :: u8
  lh_data_length :: u16
  lh_reserved_1 :: u8
  lh_reserved_2 :: u8
  lh_checksum :: u8
  lh_header_checksum :: u8

definition teoLNullHeaderSize :: nat where "teoLNullHeaderSize = 8"

definition CMD_L_ECHO :: u8 where "CMD_L_ECHO = 65"
definition CMD_L_ECHO_ANSWER :: u8 where "CMD_L_ECHO_ANSWER = 66"

definition lnull_header :: "teoLNullCPacket \<Rightarrow> bytes" where
  "lnull_header h = [lh_cmd h, lh_peer_name_length h] @ le16 (lh_data_length h)
     @ [lh_reserved_1 h, lh_reserved_2 h, lh_checksum h, lh_header_checksum h]"

definition lnull_header_of :: "bytes \<Rightarrow> teoLNullCPacket" where
  "lnull_header_of p =
     \<lparr> lh_cmd = p ! 0, lh_peer_name_length = p ! 1, lh_data_length = un16 (p ! 2) (p ! 3),
       lh_reserved_1 = p ! 4, lh_reserved_2 = p ! 5, lh_checksum = p ! 6,
       lh_header_checksum = p ! 7 \<rparr>"

definition get_byte_checksum :: "bytes \<Rightarrow> u8" where
  "get_byte_checksum b = sum_list b"

definition packetGetLength :: "bytes \<Rightarrow> nat" where
  "packetGetLength p = teoLNullHeaderSize + unat (lh_peer_name_length (lnull_header_of p))
     + unat (lh_data_length (lnull_header_of p))"

text \<open>\<open>packetCheck\<close> of the C file; an empty slice arrives as a null pointer.\<close>

definition packetCheck :: "bytes \<Rightarrow> int" where
  "packetCheck p =
     (if p = [] then -2
      else if length p \<le> teoLNullHeaderSize then -2
      else if lh_header_checksum (lnull_header_of p) \<noteq> get_byte_checksum (take (teoLNullHeaderSize - 1) p) then -3
      else if length p < packetGetLength p then -1
      else if lh_checksum (lnull_header_of p)
                \<noteq> get_byte_checksum (take (packetGetLength p - teoLNullHeaderSize) (drop teoLNullHeaderSize p)) then 1
      else 0)"

text \<open>
  \<open>teoLNullPacketCreate\<close>: the buffer it is given is zero; \<open>peer\<close> ends at its first NUL;
  the two length fields are truncated to their width, and the bytes copied are as many as the fields
  say. The result is the buffer and the length returned.
\<close>

definition teoLNullPacketCreate :: "nat \<Rightarrow> u8 \<Rightarrow> string \<Rightarrow> bytes \<Rightarrow> bytes \<times> nat" where
  "teoLNullPacketCreate buffer_length cmd peer data =
     (let name = takeWhile (\<lambda>x. x \<noteq> 0) (bytes_of peer) @ [0]
      in if buffer_length < teoLNullHeaderSize + length name + length data
         then (replicate buffer_length 0, 0)
         else
           let nl = of_nat (length name) :: u8;
               dl = of_nat (length data) :: u16;
               body = take (unat nl) name @ take (unat dl) data;
               h = \<lparr> lh_cmd = cmd, lh_peer_name_length = nl, lh_data_length = dl, lh_reserved_1 = 0,
                     lh_reserved_2 = 0, lh_checksum = get_byte_checksum body, lh_header_checksum = 0 \<rparr>;
               hc = get_byte_checksum (take (teoLNullHeaderSize - 1) (lnull_header h));
               pkg = lnull_header (h\<lparr>lh_header_checksum := hc\<rparr>) @ body
           in (pkg @ replicate (buffer_length - length pkg) 0, length pkg))"

definition PacketCreate :: "u8 \<Rightarrow> string \<Rightarrow> bytes \<Rightarrow> bytes \<times> string option" where
  "PacketCreate command peer data =
     (let bufferLength = teoLNullHeaderSize + (length peer + 1 + length data)
      in case teoLNullPacketCreate bufferLength command peer data of
           (buffer, lengh) \<Rightarrow>
             (buffer, if lengh \<noteq> length buffer then Some ''can't create packet'' else None))"

definition packetCreateString :: "u8 \<Rightarrow> string \<Rightarrow> string \<Rightarrow> bytes \<times> string option" where
  "packetCreateString command peer data = PacketCreate command peer (bytes_of data @ [0])"

definition packetCreateLogin :: "string \<Rightarrow> bytes \<times> string option" where
  "packetCreateLogin data = packetCreateString 0 '''' data"

text \<open>The echo packet carries the message and the time (milliseconds, 64 bits).\<close>

definition packetCreateEcho :: "u64 \<Rightarrow> string \<Rightarrow> string \<Rightarrow> bytes \<times> string option" where
  "packetCreateEcho now peer msg =
     (let bufferLength = teoLNullHeaderSize + (length peer + 1 + length msg + 1) + 8;
          msg_buf = takeWhile (\<lambda>x. x \<noteq> 0) (bytes_of msg) @ [0] @ le64 now
      in case teoLNullPacketCreate bufferLength CMD_L_ECHO peer msg_buf of
           (buffer, lengh) \<Rightarrow>
             (buffer, if lengh \<noteq> length buffer then Some ''can't create echo packet'' else None))"

text \<open>The getters of \<open>packet.go\<close>. They follow pointers into the buffer without a check.\<close>

definition lp_Command :: "bytes \<Rightarrow> u8 go" where
  "lp_Command p = (case p of [] \<Rightarrow> Inl IndexOutOfRange | c # _ \<Rightarrow> Inr c)"

definition lp_Name :: "bytes \<Rightarrow> string go" where
  "lp_Name p = (if p = [] then Inl IndexOutOfRange else c_string (drop teoLNullHeaderSize p))"

definition lp_Data :: "bytes \<Rightarrow> bytes go" where
  "lp_Data p =
     (if p = [] then Inl IndexOutOfRange
      else if length p < teoLNullHeaderSize \<or> length p < packetGetLength p then Inl ReadPastEnd
      else Inr (take (unat (lh_data_length (lnull_header_of p)))
                 (drop (teoLNullHeaderSize + unat (lh_peer_name_length (lnull_header_of p))) p)))"

definition lp_Triptime :: "u64 \<Rightarrow> bytes \<Rightarrow> (string + u64) go" where
  "lp_Triptime now p =
     (if p = [] then Inl IndexOutOfRange
      else if lh_cmd (lnull_header_of p) \<noteq> CMD_L_ECHO_ANSWER then Inr (Inl ''wrong packet command number'')
      else go_bind (lp_Data p) (\<lambda>d.
             if 0 \<notin> set d then Inl UnterminatedCString
             else let t = drop (length (takeWhile (\<lambda>x. x \<noteq> 0) d) + 1) d
                  in if length t < 8 then Inl ReadPastEnd else Inr (Inr (now - un64 t))))"

definition lp_PeersLength :: "bytes \<Rightarrow> int go" where
  "lp_PeersLength p = go_bind (lp_Data p) (\<lambda>d.
     case d of [] \<Rightarrow> Inl IndexOutOfRange
     | a # b # c # e # _ \<Rightarrow> Inr (uint (un32 a b c e))
     | _ \<Rightarrow> Inl ReadPastEnd)"

section \<open>The connection\<close>

text \<open>
  \<open>TeoLNull\<close>: the read buffer, and what was written to the connection, one element for each
  write (a TCP write, or a packet written to the TR-UDP channel).
\<close>

record TeoLNull =
  readBuffer :: bytes
  tcp :: bool
  written :: "bytes list"

definition lnull_Init :: "bool \<Rightarrow> TeoLNull" where
  "lnull_Init t = \<lparr> readBuffer = [], tcp = t, written = [] \<rparr>"

definition ResetReadBuf :: "TeoLNull \<Rightarrow> TeoLNull" where
  "ResetReadBuf teo = teo\<lparr>readBuffer := []\<rparr>"

definition PacketCheck :: "bytes \<Rightarrow> TeoLNull \<Rightarrow> (bytes option \<times> int) \<times> TeoLNull" where
  "PacketCheck pkt teo =
     (let rb = readBuffer teo
      in if rb = [] \<and> pkt = [] then ((None, -1), teo)
         else
           let retval = packetCheck pkt
           in if retval = 0 \<and> rb = []
              then ((Some (take (packetGetLength pkt) pkt), retval),
                    teo\<lparr>readBuffer := drop (packetGetLength pkt) pkt\<rparr>)
              else if (retval = -1 \<or> retval = -2) \<and> rb = []
              then ((None, -1), teo\<lparr>readBuffer := rb @ pkt\<rparr>)
              else if rb \<noteq> []
              then
                let buf = rb @ pkt; retval = packetCheck buf
                in if retval = 0
                   then ((Some (take (packetGetLength buf) buf), 0),
                         teo\<lparr>readBuffer := drop (packetGetLength buf) buf\<rparr>)
                   else if retval = 1 \<or> retval = -3 then ((None, 1), teo\<lparr>readBuffer := []\<rparr>)
                   else ((None, -1), teo\<lparr>readBuffer := buf\<rparr>)
              else ((None, retval), teo))"

text \<open>\<open>send\<close> cuts what it writes to a TR-UDP channel into pieces of 512 bytes.\<close>

function send_pieces :: "bytes \<Rightarrow> bytes list" where
  "send_pieces pkt =
     (if length pkt \<le> 512 then [pkt]
      else take 512 pkt # send_pieces (drop 512 pkt))"
  by pat_completeness auto
termination by (relation "measure length") auto

declare send_pieces.simps [simp del]

definition lnull_send :: "bytes \<Rightarrow> TeoLNull \<Rightarrow> nat \<times> TeoLNull" where
  "lnull_send pkt teo =
     (length pkt,
      teo\<lparr>written := written teo @ (if tcp teo then [pkt] else send_pieces pkt)\<rparr>)"

definition lnull_SendTo :: "string \<Rightarrow> u8 \<Rightarrow> bytes \<Rightarrow> TeoLNull \<Rightarrow> (string + nat) \<times> TeoLNull" where
  "lnull_SendTo peer command data teo =
     (case PacketCreate command peer data of
        (_, Some err) \<Rightarrow> (Inl err, teo)
      | (pkt, None) \<Rightarrow> (case lnull_send pkt teo of (n, teo') \<Rightarrow> (Inr n, teo')))"

definition SendEcho :: "u64 \<Rightarrow> string \<Rightarrow> string \<Rightarrow> TeoLNull \<Rightarrow> (string + nat) \<times> TeoLNull" where
  "SendEcho now peer msg teo =
     (case packetCreateEcho now peer msg of
        (_, Some err) \<Rightarrow> (Inl err, teo)
      | (pkt, None) \<Rightarrow> (case lnull_send pkt teo of (n, teo') \<Rightarrow> (Inr n, teo')))"

definition SendLogin :: "string \<Rightarrow> TeoLNull \<Rightarrow> (string + nat) \<times> TeoLNull" where
  "SendLogin name teo =
     (case packetCreateLogin name of
        (_, Some err) \<Rightarrow> (Inl err, teo)
      | (pkt, None) \<Rightarrow> (case lnull_send pkt teo of (n, teo') \<Rightarrow> (Inr n, teo')))"

definition lnull_sendEchoAnswer :: "bytes \<Rightarrow> TeoLNull \<Rightarrow> ((string + nat) \<times> TeoLNull) go" where
  "lnull_sendEchoAnswer pkt teo =
     (if pkt = [] then Inr (Inl ''empty echo packet'', teo)
      else go_bind (lp_Command pkt) (\<lambda>c.
        if c \<noteq> CMD_L_ECHO then Inr (Inl ''wrong echo packet command'', teo)
        else go_bind (lp_Name pkt) (\<lambda>from.
             go_bind (lp_Data pkt) (\<lambda>d.
             Inr (lnull_SendTo from CMD_L_ECHO_ANSWER d teo)))))"

text \<open>
  \<open>Read\<close>. What comes from outside is a list: blocks read from the TCP connection (an empty one
  when it is closed), or events of the TR-UDP channel. The result \<open>None\<close> means that \<open>Read\<close>
  waits for more.
\<close>

datatype lnullInput = TcpBlock bytes | TrudpEv trudpEvent bytes

definition read_check :: "bytes \<Rightarrow> TeoLNull \<Rightarrow> (bytes option \<times> TeoLNull) go" where
  "read_check pkt teo =
     (case PacketCheck pkt teo of
        ((None, _), teo') \<Rightarrow> Inr (None, teo')
      | ((Some p, _), teo') \<Rightarrow> go_bind (lnull_sendEchoAnswer p teo') (\<lambda>(_, teo''). Inr (Some p, teo'')))"

fun Read :: "lnullInput list \<Rightarrow> TeoLNull \<Rightarrow> ((string + bytes) option \<times> lnullInput list \<times> TeoLNull) go" where
  "Read ins teo = go_bind (read_check [] teo) (\<lambda>(r, teo).
     case r of Some p \<Rightarrow> Inr (Some (Inr p), ins, teo)
     | None \<Rightarrow>
       (case ins of
          [] \<Rightarrow> Inr (None, [], teo)
        | TcpBlock b # ins' \<Rightarrow>
            if b = [] then Inr (Some (Inl ''server disconnected''), ins', teo)
            else go_bind (read_check b teo) (\<lambda>(r, teo).
                   case r of Some p \<Rightarrow> Inr (Some (Inr p), ins', teo) | None \<Rightarrow> Read ins' teo)
        | TrudpEv ev d # ins' \<Rightarrow>
            (case ev of
               EvDisconnected \<Rightarrow>
                 Inr (Some (Inl (''channel with key '' @ string_of d @ '' disconnected'')), ins', teo)
             | EvResetLocal \<Rightarrow> Inr (Some (Inl ''need to reconnect''), ins', teo)
             | EvGotData \<Rightarrow> go_bind (read_check d teo) (\<lambda>(r, teo).
                   case r of Some p \<Rightarrow> Inr (Some (Inr p), ins', teo) | None \<Rightarrow> Read ins' teo)
             | _ \<Rightarrow> Read ins' teo)))"

declare Read.simps [simp del]

text \<open>
  The command loop of \<open>Run\<close>: every loaded command with the packet's number is called in turn
  until one returns true. The result is the list of the commands called.
\<close>

fun run_commands :: "(u8 \<times> (bytes \<Rightarrow> bool)) list \<Rightarrow> nat \<Rightarrow> bytes \<Rightarrow> nat list go" where
  "run_commands [] i pkt = Inr []"
| "run_commands ((c, com) # cs) i pkt = go_bind (lp_Command pkt) (\<lambda>cmd.
     if c = cmd
     then if com pkt then Inr [i]
          else go_bind (run_commands cs (i + 1) pkt) (\<lambda>r. Inr (i # r))
     else run_commands cs (i + 1) pkt)"

section \<open>Peer data\<close>

text \<open>
  \<open>ksnet_arp_data\<close>: not packed, so four bytes of padding stand between the port and the seven
  doubles. The doubles are kept as their bit patterns.
\<close>

definition ARP_TABLE_IP_SIZE :: nat where "ARP_TABLE_IP_SIZE = 48"
definition sizeof_ksnet_arp_data :: nat where "sizeof_ksnet_arp_data = 112"

definition PeerDataLength :: nat where
  "PeerDataLength = ARP_TABLE_IP_SIZE + sizeof_ksnet_arp_data"

text \<open>\<open>last_triptime\<close> is the fourth double. An address longer than its field overruns it.\<close>

definition PeerData :: "int \<Rightarrow> string \<Rightarrow> string \<Rightarrow> int \<Rightarrow> u64 \<Rightarrow> bytes go" where
  "PeerData mode peer ad port tt =
     (let arp = le16 (of_int mode) @ take ARP_TABLE_IP_SIZE (bytes_of ad @ replicate (ARP_TABLE_IP_SIZE - length ad) 0)
            @ le16 (of_int port) @ replicate 4 0 @ replicate 24 0 @ le64 tt @ replicate 24 0;
          cname = bytes_of peer;
          cname' = (if length cname < ARP_TABLE_IP_SIZE
                    then cname @ replicate (ARP_TABLE_IP_SIZE - length cname) 0
                    else take ARP_TABLE_IP_SIZE cname)
      in if length ad > ARP_TABLE_IP_SIZE then Inl ReadPastEnd else Inr (cname' @ arp))"

definition ParsePeerData :: "bytes \<Rightarrow> (int \<times> string \<times> string \<times> int \<times> u64) go" where
  "ParsePeerData d =
     (if length d \<le> ARP_TABLE_IP_SIZE then Inl IndexOutOfRange
      else if length d < PeerDataLength then Inl ReadPastEnd
      else
        let arp = drop ARP_TABLE_IP_SIZE d
        in go_bind (c_string d) (\<lambda>peer.
           go_bind (c_string (drop 2 arp)) (\<lambda>ad.
           Inr (sint (un16 (arp ! 0) (arp ! 1)), peer, ad, sint (un16 (arp ! 50) (arp ! 51)),
                un64 (drop 80 arp)))))"

section \<open>The packet format\<close>

definition good_packet :: "bytes \<Rightarrow> bool" where
  "good_packet p \<longleftrightarrow> packetCheck p = 0 \<and> length p = packetGetLength p"

lemma lnull_header_of_append [codec_simps]: "lnull_header_of (lnull_header h @ b) = h"
  by (simp add: lnull_header_def lnull_header_of_def le16_def)

lemma length_lnull_header [simp]: "length (lnull_header h) = 8"
  by (simp add: lnull_header_def)

lemma lnull_header_of_cong:
  assumes "take 8 p = take 8 q" and "8 \<le> length p" and "8 \<le> length q"
  shows "lnull_header_of p = lnull_header_of q"
proof -
  have "p ! i = q ! i" if "i < 8" for i
    using assms(1) that by (metis nth_take)
  then show ?thesis by (simp add: lnull_header_of_def)
qed

lemma packetCheck_long:
  "packetCheck p = 0 \<Longrightarrow> 8 < length p \<and> packetGetLength p \<le> length p"
  by (auto simp: packetCheck_def teoLNullHeaderSize_def split: if_splits)

lemma good_packet_length: "good_packet p \<Longrightarrow> 8 < length p"
  using packetCheck_long unfolding good_packet_def by blast

lemma good_packet_append:
  assumes "good_packet p"
  shows "packetCheck (p @ r) = 0" and "packetGetLength (p @ r) = length p"
proof -
  have l: "8 < length p" "length p = packetGetLength p" "packetCheck p = 0"
    using assms good_packet_length unfolding good_packet_def by blast+
  have h: "lnull_header_of (p @ r) = lnull_header_of p"
    using l(1) by (intro lnull_header_of_cong) auto
  show g: "packetGetLength (p @ r) = length p" using l(2) by (simp add: packetGetLength_def h)
  show "packetCheck (p @ r) = 0"
    using l by (auto simp: packetCheck_def g h teoLNullHeaderSize_def split: if_splits)
qed

lemma good_packet_prefix:
  assumes "good_packet p" and "k < length p"
  shows "packetCheck (take k p) = -1 \<or> packetCheck (take k p) = -2"
proof (cases "k \<le> 8")
  case True
  then show ?thesis by (auto simp: packetCheck_def teoLNullHeaderSize_def)
next
  case False
  have l: "8 < length p" "length p = packetGetLength p" "packetCheck p = 0"
    using assms good_packet_length unfolding good_packet_def by blast+
  have h: "lnull_header_of (take k p) = lnull_header_of p"
    using False l(1) by (intro lnull_header_of_cong) (auto simp: min_def)
  have g: "packetGetLength (take k p) = length p" using l(2) by (simp add: packetGetLength_def h)
  show ?thesis
    using l False assms(2)
    by (auto simp: packetCheck_def g h teoLNullHeaderSize_def min_def split: if_splits)
qed

text \<open>What \<open>PacketCreate\<close> writes when nothing is truncated.\<close>

definition lnull_ok :: "string \<Rightarrow> bytes \<Rightarrow> bool" where
  "lnull_ok peer data \<longleftrightarrow> nul_free peer \<and> length peer < 255 \<and> length data < 65536"

definition lnull_head :: "u8 \<Rightarrow> string \<Rightarrow> bytes \<Rightarrow> teoLNullCPacket" where
  "lnull_head cmd peer data =
     (let h = \<lparr> lh_cmd = cmd, lh_peer_name_length = of_nat (length peer + 1),
                lh_data_length = of_nat (length data), lh_reserved_1 = 0, lh_reserved_2 = 0,
                lh_checksum = get_byte_checksum (bytes_of peer @ 0 # data), lh_header_checksum = 0 \<rparr>
      in h\<lparr>lh_header_checksum := get_byte_checksum (take 7 (lnull_header h))\<rparr>)"

definition lnull_packet :: "u8 \<Rightarrow> string \<Rightarrow> bytes \<Rightarrow> bytes" where
  "lnull_packet cmd peer data = lnull_header (lnull_head cmd peer data) @ bytes_of peer @ 0 # data"

lemma lnull_lens:
  assumes "lnull_ok peer data"
  shows "unat (of_nat (length peer + 1) :: u8) = length peer + 1"
    and "unat (of_nat (length data) :: u16) = length data"
  using assms by (simp_all add: lnull_ok_def unat_of_nat del: of_nat_add of_nat_Suc)

lemma takeWhile_nul_free: "nul_free s \<Longrightarrow> takeWhile (\<lambda>x. x \<noteq> 0) (bytes_of s) = bytes_of s"
  by (rule takeWhile_eq_all_conv [THEN iffD2]) (auto simp: nul_free_bytes)

lemma PacketCreate_ok:
  assumes "lnull_ok peer data"
  shows "PacketCreate cmd peer data = (lnull_packet cmd peer data, None)"
proof -
  have n: "takeWhile (\<lambda>x. x \<noteq> 0) (bytes_of peer) = bytes_of peer"
    using assms by (simp add: lnull_ok_def takeWhile_nul_free)
  have "teoLNullPacketCreate (8 + (length peer + 1 + length data)) cmd peer data
     = (lnull_packet cmd peer data, 8 + (length peer + 1 + length data))"
    using lnull_lens [OF assms]
    by (simp add: teoLNullPacketCreate_def n teoLNullHeaderSize_def lnull_packet_def lnull_head_def Let_def)
  then show ?thesis
    by (simp add: PacketCreate_def teoLNullHeaderSize_def lnull_packet_def Let_def)
qed

lemma packetGetLength_lnull:
  assumes "lnull_ok peer data"
  shows "packetGetLength (lnull_packet cmd peer data) = length (lnull_packet cmd peer data)"
  using lnull_lens [OF assms]
  by (simp add: packetGetLength_def lnull_packet_def codec_simps lnull_head_def Let_def teoLNullHeaderSize_def)

lemma lnull_header_checksum_kept:
  "take 7 (lnull_header (h\<lparr>lh_header_checksum := c\<rparr>)) = take 7 (lnull_header h)"
  by (simp add: lnull_header_def le16_def)

lemma good_lnull_packet:
  assumes "lnull_ok peer data"
  shows "good_packet (lnull_packet cmd peer data)"
proof -
  have g: "packetGetLength (lnull_packet cmd peer data) = 8 + (length peer + 1 + length data)"
    using packetGetLength_lnull [OF assms, of cmd] by (simp add: lnull_packet_def)
  have "lh_header_checksum (lnull_head cmd peer data) =
      get_byte_checksum (take 7 (lnull_header (lnull_head cmd peer data)))"
    by (simp only: lnull_head_def Let_def lnull_header_checksum_kept) simp
  moreover have "lh_checksum (lnull_head cmd peer data) = get_byte_checksum (bytes_of peer @ 0 # data)"
    by (simp add: lnull_head_def Let_def)
  moreover have "lnull_header_of (lnull_packet cmd peer data) = lnull_head cmd peer data"
    by (simp add: lnull_packet_def codec_simps)
  moreover have "length (lnull_packet cmd peer data) = 8 + (length peer + 1 + length data)"
    and "take 7 (lnull_packet cmd peer data) = take 7 (lnull_header (lnull_head cmd peer data))"
    and "drop 8 (lnull_packet cmd peer data) = bytes_of peer @ 0 # data"
    by (simp_all add: lnull_packet_def)
  ultimately show ?thesis
    by (auto simp: good_packet_def packetCheck_def g teoLNullHeaderSize_def)
qed

lemma getters_lnull_packet [codec_simps]:
  assumes "lnull_ok peer data"
  shows "lp_Command (lnull_packet cmd peer data) = Inr cmd"
    and "lp_Name (lnull_packet cmd peer data) = Inr peer"
    and "lp_Data (lnull_packet cmd peer data) = Inr data"
proof -
  show "lp_Command (lnull_packet cmd peer data) = Inr cmd"
    by (simp add: lp_Command_def lnull_packet_def lnull_header_def lnull_head_def Let_def)
  show "lp_Name (lnull_packet cmd peer data) = Inr peer"
    using assms by (simp add: lp_Name_def lnull_packet_def teoLNullHeaderSize_def c_string_bytes_of lnull_ok_def)
  show "lp_Data (lnull_packet cmd peer data) = Inr data"
    using packetGetLength_lnull [OF assms, of cmd] lnull_lens [OF assms]
    by (simp add: lp_Data_def) (simp add: lnull_packet_def codec_simps lnull_head_def Let_def teoLNullHeaderSize_def)
qed

section \<open>Reassembly\<close>

text \<open>
  When the bytes held and the new ones are the beginning of a packet or reach past it, the reader
  returns the packet exactly when it is complete and keeps everything else.
\<close>

lemma PacketCheck_spec:
  assumes p: "good_packet p" and pre: "readBuffer teo @ b @ later = p @ rest"
  shows "PacketCheck b teo =
     (if length p \<le> length (readBuffer teo @ b)
      then ((Some p, 0), teo\<lparr>readBuffer := drop (length p) (readBuffer teo @ b)\<rparr>)
      else ((None, -1), teo\<lparr>readBuffer := readBuffer teo @ b\<rparr>))"
proof (cases "length p \<le> length (readBuffer teo @ b)")
  case True
  let ?buf = "readBuffer teo @ b"
  obtain r where r: "?buf = p @ r"
    using pre True by (metis append_assoc append_eq_append_conv_if append_take_drop_id)
  have c: "packetCheck ?buf = 0" "packetGetLength ?buf = length p"
    using good_packet_append [OF p, of r] by (simp_all add: r)
  have ne: "p \<noteq> []" using good_packet_length [OF p] by auto
  show ?thesis
  proof (cases "readBuffer teo = []")
    case True
    then have b: "b = p @ r" using r by simp
    then show ?thesis
      using c good_packet_append [OF p, of r] True ne by (simp add: PacketCheck_def Let_def)
  next
    case False
    then show ?thesis
      using c r True ne by (simp add: PacketCheck_def Let_def)
  qed
next
  case False
  let ?buf = "readBuffer teo @ b"
  have t: "?buf = take (length ?buf) p"
    using pre False
    by (metis append_assoc append_eq_conv_conj le_cases take_append take_all append_Nil2 length_append diff_is_0_eq take_0)
  have c: "packetCheck ?buf = -1 \<or> packetCheck ?buf = -2"
    using good_packet_prefix [OF p, of "length ?buf"] False t by (metis not_le)
  show ?thesis
  proof (cases "readBuffer teo = []")
    case True
    then have "packetCheck b = -1 \<or> packetCheck b = -2" using c by simp
    then show ?thesis using True False by (cases "b = []") (auto simp: PacketCheck_def Let_def)
  next
    case nrb: False
    then show ?thesis using c False by (auto simp: PacketCheck_def Let_def)
  qed
qed

text \<open>The answer to an echo command, and the effect of a packet on the connection.\<close>

definition echo_pieces :: "bool \<Rightarrow> u8 \<times> string \<times> bytes \<Rightarrow> bytes list" where
  "echo_pieces t m = (case m of (cmd, peer, data) \<Rightarrow>
     if cmd \<noteq> CMD_L_ECHO then []
     else let p = lnull_packet CMD_L_ECHO_ANSWER peer data in if t then [p] else send_pieces p)"

definition msg_packet :: "u8 \<times> string \<times> bytes \<Rightarrow> bytes" where
  "msg_packet m = (case m of (cmd, peer, data) \<Rightarrow> lnull_packet cmd peer data)"

definition msg_ok :: "u8 \<times> string \<times> bytes \<Rightarrow> bool" where
  "msg_ok m = (case m of (cmd, peer, data) \<Rightarrow> lnull_ok peer data)"

lemma lnull_SendTo_ok:
  "lnull_ok peer data \<Longrightarrow> lnull_SendTo peer cmd data teo =
     (Inr (length (lnull_packet cmd peer data)),
      teo\<lparr>written := written teo @ (if tcp teo then [lnull_packet cmd peer data]
                                   else send_pieces (lnull_packet cmd peer data))\<rparr>)"
  by (simp add: lnull_SendTo_def PacketCreate_ok lnull_send_def)

lemma sendEchoAnswer_msg:
  assumes "msg_ok m"
  shows "\<exists>r. lnull_sendEchoAnswer (msg_packet m) teo = Inr (r, teo\<lparr>written := written teo @ echo_pieces (tcp teo) m\<rparr>)"
proof -
  obtain cmd peer data where m: "m = (cmd, peer, data)" by (cases m)
  have ne: "lnull_packet cmd peer data \<noteq> []" by (simp add: lnull_packet_def)
  show ?thesis
    using assms ne
    by (simp add: m msg_ok_def msg_packet_def lnull_sendEchoAnswer_def codec_simps lnull_SendTo_ok
        echo_pieces_def Let_def)
qed

lemma read_check_spec:
  assumes m: "msg_ok m" and pre: "readBuffer teo @ b @ later = msg_packet m @ rest"
  shows "read_check b teo = Inr
     (if length (msg_packet m) \<le> length (readBuffer teo @ b)
      then (Some (msg_packet m), teo\<lparr>readBuffer := drop (length (msg_packet m)) (readBuffer teo @ b),
              written := written teo @ echo_pieces (tcp teo) m\<rparr>)
      else (None, teo\<lparr>readBuffer := readBuffer teo @ b\<rparr>))"
proof -
  have g: "good_packet (msg_packet m)"
    using m by (cases m) (simp add: msg_ok_def msg_packet_def good_lnull_packet)
  obtain r where r: "lnull_sendEchoAnswer (msg_packet m)
      (teo\<lparr>readBuffer := drop (length (msg_packet m)) (readBuffer teo @ b)\<rparr>) = Inr (r,
      teo\<lparr>readBuffer := drop (length (msg_packet m)) (readBuffer teo @ b),
        written := written teo @ echo_pieces (tcp teo) m\<rparr>)"
    using sendEchoAnswer_msg [OF m, of "teo\<lparr>readBuffer := drop (length (msg_packet m)) (readBuffer teo @ b)\<rparr>"]
    by auto
  show ?thesis
    by (simp add: read_check_def PacketCheck_spec [OF g pre] r del: length_append drop_append)
qed

fun payload :: "lnullInput \<Rightarrow> bytes" where
  "payload (TcpBlock b) = b"
| "payload (TrudpEv ev d) = (if ev = EvGotData then d else [])"

fun live_input :: "lnullInput \<Rightarrow> bool" where
  "live_input (TcpBlock b) \<longleftrightarrow> b \<noteq> []"
| "live_input (TrudpEv ev d) \<longleftrightarrow> ev \<noteq> EvDisconnected \<and> ev \<noteq> EvResetLocal"

definition arriving :: "lnullInput list \<Rightarrow> bytes" where
  "arriving ins = concat (map payload ins)"

lemma arriving_simps [simp]: "arriving [] = []" "arriving (i # ins) = payload i @ arriving ins"
  by (simp_all add: arriving_def)

lemma read_check_nothing: "readBuffer teo = [] \<Longrightarrow> read_check [] teo = Inr (None, teo)"
  by (simp add: read_check_def PacketCheck_def)

lemma msg_packet_ne: "msg_packet m \<noteq> []"
  by (cases m) (simp add: msg_packet_def lnull_packet_def)

text \<open>One \<open>Read\<close>: the next packet of the stream, whatever blocks it comes in.\<close>

definition read_step :: "lnullInput list \<Rightarrow> TeoLNull \<Rightarrow> u8 \<times> string \<times> bytes \<Rightarrow> bytes
    \<Rightarrow> lnullInput list \<Rightarrow> TeoLNull \<Rightarrow> bool" where
  "read_step ins teo m rest ins' teo' \<longleftrightarrow>
     readBuffer teo' @ arriving ins' = rest \<and> list_all live_input ins' \<and> tcp teo' = tcp teo
     \<and> written teo' = written teo @ echo_pieces (tcp teo) m"

lemma Read_next:
  assumes m: "msg_ok m" and "list_all live_input ins"
    and "readBuffer teo @ arriving ins = msg_packet m @ rest"
  shows "\<exists>ins' teo'. Read ins teo = Inr (Some (Inr (msg_packet m)), ins', teo')
     \<and> read_step ins teo m rest ins' teo'"
  using assms(2,3)
proof (induction ins arbitrary: teo)
  case Nil
  have "read_check [] teo = Inr (Some (msg_packet m),
      teo\<lparr>readBuffer := rest, written := written teo @ echo_pieces (tcp teo) m\<rparr>)"
    using read_check_spec [OF m, of teo "[]" "[]" rest] Nil by simp
  then show ?case by (simp add: Read.simps [of _ teo] read_step_def)
next
  case (Cons i ins)
  let ?p = "msg_packet m"
  have first: "read_check [] teo = Inr
     (if length ?p \<le> length (readBuffer teo)
      then (Some ?p, teo\<lparr>readBuffer := drop (length ?p) (readBuffer teo),
              written := written teo @ echo_pieces (tcp teo) m\<rparr>)
      else (None, teo))"
    using read_check_spec [OF m, of teo "[]" "arriving (i # ins)" rest] Cons.prems(2) by simp
  show ?case
  proof (cases "length ?p \<le> length (readBuffer teo)")
    case True
    have "drop (length ?p) (readBuffer teo) @ arriving (i # ins) = rest"
      using Cons.prems(2) True by (metis append_eq_append_conv_if append_take_drop_id same_append_eq)
    then show ?thesis using first True Cons.prems(1) by (simp add: Read.simps [of _ teo] read_step_def)
  next
    case False
    define b where "b = payload i"
    let ?buf = "readBuffer teo @ b"
    have pre: "readBuffer teo @ b @ arriving ins = ?p @ rest"
      using Cons.prems(2) by (simp add: b_def)
    note rc = read_check_spec [OF m pre]
    have keep: "\<exists>ins' teo'. Read ins (teo\<lparr>readBuffer := ?buf\<rparr>) = Inr (Some (Inr ?p), ins', teo')
       \<and> read_step (i # ins) teo m rest ins' teo'"
      using Cons.IH [of "teo\<lparr>readBuffer := ?buf\<rparr>"] Cons.prems(1) pre by (simp add: read_step_def)
    have got: "drop (length ?p) ?buf @ arriving ins = rest" if "length ?p \<le> length ?buf"
    proof -
      have "?buf @ arriving ins = ?p @ rest" using pre by simp
      then show ?thesis using that
        by (metis append_eq_append_conv_if append_take_drop_id same_append_eq)
    qed
    have via: "\<exists>ins' teo'. go_bind (read_check b teo) (\<lambda>(r, teo).
          case r of Some p \<Rightarrow> Inr (Some (Inr p), ins, teo) | None \<Rightarrow> Read ins teo)
        = Inr (Some (Inr ?p), ins', teo') \<and> read_step (i # ins) teo m rest ins' teo'"
    proof (cases "length ?p \<le> length ?buf")
      case True
      then show ?thesis using rc got [OF True] Cons.prems(1) by (simp add: read_step_def)
    next
      case False
      then show ?thesis using rc keep by simp
    qed
    have skip: "Read (i # ins) teo = Read ins teo" if "\<exists>ev d. i = TrudpEv ev d \<and> ev \<noteq> EvGotData"
      using that first False Cons.prems(1)
      by (auto simp: Read.simps [of "x # ins" teo for x] split: trudpEvent.split)
    show ?thesis
    proof (cases "\<exists>ev d. i = TrudpEv ev d \<and> ev \<noteq> EvGotData")
      case True
      then have "b = []" by (auto simp: b_def)
      then show ?thesis using skip [OF True] keep by simp
    next
      case nskip: False
      have "Read (i # ins) teo = go_bind (read_check b teo) (\<lambda>(r, teo).
          case r of Some p \<Rightarrow> Inr (Some (Inr p), ins, teo) | None \<Rightarrow> Read ins teo)"
        using nskip first False Cons.prems(1)
        by (cases i) (auto simp: Read.simps [of "x # ins" teo for x] b_def split: trudpEvent.split if_splits)
      then show ?thesis using via by simp
    qed
  qed
qed

lemma Read_waits:
  assumes "list_all live_input ins" and "readBuffer teo = []" and "arriving ins = []"
  shows "Read ins teo = Inr (None, [], teo)"
  using assms
proof (induction ins)
  case Nil
  then show ?case by (simp add: Read.simps [of _ teo] read_check_nothing)
next
  case (Cons i ins)
  then show ?case
    by (cases i) (auto simp: Read.simps [of _ teo] read_check_nothing split: trudpEvent.split if_splits)
qed

text \<open>\<open>Read\<close> called again and again.\<close>

fun reads :: "nat \<Rightarrow> lnullInput list \<Rightarrow> TeoLNull \<Rightarrow> ((string + bytes) option list \<times> lnullInput list \<times> TeoLNull) go" where
  "reads 0 ins teo = Inr ([], ins, teo)"
| "reads (Suc n) ins teo = go_bind (Read ins teo) (\<lambda>(r, ins, teo).
     go_bind (reads n ins teo) (\<lambda>(rs, ins, teo). Inr (r # rs, ins, teo)))"

lemma reads_spec:
  assumes "list_all msg_ok ms" and "list_all live_input ins"
    and "readBuffer teo @ arriving ins = concat (map msg_packet ms) @ rest"
  shows "\<exists>ins' teo'. reads (length ms) ins teo = Inr (map (\<lambda>m. Some (Inr (msg_packet m))) ms, ins', teo')
     \<and> readBuffer teo' @ arriving ins' = rest \<and> list_all live_input ins'
     \<and> written teo' = written teo @ concat (map (echo_pieces (tcp teo)) ms)"
  using assms
proof (induction ms arbitrary: ins teo)
  case (Cons m ms)
  have "readBuffer teo @ arriving ins = msg_packet m @ (concat (map msg_packet ms) @ rest)"
    using Cons.prems(3) by simp
  then obtain ins1 teo1 where 1: "Read ins teo = Inr (Some (Inr (msg_packet m)), ins1, teo1)"
    "read_step ins teo m (concat (map msg_packet ms) @ rest) ins1 teo1"
    using Read_next [of m ins teo] Cons.prems(1,2) by force
  then show ?case
    using Cons.IH [of ins1 teo1] Cons.prems(1) by (auto simp: read_step_def)
qed simp

section \<open>Errors of \<open>PacketCreate\<close>, pieces, peer data\<close>

lemma length_send_pieces: "b \<in> set (send_pieces p) \<Longrightarrow> length b \<le> 512"
  by (induction p rule: send_pieces.induct) (subst (asm) (2) send_pieces.simps, auto split: if_splits)

lemma concat_send_pieces: "concat (send_pieces p) = p"
  by (induction p rule: send_pieces.induct) (subst send_pieces.simps, simp)

lemma unat_of_nat_length_mod:
  "unat (of_nat n :: u8) = n mod 256" "unat (of_nat n :: u16) = n mod 65536"
  by (simp_all add: unat_of_nat)

lemma takeWhile_length_eq: "length (takeWhile P xs) = length xs \<longleftrightarrow> (\<forall>x \<in> set xs. P x)"
  by (metis takeWhile_eq_all_conv takeWhile_eq_take take_all_iff le_refl)

lemma PacketCreate_lengths:
  assumes "n = length (takeWhile (\<lambda>x. x \<noteq> 0) (bytes_of peer)) + 1"
  shows "snd (PacketCreate cmd peer data) = None \<longleftrightarrow>
     n mod 256 + length data mod 65536 = length peer + 1 + length data"
proof -
  define N where "N = takeWhile (\<lambda>x. x \<noteq> 0) (bytes_of peer) @ [0]"
  have n: "length N = n" using assms by (simp add: N_def)
  have le: "n \<le> length peer + 1"
    using length_takeWhile_le [of "\<lambda>x. x \<noteq> 0" "bytes_of peer"] assms by simp
  let ?d = "length data mod 65536" let ?n = "n mod 256" let ?bl = "8 + (length peer + 1 + length data)"
  have m: "?n \<le> n" "?d \<le> length data" by simp_all
  have "snd (teoLNullPacketCreate ?bl cmd peer data) = 8 + (?n + ?d)"
    "length (fst (teoLNullPacketCreate ?bl cmd peer data)) = ?bl"
    using le m n by (simp_all add: teoLNullPacketCreate_def N_def [symmetric] Let_def teoLNullHeaderSize_def
        unat_of_nat_length_mod min_absorb2)
  then show ?thesis
    using le m by (auto simp: PacketCreate_def Let_def teoLNullHeaderSize_def split: prod.split)
qed

lemma PacketCreate_error_iff: "snd (PacketCreate cmd peer data) = None \<longleftrightarrow> lnull_ok peer data"
proof -
  define n where "n = length (takeWhile (\<lambda>x. x \<noteq> 0) (bytes_of peer)) + 1"
  have le: "n \<le> length peer + 1"
    using length_takeWhile_le [of "\<lambda>x. x \<noteq> 0" "bytes_of peer"] by (simp add: n_def)
  have m: "n mod 256 \<le> n" "length data mod 65536 \<le> length data" by simp_all
  have nf: "nul_free peer \<longleftrightarrow> n = length peer + 1"
    using takeWhile_length_eq [of "\<lambda>x. x \<noteq> 0" "bytes_of peer"] by (auto simp: n_def nul_free_bytes)
  have "n mod 256 = n \<longleftrightarrow> n < 256" "length data mod 65536 = length data \<longleftrightarrow> length data < 65536"
    using mod_less_divisor [of 256 n] mod_less_divisor [of 65536 "length data"] by (auto simp: mod_less)
  then have "n mod 256 + length data mod 65536 = length peer + 1 + length data \<longleftrightarrow> lnull_ok peer data"
    using le m nf unfolding lnull_ok_def by linarith
  then show ?thesis using PacketCreate_lengths [OF n_def] by simp
qed

text \<open>The header of an L0 packet is a codec like the integers it is made of.\<close>

definition rd_lnull_header :: "bytes \<Rightarrow> teoLNullCPacket option \<times> bytes" where
  "rd_lnull_header b = (if 8 \<le> length b then (Some (lnull_header_of b), drop 8 b) else (None, []))"

interpretation lnull_header_codec: codec lnull_header rd_lnull_header "\<lambda>_. True"
  by unfold_locales (simp add: rd_lnull_header_def codec_simps)

text \<open>The echo answer carries the time of the echo back.\<close>

lemma Triptime_echo:
  assumes "lnull_ok peer (bytes_of msg @ 0 # le64 t)" and "nul_free msg"
  shows "lp_Triptime now (lnull_packet CMD_L_ECHO_ANSWER peer (bytes_of msg @ 0 # le64 t)) = Inr (Inr (now - t))"
proof -
  let ?d = "bytes_of msg @ 0 # le64 t"
  let ?p = "lnull_packet CMD_L_ECHO_ANSWER peer ?d"
  have ne: "?p \<noteq> []" by (simp add: lnull_packet_def)
  have c: "lh_cmd (lnull_header_of ?p) = CMD_L_ECHO_ANSWER"
    by (simp add: lnull_packet_def codec_simps lnull_head_def Let_def)
  have w: "takeWhile (\<lambda>x. x \<noteq> 0) ?d = bytes_of msg"
    using assms(2) by (subst takeWhile_append2) (auto simp: nul_free_bytes)
  have l: "length (le64 t) = 8" by (simp add: le64_def)
  show ?thesis
    using un64_le64 [of t "[]"] assms(1)
    by (simp add: lp_Triptime_def ne c codec_simps w Let_def l)
qed

definition peer_data_ok :: "int \<Rightarrow> string \<Rightarrow> string \<Rightarrow> int \<Rightarrow> bool" where
  "peer_data_ok mode peer ad port \<longleftrightarrow>
     nul_free peer \<and> nul_free ad \<and> length peer < 48 \<and> length ad < 48
     \<and> - (2 ^ 15) \<le> mode \<and> mode < 2 ^ 15 \<and> - (2 ^ 15) \<le> port \<and> port < 2 ^ 15"

lemma sint_u16_of_int: "- (2 ^ 15) \<le> i \<Longrightarrow> i < 2 ^ 15 \<Longrightarrow> sint (of_int i :: u16) = i"
  by (simp add: signed_of_int signed_take_bit_int_eq_self)

lemma ParsePeerData_PeerData:
  assumes "nul_free peer" "nul_free ad" "length peer < 48" "length ad < 48"
  shows "\<exists>d. PeerData mode peer ad port tt = Inr d \<and> length d = PeerDataLength
     \<and> ParsePeerData d = Inr (sint (of_int mode :: u16), peer, ad, sint (of_int port :: u16), tt)"
proof -
  define tl where "tl = replicate 4 (0::u8) @ replicate 24 0 @ le64 tt @ replicate 24 0"
  define adr where "adr = bytes_of ad @ replicate (48 - length ad) 0"
  define arp where "arp = le16 (of_int mode) @ adr @ le16 (of_int port) @ tl"
  define nm where "nm = bytes_of peer @ replicate (48 - length peer) 0"
  have la: "length adr = 48" and ln: "length nm = 48" and lt: "length tl = 60"
    using assms by (simp_all add: adr_def nm_def tl_def le64_def)
  have lrp: "length arp = 112" and ne: "arp \<noteq> []" by (auto simp: arp_def la lt le16_def)
  have d: "PeerData mode peer ad port tt = Inr (nm @ arp)"
    using assms la by (simp add: PeerData_def ARP_TABLE_IP_SIZE_def nm_def arp_def adr_def tl_def Let_def)
  have rep: "replicate k (0::u8) = 0 # replicate (k - 1) 0" if "0 < k" for k
    using that by (cases k) simp_all
  have c1: "c_string (nm @ arp) = Inr peer"
    using c_string_bytes_of [OF assms(1)] assms(3) by (simp add: nm_def rep [of "48 - length peer"])
  have d2: "drop 2 arp = adr @ le16 (of_int port) @ tl" by (simp add: arp_def)
  have c2: "c_string (drop 2 arp) = Inr ad"
    using c_string_bytes_of [OF assms(2)] assms(4) by (simp add: d2 adr_def rep [of "48 - length ad"])
  have m: "un16 (arp ! 0) (arp ! 1) = of_int mode" by (simp add: arp_def le16_def)
  have p: "un16 (arp ! 50) (arp ! 51) = of_int port"
    using la by (simp add: arp_def le16_def nth_append nth_Cons')
  have t: "un64 (drop 80 arp) = tt"
    using la by (simp add: arp_def tl_def codec_simps)
  have "ParsePeerData (nm @ arp) = Inr (sint (of_int mode :: u16), peer, ad, sint (of_int port :: u16), tt)"
    using c1 c2 m p t ln lrp ne
    by (simp add: ParsePeerData_def PeerDataLength_def ARP_TABLE_IP_SIZE_def sizeof_ksnet_arp_data_def Let_def)
  then show ?thesis using d ln lrp
    by (simp add: PeerDataLength_def ARP_TABLE_IP_SIZE_def sizeof_ksnet_arp_data_def)
qed

text \<open>A port from 32768 up comes back negative: the field is a signed 16-bit integer.\<close>

lemma peer_port_negative:
  "\<exists>d. PeerData 0 ''a'' ''b'' 40000 0 = Inr d \<and> ParsePeerData d = Inr (0, ''a'', ''b'', -25536, 0)"
  using ParsePeerData_PeerData [of "''a''" "''b''" 0 40000 0]
  by (auto simp: nul_free_def byte_of_char_def)

section \<open>Properties\<close>

text \<open>The L0 packet codec. \<open>PacketCreate\<close> succeeds exactly for a peer name of at most 254 characters
  without NUL and at most 65535 bytes of data, and then the packet passes \<open>packetCheck\<close>, its length is
  the one its header states, and the getters return the command, the peer and the data.\<close>

lemma lnull_create_exact:
  "(snd (PacketCreate cmd peer data) = None \<longleftrightarrow> nul_free peer \<and> length peer < 255 \<and> length data < 65536)
   \<and> (\<forall>p. PacketCreate cmd peer data = (p, None) \<longrightarrow>
        packetCheck p = 0 \<and> packetGetLength p = length p
        \<and> lp_Command p = Inr cmd \<and> lp_Name p = Inr peer \<and> lp_Data p = Inr data)"
proof (intro conjI allI impI)
  show "snd (PacketCreate cmd peer data) = None \<longleftrightarrow> nul_free peer \<and> length peer < 255 \<and> length data < 65536"
    using PacketCreate_error_iff by (simp add: lnull_ok_def)
next
  fix p
  assume c: "PacketCreate cmd peer data = (p, None)"
  then have ok: "lnull_ok peer data" using PacketCreate_error_iff [of cmd peer data] by simp
  then have p: "p = lnull_packet cmd peer data" using c PacketCreate_ok [OF ok] by simp
  show "packetCheck p = 0" and "packetGetLength p = length p"
    using good_lnull_packet [OF ok] by (simp_all add: p good_packet_def)
  show "lp_Command p = Inr cmd" "lp_Name p = Inr peer" "lp_Data p = Inr data"
    using getters_lnull_packet [OF ok] by (simp_all add: p)
qed

lemma lnull_create_exact_example:
  "\<exists>p. PacketCreate 129 ''teo-db'' [1, 2, 0] = (p, None) \<and> lp_Data p = Inr [1, 2, 0]"
proof -
  have "snd (PacketCreate 129 ''teo-db'' [1, 2, 0]) = None"
    using lnull_create_exact [of 129 "''teo-db''" "[1, 2, 0]"] by (simp add: nul_free_def byte_of_char_def)
  then obtain p where p: "PacketCreate 129 ''teo-db'' [1, 2, 0] = (p, None)"
    by (metis prod.collapse)
  then show ?thesis using lnull_create_exact [of 129 "''teo-db''" "[1, 2, 0]"] by blast
qed

text \<open>C16: the byte stream of a connection is cut back into packets. Let the packets that
  \<open>PacketCreate\<close> made of some messages arrive one after the other in any blocks (TCP) or data
  events (TR-UDP), cut anywhere, mixed with other events. Then as many calls of \<open>Read\<close> return these
  messages' packets in order, the next call waits with nothing buffered, and the only thing written
  to the connection is one echo answer with the same data for each echo command, in the same order.\<close>

theorem read_recovers_stream:
  assumes "\<forall>(cmd, peer, data) \<in> set ms. snd (PacketCreate cmd peer data) = None"
    and "list_all live_input ins"
    and "arriving ins = concat (map (\<lambda>(cmd, peer, data). fst (PacketCreate cmd peer data)) ms)"
  shows "\<exists>ins' teo'. reads (length ms) ins (lnull_Init t) =
       Inr (map (\<lambda>(cmd, peer, data). Some (Inr (fst (PacketCreate cmd peer data)))) ms, ins', teo')
     \<and> Read ins' teo' = Inr (None, [], teo') \<and> readBuffer teo' = []
     \<and> concat (written teo') = concat (map (\<lambda>(cmd, peer, data).
          if cmd = CMD_L_ECHO then fst (PacketCreate CMD_L_ECHO_ANSWER peer data) else []) ms)"
proof -
  have ok: "list_all msg_ok ms"
    using assms(1) by (auto simp: list_all_iff msg_ok_def PacketCreate_error_iff)
  have pk: "fst (PacketCreate c p d) = lnull_packet c p d" if "msg_ok (cmd, p, d)" for c cmd p d
    using that by (simp add: msg_ok_def PacketCreate_ok)
  have m1: "map (\<lambda>(cmd, peer, data). fst (PacketCreate cmd peer data)) ms = map msg_packet ms"
    using ok by (auto simp: list_all_iff pk msg_packet_def)
  have m2: "map (\<lambda>(cmd, peer, data). Some (Inr (fst (PacketCreate cmd peer data)))) ms
      = map (\<lambda>m. Some (Inr (msg_packet m)) :: (string + bytes) option) ms"
    using ok by (auto simp: list_all_iff pk msg_packet_def)
  have m3: "map (\<lambda>(cmd, peer, data). if cmd = CMD_L_ECHO then fst (PacketCreate CMD_L_ECHO_ANSWER peer data) else []) ms
      = map (\<lambda>m. concat (echo_pieces t m)) ms"
    using ok by (auto simp: list_all_iff pk echo_pieces_def concat_send_pieces Let_def)
  obtain ins' teo' where r: "reads (length ms) ins (lnull_Init t)
       = Inr (map (\<lambda>m. Some (Inr (msg_packet m))) ms, ins', teo')"
    "readBuffer teo' @ arriving ins' = []" "list_all live_input ins'"
    "written teo' = concat (map (echo_pieces t) ms)"
    using reads_spec [OF ok assms(2), of "lnull_Init t" "[]"] assms(3)
    by (auto simp: m1 lnull_Init_def)
  have w: "Read ins' teo' = Inr (None, [], teo')" using r(2,3) by (intro Read_waits) auto
  have "concat (written teo') = concat (map (\<lambda>m. concat (echo_pieces t m)) ms)"
    unfolding r(4) by (induction ms) auto
  then show ?thesis using r(1,2) w by (auto simp: m2 m3)
qed

theorem read_recovers_stream_witness:
  "let p = fst (PacketCreate 65 ''ps'' [7]);
       ins = [TrudpEv EvGotData (take 3 p), TrudpEv EvGotPing [1], TrudpEv EvGotData (drop 3 p)]
   in \<exists>ins' teo'. reads 1 ins (lnull_Init False) = Inr ([Some (Inr p)], ins', teo')
     \<and> Read ins' teo' = Inr (None, [], teo') \<and> readBuffer teo' = []
     \<and> concat (written teo') = fst (PacketCreate 66 ''ps'' [7])"
proof -
  let ?p = "fst (PacketCreate 65 ''ps'' [7])"
  let ?ins = "[TrudpEv EvGotData (take 3 ?p), TrudpEv EvGotPing [1], TrudpEv EvGotData (drop 3 ?p)]"
  have ok: "snd (PacketCreate 65 ''ps'' [7]) = None"
    by (simp add: PacketCreate_error_iff lnull_ok_def nul_free_def byte_of_char_def)
  show ?thesis
    using read_recovers_stream [of "[(65, ''ps'', [7])]" ?ins False] ok
    by (simp add: Let_def CMD_L_ECHO_def CMD_L_ECHO_ANSWER_def)
qed

text \<open>Peer data. Parsing the record that \<open>PeerData\<close> makes returns the mode, name, address, port
  and trip time, for names and addresses of at most 47 characters without NUL and for a mode and a port
  in the range of a signed 16-bit integer.\<close>

lemma peer_data_roundtrip:
  assumes "peer_data_ok mode peer ad port"
  shows "\<exists>d. PeerData mode peer ad port tt = Inr d \<and> length d = PeerDataLength
     \<and> ParsePeerData d = Inr (mode, peer, ad, port, tt)"
  using assms ParsePeerData_PeerData [of peer ad mode port tt]
  by (simp add: peer_data_ok_def sint_u16_of_int del: signed_of_int)

lemma peer_data_roundtrip_example:
  "\<exists>d. PeerData (-1) ''ps'' ''10.0.0.1'' 9010 7 = Inr d \<and> length d = PeerDataLength
     \<and> ParsePeerData d = Inr (-1, ''ps'', ''10.0.0.1'', 9010, 7)"
  by (rule peer_data_roundtrip) (simp add: peer_data_ok_def nul_free_def byte_of_char_def)

end
