(* ===== verification/L0Server.thy ===== *)
theory L0Server
  imports TeoCli Users "HOL-Library.AList" "HOL-Library.List_Lexorder" "HOL-Library.Char_ord"
begin

text \<open>
  The L0 server, which connects clients to the network: \<open>teonet/teonet/l0_client.go\<close> (the maps of
  clients), \<open>l0_send.go\<close> (the codec of the commands that carry a client's packet, sending to a
  client), \<open>l0_process.go\<close> (received packets), \<open>l0_command.go\<close> and \<open>l0_auth.go\<close>. Clients are
  objects behind pointers: a heap with references. Packets are processed one at a time.
\<close>

section \<open>State\<close>

text \<open>A connection is a TCP connection, a TR-UDP channel or a websocket.\<close>

datatype l0_conn = TcpConn nat | TrudpConn nat | WsConn nat

record l0client =
  lc_name :: string
  lc_addr :: string
  lc_conn :: "l0_conn option"
  lc_send :: nat
  lc_receive :: nat
  lc_cli :: nat

text \<open>What is done to connections.\<close>

datatype l0_out = ConnWrite l0_conn bytes | ConnClose l0_conn

text \<open>
  The maps by address and by name, the heaps of clients and of the \<open>teocli\<close> objects that hold read
  buffers. The name map is an association list: some functions go through it, in Go in a random order.
\<close>

record l0Conn =
  lz_allow :: bool
  lz_ma :: "string \<rightharpoonup> nat"
  lz_mn :: "(string \<times> nat) list"
  lz_clients :: "nat \<Rightarrow> l0client"
  lz_nextClient :: nat
  lz_clis :: "nat \<Rightarrow> TeoLNull"
  lz_nextCli :: nat
  lz_reqID :: u32
  lz_prefix :: "string list"
  lz_updated :: bool
  lz_out :: "l0_out list"

definition l0New :: "bool \<Rightarrow> string list \<Rightarrow> l0Conn" where
  "l0New allow prefix =
     \<lparr> lz_allow = allow, lz_ma = Map.empty, lz_mn = [],
       lz_clients = (\<lambda>_. \<lparr> lc_name = [], lc_addr = [], lc_conn = None, lc_send = 0, lc_receive = 0, lc_cli = 0 \<rparr>),
       lz_nextClient = 0, lz_clis = (\<lambda>_. lnull_Init False), lz_nextCli = 0, lz_reqID = 0,
       lz_prefix = prefix, lz_updated = True, lz_out = [] \<rparr>"

definition upd_l0client :: "nat \<Rightarrow> (l0client \<Rightarrow> l0client) \<Rightarrow> l0Conn \<Rightarrow> l0Conn" where
  "upd_l0client c f l0 = l0\<lparr>lz_clients := (lz_clients l0)(c := f (lz_clients l0 c))\<rparr>"

definition l0_emit :: "l0_out list \<Rightarrow> l0Conn \<Rightarrow> l0Conn" where
  "l0_emit os l0 = l0\<lparr>lz_out := lz_out l0 @ os\<rparr>"

section \<open>Clients\<close>

definition l0_findAddr :: "string \<Rightarrow> l0Conn \<Rightarrow> nat option" where
  "l0_findAddr ad l0 = lz_ma l0 ad"

definition l0_findName :: "string \<Rightarrow> l0Conn \<Rightarrow> nat option" where
  "l0_findName name l0 = map_of (lz_mn l0) name"

definition l0_exists :: "nat \<Rightarrow> l0Conn \<Rightarrow> bool" where
  "l0_exists c l0 = list_ex (\<lambda>(_, c'). c' = c) (lz_mn l0)"

text \<open>\<open>close\<close> of a client that is not nil.\<close>

definition l0_close :: "nat \<Rightarrow> l0Conn \<Rightarrow> l0Conn" where
  "l0_close c l0 =
     (let cl = lz_clients l0 c;
          l0 = (case lc_conn cl of
                  None \<Rightarrow> l0
                | Some conn \<Rightarrow> upd_l0client c (\<lambda>x. x\<lparr>lc_conn := None\<rparr>) (l0_emit [ConnClose conn] l0))
      in l0\<lparr>lz_ma := (lz_ma l0)(lc_addr cl := None), lz_mn := AList.delete (lc_name cl) (lz_mn l0),
            lz_updated := True\<rparr>)"

definition l0_closeAddr :: "string \<Rightarrow> l0Conn \<Rightarrow> bool \<times> l0Conn" where
  "l0_closeAddr ad l0 =
     (case l0_findAddr ad l0 of None \<Rightarrow> (False, l0) | Some c \<Rightarrow> (True, l0_close c l0))"

definition l0_closeName :: "string \<Rightarrow> l0Conn \<Rightarrow> bool \<times> l0Conn" where
  "l0_closeName name l0 =
     (case l0_findName name l0 of None \<Rightarrow> (False, l0) | Some c \<Rightarrow> (True, l0_close c l0))"

text \<open>
  \<open>closeAll\<close> goes through the name map while its entries are deleted: an entry that is gone is not
  visited.
\<close>

fun close_names :: "string list \<Rightarrow> l0Conn \<Rightarrow> l0Conn" where
  "close_names [] l0 = l0"
| "close_names (n # ns) l0 =
     close_names ns (case l0_findName n l0 of None \<Rightarrow> l0 | Some c \<Rightarrow> l0_close c l0)"

definition l0_closeAll :: "l0Conn \<Rightarrow> l0Conn" where
  "l0_closeAll l0 = close_names (map fst (lz_mn l0)) l0"

text \<open>\<open>add\<close> of a new client.\<close>

definition l0_add :: "l0client \<Rightarrow> l0Conn \<Rightarrow> nat \<times> l0Conn" where
  "l0_add cl l0 =
     (let l0 = snd (l0_closeName (lc_name cl) l0); c = lz_nextClient l0
      in (c, l0\<lparr>lz_nextClient := c + 1, lz_clients := (lz_clients l0)(c := cl),
                lz_ma := (lz_ma l0)(lc_addr cl \<mapsto> c), lz_mn := AList.update (lc_name cl) c (lz_mn l0),
                lz_updated := True\<rparr>))"

definition l0_rename :: "string \<Rightarrow> string \<Rightarrow> l0Conn \<Rightarrow> l0Conn" where
  "l0_rename name newname l0 =
     (if name = newname then l0
      else case l0_findName name l0 of
        None \<Rightarrow> l0
      | Some c \<Rightarrow>
          let l0 = l0\<lparr>lz_mn := AList.delete (lc_name (lz_clients l0 c)) (lz_mn l0)\<rparr>;
              l0 = upd_l0client c (\<lambda>x. x\<lparr>lc_name := newname\<rparr>) l0
          in l0\<lparr>lz_mn := AList.update newname c (lz_mn l0)\<rparr>)"

definition l0_network :: "l0client \<Rightarrow> string" where
  "l0_network cl =
     (case lc_conn cl of
        Some (TcpConn _) \<Rightarrow> ''tcp'' | Some (TrudpConn _) \<Rightarrow> ''trudp'' | Some (WsConn _) \<Rightarrow> ''ws'' | None \<Rightarrow> '''')"

section \<open>Carrying client packets\<close>

definition l0_packetCreate :: "string \<Rightarrow> u8 \<Rightarrow> bytes \<Rightarrow> bytes" where
  "l0_packetCreate client cmd data =
     [cmd, of_nat (length client + 1)] @ le16 (of_nat (length data)) @ bytes_of client @ [0] @ data"

text \<open>
  \<open>packetParse\<close> reads into zeroed variables and buffers; the name is the buffer without its last
  byte, which panics when the length says zero.
\<close>

definition l0_packetParse :: "bytes \<Rightarrow> (string \<times> u8 \<times> bytes) go" where
  "l0_packetParse d =
     (case rd_u8 d of (cmd, r) \<Rightarrow>
      case rd_u8 r of (fromLen, r) \<Rightarrow>
      case rd_u16 r of (dataLen, r) \<Rightarrow>
      let nl = unat (or_old 0 fromLen)
      in if nl = 0 then Inl SliceOutOfRange
         else case rd_fill nl r of (nameBuf, r) \<Rightarrow>
              case rd_fill (unat (or_old 0 dataLen)) r of (data, _) \<Rightarrow>
              Inr (string_of (butlast nameBuf), or_old 0 cmd, data))"

text \<open>
  \<open>sendTo\<close>: what a write to the connection returns is a parameter.
\<close>

definition l0_sendTo :: "(l0_conn \<Rightarrow> bytes \<Rightarrow> nat \<times> string option) \<Rightarrow> string \<Rightarrow> string \<Rightarrow> u8 \<Rightarrow> bytes \<Rightarrow> l0Conn
    \<Rightarrow> ((nat \<times> string option) \<times> l0Conn) go" where
  "l0_sendTo wr from toClient cmd data l0 =
     (case l0_findName toClient l0 of
        None \<Rightarrow> Inr ((0, Some (''send to client: can't find client '' @ [CHR 0x27] @ toClient @ [CHR 0x27] @ '' in clients map'')), l0)
      | Some c \<Rightarrow>
          (case PacketCreate cmd from data of
             (_, Some err) \<Rightarrow> Inr ((0, Some err), l0)
           | (pkt, None) \<Rightarrow>
               let l0 = (upd_l0client c (\<lambda>x. x\<lparr>lc_send := lc_send x + 1\<rparr>) l0)\<lparr>lz_updated := True\<rparr>
               in case lc_conn (lz_clients l0 c) of
                    None \<Rightarrow> Inl NilPointer
                  | Some conn \<Rightarrow> Inr (wr conn pkt, l0_emit [ConnWrite conn pkt] l0)))"

section \<open>Received data\<close>

text \<open>A packet on its way to the processing, with the client structure made for it.\<close>

record l0_packet =
  lp_packet :: bytes
  lp_cli :: nat
  lp_addr :: string
  lp_conn :: l0_conn

text \<open>
  \<open>packetCheck\<close>: all packets that are complete go to the processing; the result is what the last
  check returned. It ends because every packet takes bytes out of the buffer.
\<close>

lemma PacketCheck_shrinks:
  assumes "PacketCheck data t = ((p, 0), t')"
  shows "length (readBuffer t') < length data + length (readBuffer t)"
proof (cases "readBuffer t = []")
  case True
  then have c: "packetCheck data = 0" and t': "readBuffer t' = drop (packetGetLength data) data"
    using assms by (auto simp: PacketCheck_def Let_def split: if_splits)
  then show ?thesis using packetCheck_long [OF c] True
    by (auto simp: packetGetLength_def teoLNullHeaderSize_def)
next
  case False
  then have c: "packetCheck (readBuffer t @ data) = 0"
    and t': "readBuffer t' = drop (packetGetLength (readBuffer t @ data)) (readBuffer t @ data)"
    using assms by (auto simp: PacketCheck_def Let_def split: if_splits)
  then show ?thesis using packetCheck_long [OF c] False
    by (auto simp: packetGetLength_def teoLNullHeaderSize_def)
qed

function check_packets :: "bytes \<Rightarrow> TeoLNull \<Rightarrow> bytes list \<times> (bytes option \<times> int) \<times> TeoLNull" where
  "check_packets data t =
     (case PacketCheck data t of
        ((p, status), t') \<Rightarrow>
          if status = 0
          then (case check_packets [] t' of (ps, r, t'') \<Rightarrow> (the p # ps, r, t''))
          else ([], (p, status), t'))"
  by pat_completeness auto
termination
  by (relation "measure (\<lambda>(data, t). length data + length (readBuffer t))")
    (auto dest!: PacketCheck_shrinks [OF sym])

declare check_packets.simps [simp del]

definition l0_packetCheck :: "nat \<Rightarrow> string \<Rightarrow> l0_conn \<Rightarrow> bytes \<Rightarrow> l0Conn
    \<Rightarrow> l0_packet list \<times> (bytes option \<times> int) \<times> l0Conn" where
  "l0_packetCheck cli ad conn data l0 =
     (case check_packets data (lz_clis l0 cli) of
        (ps, r, t) \<Rightarrow>
          (map (\<lambda>p. \<lparr> lp_packet = p, lp_cli = cli, lp_addr = ad, lp_conn = conn \<rparr>) ps, r,
           l0\<lparr>lz_clis := (lz_clis l0)(cli := t)\<rparr>))"

text \<open>A new read buffer, \<open>teocli.Init\<close>.\<close>

definition new_cli :: "bool \<Rightarrow> l0Conn \<Rightarrow> nat \<times> l0Conn" where
  "new_cli t l0 =
     (lz_nextCli l0,
      l0\<lparr>lz_clis := (lz_clis l0)(lz_nextCli l0 := lnull_Init t), lz_nextCli := lz_nextCli l0 + 1\<rparr>)"

text \<open>\<open>check\<close>: a packet that came over a TR-UDP channel.\<close>

definition l0_check :: "nat \<Rightarrow> string \<Rightarrow> bytes \<Rightarrow> l0Conn \<Rightarrow> l0_packet list \<times> (bytes option \<times> int) \<times> l0Conn" where
  "l0_check tcd k data l0 =
     (if \<not> lz_allow l0 then ([], (None, 1), l0)
      else case (case l0_findAddr k l0 of
                   None \<Rightarrow> new_cli False l0
                 | Some c \<Rightarrow> (lc_cli (lz_clients l0 c), l0)) of
             (cli, l0) \<Rightarrow> l0_packetCheck cli k (TrudpConn tcd) data l0)"

text \<open>\<open>handleConnection\<close>: the blocks read from a TCP connection until it ends.\<close>

fun tcp_blocks :: "nat \<Rightarrow> string \<Rightarrow> nat \<Rightarrow> bytes list \<Rightarrow> l0Conn \<Rightarrow> l0_packet list \<times> l0Conn" where
  "tcp_blocks cli ad conn [] l0 = ([], l0)"
| "tcp_blocks cli ad conn (b # bs) l0 =
     (case l0_packetCheck cli ad (TcpConn conn) b l0 of
        (ps, _, l0) \<Rightarrow> (case tcp_blocks cli ad conn bs l0 of (ps', l0) \<Rightarrow> (ps @ ps', l0)))"

definition tcp_disconnected :: "string \<Rightarrow> nat \<Rightarrow> l0Conn \<Rightarrow> l0Conn" where
  "tcp_disconnected ad conn l0 =
     (case l0_closeAddr ad l0 of
        (True, l0) \<Rightarrow> l0
      | (False, l0) \<Rightarrow> l0_emit [ConnClose (TcpConn conn)] l0)"

section \<open>Processing\<close>

text \<open>What the processing of a packet asks of the node: to send it to a peer or to a service.\<close>

datatype l0_action =
    ActNone
  | ActToPeer string string u8 bytes
  | ActToRegistrar bytes
  | ActToAuth bytes

definition http_hello :: bytes where
  "http_hello = bytes_of (''HTTP/1.1 200 OK'' @ [CHR 0x0A] @ ''Content-Type: text/html'' @ [CHR 0x0A, CHR 0x0A]
     @ ''<html><body>Hello!</body></html>'' @ [CHR 0x0A])"

definition l0_login :: "l0_packet \<Rightarrow> bytes \<Rightarrow> l0Conn \<Rightarrow> (l0_action \<times> l0Conn) go" where
  "l0_login pac d l0 =
     (if d = [] then Inl SliceOutOfRange
      else
        let name = string_of (butlast d);
            cl = \<lparr> lc_name = name, lc_addr = lp_addr pac, lc_conn = Some (lp_conn pac), lc_send = 0,
                   lc_receive = 1, lc_cli = lp_cli pac \<rparr>;
            l0 = snd (l0_add cl l0)
        in Inr (if list_ex (\<lambda>p. take (length p) name = p) (lz_prefix l0)
                then ActToRegistrar (bytes_of name) else ActToAuth d, l0))"

text \<open>A packet that is no login, from an address that is not logged in.\<close>

definition l0_reject :: "l0_packet \<Rightarrow> l0Conn \<Rightarrow> l0Conn" where
  "l0_reject pac l0 =
     l0_emit ((case lp_conn pac of TcpConn _ \<Rightarrow> [ConnWrite (lp_conn pac) http_hello] | _ \<Rightarrow> [])
              @ [ConnClose (lp_conn pac)]) l0"

definition l0_process :: "(l0_conn \<Rightarrow> bytes \<Rightarrow> nat \<times> string option) \<Rightarrow> l0_packet \<Rightarrow> l0Conn \<Rightarrow> (l0_action \<times> l0Conn) go" where
  "l0_process wr pac l0 =
     (let p = lp_packet pac
      in case l0_findAddr (lp_addr pac) l0 of
           None \<Rightarrow>
             go_bind (lp_Data p) (\<lambda>d. go_bind (lp_Command p) (\<lambda>cmd.
             if cmd = 0
             then go_bind (lp_Name p) (\<lambda>name.
                    if name = '''' then l0_login pac d l0 else Inr (ActNone, l0_reject pac l0))
             else Inr (ActNone, l0_reject pac l0)))
         | Some c \<Rightarrow>
             go_bind (lp_Data p) (\<lambda>d. go_bind (lp_Name p) (\<lambda>to. go_bind (lp_Command p) (\<lambda>cmd.
             let l0 = (upd_l0client c (\<lambda>x. x\<lparr>lc_receive := lc_receive x + 1\<rparr>) l0)\<lparr>lz_updated := True\<rparr>
             in if l0_findName to l0 \<noteq> None
                then go_bind (l0_sendTo wr (lc_name (lz_clients l0 c)) to cmd d l0) (\<lambda>(_, l0). Inr (ActNone, l0))
                else Inr (ActToPeer to (lc_name (lz_clients l0 c)) cmd d, l0)))))"

section \<open>Services\<close>

text \<open>
  \<open>sendToRegistrar\<close>: the request; the check of an answer; and what an answer does (its decoder never
  fails). The ids are UUIDs.
\<close>

definition registrar_request :: "uuid_lib \<Rightarrow> UUID \<Rightarrow> bytes \<Rightarrow> l0Conn \<Rightarrow> (u32 \<times> bytes) \<times> l0Conn" where
  "registrar_request L newID d l0 =
     (let r = lz_reqID l0 + 1;
          req = snd (ur_UnmarshalText1 L newID d \<lparr> ur_ReqID = r, ur_Prefix = [], ur_ID = emptyUUID \<rparr>)
      in ((r, ur_MarshalBinary L req), l0\<lparr>lz_reqID := r\<rparr>))"

definition registrar_check :: "u32 \<Rightarrow> bytes \<Rightarrow> bool" where
  "registrar_check r data \<longleftrightarrow> 4 \<le> length data \<and> fst (rd_u32 data) = Some r"

definition registrar_answer :: "(l0_conn \<Rightarrow> bytes \<Rightarrow> nat \<times> string option) \<Rightarrow> uuid_lib \<Rightarrow> bytes \<Rightarrow> bytes \<Rightarrow> l0Conn \<Rightarrow> l0Conn go" where
  "registrar_answer wr L d data l0 =
     (let res = us_UnmarshalBinary data \<lparr> us_ReqID = 0, us_ID = emptyUUID, us_AccessToken = emptyUUID, us_Prefix = [] \<rparr>;
          client = us_Prefix res @ ''-'' @ uu_String L (us_ID res);
          cookies = us_Prefix res @ ''-'' @ uu_String L (us_AccessToken res)
      in go_bind (l0_sendTo wr '''' client 129 (bytes_of cookies) (l0_rename (string_of d) client l0)) (\<lambda>(_, l0). Inr l0))"

text \<open>
  \<open>cmdL0Auth\<close>, with the JSON decoder and encoder as parameters: access token, user id and client id
  (absent when they are null), and the networks as they came.
\<close>

record 'n auth_json =
  aj_accessToken :: string
  aj_userId :: "string option"
  aj_clientId :: "string option"
  aj_networks :: 'n

definition auth_name :: "'n auth_json \<Rightarrow> string" where
  "auth_name j =
     (case (aj_userId j, aj_clientId j) of
        (Some u, Some c) \<Rightarrow> u @ '':'' @ c
      | _ \<Rightarrow> aj_accessToken j)"

definition cmdL0Auth :: "(l0_conn \<Rightarrow> bytes \<Rightarrow> nat \<times> string option) \<Rightarrow> (bytes \<Rightarrow> 'n auth_json option) \<Rightarrow> (string \<Rightarrow> 'n \<Rightarrow> bytes)
    \<Rightarrow> string \<Rightarrow> u8 \<Rightarrow> bytes \<Rightarrow> l0Conn \<Rightarrow> l0Conn go" where
  "cmdL0Auth wr dec enc from cmd data l0 =
     (case dec (if data \<noteq> [] \<and> last data = 0 then butlast data else data) of
        None \<Rightarrow> Inr l0
      | Some j \<Rightarrow>
          go_bind (l0_sendTo wr from (aj_accessToken j) cmd (enc (auth_name j) (aj_networks j)) l0) (\<lambda>(_, l0).
            Inr (l0_rename (aj_accessToken j) (auth_name j) l0)))"

text \<open>\<open>cmdL0To\<close>: a command for a client of this server.\<close>

definition cmdL0To :: "(l0_conn \<Rightarrow> bytes \<Rightarrow> nat \<times> string option) \<Rightarrow> string \<Rightarrow> bytes \<Rightarrow> l0Conn \<Rightarrow> l0Conn go" where
  "cmdL0To wr from data l0 =
     (if \<not> lz_allow l0 then Inr l0
      else go_bind (l0_packetParse data) (\<lambda>(name, cmd, d).
           go_bind (l0_sendTo wr from name cmd d l0) (\<lambda>(_, l0). Inr l0)))"

section \<open>Client lists\<close>

definition isJSONRequest :: "bytes \<Rightarrow> bool" where
  "isJSONRequest data \<longleftrightarrow> take 4 data = bytes_of ''JSON''"

text \<open>The answers of \<open>cmdL0ClientsNumber\<close> and \<open>cmdL0Clients\<close>; none when this is no L0 server.\<close>

definition clients_num_json :: "u32 \<Rightarrow> bytes" where
  "clients_num_json n = bytes_of (''{'' @ [CHR 0x22] @ ''numClients'' @ [CHR 0x22] @ '':'' @ itoa (unat n) @ ''}'')"

definition cmdL0ClientsNumber :: "bytes \<Rightarrow> l0Conn \<Rightarrow> bytes option" where
  "cmdL0ClientsNumber data l0 =
     (if \<not> lz_allow l0 then None
      else let n = of_nat (length (lz_mn l0)) :: u32
           in Some (if isJSONRequest data then clients_num_json n else le32 n))"

definition client_record :: "string \<Rightarrow> bytes" where
  "client_record name = take 128 (bytes_of name @ replicate 128 0)"

text \<open>\<open>marshalClients\<close> of \<open>command.c\<close>, over the records: the names up to their NUL.\<close>

fun client_items :: "bool \<Rightarrow> bytes list \<Rightarrow> string go" where
  "client_items first [] = Inr ''''"
| "client_items first (r # rs) =
     go_bind (c_string (concat (r # rs))) (\<lambda>name.
     go_bind (client_items False rs) (\<lambda>rest.
       Inr ((if first then '''' else '','') @ ''{'' @ [CHR 0x22] @ ''name'' @ [CHR 0x22] @ '':'' @ [CHR 0x22] @ name
            @ [CHR 0x22] @ ''}'' @ rest)))"

definition marshalClients :: "bytes list \<Rightarrow> bytes go" where
  "marshalClients rs =
     go_bind (client_items True rs) (\<lambda>items.
       Inr (bytes_of (''{'' @ [CHR 0x22] @ ''length'' @ [CHR 0x22] @ '':'' @ itoa (length rs) @ '','' @ [CHR 0x22]
            @ ''client_data_ar'' @ [CHR 0x22] @ '':['' @ items @ '']}'')))"

definition cmdL0Clients :: "bytes \<Rightarrow> l0Conn \<Rightarrow> bytes option go" where
  "cmdL0Clients data l0 =
     (if \<not> lz_allow l0 then Inr None
      else let rs = map client_record (sort (map fst (lz_mn l0)))
           in if isJSONRequest data then go_bind (marshalClients rs) (\<lambda>js. Inr (Some js))
              else Inr (Some (le32 (of_nat (length rs)) @ concat rs)))"

section \<open>The maps\<close>

text \<open>
  The two maps hold the same clients: a name leads to a client of that name, which is connected and
  is found by its address, and the other way round.
\<close>

definition l0_ok :: "l0Conn \<Rightarrow> bool" where
  "l0_ok l0 \<longleftrightarrow>
     distinct (map fst (lz_mn l0))
   \<and> (\<forall>n c. l0_findName n l0 = Some c \<longrightarrow>
        c < lz_nextClient l0 \<and> lc_name (lz_clients l0 c) = n \<and> lc_conn (lz_clients l0 c) \<noteq> None
      \<and> l0_findAddr (lc_addr (lz_clients l0 c)) l0 = Some c)
   \<and> (\<forall>a c. l0_findAddr a l0 = Some c \<longrightarrow>
        lc_addr (lz_clients l0 c) = a \<and> l0_findName (lc_name (lz_clients l0 c)) l0 = Some c)"

lemma l0_okD:
  assumes "l0_ok l0"
  shows "distinct (map fst (lz_mn l0))"
    and "l0_findName n l0 = Some c \<Longrightarrow> c < lz_nextClient l0 \<and> lc_name (lz_clients l0 c) = n \<and> lc_conn (lz_clients l0 c) \<noteq> None
      \<and> l0_findAddr (lc_addr (lz_clients l0 c)) l0 = Some c"
    and "l0_findAddr a l0 = Some c \<Longrightarrow> lc_addr (lz_clients l0 c) = a \<and> l0_findName (lc_name (lz_clients l0 c)) l0 = Some c"
  using assms unfolding l0_ok_def by blast+

lemma l0_ok_New: "l0_ok (l0New a p)"
  by (simp add: l0_ok_def l0New_def l0_findName_def l0_findAddr_def)

text \<open>States that differ in counters, buffers and output only.\<close>

definition l0_same :: "l0Conn \<Rightarrow> l0Conn \<Rightarrow> bool" where
  "l0_same l0 l1 \<longleftrightarrow>
     lz_allow l1 = lz_allow l0 \<and> lz_ma l1 = lz_ma l0 \<and> lz_mn l1 = lz_mn l0 \<and> lz_nextClient l1 = lz_nextClient l0 \<and> lz_prefix l1 = lz_prefix l0
   \<and> (\<forall>c. lc_name (lz_clients l1 c) = lc_name (lz_clients l0 c) \<and> lc_addr (lz_clients l1 c) = lc_addr (lz_clients l0 c)
         \<and> lc_conn (lz_clients l1 c) = lc_conn (lz_clients l0 c) \<and> lc_cli (lz_clients l1 c) = lc_cli (lz_clients l0 c))"

lemma l0_same_refl [simp]: "l0_same l0 l0"
  by (simp add: l0_same_def)

lemma l0_same_trans: "l0_same a b \<Longrightarrow> l0_same b c \<Longrightarrow> l0_same a c"
  by (simp add: l0_same_def)

lemma l0_ok_same: "l0_same l0 l1 \<Longrightarrow> l0_ok l0 \<Longrightarrow> l0_ok l1"
  unfolding l0_ok_def l0_findName_def l0_findAddr_def by (simp add: l0_same_def)

lemma l0_same_frames [simp]:
  "l0_same l0 (l0_emit os l0)" "l0_same l0 (l0\<lparr>lz_updated := u\<rparr>)" "l0_same l0 (l0\<lparr>lz_reqID := r\<rparr>)"
  "l0_same l0 (upd_l0client c (\<lambda>x. x\<lparr>lc_send := f x\<rparr>) l0)" "l0_same l0 (upd_l0client c (\<lambda>x. x\<lparr>lc_receive := f x\<rparr>) l0)"
  "l0_same l0 (l0\<lparr>lz_clis := t, lz_nextCli := n\<rparr>)" "l0_same l0 (l0\<lparr>lz_clis := t\<rparr>)"
  by (simp_all add: l0_same_def l0_emit_def upd_l0client_def)

text \<open>Closing takes exactly one client out.\<close>

lemma l0_close_find:
  "l0_findName n (l0_close c l0) = (if n = lc_name (lz_clients l0 c) then None else l0_findName n l0)"
  "l0_findAddr a (l0_close c l0) = (if a = lc_addr (lz_clients l0 c) then None else l0_findAddr a l0)"
  "lz_mn (l0_close c l0) = AList.delete (lc_name (lz_clients l0 c)) (lz_mn l0)"
  "lz_nextClient (l0_close c l0) = lz_nextClient l0"
  "lc_name (lz_clients (l0_close c l0) d) = lc_name (lz_clients l0 d)"
  "lc_addr (lz_clients (l0_close c l0) d) = lc_addr (lz_clients l0 d)"
  "d \<noteq> c \<Longrightarrow> lz_clients (l0_close c l0) d = lz_clients l0 d"
  by (auto simp: l0_close_def Let_def l0_findName_def l0_findAddr_def delete_conv' upd_l0client_def l0_emit_def split: option.split)

lemma l0_ok_close:
  assumes ok: "l0_ok l0" and c: "l0_findName (lc_name (lz_clients l0 c)) l0 = Some c"
  shows "l0_ok (l0_close c l0)"
  unfolding l0_ok_def l0_close_find(1,2,4,5,6)
proof (intro conjI allI impI)
  show "distinct (map fst (lz_mn (l0_close c l0)))"
    using l0_okD(1) [OF ok] by (simp add: l0_close_find(3) distinct_delete)
next
  fix n d
  assume d: "(if n = lc_name (lz_clients l0 c) then None else l0_findName n l0) = Some d"
  then have m: "l0_findName n l0 = Some d" "n \<noteq> lc_name (lz_clients l0 c)" by (auto split: if_splits)
  note k = l0_okD(2) [OF ok m(1)]
  then have dc: "d \<noteq> c" using m(2) by blast
  show "d < lz_nextClient l0" "lc_name (lz_clients l0 d) = n" using k by blast+
  show "lc_conn (lz_clients (l0_close c l0) d) \<noteq> None" using k l0_close_find(7) [OF dc] by simp
  have "lc_addr (lz_clients l0 d) \<noteq> lc_addr (lz_clients l0 c)"
  proof
    assume eq: "lc_addr (lz_clients l0 d) = lc_addr (lz_clients l0 c)"
    have "Some d = Some c" using k l0_okD(2) [OF ok c] unfolding eq by (metis (no_types))
    then show False using dc by simp
  qed
  then show "(if lc_addr (lz_clients l0 d) = lc_addr (lz_clients l0 c) then None
       else l0_findAddr (lc_addr (lz_clients l0 d)) l0) = Some d" using k by simp
next
  fix a d
  assume d: "(if a = lc_addr (lz_clients l0 c) then None else l0_findAddr a l0) = Some d"
  then have m: "l0_findAddr a l0 = Some d" "a \<noteq> lc_addr (lz_clients l0 c)" by (auto split: if_splits)
  note k = l0_okD(3) [OF ok m(1)]
  show "lc_addr (lz_clients l0 d) = a" using k by blast
  have "lc_name (lz_clients l0 d) \<noteq> lc_name (lz_clients l0 c)"
  proof
    assume eq: "lc_name (lz_clients l0 d) = lc_name (lz_clients l0 c)"
    have "Some d = Some c" using k c unfolding eq by (metis (no_types))
    then show False using m(2) k by simp
  qed
  then show "(if lc_name (lz_clients l0 d) = lc_name (lz_clients l0 c) then None
       else l0_findName (lc_name (lz_clients l0 d)) l0) = Some d" using k by simp
qed

lemma l0_ok_closeName:
  assumes ok: "l0_ok l0"
  shows "l0_ok (snd (l0_closeName n l0))" and "l0_findName n (snd (l0_closeName n l0)) = None"
    and "\<And>m. m \<noteq> n \<Longrightarrow> l0_findName m (snd (l0_closeName n l0)) = l0_findName m l0"
    and "l0_findAddr a l0 = None \<Longrightarrow> l0_findAddr a (snd (l0_closeName n l0)) = None"
    and "lz_nextClient (snd (l0_closeName n l0)) = lz_nextClient l0"
proof -
  have "lc_name (lz_clients l0 c) = n" if "l0_findName n l0 = Some c" for c using l0_okD(2) [OF ok that] by blast
  then show "l0_ok (snd (l0_closeName n l0))" "l0_findName n (snd (l0_closeName n l0)) = None"
    "\<And>m. m \<noteq> n \<Longrightarrow> l0_findName m (snd (l0_closeName n l0)) = l0_findName m l0"
    "l0_findAddr a l0 = None \<Longrightarrow> l0_findAddr a (snd (l0_closeName n l0)) = None"
    "lz_nextClient (snd (l0_closeName n l0)) = lz_nextClient l0"
    using ok by (auto simp: l0_closeName_def l0_close_find intro: l0_ok_close split: option.split)
qed

lemma l0_ok_closeAddr:
  assumes ok: "l0_ok l0"
  shows "l0_ok (snd (l0_closeAddr a l0))"
  using ok l0_okD(3) [OF ok] by (auto simp: l0_closeAddr_def intro: l0_ok_close split: option.split)

lemma l0_ok_close_names: "l0_ok l0 \<Longrightarrow> l0_ok (close_names ns l0)"
proof (induction ns arbitrary: l0)
  case (Cons n ns)
  have "l0_ok (snd (l0_closeName n l0))" by (rule l0_ok_closeName(1) [OF Cons.prems])
  then show ?case using Cons.IH by (auto simp: l0_closeName_def split: option.splits)
qed simp

lemma close_names_find:
  assumes "l0_ok l0"
  shows "l0_findName n (close_names ns l0) = (if n \<in> set ns then None else l0_findName n l0)"
  using assms
proof (induction ns arbitrary: l0)
  case (Cons m ns)
  let ?l = "snd (l0_closeName m l0)"
  have e: "close_names (m # ns) l0 = close_names ns ?l" by (simp add: l0_closeName_def split: option.split)
  note k = l0_ok_closeName [OF Cons.prems, where n = m]
  show ?case unfolding e Cons.IH [OF k(1)] using k(2,3) by auto
qed simp

lemma l0_ok_add:
  assumes ok: "l0_ok l0" and free: "l0_findAddr (lc_addr cl) l0 = None" and conn: "lc_conn cl \<noteq> None"
    and a: "l0_add cl l0 = (c, t)"
  shows "l0_ok t" and "l0_findName (lc_name cl) t = Some c" and "lz_clients t c = cl"
    and "l0_findAddr (lc_addr cl) t = Some c"
    and "\<And>m. m \<noteq> lc_name cl \<Longrightarrow> l0_findName m t = l0_findName m l0"
proof -
  let ?l = "snd (l0_closeName (lc_name cl) l0)"
  note k = l0_ok_closeName [OF ok, where n = "lc_name cl"]
  have c: "c = lz_nextClient ?l"
    and t: "t = ?l\<lparr>lz_nextClient := c + 1, lz_clients := (lz_clients ?l)(c := cl),
                lz_ma := (lz_ma ?l)(lc_addr cl \<mapsto> c), lz_mn := AList.update (lc_name cl) c (lz_mn ?l), lz_updated := True\<rparr>"
    using a by (auto simp: l0_add_def Let_def)
  have f: "l0_findName n t = (if n = lc_name cl then Some c else l0_findName n ?l)"
    "l0_findAddr x t = (if x = lc_addr cl then Some c else l0_findAddr x ?l)" for n x
    by (simp_all add: t l0_findName_def l0_findAddr_def update_conv')
  have old: "lz_clients t d = lz_clients ?l d" if "d < c" for d using that by (simp add: t)
  have lt: "d < c" if "l0_findName n ?l = Some d" for n d using l0_okD(2) [OF k(1) that] c by blast
  have no: "lc_addr (lz_clients ?l d) \<noteq> lc_addr cl" if "l0_findName n ?l = Some d" for n d
    using l0_okD(2) [OF k(1) that] k(4) [OF free] by auto
  show cl: "lz_clients t c = cl" by (simp add: t)
  show "l0_findName (lc_name cl) t = Some c" "l0_findAddr (lc_addr cl) t = Some c" by (simp_all add: f)
  show "\<And>m. m \<noteq> lc_name cl \<Longrightarrow> l0_findName m t = l0_findName m l0" using k(3) by (simp add: f)
  have nx: "lz_nextClient t = c + 1" by (simp add: t)
  show "l0_ok t"
    unfolding l0_ok_def f
  proof (intro conjI allI impI)
    show "distinct (map fst (lz_mn t))" using l0_okD(1) [OF k(1)] by (simp add: t distinct_update)
  next
    fix n d
    assume d: "(if n = lc_name cl then Some c else l0_findName n ?l) = Some d"
    show "d < lz_nextClient t" "lc_name (lz_clients t d) = n" "lc_conn (lz_clients t d) \<noteq> None"
      "(if lc_addr (lz_clients t d) = lc_addr cl then Some c else l0_findAddr (lc_addr (lz_clients t d)) ?l) = Some d"
      using d cl conn nx l0_okD(2) [OF k(1), of n d] lt [of n d] no [of n d] old [of d] by (auto split: if_splits)
  next
    fix x d
    assume d: "(if x = lc_addr cl then Some c else l0_findAddr x ?l) = Some d"
    show "lc_addr (lz_clients t d) = x"
      "(if lc_name (lz_clients t d) = lc_name cl then Some c else l0_findName (lc_name (lz_clients t d)) ?l) = Some d"
      using d cl l0_okD(3) [OF k(1), of x d] lt old [of d] k(2) by (auto split: if_splits)
  qed
qed

text \<open>
  Renaming keeps the maps consistent when nobody else has the new name. Else the other client
  drops out of the name map, stays in the address map, and takes the name with it when it closes.
\<close>

lemma l0_ok_rename:
  assumes ok: "l0_ok l0" and free: "new = old \<or> l0_findName new l0 = None"
  shows "l0_ok (l0_rename old new l0)"
proof (cases "old = new \<or> l0_findName old l0 = None")
  case True
  then show ?thesis using ok by (auto simp: l0_rename_def)
next
  case False
  then obtain c where c: "l0_findName old l0 = Some c" and ne: "old \<noteq> new" by auto
  note k = l0_okD(2) [OF ok c]
  let ?t = "l0_rename old new l0"
  have t: "lz_mn ?t = AList.update new c (AList.delete old (lz_mn l0))" "lz_nextClient ?t = lz_nextClient l0"
    "lc_name (lz_clients ?t d) = (if d = c then new else lc_name (lz_clients l0 d))"
    "lc_addr (lz_clients ?t d) = lc_addr (lz_clients l0 d)" "lc_conn (lz_clients ?t d) = lc_conn (lz_clients l0 d)"
    "l0_findAddr a ?t = l0_findAddr a l0" for d a
    using k ne c by (auto simp: l0_rename_def upd_l0client_def l0_findAddr_def)
  have f: "l0_findName n ?t = (if n = new then Some c else if n = old then None else l0_findName n l0)" for n
    by (simp add: l0_findName_def t(1) update_conv' delete_conv')
  have other: "d \<noteq> c" if "l0_findName n l0 = Some d" "n \<noteq> old" for n d
    using l0_okD(2) [OF ok that(1)] k that(2) by blast
  show ?thesis
    unfolding l0_ok_def f t(2,3,4,5,6)
  proof (intro conjI allI impI)
    show "distinct (map fst (lz_mn ?t))"
      unfolding t(1) using l0_okD(1) [OF ok] by (intro distinct_update distinct_delete)
  next
    fix n d
    assume d: "(if n = new then Some c else if n = old then None else l0_findName n l0) = Some d"
    show "d < lz_nextClient l0" "(if d = c then new else lc_name (lz_clients l0 d)) = n" "lc_conn (lz_clients l0 d) \<noteq> None"
      "l0_findAddr (lc_addr (lz_clients l0 d)) l0 = Some d"
      using d k l0_okD(2) [OF ok, of n d] other [of n d] by (auto split: if_splits)
  next
    fix a d
    assume d: "l0_findAddr a l0 = Some d"
    note kd = l0_okD(3) [OF ok d]
    show "lc_addr (lz_clients l0 d) = a" using kd by blast
    show "(if (if d = c then new else lc_name (lz_clients l0 d)) = new then Some c
       else if (if d = c then new else lc_name (lz_clients l0 d)) = old then None
       else l0_findName (if d = c then new else lc_name (lz_clients l0 d)) l0) = Some d"
    proof (cases "d = c")
      case False
      have "lc_name (lz_clients l0 d) \<noteq> old" using kd c False by auto
      moreover have "lc_name (lz_clients l0 d) \<noteq> new" using kd free ne by auto
      ultimately show ?thesis using kd False by simp
    qed simp
  qed
qed

lemma rename_to_taken_name:
  assumes "l0_ok l0" and "l0_findName old l0 = Some c" and "l0_findName new l0 = Some d" and "old \<noteq> new"
    and "lc_addr (lz_clients l0 c) \<noteq> lc_addr (lz_clients l0 d)"
  defines "t \<equiv> l0_rename old new l0"
  shows "l0_findName new t = Some c"
    and "l0_findAddr (lc_addr (lz_clients t d)) t = Some d"
    and "l0_findName new (l0_close d t) = None \<and> l0_findAddr (lc_addr (lz_clients t c)) (l0_close d t) = Some c"
proof -
  note c = l0_okD(2) [OF assms(1,2)] and d = l0_okD(2) [OF assms(1,3)]
  have ne: "d \<noteq> c" using assms(5) by blast
  have t: "lz_clients t d = lz_clients l0 d" "lc_addr (lz_clients t c) = lc_addr (lz_clients l0 c)"
    "l0_findAddr a t = l0_findAddr a l0" "l0_findName new t = Some c" for a
    using assms(2,4) ne c by (simp_all add: t_def l0_rename_def upd_l0client_def l0_findAddr_def l0_findName_def update_conv')
  show "l0_findName new t = Some c" by (rule t(4))
  show "l0_findAddr (lc_addr (lz_clients t d)) t = Some d" using d by (simp add: t)
  show "l0_findName new (l0_close d t) = None \<and> l0_findAddr (lc_addr (lz_clients t c)) (l0_close d t) = Some c"
    using c d assms(5) by (simp add: l0_close_find t)
qed

section \<open>Sending and processing\<close>

lemma l0_sendTo_cases:
  assumes ok: "l0_ok l0"
  shows "go_ok (\<lambda>(_, t). l0_same l0 t) (l0_sendTo wr from to cmd data l0)"
proof (cases "l0_findName to l0")
  case None
  then show ?thesis by (simp add: l0_sendTo_def)
next
  case (Some c)
  then have "lc_conn (lz_clients l0 c) \<noteq> None" using l0_okD(2) [OF ok Some] by blast
  then obtain conn where conn: "lc_conn (lz_clients l0 c) = Some conn" by auto
  obtain p e where pc: "PacketCreate cmd from data = (p, e)" by fastforce
  show ?thesis
    using Some conn by (cases e) (auto simp: l0_sendTo_def pc Let_def upd_l0client_def l0_emit_def l0_same_def)
qed

lemma l0_sendTo_connected:
  assumes "l0_findName to l0 = Some c" and "lc_conn (lz_clients l0 c) = Some conn" and "lnull_ok from data"
  shows "\<exists>t. l0_sendTo wr from to cmd data l0 = Inr (wr conn (lnull_packet cmd from data), t)
     \<and> l0_same l0 t \<and> lz_out t = lz_out l0 @ [ConnWrite conn (lnull_packet cmd from data)]"
  using assms by (auto simp: l0_sendTo_def PacketCreate_ok Let_def upd_l0client_def l0_emit_def l0_same_def)

text \<open>A login.\<close>

lemma l0_login_ok:
  assumes ok: "l0_ok l0" and free: "l0_findAddr (lp_addr pac) l0 = None" and d: "d \<noteq> []"
  shows "go_ok (\<lambda>(_, t). l0_ok t \<and> (\<exists>c. l0_findName (string_of (butlast d)) t = Some c
      \<and> l0_findAddr (lp_addr pac) t = Some c \<and> lc_conn (lz_clients t c) = Some (lp_conn pac))) (l0_login pac d l0)"
proof -
  let ?cl = "\<lparr> lc_name = string_of (butlast d), lc_addr = lp_addr pac, lc_conn = Some (lp_conn pac), lc_send = 0,
                   lc_receive = 1, lc_cli = lp_cli pac \<rparr>"
  obtain c t where a: "l0_add ?cl l0 = (c, t)" by fastforce
  have "l0_findAddr (lc_addr ?cl) l0 = None" "lc_conn ?cl \<noteq> None" using free by simp_all
  note k = l0_ok_add [OF ok this a]
  show ?thesis using k d a by (simp add: l0_login_def Let_def)
qed

text \<open>A login packet without data stops the program.\<close>

lemma empty_login_panics:
  assumes "l0_findAddr (lp_addr pac) l0 = None" and "lp_packet pac = lnull_packet 0 '''' []"
  shows "l0_process wr pac l0 = Inl SliceOutOfRange"
  using assms by (simp add: l0_process_def Let_def codec_simps lnull_ok_def nul_free_def l0_login_def)

text \<open>Whatever the packet, the maps stay consistent; the packets a client makes cause no panic.\<close>

lemma l0_process_keeps:
  assumes ok: "l0_ok l0" and r: "l0_process wr pac l0 = Inr (a, t)"
  shows "l0_ok t"
proof (cases "l0_findAddr (lp_addr pac) l0")
  case None
  have rej: "l0_ok (l0_reject pac l0)" by (rule l0_ok_same [OF _ ok]) (simp add: l0_reject_def)
  obtain d cmd where d: "lp_Data (lp_packet pac) = Inr d" "lp_Command (lp_packet pac) = Inr cmd"
    using r by (auto simp: l0_process_def Let_def None go_bind_Inr_iff)
  show ?thesis
  proof (cases "l0_login pac d l0 = Inr (a, t) \<and> d \<noteq> []")
    case True
    then show ?thesis using l0_login_ok [OF ok None, of d] by simp
  next
    case False
    then have "t = l0_reject pac l0"
      using r d by (auto simp: l0_process_def Let_def None go_bind_Inr_iff l0_login_def split: if_splits)
    then show ?thesis using rej by simp
  qed
next
  case (Some c)
  let ?l = "(upd_l0client c (\<lambda>x. x\<lparr>lc_receive := lc_receive x + 1\<rparr>) l0)\<lparr>lz_updated := True\<rparr>"
  have s: "l0_same l0 ?l" by (rule l0_same_trans [OF l0_same_frames(5) l0_same_frames(2)])
  have ok': "l0_ok ?l" by (rule l0_ok_same [OF s ok])
  have snd: "l0_ok u" if "l0_sendTo wr f to cmd d ?l = Inr (x, u)" for f to cmd d x u
    using l0_sendTo_cases [OF ok', of wr f to cmd d] that l0_ok_same [OF _ ok'] by (simp add: go_ok_def)
  show ?thesis
    using r snd ok' by (auto simp: l0_process_def Let_def Some go_bind_Inr_iff split: if_splits)
qed

lemma l0_process_no_panic:
  assumes ok: "l0_ok l0" and p: "lp_packet pac = lnull_packet cmd to data" and w: "lnull_ok to data"
    and login: "l0_findAddr (lp_addr pac) l0 = None \<and> cmd = 0 \<and> to = '''' \<longrightarrow> data \<noteq> []"
  shows "\<exists>a t. l0_process wr pac l0 = Inr (a, t)"
proof (cases "l0_findAddr (lp_addr pac) l0")
  case None
  then show ?thesis using login w by (simp add: l0_process_def Let_def p codec_simps l0_login_def)
next
  case (Some c)
  let ?l = "(upd_l0client c (\<lambda>x. x\<lparr>lc_receive := lc_receive x + 1\<rparr>) l0)\<lparr>lz_updated := True\<rparr>"
  have s: "l0_same l0 ?l" by (rule l0_same_trans [OF l0_same_frames(5) l0_same_frames(2)])
  from l0_sendTo_cases [OF l0_ok_same [OF s ok], of wr "lc_name (lz_clients ?l c)" to cmd data]
  show ?thesis using w by (auto simp: l0_process_def Let_def p codec_simps Some go_ok_def)
qed

section \<open>Streams\<close>

lemma check_packets_spec:
  assumes "\<forall>p \<in> set ps. good_packet p" and "readBuffer t @ b @ later = concat ps"
  shows "\<exists>ps1 ps2 st t'. check_packets b t = (ps1, st, t') \<and> ps = ps1 @ ps2
     \<and> readBuffer t' @ later = concat ps2 \<and> (ps2 \<noteq> [] \<longrightarrow> length (readBuffer t') < length (hd ps2))"
  using assms
proof (induction ps arbitrary: b t)
  case Nil
  then have "readBuffer t = []" "b = []" "later = []" by simp_all
  then have "check_packets b t = ([], (None, -1), t)"
    by (subst check_packets.simps) (simp add: PacketCheck_def)
  then show ?case using Nil by simp
next
  case (Cons p ps)
  have good: "good_packet p" and pre: "readBuffer t @ b @ later = p @ concat ps" using Cons.prems by simp_all
  note c = PacketCheck_spec [OF good pre]
  show ?case
  proof (cases "length p \<le> length (readBuffer t @ b)")
    case True
    let ?t = "t\<lparr>readBuffer := drop (length p) (readBuffer t @ b)\<rparr>"
    have "(readBuffer t @ b) @ later = p @ concat ps" using pre by simp
    then have "drop (length p) (readBuffer t @ b) @ later = concat ps"
      using True by (metis append_eq_conv_conj drop_append diff_is_0_eq drop_0)
    then have "readBuffer ?t @ [] @ later = concat ps" by simp
    have "\<forall>p \<in> set ps. good_packet p" using Cons.prems(1) by simp
    from Cons.IH [OF this \<open>readBuffer ?t @ [] @ later = concat ps\<close>] obtain ps1 ps2 st t' where r: "check_packets [] ?t = (ps1, st, t')"
      "ps = ps1 @ ps2" "readBuffer t' @ later = concat ps2" "ps2 \<noteq> [] \<longrightarrow> length (readBuffer t') < length (hd ps2)"
      by blast
    have "PacketCheck b t = ((Some p, 0), ?t)" using c True by simp
    then have "check_packets b t = (p # ps1, st, t')"
      by (subst check_packets.simps) (simp only: r(1) prod.case if_True option.sel refl)
    then show ?thesis using r(2-4)
      by (intro exI [of _ "p # ps1"] exI [of _ ps2] exI [of _ st] exI [of _ t'] conjI) simp_all
  next
    case False
    then have "check_packets b t = ([], (None, -1), t\<lparr>readBuffer := readBuffer t @ b\<rparr>)"
      using c by (subst check_packets.simps) simp
    then show ?thesis using Cons.prems(2) False
      by (intro exI [of _ "[]"] exI [of _ "p # ps"] exI [of _ "(None, -1)"] exI [of _ "t\<lparr>readBuffer := readBuffer t @ b\<rparr>"] conjI)
        simp_all
  qed
qed

lemma tcp_blocks_spec:
  assumes "\<forall>p \<in> set ps. good_packet p" and "readBuffer (lz_clis l0 cli) @ concat bs = concat ps"
    and "ps \<noteq> [] \<longrightarrow> length (readBuffer (lz_clis l0 cli)) < length (hd ps)"
  shows "\<exists>t. tcp_blocks cli ad conn bs l0 =
       (map (\<lambda>p. \<lparr> lp_packet = p, lp_cli = cli, lp_addr = ad, lp_conn = TcpConn conn \<rparr>) ps, t)
     \<and> l0_same l0 t \<and> lz_out t = lz_out l0 \<and> readBuffer (lz_clis t cli) = []"
  using assms
proof (induction bs arbitrary: ps l0)
  case Nil
  have "ps = []"
  proof (cases ps)
    case (Cons p ps')
    then have "length (readBuffer (lz_clis l0 cli)) = length (concat ps)" using Nil by simp
    then show ?thesis using Nil Cons by simp
  qed simp
  then show ?case using Nil by simp
next
  case (Cons b bs)
  have "readBuffer (lz_clis l0 cli) @ b @ concat bs = concat ps" using Cons.prems(2) by simp
  from check_packets_spec [OF Cons.prems(1) this] obtain ps1 ps2 st t' where c:
    "check_packets b (lz_clis l0 cli) = (ps1, st, t')" "ps = ps1 @ ps2"
    "readBuffer t' @ concat bs = concat ps2" "ps2 \<noteq> [] \<longrightarrow> length (readBuffer t') < length (hd ps2)" by blast
  let ?l = "l0\<lparr>lz_clis := (lz_clis l0)(cli := t')\<rparr>"
  have g: "\<forall>p \<in> set ps2. good_packet p" using Cons.prems(1) c(2) by simp
  have "readBuffer (lz_clis ?l cli) @ concat bs = concat ps2"
    "ps2 \<noteq> [] \<longrightarrow> length (readBuffer (lz_clis ?l cli)) < length (hd ps2)" using c by simp_all
  from Cons.IH [OF g this] obtain t where t: "tcp_blocks cli ad conn bs ?l =
       (map (\<lambda>p. \<lparr> lp_packet = p, lp_cli = cli, lp_addr = ad, lp_conn = TcpConn conn \<rparr>) ps2, t)"
    "l0_same ?l t" "lz_out t = lz_out ?l" "readBuffer (lz_clis t cli) = []" by blast
  have "l0_same l0 t" by (rule l0_same_trans [OF l0_same_frames(7) t(2)])
  then show ?case using t c(1,2) by (simp add: l0_packetCheck_def)
qed

section \<open>Carried packets\<close>

lemma l0_packetParse_create:
  assumes "length client < 255"
  shows "l0_packetParse (l0_packetCreate client cmd data) = Inr (client, cmd, take (length data mod 65536) data)"
proof -
  have n: "unat (of_nat (Suc (length client)) :: u8) = Suc (length client)"
    using assms by (simp add: unat_of_nat del: of_nat_Suc)
  have d: "unat (of_nat (length data) :: u16) = length data mod 65536"
    by (simp add: unat_of_nat)
  have f1: "rd_fill (Suc (length client)) (bytes_of client @ 0 # data) = (bytes_of client @ [0], data)"
    using rd_fill_append [of "bytes_of client @ [0]" "Suc (length client)" data] by simp
  have "rd_fill (length data mod 65536) (take (length data mod 65536) data @ drop (length data mod 65536) data)
      = (take (length data mod 65536) data, drop (length data mod 65536) data)"
    by (rule rd_fill_append) simp
  then have f2: "rd_fill (length data mod 65536) data
      = (take (length data mod 65536) data, drop (length data mod 65536) data)" by simp
  show ?thesis
    by (simp add: l0_packetParse_def l0_packetCreate_def codec_simps n d f1 f2 Let_def butlast_append del: of_nat_Suc)
qed

text \<open>An empty command \<open>CMD_L0\<close> or \<open>CMD_L0_TO\<close> stops the program.\<close>

lemma empty_carried_panics: "l0_packetParse [] = Inl SliceOutOfRange"
  by (simp add: l0_packetParse_def)

lemma cmdL0To_delivers:
  assumes "lz_allow l0" and "l0_findName client l0 = Some c" and "lc_conn (lz_clients l0 c) = Some conn"
    and "lnull_ok from data" and "length client < 255"
  shows "\<exists>t. cmdL0To wr from (l0_packetCreate client cmd data) l0 = Inr t \<and> l0_same l0 t
     \<and> lz_out t = lz_out l0 @ [ConnWrite conn (lnull_packet cmd from data)]"
proof -
  have "length data mod 65536 = length data" using assms(4) by (simp add: lnull_ok_def)
  then show ?thesis
    using l0_sendTo_connected [OF assms(2-4), of wr cmd] assms(1)
    by (auto simp: cmdL0To_def l0_packetParse_create [OF assms(5)])
qed

section \<open>Events\<close>

text \<open>What happens to the server: a packet, the end of a TCP connection, a command for a client, an
  answer of the registrar or the authentication, the shutdown.\<close>

datatype 'n l0_event =
    L0Packet l0_packet
  | L0TcpEnds string nat
  | L0CommandTo string bytes
  | L0Registrar bytes bytes
  | L0AuthAnswer string u8 bytes
  | L0Shutdown

definition l0_destroy :: "l0Conn \<Rightarrow> l0Conn" where
  "l0_destroy l0 = (if lz_allow l0 then l0_closeAll l0 else l0)"

record 'n l0_env =
  le_write :: "l0_conn \<Rightarrow> bytes \<Rightarrow> nat \<times> string option"
  le_uuid :: uuid_lib
  le_dec :: "bytes \<Rightarrow> 'n auth_json option"
  le_enc :: "string \<Rightarrow> 'n \<Rightarrow> bytes"

definition l0_event_step :: "'n l0_env \<Rightarrow> 'n l0_event \<Rightarrow> l0Conn \<Rightarrow> (l0_action \<times> l0Conn) go" where
  "l0_event_step E ev l0 =
     (case ev of
        L0Packet pac \<Rightarrow> l0_process (le_write E) pac l0
      | L0TcpEnds ad conn \<Rightarrow> Inr (ActNone, tcp_disconnected ad conn l0)
      | L0CommandTo from data \<Rightarrow> go_bind (cmdL0To (le_write E) from data l0) (\<lambda>t. Inr (ActNone, t))
      | L0Registrar d data \<Rightarrow> go_bind (registrar_answer (le_write E) (le_uuid E) d data l0) (\<lambda>t. Inr (ActNone, t))
      | L0AuthAnswer from cmd data \<Rightarrow>
          go_bind (cmdL0Auth (le_write E) (le_dec E) (le_enc E) from cmd data l0) (\<lambda>t. Inr (ActNone, t))
      | L0Shutdown \<Rightarrow> Inr (ActNone, l0_destroy l0))"

text \<open>The renaming an event asks for: the old name and the new.\<close>

definition renames :: "'n l0_env \<Rightarrow> 'n l0_event \<Rightarrow> (string \<times> string) option" where
  "renames E ev =
     (case ev of
        L0Registrar d data \<Rightarrow>
          let res = us_UnmarshalBinary data \<lparr> us_ReqID = 0, us_ID = emptyUUID, us_AccessToken = emptyUUID, us_Prefix = [] \<rparr>
          in Some (string_of d, us_Prefix res @ ''-'' @ uu_String (le_uuid E) (us_ID res))
      | L0AuthAnswer from cmd data \<Rightarrow>
          map_option (\<lambda>j. (aj_accessToken j, auth_name j)) (le_dec E (if data \<noteq> [] \<and> last data = 0 then butlast data else data))
      | _ \<Rightarrow> None)"

lemma l0_sendTo_keeps: "l0_ok l0 \<Longrightarrow> l0_sendTo wr from to cmd data l0 = Inr (x, t) \<Longrightarrow> l0_ok t \<and> l0_same l0 t"
  using l0_sendTo_cases [of l0 wr "from" to cmd data] l0_ok_same by (auto simp: go_ok_def)

lemma l0_event_keeps:
  assumes ok: "l0_ok l0" and r: "l0_event_step E ev l0 = Inr (a, t)"
    and free: "\<And>old new. renames E ev = Some (old, new) \<Longrightarrow> new = old \<or> l0_findName new l0 = None"
  shows "l0_ok t"
proof (cases ev)
  case (L0Packet pac)
  then show ?thesis using l0_process_keeps [OF ok] r by (simp add: l0_event_step_def)
next
  case (L0TcpEnds ad conn)
  have "l0_ok (snd (l0_closeAddr ad l0))" by (rule l0_ok_closeAddr [OF ok])
  moreover have "l0_ok (l0_emit x l0')" if "l0_ok l0'" for x l0' by (rule l0_ok_same [OF l0_same_frames(1) that])
  moreover obtain b u where "l0_closeAddr ad l0 = (b, u)" by fastforce
  ultimately show ?thesis using r by (cases b) (auto simp: l0_event_step_def L0TcpEnds tcp_disconnected_def)
next
  case (L0CommandTo frm data)
  then show ?thesis using r ok l0_sendTo_keeps [OF ok]
    by (auto simp: l0_event_step_def cmdL0To_def go_bind_Inr_iff split: if_splits)
next
  case (L0Registrar d data)
  have "l0_ok (l0_rename old new l0)" if "renames E ev = Some (old, new)" for old new
    by (rule l0_ok_rename [OF ok free [OF that]])
  then show ?thesis using r l0_sendTo_keeps
    by (auto simp: l0_event_step_def registrar_answer_def L0Registrar go_bind_Inr_iff renames_def Let_def)
next
  case (L0AuthAnswer frm cmd data)
  have "l0_ok (l0_rename old new l0')" if "renames E ev = Some (old, new)" "l0_ok l0'" "l0_same l0 l0'" for old new l0'
    using l0_ok_rename [OF that(2)] free [OF that(1)] that(3) by (simp add: l0_same_def l0_findName_def)
  then show ?thesis using r ok l0_sendTo_keeps [OF ok]
    by (fastforce simp: l0_event_step_def cmdL0Auth_def L0AuthAnswer go_bind_Inr_iff renames_def split: option.splits)
next
  case L0Shutdown
  then show ?thesis using r ok l0_ok_close_names by (auto simp: l0_event_step_def l0_destroy_def l0_closeAll_def split: if_splits)
qed

section \<open>Properties\<close>

text \<open>C11: the two maps of clients stay consistent through packets, disconnects, commands, answers of the
  registrar and the authentication, and the shutdown: every name leads to a connected client of that
  name that its address leads to as well, and the other way round. A renaming must not take a name
  that another client has.\<close>

theorem l0_maps_consistent:
  assumes "l0_ok l0" and "l0_event_step E ev l0 = Inr (a, t)"
    and "\<forall>old new. renames E ev = Some (old, new) \<longrightarrow> new = old \<or> l0_findName new l0 = None"
  shows "l0_ok t"
  using l0_event_keeps assms by blast

text \<open>A server with two clients: the first came over TCP, the second over TR-UDP.\<close>

definition sample_uuid :: uuid_lib where
  "sample_uuid = \<lparr> uu_String = string_of, uu_Parse = (\<lambda>_. Inl []), uu_FromBytes = (\<lambda>_. Inl []) \<rparr>"

definition sample_l0_env :: "unit l0_env" where
  "sample_l0_env = \<lparr> le_write = (\<lambda>_ p. (length p, None)), le_uuid = sample_uuid, le_dec = (\<lambda>_. None), le_enc = (\<lambda>_ _. []) \<rparr>"

definition login_packet :: "string \<Rightarrow> string \<Rightarrow> l0_conn \<Rightarrow> l0_packet" where
  "login_packet name ad conn =
     \<lparr> lp_packet = lnull_packet 0 '''' (bytes_of name @ [0]), lp_cli = 0, lp_addr = ad, lp_conn = conn \<rparr>"

definition sample_l0 :: l0Conn where
  "sample_l0 =
     (case go_bind (l0_process (le_write sample_l0_env) (login_packet ''ann'' ''h:1'' (TcpConn 1)) (l0New True []))
             (\<lambda>(_, l). l0_process (le_write sample_l0_env) (login_packet ''bob'' ''h:2'' (TrudpConn 2)) l) of
        Inr (_, t) \<Rightarrow> t | Inl _ \<Rightarrow> l0New True [])"

lemma sample_l0_ok: "l0_ok sample_l0"
proof -
  have "l0_ok t" if g: "go_bind (l0_process wr p (l0New True [])) (\<lambda>(_, l). l0_process wr q l) = Inr (a, t)" for wr p q a t
  proof -
    obtain b u where u: "l0_process wr p (l0New True []) = Inr (b, u)" "l0_process wr q u = Inr (a, t)"
      using g by (cases "l0_process wr p (l0New True [])") (auto split: prod.splits)
    show ?thesis by (rule l0_process_keeps [OF l0_process_keeps [OF l0_ok_New u(1)] u(2)])
  qed
  then show ?thesis unfolding sample_l0_def
    by (auto split: sum.split simp: l0_ok_New)
qed

lemma sample_l0_facts:
  "l0_findAddr ''h:1'' sample_l0 = Some 0" "l0_findName ''bob'' sample_l0 = Some 1" "l0_findName ''ps'' sample_l0 = None"
  "lc_conn (lz_clients sample_l0 1) = Some (TrudpConn 2)" "lc_name (lz_clients sample_l0 0) = ''ann''"
  "lz_allow sample_l0" "lz_out sample_l0 = []"
  by code_simp+

theorem l0_maps_consistent_witness:
  "l0_ok (snd (projr (l0_event_step sample_l0_env (L0TcpEnds ''h:1'' 1) sample_l0)))"
proof -
  obtain a t where r: "l0_event_step sample_l0_env (L0TcpEnds ''h:1'' 1) sample_l0 = Inr (a, t)"
    by (simp add: l0_event_step_def)
  have "renames sample_l0_env (L0TcpEnds ''h:1'' 1) = None" by (simp add: renames_def)
  with l0_maps_consistent [OF sample_l0_ok r] r show ?thesis by simp
qed

text \<open>A packet of a client that is logged in: the count, then the name field says where it goes.\<close>

definition l0_received :: "nat \<Rightarrow> l0Conn \<Rightarrow> l0Conn" where
  "l0_received c l0 = (upd_l0client c (\<lambda>x. x\<lparr>lc_receive := lc_receive x + 1\<rparr>) l0)\<lparr>lz_updated := True\<rparr>"

lemma l0_received_simps:
  "l0_same l0 (l0_received c l0)"
  "l0_findName to (l0_received c l0) = l0_findName to l0"
  "lc_name (lz_clients (l0_received c l0) d) = lc_name (lz_clients l0 d)"
  "lc_conn (lz_clients (l0_received c l0) d) = lc_conn (lz_clients l0 d)"
  "lz_out (l0_received c l0) = lz_out l0"
  unfolding l0_received_def
  by (rule l0_same_trans [OF l0_same_frames(5) l0_same_frames(2)]) (simp_all add: l0_findName_def upd_l0client_def)

lemma l0_process_received:
  assumes "l0_findAddr (lp_addr pac) l0 = Some c" and "lp_packet pac = lnull_packet cmd to data" and "lnull_ok to data"
  shows "l0_process wr pac l0 =
     (if l0_findName to l0 \<noteq> None
      then go_bind (l0_sendTo wr (lc_name (lz_clients l0 c)) to cmd data (l0_received c l0)) (\<lambda>(_, l). Inr (ActNone, l))
      else Inr (ActToPeer to (lc_name (lz_clients l0 c)) cmd data, l0_received c l0))"
  using assms l0_received_simps(2,3,4) [where ?l0.0 = l0 and c = c]
  unfolding l0_received_def by (simp add: l0_process_def Let_def codec_simps)

lemma l0_process_to_peer:
  assumes "l0_findAddr (lp_addr pac) l0 = Some c" and "lp_packet pac = lnull_packet cmd to data" and "lnull_ok to data"
    and "l0_findName to l0 = None"
  shows "\<exists>t. l0_same l0 t \<and> lz_out t = lz_out l0
    \<and> l0_process wr pac l0 = Inr (ActToPeer to (lc_name (lz_clients l0 c)) cmd data, t)"
  using l0_process_received [OF assms(1-3), of wr] assms(4) by (simp add: l0_received_simps)

lemma l0_process_to_client:
  assumes "l0_ok l0" and "l0_findAddr (lp_addr pac) l0 = Some c" and "lp_packet pac = lnull_packet cmd to data"
    and "lnull_ok to data" and "l0_findName to l0 = Some d" and "lnull_ok (lc_name (lz_clients l0 c)) data"
  shows "\<exists>t conn. l0_same l0 t \<and> lc_conn (lz_clients l0 d) = Some conn \<and> l0_process wr pac l0 = Inr (ActNone, t)
    \<and> lz_out t = lz_out l0 @ [ConnWrite conn (lnull_packet cmd (lc_name (lz_clients l0 c)) data)]"
proof -
  let ?l = "l0_received c l0"
  obtain conn where conn: "lc_conn (lz_clients l0 d) = Some conn" using l0_okD(2) [OF assms(1,5)] by auto
  have "l0_findName to ?l = Some d" "lc_conn (lz_clients ?l d) = Some conn" using assms(5) conn by (simp_all add: l0_received_simps)
  from l0_sendTo_connected [OF this assms(6), of wr cmd] obtain t where
    "l0_sendTo wr (lc_name (lz_clients l0 c)) to cmd data ?l = Inr (wr conn (lnull_packet cmd (lc_name (lz_clients l0 c)) data), t)"
    "l0_same ?l t" "lz_out t = lz_out ?l @ [ConnWrite conn (lnull_packet cmd (lc_name (lz_clients l0 c)) data)]" by blast
  then show ?thesis
    using l0_process_received [OF assms(2-4), of wr] assms(5) conn l0_same_trans [OF l0_received_simps(1)]
    by (auto simp: l0_received_simps)
qed

text \<open>C19: a packet of a client that is logged in goes to where its name field says: when a client of that
  name is connected here, exactly one packet is written, to that client's connection, with the same
  command and data and the sender's name; else the node is asked to send it to the peer of that
  name, as from this client, and nothing is written.\<close>

theorem l0_packet_routed:
  assumes "l0_ok l0" and "l0_findAddr (lp_addr pac) l0 = Some c" and "lp_packet pac = lnull_packet cmd to data"
    and "lnull_ok to data" and "lnull_ok (lc_name (lz_clients l0 c)) data"
  shows "\<exists>t. l0_same l0 t \<and>
     (case l0_findName to l0 of
        Some d \<Rightarrow> \<exists>conn. lc_conn (lz_clients l0 d) = Some conn \<and> l0_process wr pac l0 = Inr (ActNone, t)
          \<and> lz_out t = lz_out l0 @ [ConnWrite conn (lnull_packet cmd (lc_name (lz_clients l0 c)) data)]
      | None \<Rightarrow> l0_process wr pac l0 = Inr (ActToPeer to (lc_name (lz_clients l0 c)) cmd data, t)
          \<and> lz_out t = lz_out l0)"
proof (cases "l0_findName to l0")
  case None
  then show ?thesis using l0_process_to_peer [OF assms(2-4) None, of wr] by auto
next
  case (Some d)
  then show ?thesis using l0_process_to_client [OF assms(1-4) Some assms(5), of wr] by auto
qed

theorem l0_packet_routed_witness:
  "\<exists>t. l0_process (\<lambda>_ _. (0, None)) \<lparr> lp_packet = lnull_packet 129 ''bob'' [5], lp_cli = 0, lp_addr = ''h:1'', lp_conn = TcpConn 1 \<rparr>
       sample_l0 = Inr (ActNone, t) \<and> lz_out t = [ConnWrite (TrudpConn 2) (lnull_packet 129 ''ann'' [5])]"
  using l0_packet_routed [OF sample_l0_ok, of "\<lparr> lp_packet = lnull_packet 129 ''bob'' [5], lp_cli = 0, lp_addr = ''h:1'', lp_conn = TcpConn 1 \<rparr>"
      0 129 "''bob''" "[5]" "\<lambda>_ _. (0, None)"]
  by (auto simp del: One_nat_def simp add: sample_l0_facts lnull_ok_def nul_free_def byte_of_char_def)

text \<open>The command that carries a client's packet between an L0 server and a peer gives back the client's
  name, the command and the data, for names up to 254 characters and data below 64 KiB.\<close>

lemma l0_carry_roundtrip:
  assumes "length client < 255" and "length data < 65536"
  shows "l0_packetParse (l0_packetCreate client cmd data) = Inr (client, cmd, data)"
  using l0_packetParse_create [OF assms(1)] assms(2) by simp

lemma l0_carry_roundtrip_example:
  "l0_packetParse (l0_packetCreate ''ann'' 129 [1, 2]) = Inr (''ann'', 129, [1, 2])"
  by (rule l0_carry_roundtrip) simp_all



end
