(* ===== verification/Node.thy ===== *)
theory Node
  imports TeoWait L0Server
begin

text \<open>
  The teonet node: \<open>teonet/teonet/teonet.go\<close> (sending, reading events), \<open>arp.go\<close> (the table of
  peers), \<open>command.go\<close> (processing of commands), \<open>rhost.go\<close> (the remote host) and \<open>event.go\<close>,
  over the components for packets, splitting, waiting and the L0 server. Processing a command can send a
  command to the node itself, which is processed at once: the functions below take the processing of
  such a command as an argument, and the recursion is closed with fuel. Results are \<open>None\<close> when the
  fuel runs out, \<open>Some (Inl p)\<close> for a panic.
\<close>

section \<open>Results\<close>

type_synonym 'a res = "'a go option"

definition res_bind :: "'a res \<Rightarrow> ('a \<Rightarrow> 'b res) \<Rightarrow> 'b res" where
  "res_bind m f = (case m of None \<Rightarrow> None | Some (Inl e) \<Rightarrow> Some (Inl e) | Some (Inr x) \<Rightarrow> f x)"

definition ret :: "'a \<Rightarrow> 'a res" where
  "ret x = Some (Inr x)"

definition panics :: "panic \<Rightarrow> 'a res" where
  "panics e = Some (Inl e)"

definition of_go :: "'a go \<Rightarrow> 'a res" where
  "of_go m = Some m"

lemma res_simps [simp]:
  "res_bind None f = None" "res_bind (Some (Inl e)) f = Some (Inl e)" "res_bind (Some (Inr x)) f = f x"
  "res_bind (ret x) f = f x" "res_bind (panics e) f = panics e" "res_bind (of_go (Inr x)) f = f x"
  "res_bind (of_go (Inl e)) f = panics e"
  by (simp_all add: res_bind_def ret_def panics_def of_go_def)

section \<open>State\<close>

record arpData =
  ad_peer :: string
  ad_mode :: int
  ad_version :: string
  ad_appVersion :: string
  ad_appType :: "string list"
  ad_tcd :: "nat option"

record rhostData =
  rh_tcd :: "nat option"
  rh_running :: bool
  rh_connected :: bool
  rh_wg :: nat

text \<open>The parameters that the node uses.\<close>

record Parameters =
  pa_Name :: string
  pa_Port :: int
  pa_RAddr :: string
  pa_RPort :: int
  pa_DisallowEncrypt :: bool

text \<open>
  What the node does to the outside: packets written to TR-UDP channels (encrypted), channels closed,
  and goroutines started: one waits for a peer's host info, one connects to an address, one asks the
  registrar.
\<close>

datatype node_out =
    NWrite nat bytes
  | NWriteUnsafe nat bytes
  | NClose nat
  | NWaitHostInfo string
  | NDiscover string int
  | NRegistrar bytes

text \<open>
  The table of peers is an association list; its order stands for the order in which Go goes through
  the map. Events are kept with the channel they were sent on: the main channel or a subscribed one.
\<close>

record Teonet =
  no_param :: Parameters
  no_arp :: "(string \<times> arpData) list"
  no_rhost :: rhostData
  no_wcom :: waitCommand
  no_split :: splitPacket
  no_l0 :: l0Conn
  no_running :: bool
  no_reconnect :: bool
  no_subs :: "nat list"
  no_events :: "(nat option \<times> int \<times> Packet option) list"
  no_out :: "node_out list"

definition EventStarted :: int where "EventStarted = 0"
definition EventConnected :: int where "EventConnected = 3"
definition EventDisconnected :: int where "EventDisconnected = 4"
definition EventReceived :: int where "EventReceived = 5"

text \<open>
  What is not code of this repository, or belongs to the channels: the address, channel number and key
  of a TR-UDP channel, its triptime (as the bits of a double), what its \<open>Write\<close> returns; encryption
  and decryption (with false for an error); the authentication server behind HTTP, which gets a request in
  JSON and whose answer is put in JSON (none for an error); JSON.
\<close>

record 'n node_env =
  ne_ip :: "nat \<Rightarrow> string"
  ne_port :: "nat \<Rightarrow> int"
  ne_ch :: "nat \<Rightarrow> int"
  ne_key :: "nat \<Rightarrow> string"
  ne_triptime :: "nat \<Rightarrow> u64"
  ne_write :: "nat \<Rightarrow> bytes \<Rightarrow> nat \<times> string option"
  ne_encrypt :: "bytes \<Rightarrow> bytes"
  ne_decrypt :: "bytes \<Rightarrow> bytes \<times> bool"
  ne_l0 :: "'n l0_env"
  ne_http_auth :: "bytes \<Rightarrow> bytes option"
  ne_json_host :: "string \<Rightarrow> string list \<Rightarrow> string \<Rightarrow> string \<Rightarrow> bytes"
  ne_unjson_host :: "bytes \<Rightarrow> string \<times> string list \<times> string"
  ne_json_peers :: "(string \<times> int \<times> string \<times> int \<times> u64) list \<Rightarrow> bytes"

definition node_emit :: "node_out list \<Rightarrow> Teonet \<Rightarrow> Teonet" where
  "node_emit os st = st\<lparr>no_out := no_out st @ os\<rparr>"

definition Version :: string where "Version = ''3.0.1''"

definition localhostIP :: string where "localhostIP = ''127.0.0.1''"

section \<open>Events\<close>

definition ev_send :: "int \<Rightarrow> Packet option \<Rightarrow> Teonet \<Rightarrow> Teonet" where
  "ev_send ev data st =
     (if \<not> no_running st then st
      else st\<lparr>no_events := no_events st @ [(None, ev, data)] @ map (\<lambda>c. (Some c, ev, data)) (no_subs st)\<rparr>)"

definition ev_subscribe :: "nat \<Rightarrow> Teonet \<Rightarrow> Teonet" where
  "ev_subscribe c st = st\<lparr>no_subs := no_subs st @ [c]\<rparr>"

definition ev_unsubscribe :: "nat \<Rightarrow> Teonet \<Rightarrow> Teonet" where
  "ev_unsubscribe c st = st\<lparr>no_subs := filter (\<lambda>x. x \<noteq> c) (no_subs st)\<rparr>"

section \<open>The table of peers\<close>

definition arp_find :: "string \<Rightarrow> Teonet \<Rightarrow> arpData option" where
  "arp_find peer st = map_of (no_arp st) peer"

definition arp_set :: "string \<Rightarrow> arpData \<Rightarrow> Teonet \<Rightarrow> Teonet" where
  "arp_set peer a st = st\<lparr>no_arp := AList.update peer a (no_arp st)\<rparr>"

text \<open>\<open>find\<close> by channel, and by address, port and channel number.\<close>

definition arp_find_tcd :: "nat \<Rightarrow> Teonet \<Rightarrow> arpData option" where
  "arp_find_tcd tcd st = map_option snd (find (\<lambda>(_, a). ad_tcd a = Some tcd) (no_arp st))"

definition arp_find_addr :: "'n node_env \<Rightarrow> string \<Rightarrow> int \<Rightarrow> int \<Rightarrow> Teonet \<Rightarrow> arpData option" where
  "arp_find_addr E ip port chn st =
     map_option snd (find (\<lambda>(_, a). case ad_tcd a of None \<Rightarrow> False
       | Some t \<Rightarrow> ne_ip E t = ip \<and> ne_port E t = port \<and> ne_ch E t = chn) (no_arp st))"

definition arp_peerAdd :: "string \<Rightarrow> string \<Rightarrow> Teonet \<Rightarrow> Teonet" where
  "arp_peerAdd peer ver st =
     (case arp_find peer st of
        Some _ \<Rightarrow> st
      | None \<Rightarrow> arp_set peer \<lparr> ad_peer = peer, ad_mode = -1, ad_version = ver, ad_appVersion = [],
                               ad_appType = [], ad_tcd = None \<rparr> st)"

text \<open>\<open>peer\<close>: the name by channel; a peer without channel has the channel nil.\<close>

definition arp_peer :: "nat option \<Rightarrow> Teonet \<Rightarrow> string" where
  "arp_peer tcd st =
     (case find (\<lambda>(_, a). ad_tcd a = tcd) (no_arp st) of None \<Rightarrow> ''unknown'' | Some (peer, _) \<Rightarrow> peer)"

definition arp_deletePeer :: "string \<Rightarrow> Teonet \<Rightarrow> Teonet" where
  "arp_deletePeer peer st =
     (case arp_find peer st of
        None \<Rightarrow> st
      | Some a \<Rightarrow>
          let st = (if ad_mode a \<noteq> -1 then ev_send EventDisconnected (Some (PacketCreateNew peer 0 [])) st else st)
          in st\<lparr>no_arp := AList.delete peer (no_arp st)\<rparr>)"

definition close_tcd :: "nat option \<Rightarrow> Teonet \<Rightarrow> Teonet" where
  "close_tcd tcd st = (case tcd of None \<Rightarrow> st | Some t \<Rightarrow> node_emit [NClose t] st)"

definition arp_delete :: "string \<Rightarrow> Teonet \<Rightarrow> Teonet" where
  "arp_delete from st =
     (case arp_find from st of
        None \<Rightarrow> st
      | Some a \<Rightarrow> arp_deletePeer from (close_tcd (ad_tcd a) st))"

definition arp_deleteKey :: "'n node_env \<Rightarrow> string \<Rightarrow> Teonet \<Rightarrow> Teonet" where
  "arp_deleteKey E k st =
     (case find (\<lambda>(_, a). case ad_tcd a of None \<Rightarrow> False | Some t \<Rightarrow> ne_key E t = k) (no_arp st) of
        None \<Rightarrow> st
      | Some (peer, a) \<Rightarrow> arp_deletePeer peer (close_tcd (ad_tcd a) st))"

definition arp_sort :: "Teonet \<Rightarrow> string list" where
  "arp_sort st = sort (map fst (no_arp st))"

text \<open>The line of a peer in the answer to the command "peers".\<close>

definition peer_line :: "'n node_env \<Rightarrow> string \<Rightarrow> arpData \<Rightarrow> Teonet \<Rightarrow> string \<times> int \<times> string \<times> int \<times> u64" where
  "peer_line E peer a st =
     (case ad_tcd a of
        Some t \<Rightarrow> (peer, ad_mode a, ne_ip E t, ne_port E t, ne_triptime E t)
      | None \<Rightarrow> (peer, ad_mode a, localhostIP, pa_Port (no_param st), 0))"

definition arp_lines :: "'n node_env \<Rightarrow> Teonet \<Rightarrow> (string \<times> int \<times> string \<times> int \<times> u64) list" where
  "arp_lines E st =
     List.map_filter (\<lambda>peer. map_option (\<lambda>a. peer_line E peer a st) (arp_find peer st)) (arp_sort st)"

fun peers_data :: "(string \<times> int \<times> string \<times> int \<times> u64) list \<Rightarrow> bytes go" where
  "peers_data [] = Inr []"
| "peers_data ((peer, mode, ad, port, tt) # ls) =
     go_bind (PeerData mode peer ad port tt) (\<lambda>d. go_bind (peers_data ls) (\<lambda>r. Inr (d @ r)))"

definition arp_binary :: "'n node_env \<Rightarrow> Teonet \<Rightarrow> bytes go" where
  "arp_binary E st =
     go_bind (peers_data (arp_lines E st)) (\<lambda>d. Inr (le32 (of_nat (length (arp_sort st))) @ d))"

definition arp_json :: "'n node_env \<Rightarrow> Teonet \<Rightarrow> bytes" where
  "arp_json E st = ne_json_peers E (arp_lines E st)"

text \<open>\<open>binaryToJSON\<close>: as many records as the number says, each filled with zeros where data end.\<close>

fun parse_peers :: "nat \<Rightarrow> bytes \<Rightarrow> (string \<times> int \<times> string \<times> int \<times> u64) list go" where
  "parse_peers 0 r = Inr []"
| "parse_peers (Suc n) r =
     (case rd_fill PeerDataLength r of (d, r) \<Rightarrow>
        go_bind (ParsePeerData d) (\<lambda>(mode, name, ad, port, tt).
        go_bind (parse_peers n r) (\<lambda>ls. Inr ((name, mode, ad, port, tt) # ls))))"

definition binaryToJSON :: "'n node_env \<Rightarrow> bytes \<Rightarrow> bytes go" where
  "binaryToJSON E indata =
     (case rd_u32 indata of (n, r) \<Rightarrow>
        go_bind (parse_peers (unat (or_old 0 n)) r) (\<lambda>ls. Inr (ne_json_peers E ls)))"

section \<open>Sending\<close>

type_synonym self = "receiveData \<Rightarrow> Teonet \<Rightarrow> (bool \<times> Teonet) res"

text \<open>
  \<open>sendToHimself\<close>: the packet is parsed and processed. A packet that does not parse is an error.
\<close>

definition sendToHimself :: "self \<Rightarrow> u8 \<Rightarrow> bytes \<Rightarrow> Teonet \<Rightarrow> ((nat \<times> string option) \<times> Teonet) res" where
  "sendToHimself self cmd data st =
     res_bind (of_go (Parse (PacketCreateNew (pa_Name (no_param st)) cmd data))) (\<lambda>p.
       case p of
         Inl e \<Rightarrow> ret ((0, Some ''can't parse packet to himself''), st)
       | Inr rd \<Rightarrow>
           res_bind (self \<lparr> rec_rd = rd, rec_tcd = None \<rparr> st) (\<lambda>(_, st). ret ((length data, None), st)))"

text \<open>
  The callback of \<open>split\<close>: each packet is created, encrypted and written; the length counts what was
  written. The error of a write is overwritten by the one \<open>split\<close> returns, which is none.
\<close>

fun write_parts :: "'n node_env \<Rightarrow> nat \<Rightarrow> (u8 \<times> bytes) list \<Rightarrow> nat \<Rightarrow> Teonet \<Rightarrow> nat \<times> Teonet" where
  "write_parts E t [] n st = (n, st)"
| "write_parts E t ((cmd, data) # ps) n st =
     (let pac = ne_encrypt E (pac_bytes (PacketCreateNew (pa_Name (no_param st)) cmd data))
      in case ne_write E t pac of
           (l, Some _) \<Rightarrow> write_parts E t ps n st
         | (l, None) \<Rightarrow> write_parts E t ps (n + l) (node_emit [NWrite t pac] st))"

definition sendToTcd :: "'n node_env \<Rightarrow> self \<Rightarrow> nat option \<Rightarrow> u8 \<Rightarrow> bytes \<Rightarrow> Teonet
    \<Rightarrow> ((nat \<times> string option) \<times> Teonet) res" where
  "sendToTcd E self tcd cmd data st =
     (case tcd of
        None \<Rightarrow> sendToHimself self cmd data st
      | Some t \<Rightarrow>
          (case split_data cmd data (no_split st) of
             (parts, _, sp) \<Rightarrow>
               (case write_parts E t parts 0 (st\<lparr>no_split := sp\<rparr>) of (n, st) \<Rightarrow> ret ((n, None), st))))"

definition sendToTcdUnsafe :: "'n node_env \<Rightarrow> nat \<Rightarrow> u8 \<Rightarrow> bytes \<Rightarrow> Teonet \<Rightarrow> Teonet" where
  "sendToTcdUnsafe E t cmd data st =
     node_emit [NWriteUnsafe t (ne_encrypt E (pac_bytes (PacketCreateNew (pa_Name (no_param st)) cmd data)))] st"

definition SendTo :: "'n node_env \<Rightarrow> self \<Rightarrow> string \<Rightarrow> u8 \<Rightarrow> bytes \<Rightarrow> Teonet \<Rightarrow> ((nat \<times> string option) \<times> Teonet) res" where
  "SendTo E self to cmd data st =
     (case arp_find to st of
        None \<Rightarrow>
          if to \<noteq> '''' then ret ((0, Some (''peer '' @ to @ '' not connected to this host'')), st)
          else sendToHimself self cmd data st
      | Some a \<Rightarrow>
          (case ad_tcd a of
             None \<Rightarrow> sendToHimself self cmd data st
           | Some t \<Rightarrow> sendToTcd E self (Some t) cmd data st))"

definition CmdNone :: u8 where "CmdNone = 0"
definition CmdConnectR :: u8 where "CmdConnectR = 4"
definition CmdConnect :: u8 where "CmdConnect = 5"
definition CmdDisconnect :: u8 where "CmdDisconnect = 6"
definition CmdReset :: u8 where "CmdReset = 8"
definition CmdEcho :: u8 where "CmdEcho = 65"
definition CmdEchoAnswer :: u8 where "CmdEchoAnswer = 66"
definition CmdL0 :: u8 where "CmdL0 = 70"
definition CmdL0To :: u8 where "CmdL0To = 71"
definition CmdPeers :: u8 where "CmdPeers = 72"
definition CmdPeersAnswer :: u8 where "CmdPeersAnswer = 73"
definition cmdAuth :: u8 where "cmdAuth = 77"
definition cmdAuthAnswer :: u8 where "cmdAuthAnswer = 78"
definition CmdL0Clients :: u8 where "CmdL0Clients = 79"
definition CmdL0ClientsAnswer :: u8 where "CmdL0ClientsAnswer = 80"
definition CmdL0ClientsNum :: u8 where "CmdL0ClientsNum = 84"
definition CmdL0ClientsNumAnswer :: u8 where "CmdL0ClientsNumAnswer = 85"
definition CmdHostInfo :: u8 where "CmdHostInfo = 90"
definition CmdHostInfoAnswer :: u8 where "CmdHostInfoAnswer = 91"
definition CmdL0Auth :: u8 where "CmdL0Auth = 96"
definition CmdUser :: u8 where "CmdUser = 129"

lemmas cmd_defs =
  CmdNone_def CmdConnectR_def CmdConnect_def CmdDisconnect_def CmdReset_def CmdEcho_def CmdEchoAnswer_def
  CmdL0_def CmdL0To_def CmdPeers_def CmdPeersAnswer_def cmdAuth_def cmdAuthAnswer_def CmdL0Clients_def CmdL0ClientsAnswer_def
  CmdL0ClientsNum_def CmdL0ClientsNumAnswer_def CmdHostInfo_def CmdHostInfoAnswer_def CmdL0Auth_def CmdUser_def
  CmdSplit_def

text \<open>To an L0 client through its server: by the server's name, or its address.\<close>

definition SendToClient :: "'n node_env \<Rightarrow> self \<Rightarrow> string \<Rightarrow> string \<Rightarrow> u8 \<Rightarrow> bytes \<Rightarrow> Teonet
    \<Rightarrow> ((nat \<times> string option) \<times> Teonet) res" where
  "SendToClient E self l0Peer client cmd data st =
     SendTo E self l0Peer CmdL0To (l0_packetCreate client cmd data) st"

definition sendToClient :: "'n node_env \<Rightarrow> self \<Rightarrow> string \<Rightarrow> int \<Rightarrow> string \<Rightarrow> u8 \<Rightarrow> bytes \<Rightarrow> Teonet
    \<Rightarrow> ((nat \<times> string option) \<times> Teonet) res" where
  "sendToClient E self ip port client cmd data st =
     (case arp_find_addr E ip port 0 st of
        None \<Rightarrow> ret ((0, Some (''can't find l0 server '' @ ip @ '':'' @ Itoa port @ '' in arp table'')), st)
      | Some a \<Rightarrow> SendToClient E self (ad_peer a) client cmd data st)"

definition isL0Local :: "string \<Rightarrow> int \<Rightarrow> Teonet \<Rightarrow> bool" where
  "isL0Local ip port st \<longleftrightarrow>
     lz_allow (no_l0 st) \<and> port = pa_Port (no_param st)
     \<and> (ip = '''' \<or> ip = ''127.0.0.1'' \<or> ip = ''localhost'')"

definition node_l0_sendTo :: "'n node_env \<Rightarrow> string \<Rightarrow> string \<Rightarrow> u8 \<Rightarrow> bytes \<Rightarrow> Teonet
    \<Rightarrow> ((nat \<times> string option) \<times> Teonet) res" where
  "node_l0_sendTo E from client cmd data st =
     res_bind (of_go (l0_sendTo (le_write (ne_l0 E)) from client cmd data (no_l0 st))) (\<lambda>(r, l0).
       ret (r, st\<lparr>no_l0 := l0\<rparr>))"

text \<open>
  Answers: \<open>SendAnswer\<close> to a packet (which panics when the packet has no L0 structure), and
  \<open>sendAnswer\<close> to received data.
\<close>

definition SendAnswer :: "'n node_env \<Rightarrow> self \<Rightarrow> Packet \<Rightarrow> u8 \<Rightarrow> bytes \<Rightarrow> Teonet \<Rightarrow> ((nat \<times> string option) \<times> Teonet) res" where
  "SendAnswer E self pac cmd data st =
     res_bind (of_go (L0 pac)) (\<lambda>(ip, port, ok).
     res_bind (of_go (From pac)) (\<lambda>from.
       if ok
       then if isL0Local ip port st then node_l0_sendTo E (pa_Name (no_param st)) from cmd data st
            else sendToClient E self ip port from cmd data st
       else SendTo E self from cmd data st))"

definition sendAnswer :: "'n node_env \<Rightarrow> self \<Rightarrow> receiveData \<Rightarrow> u8 \<Rightarrow> bytes \<Rightarrow> Teonet \<Rightarrow> ((nat \<times> string option) \<times> Teonet) res" where
  "sendAnswer E self r cmd data st =
     (let rd = rec_rd r
      in if \<not> rd_l0_f rd then sendToTcd E self (rec_tcd r) cmd data st
         else if isL0Local (rd_addr rd) (rd_port rd) st
         then node_l0_sendTo E (pa_Name (no_param st)) (rd_from rd) cmd data st
         else res_bind (sendToClient E self (rd_addr rd) (rd_port rd) (rd_from rd) cmd data st) (\<lambda>((n, err), st).
                ret ((n, if err \<noteq> None then Some ''can't find whom answer to'' else None), st)))"

text \<open>This host's record in the table.\<close>

definition node_Type :: "Teonet \<Rightarrow> string list" where
  "node_Type st = (case arp_find (pa_Name (no_param st)) st of None \<Rightarrow> [] | Some a \<Rightarrow> ad_appType a)"

definition node_AppVersion :: "Teonet \<Rightarrow> string" where
  "node_AppVersion st = (case arp_find (pa_Name (no_param st)) st of None \<Rightarrow> [] | Some a \<Rightarrow> ad_appVersion a)"

definition node_Host :: "Teonet \<Rightarrow> bytes" where
  "node_Host st = bytes_of (pa_Name (no_param st)) @ [0]"

definition no_host_error :: "Teonet \<Rightarrow> string" where
  "no_host_error st = ''host '' @ pa_Name (no_param st) @ '' does not exist in arp table''"

definition setType :: "string list \<Rightarrow> Teonet \<Rightarrow> string option \<times> Teonet" where
  "setType t st =
     (case arp_find (pa_Name (no_param st)) st of
        None \<Rightarrow> (Some (no_host_error st), st)
      | Some a \<Rightarrow> (None, arp_set (pa_Name (no_param st)) (a\<lparr>ad_appType := t\<rparr>) st))"

definition setAppVersion :: "string \<Rightarrow> Teonet \<Rightarrow> string option \<times> Teonet" where
  "setAppVersion v st =
     (case arp_find (pa_Name (no_param st)) st of
        None \<Rightarrow> (Some (no_host_error st), st)
      | Some a \<Rightarrow> (None, arp_set (pa_Name (no_param st)) (a\<lparr>ad_appVersion := v\<rparr>) st))"

section \<open>The remote host\<close>

definition isrhost :: "nat option \<Rightarrow> Teonet \<Rightarrow> bool" where
  "isrhost tcd st \<longleftrightarrow> rh_tcd (no_rhost st) = tcd"

text \<open>A wait group that is done more often than added to panics.\<close>

definition rhost_done :: "Teonet \<Rightarrow> Teonet go" where
  "rhost_done st =
     (let r = no_rhost st
      in if rh_wg r = 0 then Inl ExplicitPanic
         else Inr (st\<lparr>no_rhost := r\<lparr>rh_connected := False, rh_wg := rh_wg r - 1\<rparr>\<rparr>))"

definition rhost_reconnect :: "nat option \<Rightarrow> Teonet \<Rightarrow> Teonet go" where
  "rhost_reconnect tcd st =
     (if isrhost tcd st \<and> rh_running (no_rhost st) \<and> rh_connected (no_rhost st) then rhost_done st else Inr st)"

definition rhost_destroy :: "Teonet \<Rightarrow> Teonet go" where
  "rhost_destroy st = (if rh_connected (no_rhost st) then rhost_done st else Inr st)"

text \<open>The data of the command that asks the remote host to connect: this host's addresses and port.\<close>

definition connectR_data :: "string list \<Rightarrow> int \<Rightarrow> bytes" where
  "connectR_data ips port =
     [of_nat (length ips)] @ concat (map (\<lambda>ip. bytes_of ip @ [0]) ips) @ le32 (of_int port)"

definition rhost_connect :: "'n node_env \<Rightarrow> self \<Rightarrow> string list \<Rightarrow> int \<Rightarrow> Teonet \<Rightarrow> Teonet res" where
  "rhost_connect E self ips port st =
     res_bind (sendToTcd E self (rh_tcd (no_rhost st)) CmdConnectR (connectR_data ips port) st) (\<lambda>(_, st).
       ret (st\<lparr>no_rhost := (no_rhost st)\<lparr>rh_connected := True\<rparr>\<rparr>))"

text \<open>One round of the loop of \<open>run\<close> on a new channel, up to the wait; and what follows the wait.\<close>

definition rhost_round :: "'n node_env \<Rightarrow> self \<Rightarrow> string list \<Rightarrow> int \<Rightarrow> nat \<Rightarrow> Teonet \<Rightarrow> Teonet res" where
  "rhost_round E self ips port tcd st =
     res_bind (rhost_connect E self ips port (st\<lparr>no_rhost := (no_rhost st)\<lparr>rh_tcd := Some tcd\<rparr>\<rparr>)) (\<lambda>st.
       ret (st\<lparr>no_rhost := (no_rhost st)\<lparr>rh_wg := rh_wg (no_rhost st) + 1\<rparr>\<rparr>))"

definition rhost_next :: "Teonet \<Rightarrow> bool \<times> Teonet" where
  "rhost_next st =
     (if no_running st then (True, st)
      else (False, st\<lparr>no_rhost := (no_rhost st)\<lparr>rh_running := False\<rparr>\<rparr>))"

definition rhost_run :: "Teonet \<Rightarrow> bool \<times> Teonet" where
  "rhost_run st =
     (if pa_RPort (no_param st) > 0
      then (True, st\<lparr>no_rhost := (no_rhost st)\<lparr>rh_running := True\<rparr>\<rparr>) else (False, st))"

text \<open>
  \<open>cmdConnectData\<close>: a trailing 255 in each of the last two bytes becomes 0 first, in place.
\<close>

definition fix_255 :: "bytes \<Rightarrow> bytes" where
  "fix_255 d =
     (let l = length d;
          d1 = (if d ! (l - 1) = 255 then d[l - 1 := 0] else d)
      in if d1 ! (l - 2) = 255 then d1[l - 2 := 0] else d1)"

text \<open>\<open>ReadString(0)\<close> with the zero trimmed: up to the first zero, or all there is.\<close>

definition read_zstring :: "bytes \<Rightarrow> string \<times> bytes" where
  "read_zstring b = (string_of (takeWhile (\<lambda>x. x \<noteq> 0) b), drop 1 (dropWhile (\<lambda>x. x \<noteq> 0) b))"

definition cmdConnectData :: "bytes \<Rightarrow> (string + (string \<times> string \<times> int)) go" where
  "cmdConnectData data =
     (if data = [] then Inr (Inl ''data not present'')
      else if length data = 1 then Inl IndexOutOfRange
      else
        case read_zstring (fix_255 data) of (peer, r) \<Rightarrow>
        case read_zstring r of (ip, r) \<Rightarrow>
        case rd_u32 r of (port, _) \<Rightarrow> Inr (Inr (peer, ip, uint (or_old 0 port))))"

definition cmdConnect :: "'n node_env \<Rightarrow> bytes \<Rightarrow> Teonet \<Rightarrow> Teonet go" where
  "cmdConnect E data st =
     go_bind (cmdConnectData data) (\<lambda>r.
       case r of
         Inl _ \<Rightarrow> Inr st
       | Inr (peer, ip, port) \<Rightarrow>
           Inr (if arp_find peer st \<noteq> None \<or> arp_find_addr E ip port 0 st \<noteq> None then st
                else node_emit [NDiscover ip port] st))"

text \<open>The goroutine that connects: with the new channel, and after its timeout.\<close>

definition discover :: "'n node_env \<Rightarrow> self \<Rightarrow> nat \<Rightarrow> Teonet \<Rightarrow> Teonet res" where
  "discover E self tcd st = res_bind (sendToTcd E self (Some tcd) CmdNone [0] st) (\<lambda>(_, st). ret st)"

definition discover_timeout :: "nat \<Rightarrow> Teonet \<Rightarrow> Teonet" where
  "discover_timeout tcd st =
     (if rh_running (no_rhost st) \<and> arp_find_tcd tcd st = None then node_emit [NClose tcd] st else st)"

text \<open>\<open>makeData\<close> and \<open>getPort\<close> (the last four bytes).\<close>

definition makeData :: "string \<Rightarrow> string \<Rightarrow> int \<Rightarrow> bytes" where
  "makeData from ip port = bytes_of from @ [0] @ bytes_of ip @ [0] @ le32 (of_int port)"

definition getPort :: "bytes \<Rightarrow> int go" where
  "getPort d =
     (if length d < 4 then Inl ReadPastEnd
      else case rd_u32 (drop (length d - 4) d) of (p, _) \<Rightarrow> Inr (uint (or_old 0 p)))"

text \<open>Calls a function for the other peers, those that are neither this host nor the sender.\<close>

fun for_children :: "string \<Rightarrow> (string \<Rightarrow> arpData \<Rightarrow> Teonet \<Rightarrow> Teonet res) \<Rightarrow> (string \<times> arpData) list \<Rightarrow> Teonet \<Rightarrow> Teonet res" where
  "for_children from f [] st = ret st"
| "for_children from f ((peer, a) # ps) st =
     (if ad_mode a \<noteq> -1 \<and> peer \<noteq> from then res_bind (f peer a st) (for_children from f ps)
      else for_children from f ps st)"

definition send_connect :: "'n node_env \<Rightarrow> self \<Rightarrow> bytes \<Rightarrow> string \<Rightarrow> arpData \<Rightarrow> Teonet \<Rightarrow> Teonet res" where
  "send_connect E self data peer a st = res_bind (SendTo E self peer CmdConnect data st) (\<lambda>(_, st). ret st)"

text \<open>The loop over the addresses in the command: \<open>i\<close> counts those to come, \<open>r\<close> are the bytes from the next.\<close>

fun connectR_loop :: "'n node_env \<Rightarrow> self \<Rightarrow> string \<Rightarrow> int \<Rightarrow> nat \<Rightarrow> bytes \<Rightarrow> Teonet \<Rightarrow> Teonet res" where
  "connectR_loop E self from port 0 r st = ret st"
| "connectR_loop E self from port (Suc n) r st =
     (if r = [] then panics IndexOutOfRange
      else res_bind (of_go (c_string r)) (\<lambda>ip.
           res_bind (for_children from (send_connect E self (makeData from ip port)) (no_arp st) st)
             (connectR_loop E self from port n (drop (length ip + 1) r))))"

text \<open>\<open>GetAddr\<close> of a channel that is nil panics.\<close>

definition tcd_addr :: "'n node_env \<Rightarrow> nat option \<Rightarrow> (string \<times> int) res" where
  "tcd_addr E tcd = (case tcd of None \<Rightarrow> panics NilPointer | Some t \<Rightarrow> ret (ne_ip E t, ne_port E t))"

definition cmdConnectR :: "'n node_env \<Rightarrow> self \<Rightarrow> receiveData \<Rightarrow> Teonet \<Rightarrow> Teonet res" where
  "cmdConnectR E self r st =
     res_bind (sendToTcd E self (rec_tcd r) CmdNone [0] st) (\<lambda>(_, st).
       let from = rd_from (rec_rd r); data = rd_data (rec_rd r)
       in case data of
            [] \<Rightarrow> panics IndexOutOfRange
          | n # ips \<Rightarrow>
              res_bind (of_go (getPort data)) (\<lambda>port.
              res_bind (for_children from (send_connect E self (makeData from localhostIP port)) (no_arp st) st) (\<lambda>st.
              res_bind (connectR_loop E self from port (unat n) ips st) (\<lambda>st.
              res_bind (for_children from (\<lambda>peer a st. res_bind (tcd_addr E (rec_tcd r)) (\<lambda>(ip, p).
                          send_connect E self (makeData from ip p) peer a st)) (no_arp st) st) (\<lambda>st.
              for_children from (\<lambda>peer a st. res_bind (tcd_addr E (ad_tcd a)) (\<lambda>(ip, p).
                res_bind (sendToTcd E self (rec_tcd r) CmdConnect (makeData peer ip p) st) (\<lambda>(_, st). ret st)))
                (no_arp st) st)))))"

section \<open>Commands\<close>

text \<open>
  \<open>peerNew\<close>: a peer that is in the table under its name keeps its channel, another one is closed. The
  second search passes the received data, for which \<open>find\<close> has no case: it finds nothing.
\<close>

definition peerNew :: "'n node_env \<Rightarrow> self \<Rightarrow> receiveData \<Rightarrow> Teonet \<Rightarrow> Teonet res" where
  "peerNew E self r st =
     (let peer = rd_from (rec_rd r); tcd = rec_tcd r
      in case arp_find peer st of
           Some a \<Rightarrow>
             if tcd = ad_tcd a then ret st
             else (case tcd of None \<Rightarrow> panics NilPointer | Some t \<Rightarrow> ret (node_emit [NClose t] st))
         | None \<Rightarrow>
             let st = arp_set peer \<lparr> ad_peer = peer, ad_mode = (if isrhost tcd st then 1 else 0), ad_version = [],
                        ad_appVersion = [], ad_appType = [], ad_tcd = tcd \<rparr> st
             in res_bind (sendToTcd E self tcd CmdNone [0] st) (\<lambda>(_, st).
                res_bind (sendToTcd E self tcd CmdHostInfo [0] st) (\<lambda>(_, st).
                ret (node_emit [NWaitHostInfo peer] st))))"

text \<open>The goroutine of \<open>peerNew\<close>: an answer gives the event, a timeout another wait.\<close>

definition host_info_waited :: "string \<Rightarrow> bytes option \<Rightarrow> Teonet \<Rightarrow> Teonet" where
  "host_info_waited peer d st =
     (case d of
        Some _ \<Rightarrow> ev_send EventConnected (Some (PacketCreateNew peer 0 [])) st
      | None \<Rightarrow> node_emit [NWaitHostInfo peer] st)"

definition com_connect :: "'n node_env \<Rightarrow> receiveData \<Rightarrow> u8 \<Rightarrow> Teonet \<Rightarrow> Teonet res" where
  "com_connect E r cmd st =
     (if cmd = CmdConnect
      then res_bind (if rd_data (rec_rd r) = [] then ret () else res_bind (of_go (cmdConnectData (rd_data (rec_rd r)))) (\<lambda>_. ret ()))
             (\<lambda>_. of_go (cmdConnect E (rd_data (rec_rd r)) st))
      else ret st)"

definition com_disconnect :: "receiveData \<Rightarrow> Teonet \<Rightarrow> Teonet" where
  "com_disconnect r st = arp_delete (rd_from (rec_rd r)) st"

text \<open>\<open>Close\<close> of the node: the peers are told and removed. \<open>deleteAll\<close> goes through the table once.\<close>

fun delete_peers :: "'n node_env \<Rightarrow> (string \<times> arpData) list \<Rightarrow> Teonet \<Rightarrow> Teonet go" where
  "delete_peers E [] st = Inr st"
| "delete_peers E ((peer, a) # ps) st =
     go_bind (case ad_tcd a of
                None \<Rightarrow> Inr st
              | Some t \<Rightarrow>
                  go_bind (if ad_mode a = 1 then rhost_reconnect (Some t) st else Inr st) (\<lambda>st.
                  Inr (if ad_mode a \<noteq> -1
                       then node_emit [NClose t]
                              (sendToTcdUnsafe E t CmdDisconnect (if pa_DisallowEncrypt (no_param st) then [0] else []) st)
                       else st)))
       (\<lambda>st. delete_peers E ps (arp_deletePeer peer st))"

definition node_Close :: "'n node_env \<Rightarrow> Teonet \<Rightarrow> Teonet go" where
  "node_Close E st =
     (if \<not> no_running st then Inr st
      else
        let st = st\<lparr>no_running := False, no_l0 := l0_destroy (no_l0 st)\<rparr>
        in go_bind (delete_peers E (no_arp st) st) rhost_destroy)"

definition node_Reconnect :: "'n node_env \<Rightarrow> Teonet \<Rightarrow> Teonet go" where
  "node_Reconnect E st = node_Close E (st\<lparr>no_reconnect := True\<rparr>)"

definition com_reset :: "'n node_env \<Rightarrow> receiveData \<Rightarrow> Teonet \<Rightarrow> Teonet go" where
  "com_reset E r st =
     (case rd_data (rec_rd r) of
        [] \<Rightarrow> Inr st
      | b # _ \<Rightarrow> if b = 1 \<or> b = byte_of_char CHR ''1'' then node_Reconnect E st else Inr st)"

text \<open>The echo commands read their data as a C string for the log.\<close>

definition echo_string :: "bytes \<Rightarrow> string go" where
  "echo_string d = (if d = [] then Inl IndexOutOfRange else c_string d)"

definition com_echo :: "'n node_env \<Rightarrow> self \<Rightarrow> receiveData \<Rightarrow> Teonet \<Rightarrow> Teonet res" where
  "com_echo E self r st =
     res_bind (of_go (echo_string (rd_data (rec_rd r)))) (\<lambda>_.
     res_bind (sendAnswer E self r CmdEchoAnswer (rd_data (rec_rd r)) st) (\<lambda>(_, st). ret st))"

definition com_echoAnswer :: "receiveData \<Rightarrow> Teonet \<Rightarrow> Teonet res" where
  "com_echoAnswer r st = res_bind (of_go (echo_string (rd_data (rec_rd r)))) (\<lambda>_. ret st)"

definition version_bytes :: bytes where "version_bytes = [3, 0, 1]"

definition host_info_data :: "string \<Rightarrow> string list \<Rightarrow> bytes" where
  "host_info_data name types =
     version_bytes @ [of_nat (length types + 1)] @ bytes_of name @ [0] @ concat (map (\<lambda>t. bytes_of t @ [0]) types)"

definition com_hostInfo :: "'n node_env \<Rightarrow> self \<Rightarrow> receiveData \<Rightarrow> Teonet \<Rightarrow> Teonet res" where
  "com_hostInfo E self r st =
     (case arp_find (pa_Name (no_param st)) st of
        None \<Rightarrow> ret st
      | Some a \<Rightarrow>
          let data = (if isJSONRequest (rd_data (rec_rd r))
                      then ne_json_host E (pa_Name (no_param st)) (ad_appType a) Version (ad_appVersion a) @ [0]
                      else host_info_data (pa_Name (no_param st)) (ad_appType a))
          in res_bind (sendAnswer E self r CmdHostInfoAnswer data st) (\<lambda>(_, st). ret st))"

fun read_types :: "nat \<Rightarrow> bytes \<Rightarrow> string list go" where
  "read_types 0 d = Inr []"
| "read_types (Suc n) d =
     (if d = [] then Inl IndexOutOfRange
      else go_bind (c_string d) (\<lambda>t. go_bind (read_types n (drop (length t + 1) d)) (\<lambda>ts. Inr (t # ts))))"

definition host_info_parse :: "'n node_env \<Rightarrow> bytes \<Rightarrow> (string \<times> string list) go" where
  "host_info_parse E d =
     (let l = length d
      in if l > 3 \<and> d ! 0 = byte_of_char CHR ''{'' \<and> d ! (l - 2) = byte_of_char CHR ''}'' \<and> d ! (l - 1) = 0
         then (case ne_unjson_host E d of (name, types, ver) \<Rightarrow> Inr (ver, name # types))
         else case d of
                a # b # c # n # r \<Rightarrow>
                  go_bind (read_types (unat n) r) (\<lambda>ts.
                    Inr (itoa (unat a) @ ''.'' @ itoa (unat b) @ ''.'' @ itoa (unat c), ts))
              | _ \<Rightarrow> Inl IndexOutOfRange)"

definition com_hostInfoAnswer :: "'n node_env \<Rightarrow> receiveData \<Rightarrow> Teonet \<Rightarrow> Teonet go" where
  "com_hostInfoAnswer E r st =
     go_bind (host_info_parse E (rd_data (rec_rd r))) (\<lambda>(ver, types).
       case arp_find (rd_from (rec_rd r)) st of
         None \<Rightarrow> Inr st
       | Some a \<Rightarrow>
           if types = [] then Inl SliceOutOfRange
           else Inr (arp_set (rd_from (rec_rd r)) (a\<lparr>ad_version := ver, ad_appType := tl types\<rparr>) st))"

definition com_peers :: "'n node_env \<Rightarrow> self \<Rightarrow> receiveData \<Rightarrow> Teonet \<Rightarrow> Teonet res" where
  "com_peers E self r st =
     res_bind (if isJSONRequest (rd_data (rec_rd r)) then ret (arp_json E st) else of_go (arp_binary E st)) (\<lambda>data.
     res_bind (sendAnswer E self r CmdPeersAnswer data st) (\<lambda>(_, st). ret st))"

definition dataIsJSON :: "bytes \<Rightarrow> bool" where
  "dataIsJSON data =
     (let d = removeTrailingZero data
      in 2 \<le> length d \<and> (hd d = byte_of_char CHR ''{'' \<and> last d = byte_of_char CHR ''}''
         \<or> hd d = byte_of_char CHR ''['' \<and> last d = byte_of_char CHR '']''))"

definition marshalClientsNum :: "bytes \<Rightarrow> bytes go" where
  "marshalClientsNum d =
     (if length d < 4 then Inl SliceOutOfRange
      else case rd_u32 d of (n, _) \<Rightarrow> Inr (clients_num_json (or_old 0 n)))"

end
