(* ===== verification/NodeProcess.thy ===== *)
theory NodeProcess
  imports Node
begin

text \<open>
  Processing a received command on a node (\<open>command.process\<close> of \<open>teonet/teonet/command.go\<close> with the
  commands of \<open>l0_command.go\<close>, \<open>l0_auth.go\<close> and \<open>split.go\<close>), the packets of L0 clients
  (\<open>l0_process.go\<close>, \<open>l0_send.go\<close>) and the events that \<open>Teonet.read\<close> handles. A command that is sent to the
  node itself is processed with less fuel; the theorem \<open>process_returns\<close> bounds the fuel that is enough.
\<close>

section \<open>The L0 commands on a node\<close>

text \<open>
  The L0 commands. A command from a client of an L0 server is unpacked and processed, marked with the
  address of the server it came through. The two authentication commands use the authentication module,
  which is nil on a node that is no L0 server.
\<close>

definition cmdL0 :: "'n node_env \<Rightarrow> self \<Rightarrow> receiveData \<Rightarrow> Teonet \<Rightarrow> Teonet res" where
  "cmdL0 E self r st =
     res_bind (of_go (l0_packetParse (rd_data (rec_rd r)))) (\<lambda>(name, cmd, data).
     res_bind (of_go (Parse (PacketCreateNew name cmd data))) (\<lambda>p.
       case p of
         Inl _ \<Rightarrow> ret st
       | Inr rd \<Rightarrow>
           (case (case rec_tcd r of None \<Rightarrow> ('''', pa_Port (no_param st)) | Some t \<Rightarrow> (ne_ip E t, ne_port E t)) of
              (ip, port) \<Rightarrow>
                res_bind (self \<lparr> rec_rd = setL0 ip port rd, rec_tcd = rec_tcd r \<rparr> st) (\<lambda>(_, st). ret st))))"

definition com_cmdL0To :: "'n node_env \<Rightarrow> receiveData \<Rightarrow> Teonet \<Rightarrow> Teonet res" where
  "com_cmdL0To E r st =
     res_bind (of_go (cmdL0To (le_write (ne_l0 E)) (rd_from (rec_rd r)) (rd_data (rec_rd r)) (no_l0 st)))
       (\<lambda>l0. ret (st\<lparr>no_l0 := l0\<rparr>))"

definition com_cmdL0Auth :: "'n node_env \<Rightarrow> receiveData \<Rightarrow> Teonet \<Rightarrow> Teonet res" where
  "com_cmdL0Auth E r st =
     (if \<not> lz_allow (no_l0 st) then panics NilPointer
      else res_bind (of_go (cmdL0Auth (le_write (ne_l0 E)) (le_dec (ne_l0 E)) (le_enc (ne_l0 E)) (rd_from (rec_rd r))
                       (rd_cmd (rec_rd r)) (rd_data (rec_rd r)) (no_l0 st)))
             (\<lambda>l0. ret (st\<lparr>no_l0 := l0\<rparr>)))"

definition com_cmdAuth :: "'n node_env \<Rightarrow> self \<Rightarrow> receiveData \<Rightarrow> Teonet \<Rightarrow> Teonet res" where
  "com_cmdAuth E self r st =
     (if \<not> lz_allow (no_l0 st) then panics NilPointer
      else case ne_http_auth E (removeTrailingZero (rd_data (rec_rd r))) of
             None \<Rightarrow> panics ExplicitPanic
           | Some d \<Rightarrow> res_bind (sendAnswer E self r cmdAuthAnswer d st) (\<lambda>(_, st). ret st))"

definition com_cmdL0Clients :: "'n node_env \<Rightarrow> self \<Rightarrow> receiveData \<Rightarrow> Teonet \<Rightarrow> Teonet res" where
  "com_cmdL0Clients E self r st =
     res_bind (of_go (cmdL0Clients (rd_data (rec_rd r)) (no_l0 st))) (\<lambda>a.
       case a of
         None \<Rightarrow> ret st
       | Some d \<Rightarrow> res_bind (sendAnswer E self r CmdL0ClientsAnswer d st) (\<lambda>(_, st). ret st))"

definition com_cmdL0ClientsNumber :: "'n node_env \<Rightarrow> self \<Rightarrow> receiveData \<Rightarrow> Teonet \<Rightarrow> Teonet res" where
  "com_cmdL0ClientsNumber E self r st =
     (case cmdL0ClientsNumber (rd_data (rec_rd r)) (no_l0 st) of
        None \<Rightarrow> ret st
      | Some d \<Rightarrow> res_bind (sendAnswer E self r CmdL0ClientsNumAnswer d st) (\<lambda>(_, st). ret st))"

text \<open>The combined packet of a completed split is processed.\<close>

definition com_cmdSplit :: "self \<Rightarrow> receiveData \<Rightarrow> Teonet \<Rightarrow> Teonet res" where
  "com_cmdSplit self r st =
     res_bind (of_go (cmdSplit r (no_split st))) (\<lambda>(p, sp).
       case p of
         Inr (Some r') \<Rightarrow> res_bind (self r' (st\<lparr>no_split := sp\<rparr>)) (\<lambda>(_, st). ret st)
       | _ \<Rightarrow> ret (st\<lparr>no_split := sp\<rparr>))"

section \<open>Processing a command\<close>

definition process_command :: "'n node_env \<Rightarrow> self \<Rightarrow> receiveData \<Rightarrow> Teonet \<Rightarrow> (bool \<times> Teonet) res" where
  "process_command E self r st =
     (let cmd = rd_cmd (rec_rd r); ok = (\<lambda>m. res_bind m (\<lambda>st. ret (True, st)))
      in if cmd = CmdConnectR then ok (cmdConnectR E self r st)
         else if cmd = CmdNone \<or> cmd = CmdConnect then ok (com_connect E r cmd st)
         else if cmd = CmdDisconnect then ret (True, com_disconnect r st)
         else if cmd = CmdSplit then ok (com_cmdSplit self r st)
         else if cmd = CmdReset then ok (of_go (com_reset E r st))
         else if cmd = CmdEcho then ok (com_echo E self r st)
         else if cmd = CmdEchoAnswer then ok (com_echoAnswer r st)
         else if cmd = CmdL0 then ok (cmdL0 E self r st)
         else if cmd = CmdL0To then ok (com_cmdL0To E r st)
         else if cmd = CmdL0Auth then ok (com_cmdL0Auth E r st)
         else if cmd = CmdL0Clients then ok (com_cmdL0Clients E self r st)
         else if cmd = CmdL0ClientsNum then ok (com_cmdL0ClientsNumber E self r st)
         else if cmd = CmdPeers then ok (com_peers E self r st)
         else if cmd = CmdHostInfo then ok (com_hostInfo E self r st)
         else if cmd = CmdHostInfoAnswer then res_bind (of_go (com_hostInfoAnswer E r st)) (\<lambda>st. ret (False, st))
         else if cmd = cmdAuth then ok (com_cmdAuth E self r st)
         else ret (False, st))"

text \<open>A command that is not processed goes to the requests that wait for it, and if there is none to the user.\<close>

definition process_user :: "receiveData \<Rightarrow> Teonet \<Rightarrow> (bool \<times> Teonet) res" where
  "process_user r st =
     res_bind (of_go (wcom_check r (no_wcom st))) (\<lambda>(n, wc).
       let st = st\<lparr>no_wcom := wc\<rparr>
       in if n > 0 then ret (True, st)
          else ret (False, ev_send EventReceived (Some (rd_Packet (rec_rd r))) st))"

definition process_body :: "'n node_env \<Rightarrow> self \<Rightarrow> receiveData \<Rightarrow> Teonet \<Rightarrow> (bool \<times> Teonet) res" where
  "process_body E self r st =
     res_bind (if rd_l0_f (rec_rd r) then ret st else peerNew E self r st) (\<lambda>st.
     res_bind (process_command E self r st) (\<lambda>(processed, st).
       if processed then ret (True, st) else process_user r st))"

fun node_process :: "'n node_env \<Rightarrow> nat \<Rightarrow> self" where
  "node_process E 0 r st = None"
| "node_process E (Suc n) r st = process_body E (node_process E n) r st"

section \<open>The packets of L0 clients\<close>

text \<open>
  \<open>sendToRegistrar\<close> runs in a goroutine: it sends the request and waits for the answer with its own
  number, with the wait given by its pointer and channel.
\<close>

definition sendToRegistrar :: "'n node_env \<Rightarrow> self \<Rightarrow> UUID \<Rightarrow> nat \<Rightarrow> nat \<Rightarrow> bytes \<Rightarrow> Teonet \<Rightarrow> Teonet res" where
  "sendToRegistrar E self newID w c d st =
     (case registrar_request (le_uuid (ne_l0 E)) newID d (no_l0 st) of
        ((reqID, req), l0) \<Rightarrow>
          res_bind (SendTo E self ''teo-cdb'' 133 req (st\<lparr>no_l0 := l0\<rparr>)) (\<lambda>(_, st).
            ret (st\<lparr>no_wcom := wcom_add \<lparr> wfr_ptr = w, wfr_from = ''teo-cdb'', wfr_cmd = 133, wfr_ch = c,
                                         wfr_f = Some (registrar_check reqID) \<rparr> (no_wcom st)\<rparr>)))"

definition l0_act :: "'n node_env \<Rightarrow> self \<Rightarrow> l0_action \<Rightarrow> Teonet \<Rightarrow> Teonet res" where
  "l0_act E self a st =
     (case a of
        ActNone \<Rightarrow> ret st
      | ActToPeer to client cmd data \<Rightarrow>
          res_bind (SendTo E self to CmdL0 (l0_packetCreate client cmd data) st) (\<lambda>(_, st). ret st)
      | ActToRegistrar d \<Rightarrow> ret (node_emit [NRegistrar d] st)
      | ActToAuth d \<Rightarrow> res_bind (SendTo E self ''teo-auth'' CmdUser d st) (\<lambda>(_, st). ret st))"

fun l0_run :: "'n node_env \<Rightarrow> self \<Rightarrow> l0_packet list \<Rightarrow> Teonet \<Rightarrow> Teonet res" where
  "l0_run E self [] st = ret st"
| "l0_run E self (p # ps) st =
     res_bind (of_go (l0_process (le_write (ne_l0 E)) p (no_l0 st))) (\<lambda>(a, l0).
     res_bind (l0_act E self a (st\<lparr>no_l0 := l0\<rparr>)) (l0_run E self ps))"

section \<open>Reading\<close>

text \<open>The events of TR-UDP that \<open>read\<close> handles; the other ones are logged only.\<close>

datatype td_event = EvDisconnected nat string | EvGotData nat bytes | EvOther

text \<open>
  Data that do not decrypt may be an L0 client's: then its packets go to the L0 processing, and the
  data are a teonet packet only if the check says that they are none.
\<close>

definition got_packet :: "'n node_env \<Rightarrow> self \<Rightarrow> nat \<Rightarrow> bytes \<Rightarrow> Teonet \<Rightarrow> Teonet res" where
  "got_packet E self tcd pkt st =
     res_bind (of_go (Parse \<lparr> pac_bytes = pkt, pac_l0 = None \<rparr>)) (\<lambda>p.
       case p of
         Inl _ \<Rightarrow> ret st
       | Inr rd \<Rightarrow> res_bind (self \<lparr> rec_rd = rd, rec_tcd = Some tcd \<rparr> st) (\<lambda>(_, st). ret st))"

definition got_data :: "'n node_env \<Rightarrow> self \<Rightarrow> nat \<Rightarrow> bytes \<Rightarrow> Teonet \<Rightarrow> Teonet res" where
  "got_data E self tcd data st =
     (case ne_decrypt E data of
        (pkt, decrypted) \<Rightarrow>
          if decrypted \<or> \<not> lz_allow (no_l0 st) then got_packet E self tcd pkt st
          else case l0_check tcd (ne_key E tcd) pkt (no_l0 st) of
                 (ps, (_, status), l0) \<Rightarrow>
                   res_bind (l0_run E self ps (st\<lparr>no_l0 := l0\<rparr>)) (\<lambda>st.
                     if status \<noteq> 1 then ret st else got_packet E self tcd pkt st))"

definition node_read :: "'n node_env \<Rightarrow> self \<Rightarrow> td_event \<Rightarrow> Teonet \<Rightarrow> Teonet res" where
  "node_read E self ev st =
     (case ev of
        EvDisconnected tcd k \<Rightarrow>
          res_bind (of_go (rhost_reconnect (Some tcd) st)) (\<lambda>st.
            let st = arp_deleteKey E k st
            in ret (case l0_findAddr k (no_l0 st) of
                      None \<Rightarrow> st
                    | Some c \<Rightarrow> st\<lparr>no_l0 := l0_close c (no_l0 st)\<rparr>))
      | EvGotData tcd data \<Rightarrow> got_data E self tcd data st
      | EvOther \<Rightarrow> ret st)"

text \<open>\<open>Connect\<close>: a new node, with its own record in the table.\<close>

definition node_Connect :: "Parameters \<Rightarrow> bool \<Rightarrow> string list \<Rightarrow> string list \<Rightarrow> string \<Rightarrow> Teonet" where
  "node_Connect p allow prefix appType appVersion =
     (let st = \<lparr> no_param = p, no_arp = [],
                 no_rhost = \<lparr> rh_tcd = None, rh_running = False, rh_connected = False, rh_wg = 0 \<rparr>,
                 no_wcom = waitFromNew, no_split = splitNew, no_l0 = l0New allow prefix, no_running = True,
                 no_reconnect = False, no_subs = [], no_events = [], no_out = [] \<rparr>
      in snd (setAppVersion appVersion (snd (setType appType (arp_peerAdd (pa_Name p) Version st)))))"

section \<open>What holds of a result\<close>

text \<open>
  \<open>res_wp t m Q\<close>: the result of \<open>m\<close>, if it is no panic, satisfies \<open>Q\<close>; with \<open>t\<close> also the fuel is enough.
\<close>

definition res_wp :: "bool \<Rightarrow> 'a res \<Rightarrow> ('a \<Rightarrow> bool) \<Rightarrow> bool" where
  "res_wp t m Q = (case m of None \<Rightarrow> \<not> t | Some (Inl _) \<Rightarrow> True | Some (Inr x) \<Rightarrow> Q x)"

lemma res_wp_simps [simp]:
  "res_wp t (ret x) Q = Q x" "res_wp t (panics e) Q" "res_wp t None Q = (\<not> t)"
  "res_wp t (of_go g) Q \<longleftrightarrow> (\<forall>x. g = Inr x \<longrightarrow> Q x)"
  "res_wp t (res_bind m f) Q \<longleftrightarrow> res_wp t m (\<lambda>x. res_wp t (f x) Q)"
  by (auto simp: res_wp_def ret_def panics_def of_go_def res_bind_def split: option.splits sum.splits)

lemma res_wp_mono: "res_wp t m P \<Longrightarrow> (\<And>x. P x \<Longrightarrow> Q x) \<Longrightarrow> res_wp t m Q"
  by (auto simp: res_wp_def split: option.splits sum.splits)

lemma res_wp_total: "res_wp True m Q \<Longrightarrow> m \<noteq> None"
  by (auto simp: res_wp_def split: option.splits)

lemma res_wp_partial: "res_wp t m Q \<Longrightarrow> m = Some (Inr x) \<Longrightarrow> Q x"
  by (auto simp: res_wp_def)

abbreviation own :: "Teonet \<Rightarrow> string" where
  "own st \<equiv> pa_Name (no_param st)"

text \<open>The commands of \<open>C\<close> that the node sends to itself keep \<open>I\<close>.\<close>

definition self_ok :: "bool \<Rightarrow> (Teonet \<Rightarrow> bool) \<Rightarrow> u8 set \<Rightarrow> self \<Rightarrow> bool" where
  "self_ok t I C self \<longleftrightarrow>
     (\<forall>cmd \<in> C. \<forall>data st. I st \<longrightarrow>
        res_wp t (self \<lparr> rec_rd = parsed (own st) cmd data, rec_tcd = None \<rparr> st) (\<lambda>x. I (snd x)))"

lemma self_ok_subset: "self_ok t I C self \<Longrightarrow> D \<subseteq> C \<Longrightarrow> self_ok t I D self"
  by (auto simp: self_ok_def)

lemma sendToHimself_parsed:
  assumes "name_ok (own st)"
  shows "sendToHimself self cmd data st =
     res_bind (self \<lparr> rec_rd = parsed (own st) cmd data, rec_tcd = None \<rparr> st) (\<lambda>(_, st). ret ((length data, None), st))"
proof -
  have "Parse (PacketCreateNew (own st) cmd data) = Inr (Inr (parsed (own st) cmd data))"
    using parsePacket_create [OF assms, of cmd data]
    by (simp add: Parse_def) (simp add: PacketCreateNew_def createPacketFrom_def)
  then show ?thesis by (simp add: sendToHimself_def)
qed

text \<open>The commands that are answers, or only tell something: processing them sends nothing.\<close>

definition leaf_commands :: "u8 set" where
  "leaf_commands = {CmdNone, CmdConnect, CmdEchoAnswer, CmdL0To, CmdL0ClientsAnswer, CmdL0ClientsNumAnswer,
     CmdPeersAnswer, CmdHostInfoAnswer, cmdAuthAnswer}"

text \<open>A property of the node's state that sending and adding a peer keep.\<close>

locale node_invariant =
  fixes I :: "Teonet \<Rightarrow> bool"
  assumes I_rest: "I st \<Longrightarrow> no_arp st' = no_arp st \<Longrightarrow> no_param st' = no_param st
      \<Longrightarrow> split_m (no_split st') = split_m (no_split st) \<Longrightarrow> I st'"
    and I_new: "I st \<Longrightarrow> arp_find peer st = None \<Longrightarrow> ad_peer a = peer \<Longrightarrow> ad_mode a = 0 \<or> ad_mode a = 1 \<Longrightarrow> I (arp_set peer a st)"
    and I_upd: "I st \<Longrightarrow> arp_find peer st = Some a \<Longrightarrow> ad_peer b = ad_peer a \<Longrightarrow> ad_mode b = ad_mode a
      \<Longrightarrow> ad_tcd b = ad_tcd a \<Longrightarrow> I (arp_set peer b st)"
    and I_name: "I st \<Longrightarrow> name_ok (own st)"
begin

lemma I_frames:
  assumes "I st"
  shows "I (node_emit os st)" "I (st\<lparr>no_l0 := l\<rparr>)" "I (st\<lparr>no_wcom := w\<rparr>)" "I (st\<lparr>no_rhost := h\<rparr>)"
    "split_m sp = split_m (no_split st) \<Longrightarrow> I (st\<lparr>no_split := sp\<rparr>)" "I (ev_send ev d st)"
  by (rule I_rest [OF assms]; simp add: node_emit_def ev_send_def)+

lemmas I_emit = I_frames(1) and I_l0 = I_frames(2) and I_num = I_frames(5)

lemma write_parts_inv: "I st \<Longrightarrow> I (snd (write_parts E t ps n st))"
  by (induction E t ps n st rule: write_parts.induct) (auto simp: Let_def I_emit split: prod.split option.split)

lemma himself_inv:
  assumes "self_ok t I C self" "cmd \<in> C" "I st"
  shows "res_wp t (sendToHimself self cmd data st) (\<lambda>x. I (snd x))"
  unfolding sendToHimself_parsed [OF I_name [OF assms(3)]]
  using assms by (auto simp: self_ok_def split_beta)

lemma split_data_map: "split_data cmd data sp = (ps, n, sp') \<Longrightarrow> split_m sp' = split_m sp"
  by (auto simp: split_data_def Let_def split: if_splits)

lemma sendToTcd_inv:
  assumes "self_ok t I C self" "cmd \<in> C" "I st"
  shows "res_wp t (sendToTcd E self tcd cmd data st) (\<lambda>x. I (snd x))"
proof (cases tcd)
  case None
  then show ?thesis using himself_inv [OF assms] by (simp add: sendToTcd_def)
next
  case (Some c)
  obtain ps k sp where sp: "split_data cmd data (no_split st) = (ps, k, sp)" by (cases "split_data cmd data (no_split st)") auto
  have "I (snd (write_parts E c ps 0 (st\<lparr>no_split := sp\<rparr>)))"
    by (intro write_parts_inv I_num assms(3) split_data_map [OF sp])
  then show ?thesis using Some sp by (simp add: sendToTcd_def split_beta)
qed

lemma SendTo_inv:
  assumes "self_ok t I C self" "cmd \<in> C" "I st"
  shows "res_wp t (SendTo E self to cmd data st) (\<lambda>x. I (snd x))"
  using himself_inv [OF assms] sendToTcd_inv [OF assms] assms(3)
  by (auto simp: SendTo_def split: option.split)

lemma sendToClient_inv:
  assumes "self_ok t I C self" "CmdL0To \<in> C" "I st"
  shows "res_wp t (sendToClient E self ip port client cmd data st) (\<lambda>x. I (snd x))"
  using SendTo_inv [OF assms] assms(3) by (auto simp: sendToClient_def SendToClient_def split: option.split)

lemma sendAnswer_inv:
  assumes "self_ok t I C self" "cmd \<in> C" "CmdL0To \<in> C" "I st"
  shows "res_wp t (sendAnswer E self r cmd data st) (\<lambda>x. I (snd x))"
  using sendToTcd_inv [OF assms(1,2,4)] sendToClient_inv [OF assms(1,3,4)] assms(4)
  by (auto simp: sendAnswer_def Let_def node_l0_sendTo_def split_beta I_l0)

lemma peerNew_inv:
  assumes self: "self_ok t I C self" "{CmdNone, CmdHostInfo} \<subseteq> C"
    and st: "arp_find (rd_from (rec_rd r)) st \<noteq> None \<Longrightarrow> I st"
      "\<And>a. arp_find (rd_from (rec_rd r)) st = None \<Longrightarrow> ad_peer a = rd_from (rec_rd r) \<Longrightarrow> ad_mode a = 0 \<or> ad_mode a = 1
         \<Longrightarrow> I (arp_set (rd_from (rec_rd r)) a st)"
  shows "res_wp t (peerNew E self r st) I"
proof (cases "arp_find (rd_from (rec_rd r)) st")
  case (Some a)
  then show ?thesis using st(1) by (auto simp: peerNew_def Let_def I_emit split: option.split)
next
  case None
  let ?peer = "rd_from (rec_rd r)"
  let ?a = "\<lparr> ad_peer = ?peer, ad_mode = (if isrhost (rec_tcd r) st then 1 else 0), ad_version = [],
               ad_appVersion = [], ad_appType = [], ad_tcd = rec_tcd r \<rparr>"
  have "I (arp_set ?peer ?a st)" by (rule st(2) [OF None]) simp_all
  then have 1: "res_wp t (sendToTcd E self (rec_tcd r) CmdNone [0] (arp_set ?peer ?a st)) (\<lambda>x. I (snd x))"
    using self by (intro sendToTcd_inv [OF self(1)]) auto
  have 2: "res_wp t (sendToTcd E self (rec_tcd r) CmdHostInfo [0] s) (\<lambda>x. I (node_emit [NWaitHostInfo ?peer] (snd x)))" if "I s" for s
    using self that by (intro res_wp_mono [OF sendToTcd_inv [OF self(1)]] I_emit) auto
  show ?thesis using res_wp_mono [OF 1 2] None by (simp add: peerNew_def Let_def split_beta)
qed

lemma for_children_inv:
  assumes "\<And>peer a s. (peer, a) \<in> set ps \<Longrightarrow> I s \<Longrightarrow> res_wp t (f peer a s) I" and "I st"
  shows "res_wp t (for_children who f ps st) I"
  using assms
proof (induction who f ps st rule: for_children.induct)
  case (2 who f peer a ps st)
  have "res_wp t (for_children who f ps s) I" if "I s" "ad_mode a \<noteq> -1 \<and> peer \<noteq> who" for s
    using 2(1) [OF that(2)] 2(3) that(1) by simp
  then have "ad_mode a \<noteq> -1 \<and> peer \<noteq> who \<Longrightarrow> res_wp t (f peer a st) (\<lambda>s. res_wp t (for_children who f ps s) I)"
    using res_wp_mono [OF 2(3) [of peer a st]] 2(4) by simp
  then show ?case using 2 by simp
qed simp

lemma send_connect_inv:
  assumes "self_ok t I C self" "CmdConnect \<in> C" "I st"
  shows "res_wp t (send_connect E self data peer a st) I"
  using SendTo_inv [OF assms] by (simp add: send_connect_def split_beta)

lemma connectR_loop_inv:
  assumes "self_ok t I C self" "CmdConnect \<in> C" "I st"
  shows "res_wp t (connectR_loop E self who port n r st) I"
  using assms(3)
proof (induction n arbitrary: r st)
  case (Suc n)
  have "res_wp t (for_children who (send_connect E self d) (no_arp st) st) I" for d
    using assms(1,2) Suc.prems by (intro for_children_inv send_connect_inv)
  note 1 = res_wp_mono [OF this Suc.IH]
  show ?case by (simp add: 1)
qed simp

lemma tcd_addr_inv: "(\<And>x. res_wp t (f x) Q) \<Longrightarrow> res_wp t (res_bind (tcd_addr E c) f) Q"
  by (auto simp: tcd_addr_def split: option.split)

lemma cmdConnectR_inv:
  assumes self: "self_ok t I C self" "{CmdNone, CmdConnect} \<subseteq> C" and st: "I st"
  shows "res_wp t (cmdConnectR E self r st) I"
proof -
  note cs = subsetD [OF self(2)]
  have 1: "res_wp t (for_children who (send_connect E self d) (no_arp s) s) I" if "I s" for who d s
    using self that by (intro for_children_inv send_connect_inv [OF self(1)]) auto
  have 2: "res_wp t (connectR_loop E self who port n ips s) I" if "I s" for who port n ips s
    using self that by (intro connectR_loop_inv [OF self(1)]) auto
  have 3: "res_wp t (for_children who (\<lambda>peer a st. res_bind (tcd_addr E c) (\<lambda>(ip, p).
      send_connect E self (makeData who ip p) peer a st)) (no_arp s) s) I" if "I s" for who c s
    using self that by (intro for_children_inv tcd_addr_inv) (auto split: prod.split intro!: send_connect_inv [OF self(1)])
  have 4: "res_wp t (for_children who (\<lambda>peer a st. res_bind (tcd_addr E (ad_tcd a)) (\<lambda>(ip, p).
      res_bind (sendToTcd E self c CmdConnect (makeData peer ip p) st) (\<lambda>(_, st). ret st))) (no_arp s) s) I" if "I s" for who c s
    using self that sendToTcd_inv [OF self(1)]
    by (intro for_children_inv tcd_addr_inv) (auto simp: split_beta)
  have 0: "res_wp t (sendToTcd E self (rec_tcd r) CmdNone [0] st) (\<lambda>x. I (snd x))"
    using self st by (intro sendToTcd_inv [OF self(1)]) auto
  show ?thesis unfolding cmdConnectR_def res_wp_simps
  proof (rule res_wp_mono [OF 0])
    fix x assume "I (snd x)"
    then show "res_wp t (case x of (_, st) \<Rightarrow> let from = rd_from (rec_rd r); data = rd_data (rec_rd r) in
       case data of [] \<Rightarrow> panics IndexOutOfRange | n # ips \<Rightarrow>
         res_bind (of_go (getPort data)) (\<lambda>port.
         res_bind (for_children from (send_connect E self (makeData from localhostIP port)) (no_arp st) st) (\<lambda>st.
         res_bind (connectR_loop E self from port (unat n) ips st) (\<lambda>st.
         res_bind (for_children from (\<lambda>peer a st. res_bind (tcd_addr E (rec_tcd r)) (\<lambda>(ip, p).
                      send_connect E self (makeData from ip p) peer a st)) (no_arp st) st) (\<lambda>st.
         for_children from (\<lambda>peer a st. res_bind (tcd_addr E (ad_tcd a)) (\<lambda>(ip, p).
           res_bind (sendToTcd E self (rec_tcd r) CmdConnect (makeData peer ip p) st) (\<lambda>(_, st). ret st)))
           (no_arp st) st))))) I"
      by (cases x; cases "rd_data (rec_rd r)")
         (auto simp del: for_children.simps simp: Let_def intro!: res_wp_mono [OF 1] res_wp_mono [OF 2] res_wp_mono [OF 3] 4)
  qed
qed

text \<open>The commands whose only effect is an answer.\<close>

lemma answers_inv:
  assumes "self_ok t I C self" "I st"
  shows "{CmdEchoAnswer, CmdL0To} \<subseteq> C \<Longrightarrow> res_wp t (com_echo E self r st) I"
    and "{CmdHostInfoAnswer, CmdL0To} \<subseteq> C \<Longrightarrow> res_wp t (com_hostInfo E self r st) I"
    and "{CmdPeersAnswer, CmdL0To} \<subseteq> C \<Longrightarrow> res_wp t (com_peers E self r st) I"
    and "{CmdL0ClientsAnswer, CmdL0To} \<subseteq> C \<Longrightarrow> res_wp t (com_cmdL0Clients E self r st) I"
    and "{CmdL0ClientsNumAnswer, CmdL0To} \<subseteq> C \<Longrightarrow> res_wp t (com_cmdL0ClientsNumber E self r st) I"
    and "{cmdAuthAnswer, CmdL0To} \<subseteq> C \<Longrightarrow> res_wp t (com_cmdAuth E self r st) I"
  using sendAnswer_inv [OF assms(1) _ _ assms(2)] assms(2)
  by (auto simp: com_echo_def com_hostInfo_def com_peers_def com_cmdL0Clients_def com_cmdL0ClientsNumber_def com_cmdAuth_def
      split_beta Let_def split: option.split)

text \<open>The commands that cause no command to be sent keep the property too.\<close>

lemma leaves_inv:
  assumes "I st" and "rd_cmd (rec_rd r) \<in> leaf_commands"
  shows "res_wp t (process_command E self r st) (\<lambda>x. I (snd x))"
proof -
  have "\<And>s. cmdConnect E d st = Inr s \<Longrightarrow> I s" for d
  proof -
    fix s assume "cmdConnect E d st = Inr s"
    then have "s = st \<or> (\<exists>o'. s = node_emit o' st)"
      unfolding cmdConnect_def go_bind_Inr_iff by (elim exE conjE) (force split: sum.splits prod.splits if_splits)
    then show "I s" using assms(1) by (auto simp: I_emit)
  qed
  then have "res_wp t (com_connect E r cmd st) I" for cmd
    using assms(1) by (simp add: com_connect_def)
  moreover have "res_wp t (com_echoAnswer r st) I"
    using assms(1) by (simp add: com_echoAnswer_def)
  moreover have "res_wp t (com_cmdL0To E r st) I"
    using assms(1) by (simp add: com_cmdL0To_def I_l0)
  moreover have "res_wp t (of_go (com_hostInfoAnswer E r st)) I"
    using assms(1)
    by (cases "arp_find (rd_from (rec_rd r)) st")
       (auto simp: com_hostInfoAnswer_def go_bind_Inr_iff split: if_split_asm intro: I_upd)
  ultimately show ?thesis
    using assms unfolding leaf_commands_def process_command_def Let_def
    by (auto simp: cmd_defs)
qed

lemma process_user_inv: "I st \<Longrightarrow> res_wp t (process_user r st) (\<lambda>x. I (snd x))"
  by (auto simp: process_user_def Let_def I_frames)

lemma process_body_inv:
  assumes "res_wp t (if rd_l0_f (rec_rd r) then ret st else peerNew E self r st) I"
    and "\<And>s. I s \<Longrightarrow> res_wp t (process_command E self r s) (\<lambda>x. I (snd x))"
  shows "res_wp t (process_body E self r st) (\<lambda>x. I (snd x))"
proof -
  have 2: "res_wp t (case x of (processed, st) \<Rightarrow> if processed then ret (True, st) else process_user r st) (\<lambda>x. I (snd x))"
    if "I (snd x)" for x using that process_user_inv by (auto split: prod.split)
  show ?thesis unfolding process_body_def res_wp_simps
    by (rule res_wp_mono [OF assms(1)], rule res_wp_mono [OF assms(2)], assumption, rule 2)
qed

end

end
