(* ===== verification/NodeReturns.thy ===== *)
theory NodeReturns
  imports NodeProcess
begin

text \<open>
  Processing a command on a node ends: the measure on nested commands, the depth of the commands that a
  node sends to itself, and the theorem \<open>process_returns\<close>. At the end a small node for examples.
\<close>

section \<open>Termination\<close>

text \<open>
  A command in a command has fewer bytes that are not zero: the measure counts them, in the data
  and in the subpackets that wait to be combined. (Counting all bytes is wrong: a carried command
  that is too short is filled up with zeros.)
\<close>

definition nz :: "bytes \<Rightarrow> nat" where
  "nz d = length (filter (\<lambda>b. b \<noteq> 0) d)"

definition held :: "(string \<rightharpoonup> receiveData) \<Rightarrow> nat" where
  "held m = (\<Sum>k \<in> dom m. nz (rd_data (rec_rd (the (m k)))))"

lemma nz_append [simp]: "nz (a @ b) = nz a + nz b"
  by (simp add: nz_def)

lemma nz_simps [simp]: "nz [] = 0" "nz (b # d) = (if b = 0 then nz d else Suc (nz d))" "nz (replicate n 0) = 0"
  by (simp_all add: nz_def)

lemma nz_split: "nz d = nz (take n d) + nz (drop n d)"
  by (metis append_take_drop_id nz_append)

lemma held_delete: "finite (dom m) \<Longrightarrow> m k = Some r \<Longrightarrow> held m = nz (rd_data (rec_rd r)) + held (m(k := None))"
  by (auto simp: held_def sum.remove [of "dom m" k] domI intro!: sum.cong)

lemma held_None: "m k = None \<Longrightarrow> m(k := None) = m"
  by auto

lemma held_insert:
  assumes "finite (dom m)"
  shows "held (m(k \<mapsto> r)) \<le> nz (rd_data (rec_rd r)) + held m"
proof -
  have "held (m(k \<mapsto> r)) = nz (rd_data (rec_rd r)) + held (m(k := None))"
    using held_delete [of "m(k \<mapsto> r)" k r] assms by simp
  moreover have "held (m(k := None)) \<le> held m"
    using held_delete [OF assms, of k] by (cases "m k") (simp_all add: held_None)
  ultimately show ?thesis by simp
qed

text \<open>The loop of \<open>combine\<close> takes out what it appends, and the four bytes of the header with it.\<close>

lemma combine_loop_held:
  assumes "combine_loop s pn i todo p c m = Inr (Inr (p', c'), m')" and "finite (dom m)" and "i + todo \<le> 2 ^ 15"
    and "j < todo \<Longrightarrow> m (split_makeKey s pn (of_nat (i + j))) = Some r"
    and "h = (if j < todo then nz (take 4 (rd_data (rec_rd r))) else 0)"
  shows "nz p' + held m' + h \<le> nz p + held m \<and> finite (dom m')"
  using assms
proof (induction todo arbitrary: i p c m j h)
  case (Suc todo)
  let ?k = "\<lambda>j. split_makeKey s pn (of_nat j)"
  obtain q where q: "m (?k i) = Some q" and l: "\<not> length (rd_data (rec_rd q)) < 4"
    using Suc.prems(1) by (auto simp: Let_def split: option.splits if_splits)
  let ?d = "rd_data (rec_rd q)"
  define m1 where "m1 = m(?k i := None)"
  obtain p1 c1 where rec: "combine_loop s pn (i + 1) todo p1 c1 m1 = Inr (Inr (p', c'), m')"
    and p1: "nz p1 \<le> nz p + nz (drop 4 ?d)"
  proof -
    have n: "nz (butlast x) \<le> nz x" for x
      by (cases x rule: rev_cases) simp_all
    show ?thesis using Suc.prems(1) q l that [of "p @ butlast (drop 4 ?d)"] that [of "p @ drop 4 ?d"] n [of "drop 4 ?d"]
      by (auto simp: Let_def m1_def split: if_splits)
  qed
  have f: "finite (dom m1)" using Suc.prems(2) by (simp add: m1_def)
  have hd: "held m = nz (take 4 ?d) + nz (drop 4 ?d) + held m1"
    using held_delete [OF Suc.prems(2) q] nz_split [of ?d 4] by (simp add: m1_def)
  show ?case
  proof (cases "j = 0")
    case True
    have "h = nz (take 4 ?d)" using Suc.prems(4,5) q True by simp
    then show ?thesis
      using Suc.IH [OF rec f, of todo 0] Suc.prems(3) hd p1 by simp
  next
    case False
    then obtain j' where j: "j = Suc j'" by (cases j) auto
    have "?k (i + j) \<noteq> ?k i" if "j < Suc todo"
      using that Suc.prems(3) of_nat_u16_inj [of "i + j" i] j by auto
    then have m1: "j' < todo \<Longrightarrow> m1 (?k (i + 1 + j')) = Some r"
      using Suc.prems(4) unfolding j m1_def by simp
    have "h = (if j' < todo then nz (take 4 (rd_data (rec_rd r))) else 0)" using Suc.prems(5) j by simp
    then show ?thesis
      using Suc.IH [OF rec f _ m1] Suc.prems(3) hd p1 by simp
  qed
qed simp

lemma combine_held:
  assumes c: "combine r sp = Inr (Inr (data, cmd), sp')" and f: "finite (dom (split_m sp))" and d: "data \<noteq> []"
  shows "nz data + held (split_m sp') < nz (rd_data (rec_rd r)) + held (split_m sp) \<and> finite (dom (split_m sp'))"
proof -
  let ?d = "rd_data (rec_rd r)" and ?from = "rd_from (rec_rd r)"
  define pn where "pn = or_old 0 (fst (rd_u16 ?d))"
  define sn where "sn = or_old 0 (fst (rd_u16 (snd (rd_u16 ?d))))"
  define n where "n = sn AND (lastPacketFlag - 1)"
  let ?k = "split_makeKey ?from pn n" let ?m = "(split_m sp)(?k \<mapsto> r)"
  have last: "sn AND lastPacketFlag \<noteq> 0"
    and l: "combine_loop ?from pn 0 (unat n + 1) [] 0 ?m = Inr (Inr (data, cmd), split_m sp')"
    using c d unfolding combine_def Let_def pn_def sn_def n_def
    by (auto simp: split_beta go_bind_Inr_iff split: if_splits)
  have n15: "unat n < 2 ^ 15"
  proof -
    have "n = take_bit 15 n"
      by (intro bit_eqI) (auto simp: n_def bit_simps bit_num_mask)
    then show ?thesis by (metis take_bit_nat_less_exp unsigned_take_bit_eq)
  qed
  have hdr: "0 < nz (take 4 ?d)"
  proof (rule ccontr)
    assume "\<not> 0 < nz (take 4 ?d)"
    then have z: "\<forall>b \<in> set (take 4 ?d). b = 0" by (auto simp: nz_def filter_empty_conv)
    have "sn = 0"
    proof (cases "rd_u16 ?d")
      case (Pair a r1)
      show ?thesis
        using z by (cases ?d rule: rd_u16.cases; cases r1 rule: rd_u16.cases)
          (use Pair in \<open>auto simp: sn_def or_old_def un16_def split: option.splits\<close>)
    qed
    then show False using last by simp
  qed
  have "nz data + held (split_m sp') + nz (take 4 ?d) \<le> nz [] + held ?m \<and> finite (dom (split_m sp'))"
    by (rule combine_loop_held [OF l, where j = "unat n" and r = r]) (use f n15 in auto)
  then show ?thesis using held_insert [OF f, of ?k r] hdr by auto
qed

lemma Parse_created:
  assumes "Parse (PacketCreateNew who cmd data) = Inr (Inr rd)" and "length who < 255"
  shows "name_ok who \<and> rd = parsed who cmd data"
proof -
  let ?p = "pac_bytes (PacketCreateNew who cmd data)"
  have ne: "?p \<noteq> []" by (simp add: PacketCreateNew_def createPacketFrom_def)
  then have "parsePacket ?p = Some rd" using assms(1) by (auto simp: Parse_def split: option.splits)
  then have s: "name_ok (rd_from rd)" "?p = pac_bytes (PacketCreateNew (rd_from rd) (rd_cmd rd) (rd_data rd))"
    "rd = parsed (rd_from rd) (rd_cmd rd) (rd_data rd)"
    using parsePacket_sound ne by blast+
  have "(of_nat (Suc (length who)) :: u8) = of_nat (Suc (length (rd_from rd)))"
    using s(2) by (simp add: PacketCreateNew_def createPacketFrom_def)
  then have l: "length who = length (rd_from rd)"
    using assms(2) s(1) by (simp add: name_ok_def word_unat_eq_iff unat_of_nat del: of_nat_Suc)
  then have "bytes_of who = bytes_of (rd_from rd)" "cmd = rd_cmd rd" "data = rd_data rd"
    using s(2) by (simp_all add: PacketCreateNew_def createPacketFrom_def)
  then have "who = rd_from rd" "cmd = rd_cmd rd" "data = rd_data rd" by simp_all
  then show ?thesis using s(1,3) by simp
qed

lemma cmdSplit_held:
  assumes "cmdSplit r sp = Inr (Inr (Some r'), sp')" and f: "finite (dom (split_m sp))" and n: "name_ok (rd_from (rec_rd r))"
  shows "nz (rd_data (rec_rd r')) + held (split_m sp') < nz (rd_data (rec_rd r)) + held (split_m sp)"
    and "finite (dom (split_m sp'))" and "rd_from (rec_rd r') = rd_from (rec_rd r)"
proof -
  obtain res s where c: "combine r sp = Inr (res, s)"
    using assms(1) by (cases "combine r sp") (auto simp: cmdSplit_def)
  obtain data cmd where res: "res = Inr (data, cmd)" "data \<noteq> []"
    using assms(1) c by (cases res) (auto simp: cmdSplit_def split: if_splits)
  have p: "Parse (PacketCreateNew (rd_from (rec_rd r)) cmd data) = Inr (Inr (rec_rd r'))" and s: "s = sp'"
  proof -
    obtain x where x: "Parse (PacketCreateNew (rd_from (rec_rd r)) cmd data) = Inr x"
      using assms(1) c res by (cases "Parse (PacketCreateNew (rd_from (rec_rd r)) cmd data)") (auto simp: cmdSplit_def)
    then show "Parse (PacketCreateNew (rd_from (rec_rd r)) cmd data) = Inr (Inr (rec_rd r'))" "s = sp'"
      using assms(1) c res by (cases x; auto simp: cmdSplit_def)+
  qed
  have "rec_rd r' = parsed (rd_from (rec_rd r)) cmd data"
    using Parse_created [OF p] n by (simp add: name_ok_def)
  then show "nz (rd_data (rec_rd r')) + held (split_m sp') < nz (rd_data (rec_rd r)) + held (split_m sp)"
    "finite (dom (split_m sp'))" "rd_from (rec_rd r') = rd_from (rec_rd r)"
    using combine_held [OF c [unfolded res s] f res(2)] by (simp_all add: parsed_def)
qed

text \<open>A carried command.\<close>

lemma rd_fill_nz: "nz (fst (rd_fill n r)) + nz (snd (rd_fill n r)) \<le> nz r"
proof (cases "n \<le> length r")
  case True
  then show ?thesis by (simp add: rd_fill_def rd_take_def nz_split [of r n, symmetric])
qed (simp add: rd_fill_def rd_take_def)

lemma packetParse_nz:
  assumes "l0_packetParse d = Inr (name, cmd, data)"
  shows "nz data < nz d" and "length name < 255"
proof -
  obtain c f r where d: "d = c # f # r" and f: "f \<noteq> 0"
  proof (cases d rule: rd_u16.cases)
    case (1 c f r)
    then show ?thesis using that assms by (auto simp: l0_packetParse_def Let_def unat_gt_0 split: prod.splits if_splits)
  qed (use assms in \<open>auto simp: l0_packetParse_def\<close>)
  obtain v s where s: "rd_u16 r = (v, s)" by (cases "rd_u16 r")
  then have sn: "nz s \<le> nz r" by (cases r rule: rd_u16.cases) auto
  obtain nb t where nb: "rd_fill (unat f) s = (nb, t)" by (cases "rd_fill (unat f) s")
  have "data = fst (rd_fill (unat (or_old 0 v)) t)" and name: "name = string_of (butlast nb)"
    using assms f by (auto simp: l0_packetParse_def d s nb Let_def unat_eq_0 split: prod.splits)
  then have "nz data \<le> nz s" using rd_fill_nz [of "unat (or_old 0 v)" t] rd_fill_nz [of "unat f" s] nb by simp
  then show "nz data < nz d" using sn f by (simp add: d)
  have "length nb = unat f" using length_rd_fill [of "unat f" s] nb by simp
  moreover have "unat f < 256" using unsigned_less [where ?'a = nat, of f] by simp
  ultimately show "length name < 255" by (simp add: name)
qed

text \<open>
  While a simple command is processed, the subpackets and the parameters stay as they are; and a node that
  has its own record keeps it.
\<close>

definition node_frame :: "(string \<rightharpoonup> receiveData) \<Rightarrow> Parameters \<Rightarrow> bool \<Rightarrow> Teonet \<Rightarrow> bool" where
  "node_frame m p known st \<longleftrightarrow>
     split_m (no_split st) = m \<and> no_param st = p \<and> name_ok (pa_Name p)
     \<and> (known \<longrightarrow> arp_find (pa_Name p) st \<noteq> None)"

lemma arp_find_set: "arp_find k (arp_set peer a st) = (if k = peer then Some a else arp_find k st)"
  by (simp add: arp_find_def arp_set_def update_conv)

lemma arp_set_other [simp]:
  "no_param (arp_set peer a st) = no_param st" "no_split (arp_set peer a st) = no_split st"
  by (simp_all add: arp_set_def)

interpretation fr: node_invariant "node_frame m p known" for m p known
proof unfold_locales
  fix st st' :: Teonet
  assume "node_frame m p known st" "no_arp st' = no_arp st" "no_param st' = no_param st"
    "split_m (no_split st') = split_m (no_split st)"
  then show "node_frame m p known st'" by (simp add: node_frame_def arp_find_def)
qed (auto simp: node_frame_def arp_find_set)

lemma node_frameD: "node_frame m p k st \<Longrightarrow> own st = pa_Name p"
  by (simp add: node_frame_def)

lemma node_frame_weaken: "node_frame m p k st \<Longrightarrow> node_frame m p False st"
  by (simp add: node_frame_def)

lemma parsed_sel [simp]:
  "rd_from (parsed f c d) = f" "rd_cmd (parsed f c d) = c" "rd_data (parsed f c d) = d" "\<not> rd_l0_f (parsed f c d)"
  by (simp_all add: parsed_def)

text \<open>A node that has its own record processes an answer to itself at once, and then the two requests.\<close>

lemma process_known_leaf: "self_ok True (node_frame m p True) leaf_commands (node_process E (Suc n))"
  unfolding self_ok_def
proof (intro ballI allI impI)
  fix cmd data st
  assume c: "cmd \<in> leaf_commands" and st: "node_frame m p True st"
  let ?r = "\<lparr> rec_rd = parsed (own st) cmd data, rec_tcd = None \<rparr>"
  have "res_wp True (process_body E (node_process E n) ?r st) (\<lambda>x. node_frame m p True (snd x))"
  proof (rule fr.process_body_inv)
    obtain a where "arp_find (own st) st = Some a" using st by (auto simp: node_frame_def)
    then show "res_wp True (if rd_l0_f (rec_rd ?r) then ret st else peerNew E (node_process E n) ?r st) (node_frame m p True)"
      using st by (simp add: peerNew_def)
  qed (use c in \<open>auto intro!: fr.leaves_inv\<close>)
  then show "res_wp True (node_process E (Suc n) ?r st) (\<lambda>x. node_frame m p True (snd x))" by simp
qed

text \<open>The commands that a node sends to itself while it processes a command.\<close>

abbreviation self_commands :: "u8 set" where
  "self_commands \<equiv> insert CmdHostInfo leaf_commands"

lemma process_hostInfo:
  assumes "self_ok True (node_frame m p k) leaf_commands self" and "node_frame m p k st" and "rd_cmd (rec_rd r) \<in> self_commands"
  shows "res_wp True (process_command E self r st) (\<lambda>x. node_frame m p k (snd x))"
proof (cases "rd_cmd (rec_rd r) \<in> leaf_commands")
  case False
  then have c: "rd_cmd (rec_rd r) = CmdHostInfo" using assms(3) by simp
  have "res_wp True (com_hostInfo E self r st) (node_frame m p k)"
    by (rule fr.answers_inv(2) [OF assms(1,2)]) (simp add: leaf_commands_def)
  then show ?thesis using c by (simp add: process_command_def cmd_defs Let_def)
qed (rule fr.leaves_inv [OF assms(2)])

lemma process_known: "self_ok True (node_frame m p True) self_commands (node_process E (Suc (Suc n)))"
  unfolding self_ok_def
proof (intro ballI allI impI)
  fix cmd data st
  assume c: "cmd \<in> self_commands" and st: "node_frame m p True st"
  let ?r = "\<lparr> rec_rd = parsed (own st) cmd data, rec_tcd = None \<rparr>"
  have "res_wp True (process_body E (node_process E (Suc n)) ?r st) (\<lambda>x. node_frame m p True (snd x))"
  proof (rule fr.process_body_inv)
    obtain a where "arp_find (own st) st = Some a" using st by (auto simp: node_frame_def)
    then show "res_wp True (if rd_l0_f (rec_rd ?r) then ret st else peerNew E (node_process E (Suc n)) ?r st) (node_frame m p True)"
      using st by (simp add: peerNew_def)
  next
    fix s assume "node_frame m p True s"
    then show "res_wp True (process_command E (node_process E (Suc n)) ?r s) (\<lambda>x. node_frame m p True (snd x))"
      by (rule process_hostInfo [OF process_known_leaf]) (use c in simp)
  qed
  then show "res_wp True (node_process E (Suc (Suc n)) ?r st) (\<lambda>x. node_frame m p True (snd x))" by simp
qed

lemma self_ok_weaken:
  assumes "self_ok t (node_frame m p True) C self" and "\<And>cmd data st. cmd \<in> C \<Longrightarrow> node_frame m p False st \<Longrightarrow> arp_find (pa_Name p) st = None
      \<Longrightarrow> res_wp t (self \<lparr> rec_rd = parsed (own st) cmd data, rec_tcd = None \<rparr> st) (\<lambda>x. node_frame m p False (snd x))"
  shows "self_ok t (node_frame m p False) C self"
  unfolding self_ok_def
proof (intro ballI allI impI)
  fix cmd data st
  assume c: "cmd \<in> C" "node_frame m p False st"
  show "res_wp t (self \<lparr> rec_rd = parsed (own st) cmd data, rec_tcd = None \<rparr> st) (\<lambda>x. node_frame m p False (snd x))"
  proof (cases "arp_find (pa_Name p) st")
    case (Some a)
    then have "node_frame m p True st" using c(2) by (simp add: node_frame_def)
    then have "res_wp t (self \<lparr> rec_rd = parsed (own st) cmd data, rec_tcd = None \<rparr> st) (\<lambda>x. node_frame m p True (snd x))"
      using assms(1) c(1) by (simp add: self_ok_def)
    then show ?thesis by (rule res_wp_mono) (rule node_frame_weaken)
  qed (rule assms(2) [OF c])
qed

lemma process_self: "self_ok True (node_frame m p False) self_commands (node_process E (Suc (Suc (Suc n))))"
proof (rule self_ok_weaken)
  show "self_ok True (node_frame m p True) self_commands (node_process E (Suc (Suc (Suc n))))" by (rule process_known)
next
  fix cmd data st
  assume c: "cmd \<in> self_commands" "node_frame m p False st" "arp_find (pa_Name p) st = None"
  let ?r = "\<lparr> rec_rd = parsed (own st) cmd data, rec_tcd = None \<rparr>"
  have "res_wp True (process_body E (node_process E (Suc (Suc n))) ?r st) (\<lambda>x. node_frame m p True (snd x))"
  proof (rule fr.process_body_inv)
    have "res_wp True (peerNew E (node_process E (Suc (Suc n))) ?r st) (node_frame m p True)"
      by (rule fr.peerNew_inv [OF process_known])
        (use c in \<open>auto simp: node_frame_def leaf_commands_def arp_find_set\<close>)
    then show "res_wp True (if rd_l0_f (rec_rd ?r) then ret st else peerNew E (node_process E (Suc (Suc n))) ?r st) (node_frame m p True)"
      by simp
  next
    fix s assume "node_frame m p True s"
    then show "res_wp True (process_command E (node_process E (Suc (Suc n))) ?r s) (\<lambda>x. node_frame m p True (snd x))"
      by (rule process_hostInfo [OF process_known_leaf]) (use c in simp)
  qed
  then have "res_wp True (node_process E (Suc (Suc (Suc n))) ?r st) (\<lambda>x. node_frame m p True (snd x))" by simp
  then show "res_wp True (node_process E (Suc (Suc (Suc n))) ?r st) (\<lambda>x. node_frame m p False (snd x))"
    by (rule res_wp_mono) (rule node_frame_weaken)
qed

lemma res_wp_if: "(c \<Longrightarrow> res_wp t a Q) \<Longrightarrow> (\<not> c \<Longrightarrow> res_wp t b Q) \<Longrightarrow> res_wp t (if c then a else b) Q"
  by simp

text \<open>Every command, given that what it carries is processed.\<close>

lemma process_command_returns:
  assumes self: "self_ok True (node_frame m p False) self_commands self" and st: "node_frame m p False st"
    and carried: "\<And>r' s. rd_cmd (rec_rd r) = CmdSplit \<or> rd_cmd (rec_rd r) = CmdL0 \<Longrightarrow> name_ok (rd_from (rec_rd r')) \<Longrightarrow> no_param s = p
      \<Longrightarrow> nz (rd_data (rec_rd r')) + held (split_m (no_split s)) < nz (rd_data (rec_rd r)) + held m
      \<Longrightarrow> finite (dom (split_m (no_split s))) \<Longrightarrow> res_wp True (self r' s) (\<lambda>_. True)"
    and f: "finite (dom m)" and n: "name_ok (rd_from (rec_rd r))"
  shows "res_wp True (process_command E self r st) (\<lambda>_. True)"
proof -
  have m: "split_m (no_split st) = m" and p: "no_param st = p" using st by (simp_all add: node_frame_def)
  note answers = fr.answers_inv [OF self st, THEN res_wp_mono [where Q = "\<lambda>_. True"]]
  have "{CmdEchoAnswer, CmdL0To} \<subseteq> self_commands" "{CmdHostInfoAnswer, CmdL0To} \<subseteq> self_commands" "{CmdPeersAnswer, CmdL0To} \<subseteq> self_commands"
    "{CmdL0ClientsAnswer, CmdL0To} \<subseteq> self_commands" "{CmdL0ClientsNumAnswer, CmdL0To} \<subseteq> self_commands" "{cmdAuthAnswer, CmdL0To} \<subseteq> self_commands" "{CmdNone, CmdConnect} \<subseteq> self_commands"
    by (simp_all add: leaf_commands_def)
  note cs = this
  have split: "res_wp True (com_cmdSplit self r st) (\<lambda>_. True)" if c: "rd_cmd (rec_rd r) = CmdSplit"
  proof -
    have "res_wp True (self r' (st\<lparr>no_split := sp\<rparr>)) (\<lambda>_. True)" if "cmdSplit r (no_split st) = Inr (Inr (Some r'), sp)" for r' sp
      using cmdSplit_held [OF that _ n] f m p c n by (intro carried) auto
    then show ?thesis by (auto simp: com_cmdSplit_def split_beta split: sum.split option.split)
  qed
  have l0: "res_wp True (cmdL0 E self r st) (\<lambda>_. True)" if c: "rd_cmd (rec_rd r) = CmdL0"
  proof -
    have "res_wp True (self \<lparr> rec_rd = setL0 ip port rd, rec_tcd = rec_tcd r \<rparr> st) (\<lambda>_. True)"
      if "l0_packetParse (rd_data (rec_rd r)) = Inr (who, cmd, data)" "Parse (PacketCreateNew who cmd data) = Inr (Inr rd)"
      for ip port who cmd data rd
      using packetParse_nz [OF that(1)] Parse_created [OF that(2)] f m p c by (intro carried) (auto simp: setL0_def)
    then show ?thesis by (auto simp: cmdL0_def split_beta split: sum.split option.split)
  qed
  have "res_wp True (com_connect E r cmd st) (\<lambda>_. True)" for cmd by (simp add: com_connect_def)
  moreover have "res_wp True (cmdConnectR E self r st) (\<lambda>_. True)"
    using cs by (intro res_wp_mono [OF fr.cmdConnectR_inv [OF self _ st]]) auto
  moreover note split l0 answers(1) [OF cs(1)] answers(2) [OF cs(2)] answers(3) [OF cs(3)] answers(4) [OF cs(4)] answers(5) [OF cs(5)] answers(6) [OF cs(6)]
  ultimately show ?thesis
    unfolding process_command_def Let_def
    by (intro res_wp_if; simp add: com_echoAnswer_def com_cmdL0To_def com_cmdL0Auth_def)
qed

text \<open>C10: processing a command ends. A command can carry a command (in subpackets or from an L0 client) that
  carries one again, and a node can send commands to itself, but the nesting is bounded: the depth of
  recursion is at most five more than the number of bytes that are not zero in the command and in the subpackets that wait
  to be combined, whatever the state, and the result is a value or a panic.\<close>

theorem process_returns:
  assumes "name_ok (pa_Name (no_param st))" and "name_ok (rd_from (rec_rd r))"
    and "finite (dom (split_m (no_split st)))"
    and "nz (rd_data (rec_rd r)) + held (split_m (no_split st)) + 5 \<le> n"
  shows "\<exists>x. node_process E n r st = Some x"
proof -
  have "res_wp True (node_process E n r st) (\<lambda>_. True)"
    if "name_ok (own st)" "name_ok (rd_from (rec_rd r))" "finite (dom (split_m (no_split st)))"
      "nz (rd_data (rec_rd r)) + held (split_m (no_split st)) + 5 \<le> n" for n r st
    using that
  proof (induction n arbitrary: r st)
    case (Suc n)
    define k where "k = n - 3"
    have k: "n = Suc (Suc (Suc k))" using Suc.prems(4) by (simp add: k_def)
    let ?m = "split_m (no_split st)" and ?p = "no_param st"
    let ?F = "node_frame ?m ?p False"
    note self = process_self [of ?m ?p E k, folded k]
    have F: "?F st" using Suc.prems(1) by (simp add: node_frame_def)
    have "res_wp True (peerNew E (node_process E n) r st) ?F"
      by (rule fr.peerNew_inv [OF self])
        (use F fr.I_new [OF F] in \<open>auto simp: leaf_commands_def\<close>)
    then have 1: "res_wp True (if rd_l0_f (rec_rd r) then ret st else peerNew E (node_process E n) r st) ?F"
      using F by simp
    have 2: "res_wp True (process_command E (node_process E n) r s) (\<lambda>_. True)" if "?F s" for s
    proof (rule process_command_returns [OF self that])
      fix r' :: receiveData and u :: Teonet
      assume "name_ok (rd_from (rec_rd r'))" "no_param u = ?p" "finite (dom (split_m (no_split u)))"
        "nz (rd_data (rec_rd r')) + held (split_m (no_split u)) < nz (rd_data (rec_rd r)) + held ?m"
      then show "res_wp True (node_process E n r' u) (\<lambda>_. True)"
        using Suc.prems(1,4) by (intro Suc.IH) simp_all
    qed (use Suc.prems in auto)
    have 3: "res_wp True (case x of (processed, s) \<Rightarrow> if processed then ret (True, s) else process_user r s) (\<lambda>_. True)" for x
      by (auto simp: process_user_def Let_def split: prod.split)
    show ?case unfolding node_process.simps process_body_def res_wp_simps
      by (rule res_wp_mono [OF 1], rule res_wp_mono [OF 2], assumption, rule 3)
  qed simp
  then show ?thesis using assms res_wp_total by blast
qed

text \<open>A node \<open>me\<close> with an L0 server; channel \<open>t\<close> leads to port \<open>9000 + t\<close> of one host.\<close>

definition sample_node_env :: "unit node_env" where
  "sample_node_env =
     \<lparr> ne_ip = (\<lambda>_. ''10.0.0.1''), ne_port = (\<lambda>t. 9000 + int t), ne_ch = (\<lambda>_. 0), ne_key = (\<lambda>t. ''10.0.0.1:'' @ itoa (9000 + t) @ '':0''),
       ne_triptime = (\<lambda>_. 0), ne_write = (\<lambda>_ p. (length p, None)), ne_encrypt = id, ne_decrypt = (\<lambda>p. (p, True)),
       ne_l0 = sample_l0_env, ne_http_auth = (\<lambda>_. None), ne_json_host = (\<lambda>_ _ _ _. []), ne_unjson_host = (\<lambda>_. ([], [], [])), ne_json_peers = (\<lambda>_. []) \<rparr>"

definition sample_node :: Teonet where
  "sample_node = node_Connect \<lparr> pa_Name = ''me'', pa_Port = 9000, pa_RAddr = '''', pa_RPort = 0, pa_DisallowEncrypt = False \<rparr>
     True [] [''app''] ''1.0''"

text \<open>An echo request from the client \<open>ann\<close>, carried by the L0 server \<open>l0\<close>.\<close>

definition carried_echo :: receiveData where
  "carried_echo = \<lparr> rec_rd = parsed ''l0'' CmdL0 (l0_packetCreate ''ann'' CmdEcho [7, 0]), rec_tcd = Some 1 \<rparr>"

lemma sample_node_map: "split_m (no_split sample_node) = Map.empty"
  by (simp add: sample_node_def node_Connect_def splitNew_def arp_peerAdd_def arp_find_def arp_set_def
      setType_def setAppVersion_def Let_def)

theorem process_returns_witness: "\<exists>x. node_process sample_node_env 16 carried_echo sample_node = Some x"
proof (rule process_returns)
  show "name_ok (own sample_node)" by code_simp
  show "name_ok (rd_from (rec_rd carried_echo))" by code_simp
  show "finite (dom (split_m (no_split sample_node)))" by (simp add: sample_node_map)
  have "nz (rd_data (rec_rd carried_echo)) = 7" by code_simp
  then show "nz (rd_data (rec_rd carried_echo)) + held (split_m (no_split sample_node)) + 5 \<le> 16"
    by (simp add: sample_node_map held_def)
qed

end
