(* ===== verification/NodeTable.thy ===== *)
theory NodeTable
  imports NodeReturns
begin

text \<open>
  The table of peers of a node: what is sent in small packets, what the first packet of a peer does, and
  the theorem \<open>arp_consistent\<close> on all events that \<open>Teonet.read\<close> handles.
\<close>

section \<open>Small packets\<close>

text \<open>Channels that write without error, and what is written for a command that is not split.\<close>

definition writes_ok :: "'n node_env \<Rightarrow> bool" where
  "writes_ok E \<longleftrightarrow> (\<forall>t p. snd (ne_write E t p) = None)"

definition node_pkt :: "'n node_env \<Rightarrow> Teonet \<Rightarrow> u8 \<Rightarrow> bytes \<Rightarrow> bytes" where
  "node_pkt E st cmd data = ne_encrypt E (pac_bytes (PacketCreateNew (own st) cmd data))"

lemma emit_frames [simp]:
  "no_arp (node_emit os st) = no_arp st" "no_param (node_emit os st) = no_param st" "no_split (node_emit os st) = no_split st"
  "no_wcom (node_emit os st) = no_wcom st" "no_l0 (node_emit os st) = no_l0 st" "no_running (node_emit os st) = no_running st"
  "no_events (node_emit os st) = no_events st" "no_subs (node_emit os st) = no_subs st" "no_rhost (node_emit os st) = no_rhost st"
  "no_out (node_emit os st) = no_out st @ os" "node_emit [] st = st"
  "node_emit ps (node_emit os st) = node_emit (os @ ps) st" "arp_find k (node_emit os st) = arp_find k st"
  "node_pkt E (node_emit os st) = node_pkt E st" "node_pkt E (arp_set peer a st) = node_pkt E st"
  by (simp_all add: node_emit_def arp_find_def node_pkt_def fun_eq_iff)

lemma sendToTcd_small:
  assumes "writes_ok E" and "length data < maxDataLen"
  shows "sendToTcd E self (Some t) cmd data st =
     ret ((fst (ne_write E t (node_pkt E st cmd data)), None), node_emit [NWrite t (node_pkt E st cmd data)] st)"
proof -
  obtain l where "ne_write E t (node_pkt E st cmd data) = (l, None)"
    using assms(1) by (metis writes_ok_def prod.collapse)
  then show ?thesis using assms(2)
    by (simp add: sendToTcd_def split_data_def Let_def node_pkt_def)
qed

lemma SendTo_small:
  assumes "writes_ok E" and "length data < maxDataLen" and "arp_find peer st = Some a" and "ad_tcd a = Some t"
  shows "SendTo E self peer cmd data st =
     ret ((fst (ne_write E t (node_pkt E st cmd data)), None), node_emit [NWrite t (node_pkt E st cmd data)] st)"
  using assms by (simp add: SendTo_def sendToTcd_small)

lemma peerNew_known: "arp_find (rd_from (rec_rd r)) st = Some a \<Longrightarrow> ad_tcd a = rec_tcd r \<Longrightarrow> peerNew E self r st = ret st"
  by (simp add: peerNew_def)

text \<open>What the table gets for a new peer, and what the peer is sent.\<close>

definition new_peer :: "receiveData \<Rightarrow> Teonet \<Rightarrow> arpData" where
  "new_peer r st =
     \<lparr> ad_peer = rd_from (rec_rd r), ad_mode = (if isrhost (rec_tcd r) st then 1 else 0), ad_version = [],
       ad_appVersion = [], ad_appType = [], ad_tcd = rec_tcd r \<rparr>"

lemma peerNew_fresh:
  assumes "arp_find (rd_from (rec_rd r)) st = None" and "rec_tcd r = Some t" and "writes_ok E"
  shows "peerNew E self r st =
     ret (node_emit [NWrite t (node_pkt E st CmdNone [0]), NWrite t (node_pkt E st CmdHostInfo [0]), NWaitHostInfo (rd_from (rec_rd r))]
            (arp_set (rd_from (rec_rd r)) (new_peer r st) st))"
  using assms by (simp add: peerNew_def sendToTcd_small maxDataLen_def new_peer_def Let_def)

lemma got_packet_created:
  assumes "name_ok who"
  shows "got_packet E self c (pac_bytes (PacketCreateNew who cmd data)) st =
     res_bind (self \<lparr> rec_rd = parsed who cmd data, rec_tcd = Some c \<rparr> st) (\<lambda>(_, st). ret st)"
proof -
  have "pac_bytes (PacketCreateNew who cmd data) \<noteq> []" by (simp add: PacketCreateNew_def createPacketFrom_def)
  then show ?thesis by (simp add: got_packet_def Parse_def parsePacket_create [OF assms])
qed

section \<open>The table of peers\<close>

text \<open>A property of the table of peers and the parameters that removing a peer keeps too.\<close>

locale node_table = node_invariant +
  assumes I_table: "I st \<Longrightarrow> no_arp st' = no_arp st \<Longrightarrow> no_param st' = no_param st \<Longrightarrow> I st'"
    and I_delete: "I st \<Longrightarrow> I (st\<lparr>no_arp := AList.delete peer (no_arp st)\<rparr>)"
begin

lemma deletePeer_inv: "I st \<Longrightarrow> I (arp_deletePeer peer st)"
  using I_delete [OF I_frames(6)] I_delete
  by (auto simp: arp_deletePeer_def Let_def split: option.split)

lemma close_inv: "I st \<Longrightarrow> I (close_tcd c st)"
  by (auto simp: close_tcd_def I_emit split: option.split)

lemma delete_inv: "I st \<Longrightarrow> I (arp_delete peer st)" "I st \<Longrightarrow> I (arp_deleteKey E k st)"
  by (auto simp: arp_delete_def arp_deleteKey_def deletePeer_inv close_inv split: option.split)

lemma reconnect_inv: "rhost_reconnect c st = Inr s \<Longrightarrow> I st \<Longrightarrow> I s"
  by (auto simp: rhost_reconnect_def rhost_done_def Let_def I_frames split: if_splits)

lemma delete_peers_inv: "delete_peers E ps st = Inr s \<Longrightarrow> I st \<Longrightarrow> I s"
proof (induction E ps st rule: delete_peers.induct)
  case (2 E peer a ps st)
  obtain u where u: "(case ad_tcd a of None \<Rightarrow> Inr st
      | Some t \<Rightarrow> go_bind (if ad_mode a = 1 then rhost_reconnect (Some t) st else Inr st) (\<lambda>st.
          Inr (if ad_mode a \<noteq> -1 then node_emit [NClose t]
                 (sendToTcdUnsafe E t CmdDisconnect (if pa_DisallowEncrypt (no_param st) then [0] else []) st) else st))) = Inr u"
    and s: "delete_peers E ps (arp_deletePeer peer u) = Inr s"
    using 2(2) unfolding delete_peers.simps go_bind_Inr_iff by blast
  have "I u"
  proof (cases "ad_tcd a")
    case (Some t)
    obtain v where v: "(if ad_mode a = 1 then rhost_reconnect (Some t) st else Inr st) = Inr v"
      and u': "u = v \<or> u = node_emit [NClose t]
        (sendToTcdUnsafe E t CmdDisconnect (if pa_DisallowEncrypt (no_param v) then [0] else []) v)"
      using u Some by (auto simp: go_bind_Inr_iff split: if_split_asm)
    have "I v" using v 2(3) reconnect_inv by (auto split: if_splits)
    then show ?thesis using u' by (auto simp: sendToTcdUnsafe_def intro!: I_emit)
  qed (use u 2(3) in simp)
  then show ?case by (intro 2(1) [OF s] deletePeer_inv)
qed simp

lemma Close_inv: "node_Close E st = Inr s \<Longrightarrow> I st \<Longrightarrow> I s"
proof -
  assume c: "node_Close E st = Inr s" and st: "I st"
  let ?st = "st\<lparr>no_running := False, no_l0 := l0_destroy (no_l0 st)\<rparr>"
  show "I s"
  proof (cases "no_running st")
    case True
    then obtain u where u: "delete_peers E (no_arp st) ?st = Inr u" "rhost_destroy u = Inr s"
      using c by (auto simp: node_Close_def Let_def go_bind_Inr_iff)
    have "I u" by (rule delete_peers_inv [OF u(1)]) (rule I_rest [OF st]; simp)
    then show ?thesis using u(2) by (auto simp: rhost_destroy_def rhost_done_def Let_def I_frames split: if_splits)
  qed (use c st in \<open>simp add: node_Close_def\<close>)
qed

lemma reset_inv: "com_reset E r st = Inr s \<Longrightarrow> I st \<Longrightarrow> I s"
  using Close_inv [of E "st\<lparr>no_reconnect := True\<rparr>" s] I_rest [of st "st\<lparr>no_reconnect := True\<rparr>"]
  by (auto simp: com_reset_def node_Reconnect_def split: list.splits if_splits)

lemma process_command_inv:
  assumes self: "\<And>r s. I s \<Longrightarrow> res_wp t (self r s) (\<lambda>x. I (snd x))" and st: "I st"
  shows "res_wp t (process_command E self r st) (\<lambda>x. I (snd x))"
proof (cases "rd_cmd (rec_rd r) \<in> leaf_commands")
  case True
  then show ?thesis by (rule leaves_inv [OF st])
next
  case False
  have ok: "self_ok t I UNIV self" using self by (simp add: self_ok_def)
  note answers = answers_inv [OF ok st, simplified]
  have "res_wp t (com_cmdSplit self r st) I"
    using self [OF I_table [OF st]] I_table [OF st]
    by (auto simp: com_cmdSplit_def split_beta split: sum.split option.split)
  moreover have "res_wp t (cmdL0 E self r st) I"
    using self [OF st] st by (auto simp: cmdL0_def split_beta split: sum.split option.split)
  moreover have "res_wp t (com_cmdL0Auth E r st) I"
    using st by (simp add: com_cmdL0Auth_def I_l0)
  moreover have "res_wp t (of_go (com_reset E r st)) I" "I (com_disconnect r st)"
    using reset_inv st by (auto simp: com_disconnect_def delete_inv)
  moreover have "res_wp t (cmdConnectR E self r st) I" by (rule cmdConnectR_inv [OF ok _ st]) simp
  ultimately show ?thesis using False st answers
    unfolding process_command_def Let_def leaf_commands_def
    by (intro res_wp_if) simp_all
qed

lemma process_inv: "I st \<Longrightarrow> res_wp False (node_process E n r st) (\<lambda>x. I (snd x))"
proof (induction n arbitrary: r st)
  case (Suc n)
  have ok: "self_ok False I UNIV (node_process E n)" using Suc.IH by (simp add: self_ok_def)
  show ?case unfolding node_process.simps
  proof (rule process_body_inv)
    have "res_wp False (peerNew E (node_process E n) r st) I"
      by (rule peerNew_inv [OF ok _ Suc.prems I_new [OF Suc.prems]]) simp_all
    then show "res_wp False (if rd_l0_f (rec_rd r) then ret st else peerNew E (node_process E n) r st) I"
      using Suc.prems by simp
  qed (rule process_command_inv [OF Suc.IH])
qed simp

lemma l0_run_inv:
  assumes "\<And>r s. I s \<Longrightarrow> res_wp t (self r s) (\<lambda>x. I (snd x))"
  shows "I st \<Longrightarrow> res_wp t (l0_run E self ps st) I"
proof (induction ps arbitrary: st)
  case (Cons p ps)
  have ok: "self_ok t I UNIV self" using assms by (simp add: self_ok_def)
  have act: "res_wp t (l0_act E self a s) I" if "I s" for a s
    using that SendTo_inv [OF ok _ that] by (auto simp: l0_act_def split_beta I_emit split: l0_action.split)
  have "res_wp t (l0_act E self a s) (\<lambda>s. res_wp t (l0_run E self ps s) I)" if "I s" for a s
    by (rule res_wp_mono [OF act [OF that] Cons.IH])
  then show ?case using I_l0 [OF Cons.prems] by simp
qed simp

lemma read_inv:
  assumes self: "\<And>r s. I s \<Longrightarrow> res_wp t (self r s) (\<lambda>x. I (snd x))" and st: "I st"
  shows "res_wp t (node_read E self ev st) I"
proof -
  have got: "res_wp t (got_packet E self c d s) I" if "I s" for c d s
    using self [OF that] that by (auto simp: got_packet_def split_beta split: sum.split)
  have "res_wp t (got_data E self c d st) I" for c d
  proof -
    obtain p ok where p: "ne_decrypt E d = (p, ok)" by (cases "ne_decrypt E d")
    obtain ps q status l where ch: "l0_check c (ne_key E c) p (no_l0 st) = (ps, (q, status), l)"
      by (cases "l0_check c (ne_key E c) p (no_l0 st)") auto
    have "res_wp t (l0_run E self ps (st\<lparr>no_l0 := l\<rparr>)) (\<lambda>s. res_wp t (if status \<noteq> 1 then ret s else got_packet E self c p s) I)"
      by (rule res_wp_mono [OF l0_run_inv [OF self I_l0 [OF st]]]) (auto simp: got)
    then show ?thesis using got [OF st] by (simp add: got_data_def p ch)
  qed
  then show ?thesis using st
    by (auto simp: node_read_def Let_def I_l0 delete_inv dest!: reconnect_inv split: td_event.split option.split)
qed

end

text \<open>
  The table has one record for a name, and only this host's own record is marked as such; it has no channel.
\<close>

definition arp_ok :: "Teonet \<Rightarrow> bool" where
  "arp_ok st \<longleftrightarrow>
     name_ok (pa_Name (no_param st)) \<and> distinct (map fst (no_arp st))
   \<and> (\<forall>(peer, a) \<in> set (no_arp st). ad_peer a = peer \<and> (ad_mode a = -1 \<longrightarrow> peer = pa_Name (no_param st) \<and> ad_tcd a = None)
        \<and> (ad_mode a \<noteq> -1 \<longrightarrow> ad_mode a = 0 \<or> ad_mode a = 1))"

lemma set_delete_sub: "set (AList.delete k xs) \<subseteq> set xs"
  by (auto simp: AList.delete_eq)

lemma set_update_sub: "set (AList.update k v xs) \<subseteq> insert (k, v) (set xs)"
  by (induction xs) auto

lemma arp_ok_alt:
  "arp_ok st \<longleftrightarrow> name_ok (own st) \<and> distinct (map fst (no_arp st)) \<and>
     (\<forall>x \<in> set (no_arp st). ad_peer (snd x) = fst x \<and> (ad_mode (snd x) = -1 \<longrightarrow> fst x = own st \<and> ad_tcd (snd x) = None)
        \<and> (ad_mode (snd x) \<noteq> -1 \<longrightarrow> ad_mode (snd x) = 0 \<or> ad_mode (snd x) = 1))"
  unfolding arp_ok_def split_beta by (rule refl)

lemma arp_ok_set:
  assumes "arp_ok st" and "ad_peer a = peer" and "ad_mode a = -1 \<longrightarrow> peer = pa_Name (no_param st) \<and> ad_tcd a = None"
    and "ad_mode a \<noteq> -1 \<longrightarrow> ad_mode a = 0 \<or> ad_mode a = 1"
  shows "arp_ok (arp_set peer a st)"
  unfolding arp_ok_alt
proof (intro conjI ballI)
  show "name_ok (own (arp_set peer a st))" using assms(1) by (simp add: arp_ok_def)
  show "distinct (map fst (no_arp (arp_set peer a st)))" using assms(1) by (simp add: arp_ok_def arp_set_def distinct_update)
next
  fix x
  assume "x \<in> set (no_arp (arp_set peer a st))"
  then consider "x = (peer, a)" | "x \<in> set (no_arp st)"
    using set_update_sub [of peer a "no_arp st"] by (auto simp: arp_set_def)
  then have "ad_peer (snd x) = fst x \<and> (ad_mode (snd x) = -1 \<longrightarrow> fst x = own st \<and> ad_tcd (snd x) = None)
        \<and> (ad_mode (snd x) \<noteq> -1 \<longrightarrow> ad_mode (snd x) = 0 \<or> ad_mode (snd x) = 1)"
    by cases (use assms in \<open>simp_all add: arp_ok_alt\<close>)
  then show "ad_peer (snd x) = fst x" "ad_mode (snd x) = -1 \<longrightarrow> fst x = own (arp_set peer a st) \<and> ad_tcd (snd x) = None"
    "ad_mode (snd x) \<noteq> -1 \<longrightarrow> ad_mode (snd x) = 0 \<or> ad_mode (snd x) = 1" by simp_all
qed

lemma arp_ok_find:
  assumes "arp_ok st" and "arp_find peer st = Some a"
  shows "ad_peer a = peer" and "ad_mode a = -1 \<longrightarrow> peer = pa_Name (no_param st) \<and> ad_tcd a = None"
    and "ad_mode a \<noteq> -1 \<longrightarrow> ad_mode a = 0 \<or> ad_mode a = 1"
proof -
  have "(peer, a) \<in> set (no_arp st)" using assms(2) map_of_SomeD by (fastforce simp: arp_find_def)
  then have "ad_peer a = peer \<and> (ad_mode a = -1 \<longrightarrow> peer = pa_Name (no_param st) \<and> ad_tcd a = None)
        \<and> (ad_mode a \<noteq> -1 \<longrightarrow> ad_mode a = 0 \<or> ad_mode a = 1)"
    using assms(1) unfolding arp_ok_def by blast
  then show "ad_peer a = peer" "ad_mode a = -1 \<longrightarrow> peer = pa_Name (no_param st) \<and> ad_tcd a = None"
    "ad_mode a \<noteq> -1 \<longrightarrow> ad_mode a = 0 \<or> ad_mode a = 1" by blast+
qed

interpretation tab: node_table arp_ok
proof unfold_locales
  fix st :: Teonet and peer and a b :: arpData
  assume "arp_ok st" "arp_find peer st = Some a" "ad_peer b = ad_peer a" "ad_mode b = ad_mode a" "ad_tcd b = ad_tcd a"
  then show "arp_ok (arp_set peer b st)" using arp_ok_find [of st peer a] by (intro arp_ok_set) auto
next
  fix st :: Teonet and peer
  assume "arp_ok st"
  then show "arp_ok (st\<lparr>no_arp := AList.delete peer (no_arp st)\<rparr>)"
    using set_delete_sub [of peer "no_arp st"] by (auto simp: arp_ok_def distinct_delete)
next
  fix st :: Teonet and peer and a :: arpData
  assume "arp_ok st" "arp_find peer st = None" "ad_peer a = peer" "ad_mode a = 0 \<or> ad_mode a = 1"
  then show "arp_ok (arp_set peer a st)" by (intro arp_ok_set) auto
qed (simp_all add: arp_ok_def)

text \<open>C9: the table of peers stays consistent. Whatever event a node reads (data of any content, disconnects), and
  whatever commands it processes on the way, each name has one record, filed under its own name; the
  only record marked as this host is this host's, without a channel; all other records are marked as peers or as the r-host. A new node
  starts with such a table, and closing a node keeps it.\<close>

theorem arp_consistent:
  assumes "arp_ok st"
  shows "(node_read E (node_process E n) ev st = Some (Inr st') \<longrightarrow> arp_ok st')
    \<and> (node_Close E st = Inr st'' \<longrightarrow> arp_ok st'')
    \<and> (name_ok (pa_Name p) \<longrightarrow> arp_ok (node_Connect p allow prefix appType appVersion))"
proof (intro conjI impI)
  assume r: "node_read E (node_process E n) ev st = Some (Inr st')"
  have "res_wp False (node_read E (node_process E n) ev st) arp_ok"
    by (rule tab.read_inv [OF tab.process_inv assms])
  then show "arp_ok st'" using r by (rule res_wp_partial)
next
  assume "node_Close E st = Inr st''"
  then show "arp_ok st''" using tab.Close_inv assms by blast
next
  assume "name_ok (pa_Name p)"
  then show "arp_ok (node_Connect p allow prefix appType appVersion)"
    by (simp add: node_Connect_def Let_def arp_peerAdd_def arp_find_def arp_set_def setType_def setAppVersion_def arp_ok_def)
qed

lemma sample_arp_ok: "arp_ok sample_node"
  by code_simp

lemma sample_node_eqs:
  "no_param sample_node = \<lparr> pa_Name = ''me'', pa_Port = 9000, pa_RAddr = [], pa_RPort = 0, pa_DisallowEncrypt = False \<rparr>"
  "no_arp sample_node = [(''me'', \<lparr> ad_peer = ''me'', ad_mode = -1, ad_version = Version, ad_appVersion = ''1.0'',
     ad_appType = [''app''], ad_tcd = None \<rparr>)]"
  "no_split sample_node = splitNew" "no_wcom sample_node = waitFromNew" "no_l0 sample_node = l0New True []"
  "no_rhost sample_node = \<lparr> rh_tcd = None, rh_running = False, rh_connected = False, rh_wg = 0 \<rparr>"
  "no_running sample_node" "no_events sample_node = []" "no_subs sample_node = []" "no_out sample_node = []"
  by (simp_all add: sample_node_def node_Connect_def arp_peerAdd_def arp_find_def arp_set_def setType_def setAppVersion_def Let_def)

lemma sample_env_ok: "writes_ok sample_node_env"
  by (simp add: writes_ok_def sample_node_env_def)

text \<open>The first command of the peer \<open>bob\<close>.\<close>

lemma sample_bob:
  "node_process sample_node_env (Suc n) \<lparr> rec_rd = parsed ''bob'' CmdNone d, rec_tcd = Some 3 \<rparr> sample_node =
     (let r = \<lparr> rec_rd = parsed ''bob'' CmdNone d, rec_tcd = Some 3 \<rparr>
      in ret (True, node_emit [NWrite 3 (node_pkt sample_node_env sample_node CmdNone [0]),
                NWrite 3 (node_pkt sample_node_env sample_node CmdHostInfo [0]), NWaitHostInfo ''bob'']
              (arp_set ''bob'' (new_peer r sample_node) sample_node)))"
  by (simp add: process_body_def peerNew_fresh arp_find_def sample_node_eqs sample_env_ok Let_def process_command_def
      com_connect_def cmd_defs)

theorem arp_consistent_witness:
  "arp_ok (node_emit [NWrite 3 (node_pkt sample_node_env sample_node CmdNone [0]),
                NWrite 3 (node_pkt sample_node_env sample_node CmdHostInfo [0]), NWaitHostInfo ''bob'']
              (arp_set ''bob'' (new_peer \<lparr> rec_rd = parsed ''bob'' CmdNone [0], rec_tcd = Some 3 \<rparr> sample_node) sample_node))"
proof -
  have n: "name_ok ''bob''" by code_simp
  have d: "ne_decrypt sample_node_env p = (p, True)" for p by (simp add: sample_node_env_def)
  have "node_read sample_node_env (node_process sample_node_env (Suc 0)) (EvGotData 3 (pac_bytes (PacketCreateNew ''bob'' CmdNone [0]))) sample_node
    = Some (Inr (node_emit [NWrite 3 (node_pkt sample_node_env sample_node CmdNone [0]),
                NWrite 3 (node_pkt sample_node_env sample_node CmdHostInfo [0]), NWaitHostInfo ''bob'']
              (arp_set ''bob'' (new_peer \<lparr> rec_rd = parsed ''bob'' CmdNone [0], rec_tcd = Some 3 \<rparr> sample_node) sample_node)))"
    by (simp add: node_read_def got_data_def d got_packet_created [OF n] sample_bob Let_def del: node_process.simps) (simp add: ret_def)
  then show ?thesis by (rule conjunct1 [OF arp_consistent [OF sample_arp_ok], THEN mp])
qed

text \<open>
  The search for the received data finds nothing, so one channel can be in the table under two names; and a
  peer that uses this host's name removes this host's own record with the command \<open>disconnect\<close>.
\<close>

lemma channel_with_two_names:
  assumes "arp_find ''bob'' st = Some a" and "ad_tcd a = Some t" and "arp_find ''eve'' st = None" and "writes_ok E"
  shows "\<exists>s. node_process E (Suc n) \<lparr> rec_rd = parsed ''eve'' CmdNone [0], rec_tcd = Some t \<rparr> st = Some (Inr (True, s))
     \<and> arp_find ''bob'' s = Some a \<and> map_option ad_tcd (arp_find ''eve'' s) = Some (Some t)"
  using assms
  by (simp add: process_body_def peerNew_fresh arp_find_set process_command_def com_connect_def cmd_defs ret_def Let_def)
     (simp add: ret_def [symmetric] arp_find_set new_peer_def)

lemma own_record_removed:
  "\<exists>s. node_process sample_node_env (Suc n) \<lparr> rec_rd = parsed ''me'' CmdDisconnect [0], rec_tcd = Some 3 \<rparr> sample_node
       = Some (Inr (True, s)) \<and> no_arp s = []"
  by (simp add: process_body_def peerNew_def Let_def process_command_def com_disconnect_def cmd_defs
      arp_find_def sample_node_eqs arp_delete_def arp_deletePeer_def close_tcd_def ret_def)

text \<open>Commands of a peer that stop the program: with no data, or authentication on a node that is no L0 server.\<close>

lemma empty_commands_panic:
  assumes "arp_find ''bob'' st = Some a" and "ad_tcd a = Some t" and "writes_ok E"
    and "cmd \<in> {CmdEcho, CmdEchoAnswer, CmdConnectR, CmdHostInfoAnswer, CmdL0}"
  shows "\<exists>e. node_process E (Suc n) \<lparr> rec_rd = parsed ''bob'' cmd [], rec_tcd = Some t \<rparr> st = Some (Inl e)"
  using assms
  by (auto simp: process_body_def peerNew_known Let_def process_command_def com_echo_def com_echoAnswer_def echo_string_def
      cmdConnectR_def sendToTcd_small maxDataLen_def com_hostInfoAnswer_def host_info_parse_def cmdL0_def empty_carried_panics
      panics_def of_go_def cmd_defs)

lemma auth_command_panics:
  assumes "arp_find ''bob'' st = Some a" and "ad_tcd a = Some t" and "\<not> lz_allow (no_l0 st)" and "cmd \<in> {CmdL0Auth, cmdAuth}"
  shows "node_process E (Suc n) \<lparr> rec_rd = parsed ''bob'' cmd d, rec_tcd = Some t \<rparr> st = Some (Inl NilPointer)"
  using assms
  by (auto simp: process_body_def peerNew_known Let_def process_command_def com_cmdL0Auth_def com_cmdAuth_def panics_def cmd_defs)

end
