(* ===== verification/NodeDelivery.thy ===== *)
theory NodeDelivery
  imports NodeTable
begin

text \<open>
  Commands from node to node: what \<open>sendToTcd\<close> writes is read by the other node, packet by packet, and the
  command gets to its user once, whole (theorem \<open>command_delivered\<close>). The packets are carried by TR-UDP, in order.
\<close>

section \<open>Reading events\<close>

text \<open>The loop of the reader in \<open>Run\<close>, over the events to come.\<close>

fun node_reads :: "'n node_env \<Rightarrow> nat \<Rightarrow> td_event list \<Rightarrow> Teonet \<Rightarrow> Teonet res" where
  "node_reads E n [] st = ret st"
| "node_reads E n (ev # evs) st =
     (if \<not> no_running st then ret st
      else res_bind (node_read E (node_process E n) ev st) (node_reads E n evs))"

lemma res_bind_assoc: "res_bind (res_bind m f) g = res_bind m (\<lambda>x. res_bind (f x) g)"
  by (auto simp: res_bind_def split: option.split sum.split)

lemma node_reads_append:
  "node_reads E n (evs @ fs) st = res_bind (node_reads E n evs st) (node_reads E n fs)"
proof (induction evs arbitrary: st)
  case (Cons ev evs)
  have "node_reads E n fs s = ret s" if "\<not> no_running s" for s
    using that by (cases fs) auto
  moreover have "node_reads E n (evs @ fs) = (\<lambda>s. res_bind (node_reads E n evs s) (node_reads E n fs))"
    by (rule ext) (rule Cons.IH)
  ultimately show ?case by (simp add: res_bind_assoc)
qed simp

text \<open>What \<open>sendToTcd\<close> writes: the packets of the parts.\<close>

lemma write_parts_ok:
  assumes "writes_ok E"
  shows "\<exists>l. write_parts E t ps n st = (l, node_emit (map (\<lambda>(cmd, d). NWrite t (node_pkt E st cmd d)) ps) st)"
proof (induction ps arbitrary: n st)
  case (Cons p ps)
  obtain cmd d where p: "p = (cmd, d)" by (cases p)
  obtain l where l: "ne_write E t (node_pkt E st cmd d) = (l, None)"
    using assms by (metis writes_ok_def prod.collapse)
  show ?case using Cons.IH [of "n + l" "node_emit [NWrite t (node_pkt E st cmd d)] st"] l
    by (simp add: p Let_def node_pkt_def [symmetric])
qed simp

lemma node_pkt_split [simp]: "node_pkt E (st\<lparr>no_split := sp\<rparr>) = node_pkt E st"
  by (simp add: node_pkt_def fun_eq_iff)

lemma sendToTcd_parts:
  assumes "writes_ok E" and "split_data cmd data (no_split st) = (ps, k, sp)"
  shows "\<exists>l. sendToTcd E self (Some t) cmd data st =
     ret ((l, None), node_emit (map (\<lambda>(c, d). NWrite t (node_pkt E st c d)) ps) (st\<lparr>no_split := sp\<rparr>))"
  using write_parts_ok [OF assms(1), of t ps 0 "st\<lparr>no_split := sp\<rparr>"] assms(2)
  by (auto simp: sendToTcd_def)

section \<open>User commands\<close>

text \<open>The commands that the node processes itself; all other commands are the user's.\<close>

definition kernel_commands :: "u8 set" where
  "kernel_commands = {CmdConnectR, CmdNone, CmdConnect, CmdDisconnect, CmdSplit, CmdReset, CmdEcho, CmdEchoAnswer, CmdL0,
     CmdL0To, CmdL0Auth, CmdL0Clients, CmdL0ClientsNum, CmdPeers, CmdHostInfo, CmdHostInfoAnswer, cmdAuth}"

text \<open>The event that a running node sends for a received command.\<close>

definition received_event :: "ksnCorePacketData \<Rightarrow> Teonet \<Rightarrow> (nat option \<times> int \<times> Packet option) list" where
  "received_event rd st =
     (None, EventReceived, Some (rd_Packet rd)) # map (\<lambda>c. (Some c, EventReceived, Some (rd_Packet rd))) (no_subs st)"

lemma process_user_command:
  assumes "arp_find (rd_from (rec_rd r)) st = Some a" and "ad_tcd a = rec_tcd r" and "rd_cmd (rec_rd r) \<notin> kernel_commands"
  shows "node_process E (Suc n) r st = process_user r st"
  using assms by (simp add: process_body_def peerNew_known process_command_def kernel_commands_def Let_def)

lemma process_user_event:
  assumes "wcom_m (no_wcom st) (wcom_makeKey (rd_from (rec_rd r)) (rd_cmd (rec_rd r))) = None" and "no_running st"
  shows "process_user r st = ret (False, st\<lparr>no_events := no_events st @ received_event (rec_rd r) st\<rparr>)"
  using assms by (simp add: process_user_def wcom_check_def Let_def ev_send_def received_event_def)

text \<open>A packet read from the channel of a known peer.\<close>

lemma read_packet:
  assumes "ne_decrypt F q = (pac_bytes (PacketCreateNew who cmd d), True)" and "name_ok who" and "no_running st"
  shows "node_reads F n [EvGotData c q] st =
     res_bind (node_process F n \<lparr> rec_rd = parsed who cmd d, rec_tcd = Some c \<rparr> st) (\<lambda>x. ret (snd x))"
  using assms
  by (simp add: node_read_def got_data_def got_packet_created res_bind_assoc split_beta)

lemma process_split:
  assumes "arp_find who st = Some a" and "ad_tcd a = Some c" and "cmdSplit \<lparr> rec_rd = parsed who CmdSplit d, rec_tcd = Some c \<rparr> (no_split st) = Inr (Inr x, sp)"
  shows "node_process E (Suc n) \<lparr> rec_rd = parsed who CmdSplit d, rec_tcd = Some c \<rparr> st =
     (case x of None \<Rightarrow> ret (True, st\<lparr>no_split := sp\<rparr>)
      | Some r' \<Rightarrow> res_bind (node_process E n r' (st\<lparr>no_split := sp\<rparr>)) (\<lambda>x. ret (True, snd x)))"
  using assms
  by (auto simp: process_body_def peerNew_known process_command_def Let_def cmd_defs com_cmdSplit_def res_bind_assoc split_beta split: option.split)

text \<open>The subpackets of a large command: those before the last are kept, the last one gives the command.\<close>

lemma reads_parts:
  fixes q :: "nat \<Rightarrow> bytes" and pn :: u16 and cmd :: u8 and data :: bytes
  defines "d \<equiv> \<lambda>j. subpacket pn cmd j (piece data j) (Suc j = pieces data)"
  assumes who: "name_ok who" "arp_find who st = Some a" "ad_tcd a = Some c" "no_running st"
    and q: "\<And>j. ne_decrypt F (q j) = (pac_bytes (PacketCreateNew who CmdSplit (d j)), True)"
    and i: "i < pieces data" "pieces data \<le> 2 ^ 15"
  shows "\<exists>m. node_reads F (Suc n) (map (\<lambda>j. EvGotData c (q j)) [0..<i]) st
        = ret (st\<lparr>no_split := (no_split st)\<lparr>split_m := m\<rparr>\<rparr>)
      \<and> (\<forall>j<i. m (split_makeKey who pn (of_nat j)) = Some (received_from who (Some c) (d j)))"
  using i(1)
proof (induction i)
  case 0
  have "st = st\<lparr>no_split := (no_split st)\<lparr>split_m := split_m (no_split st)\<rparr>\<rparr>" by simp
  then show ?case by (intro exI [of _ "split_m (no_split st)"]) simp
next
  case (Suc i)
  let ?k = "\<lambda>j. split_makeKey who pn (of_nat j)" and ?r = "\<lambda>j. received_from who (Some c) (d j)"
  obtain m where m: "node_reads F (Suc n) (map (\<lambda>j. EvGotData c (q j)) [0..<i]) st
        = ret (st\<lparr>no_split := (no_split st)\<lparr>split_m := m\<rparr>\<rparr>)" "\<forall>j<i. m (?k j) = Some (?r j)"
    using Suc by auto
  let ?st = "st\<lparr>no_split := (no_split st)\<lparr>split_m := m\<rparr>\<rparr>" and ?m = "m(?k i \<mapsto> ?r i)"
  have "carries who pn cmd data i (?r i)" by (simp add: carries_def received_from_def d_def)
  then have "combine (?r i) (no_split ?st) = Inr (Inr ([], 0), (no_split st)\<lparr>split_m := ?m\<rparr>)"
    using Suc.prems i(2) by (subst combine_carries [of _ pn cmd data i]) (auto simp: Let_def)
  then have "cmdSplit (?r i) (no_split ?st) = Inr (Inr None, (no_split st)\<lparr>split_m := ?m\<rparr>)"
    by (simp add: cmdSplit_def)
  then have "node_process F (Suc n) (?r i) ?st = ret (True, st\<lparr>no_split := (no_split st)\<lparr>split_m := ?m\<rparr>\<rparr>)"
    using process_split [of who ?st a c "d i" None "(no_split st)\<lparr>split_m := ?m\<rparr>" F n] who
    by (simp add: received_from_def arp_find_def del: node_process.simps)
  then have "node_reads F (Suc n) [EvGotData c (q i)] ?st = ret (st\<lparr>no_split := (no_split st)\<lparr>split_m := ?m\<rparr>\<rparr>)"
    using read_packet [OF q who(1), of ?st "Suc n" c] who(4)
    by (simp add: received_from_def del: node_process.simps node_reads.simps)
  moreover have "\<forall>j<Suc i. ?m (?k j) = Some (?r j)"
    using m(2) of_nat_u16_inj Suc.prems i(2) by (auto simp: less_Suc_eq)
  ultimately show ?case using m(1)
    by (intro exI [of _ ?m]) (simp add: node_reads_append fun_upd_def del: node_process.simps node_reads.simps)
qed

lemma reads_large:
  fixes q :: "nat \<Rightarrow> bytes" and pn :: u16 and cmd :: u8 and data :: bytes
  defines "d \<equiv> \<lambda>j. subpacket pn cmd j (piece data j) (Suc j = pieces data)"
  assumes who: "name_ok who" "arp_find who st = Some a" "ad_tcd a = Some c" "no_running st"
    and q: "\<And>j. ne_decrypt F (q j) = (pac_bytes (PacketCreateNew who CmdSplit (d j)), True)"
    and large: "maxDataLen < length data" "length data \<le> maxDataLen * 2 ^ 15"
  shows "\<exists>m. node_reads F (Suc n) (map (\<lambda>j. EvGotData c (q j)) [0..<pieces data]) st
     = res_bind (node_process F n \<lparr> rec_rd = parsed who cmd data, rec_tcd = Some c \<rparr> (st\<lparr>no_split := (no_split st)\<lparr>split_m := m\<rparr>\<rparr>))
         (\<lambda>x. ret (snd x))"
proof -
  note P = pieces_bounds [OF large]
  define l where "l = pieces data - 1"
  have l: "pieces data = Suc l" "l < pieces data" "l < 2 ^ 15" using P by (simp_all add: l_def)
  let ?k = "\<lambda>j. split_makeKey who pn (of_nat j)" and ?r = "\<lambda>j. received_from who (Some c) (d j)"
  obtain m where m: "node_reads F (Suc n) (map (\<lambda>j. EvGotData c (q j)) [0..<l]) st
        = ret (st\<lparr>no_split := (no_split st)\<lparr>split_m := m\<rparr>\<rparr>)" "\<forall>j<l. m (?k j) = Some (?r j)"
    using reads_parts [OF who q [unfolded d_def] l(2) P(2)] unfolding d_def by blast
  let ?st = "st\<lparr>no_split := (no_split st)\<lparr>split_m := m\<rparr>\<rparr>" and ?m = "m(?k l \<mapsto> ?r l)"
  have cs: "carries who pn cmd data j (?r j)" for j by (simp add: carries_def received_from_def d_def)
  have "\<forall>j. 0 \<le> j \<and> j < pieces data \<longrightarrow> (\<exists>r. ?m (?k j) = Some r \<and> carries who pn cmd data j r)"
    using m(2) cs l of_nat_u16_inj by (auto simp: less_Suc_eq)
  then have "\<exists>m'. combine_loop who pn 0 (l + 1) [] 0 ?m = Inr (Inr (data, cmd), m')"
    by (subst combine_loop_ok [of 0 "l + 1" data ?m who pn cmd "[]" 0]) (use l(1) P concat_pieces [of data] in simp_all)
  then obtain m' where "combine_loop who pn 0 (l + 1) [] 0 ?m = Inr (Inr (data, cmd), m')" by blast
  then have "combine (?r l) (no_split ?st) = Inr (Inr (data, cmd), (no_split st)\<lparr>split_m := m'\<rparr>)"
    using l by (subst combine_carries [OF cs l(3)]) (simp add: Let_def)
  moreover have "data \<noteq> []" using large by auto
  moreover have "Parse (PacketCreateNew who cmd data) = Inr (Inr (parsed who cmd data))"
    using parsePacket_create [OF who(1), of cmd data] by (simp add: Parse_def) (simp add: PacketCreateNew_def createPacketFrom_def)
  ultimately have "cmdSplit (?r l) (no_split ?st)
      = Inr (Inr (Some \<lparr> rec_rd = parsed who cmd data, rec_tcd = Some c \<rparr>), (no_split st)\<lparr>split_m := m'\<rparr>)"
    by (simp add: cmdSplit_def received_from_def)
  then have "node_process F (Suc n) (?r l) ?st = res_bind (node_process F n \<lparr> rec_rd = parsed who cmd data, rec_tcd = Some c \<rparr>
      (st\<lparr>no_split := (no_split st)\<lparr>split_m := m'\<rparr>\<rparr>)) (\<lambda>x. ret (True, snd x))"
    using process_split [of who ?st a c "d l" "Some \<lparr> rec_rd = parsed who cmd data, rec_tcd = Some c \<rparr>" _ F n] who
    by (simp add: received_from_def arp_find_def del: node_process.simps)
  then have "node_reads F (Suc n) [EvGotData c (q l)] ?st = res_bind (node_process F n \<lparr> rec_rd = parsed who cmd data, rec_tcd = Some c \<rparr>
      (st\<lparr>no_split := (no_split st)\<lparr>split_m := m'\<rparr>\<rparr>)) (\<lambda>x. ret (snd x))"
    using read_packet [OF q who(1), of ?st "Suc n" c] who(4)
    by (simp add: received_from_def res_bind_assoc del: node_process.simps node_reads.simps)
  then show ?thesis using m(1) l(1)
    by (intro exI [of _ m']) (simp add: node_reads_append del: node_process.simps node_reads.simps)
qed

text \<open>C8: a command that one node sends is received once by the other. When \<open>sendToTcd\<close> sends a user's command with data of any
  length up to 14,680,064 bytes except 448, what it writes to the channel, decrypted and read in
  that order by a node that has the sender in its table on the channel and nobody waiting for the command, makes
  the node send exactly one event to each of its event channels, with the sender, the command and the data; the
  table of peers is unchanged, and nothing is sent.\<close>

theorem command_delivered:
  assumes "writes_ok E" and "\<forall>p. ne_decrypt F (ne_encrypt E p) = (p, True)" and "name_ok (pa_Name (no_param A))"
    and "length data \<noteq> maxDataLen" and "length data \<le> maxDataLen * 2 ^ 15"
    and "arp_find (pa_Name (no_param A)) B = Some a" and "ad_tcd a = Some c" and "no_running B"
    and "cmd \<notin> kernel_commands" and "wcom_m (no_wcom B) (wcom_makeKey (pa_Name (no_param A)) cmd) = None"
  shows "\<exists>l A' pkts B'. sendToTcd E self (Some t) cmd data A = ret ((l, None), A')
    \<and> no_out A' = no_out A @ map (NWrite t) pkts
    \<and> node_reads F (Suc (Suc n)) (map (EvGotData c) pkts) B = ret B'
    \<and> no_events B' = no_events B @ received_event (parsed (pa_Name (no_param A)) cmd data) B
    \<and> no_arp B' = no_arp B \<and> no_out B' = no_out B"
proof -
  let ?who = "own A" and ?r = "\<lparr> rec_rd = parsed (own A) cmd data, rec_tcd = Some c \<rparr>"
  obtain ps k sp where sp: "split_data cmd data (no_split A) = (ps, k, sp)" by (cases "split_data cmd data (no_split A)") auto
  obtain l where l: "sendToTcd E self (Some t) cmd data A =
     ret ((l, None), node_emit (map (\<lambda>(c, d). NWrite t (node_pkt E A c d)) ps) (A\<lparr>no_split := sp\<rparr>))"
    using sendToTcd_parts [OF assms(1) sp] by blast
  define pkts where "pkts = map (\<lambda>(c, d). node_pkt E A c d) ps"
  have out: "map (\<lambda>(c, d). NWrite t (node_pkt E A c d)) ps = map (NWrite t) pkts"
    by (simp add: pkts_def split_beta)
  have user: "node_process F (Suc m) ?r (B\<lparr>no_split := s\<rparr>)
      = ret (False, B\<lparr>no_split := s, no_events := no_events B @ received_event (parsed ?who cmd data) B\<rparr>)" for m s
    using process_user_command [of ?r "B\<lparr>no_split := s\<rparr>" a F m] process_user_event [of "B\<lparr>no_split := s\<rparr>" ?r] assms(6-10)
    by (simp add: arp_find_def received_event_def del: node_process.simps)
  have dec: "ne_decrypt F (node_pkt E A c' d) = (pac_bytes (PacketCreateNew ?who c' d), True)" for c' d
    using assms(2) by (simp add: node_pkt_def)
  have "\<exists>s. node_reads F (Suc (Suc n)) (map (EvGotData c) pkts) B
      = ret (B\<lparr>no_split := s, no_events := no_events B @ received_event (parsed ?who cmd data) B\<rparr>)"
  proof (cases "length data < maxDataLen")
    case True
    then have "pkts = [node_pkt E A cmd data]" using sp by (auto simp: pkts_def split_data_def)
    moreover have "B = B\<lparr>no_split := no_split B\<rparr>" by simp
    ultimately show ?thesis
      using read_packet [OF dec assms(3,8), of "Suc (Suc n)" c cmd data] user [of "Suc n" "no_split B"]
      by (intro exI [of _ "no_split B"]) (simp del: node_process.simps node_reads.simps)
  next
    case False
    then have large: "maxDataLen < length data" using assms(4) by simp
    let ?pn = "packetNum (no_split A) + 1"
    let ?q = "\<lambda>j. node_pkt E A CmdSplit (subpacket ?pn cmd j (piece data j) (Suc j = pieces data))"
    have "map (EvGotData c) pkts = map (\<lambda>j. EvGotData c (?q j)) [0..<pieces data]"
      using sp split_data_large [OF large, of cmd "no_split A"] by (auto simp: pkts_def)
    moreover obtain m where "node_reads F (Suc (Suc n)) (map (\<lambda>j. EvGotData c (?q j)) [0..<pieces data]) B
        = res_bind (node_process F (Suc n) ?r (B\<lparr>no_split := (no_split B)\<lparr>split_m := m\<rparr>\<rparr>)) (\<lambda>x. ret (snd x))"
      using reads_large [OF assms(3,6,7,8) dec large assms(5), of "Suc n" ?pn cmd] by blast
    ultimately show ?thesis
      by (simp add: user del: node_process.simps node_reads.simps) blast
  qed
  then obtain s where s: "node_reads F (Suc (Suc n)) (map (EvGotData c) pkts) B
      = ret (B\<lparr>no_split := s, no_events := no_events B @ received_event (parsed ?who cmd data) B\<rparr>)" by blast
  show ?thesis
    by (intro exI conjI, rule l, simp only: emit_frames out, simp, rule s) simp_all
qed

text \<open>The node \<open>me\<close> sends to \<open>bob\<close>, who knows it on channel 5.\<close>

definition sample_bob_node :: Teonet where
  "sample_bob_node = arp_set ''me'' \<lparr> ad_peer = ''me'', ad_mode = 0, ad_version = [], ad_appVersion = [], ad_appType = [], ad_tcd = Some 5 \<rparr>
     (node_Connect \<lparr> pa_Name = ''bob'', pa_Port = 9001, pa_RAddr = [], pa_RPort = 0, pa_DisallowEncrypt = False \<rparr> False [] [] [])"

theorem command_delivered_witness:
  "\<exists>l A' pkts B'. sendToTcd sample_node_env (\<lambda>_ _. None) (Some 2) 129 (replicate 1000 7) sample_node = ret ((l, None), A')
    \<and> no_out A' = no_out sample_node @ map (NWrite 2) pkts
    \<and> node_reads sample_node_env (Suc (Suc 0)) (map (EvGotData 5) pkts) sample_bob_node = ret B'
    \<and> no_events B' = no_events sample_bob_node @ received_event (parsed (pa_Name (no_param sample_node)) 129 (replicate 1000 7)) sample_bob_node
    \<and> no_arp B' = no_arp sample_bob_node \<and> no_out B' = no_out sample_bob_node"
proof (rule command_delivered [OF sample_env_ok])
  show "\<forall>p. ne_decrypt sample_node_env (ne_encrypt sample_node_env p) = (p, True)" by (simp add: sample_node_env_def)
  show "name_ok (pa_Name (no_param sample_node))" by code_simp
  show "length (replicate 1000 (7::u8)) \<noteq> maxDataLen" "length (replicate 1000 (7::u8)) \<le> maxDataLen * 2 ^ 15"
    by (simp_all add: maxDataLen_def)
  show "arp_find (pa_Name (no_param sample_node)) sample_bob_node
      = Some \<lparr> ad_peer = ''me'', ad_mode = 0, ad_version = [], ad_appVersion = [], ad_appType = [], ad_tcd = Some 5 \<rparr>"
    by (simp add: sample_bob_node_def arp_find_set sample_node_eqs)
  show "no_running sample_bob_node" "wcom_m (no_wcom sample_bob_node) (wcom_makeKey (pa_Name (no_param sample_node)) 129) = None"
    by (simp_all add: sample_bob_node_def arp_set_def node_Connect_def Let_def arp_peerAdd_def arp_find_def setType_def setAppVersion_def waitFromNew_def)
qed (simp_all add: kernel_commands_def cmd_defs)

section \<open>Errors\<close>

lemma cmdSplit_missing:
  assumes "sn < 2 ^ 15" and "0 < sn" and "split_m sp (split_makeKey (rd_from (rec_rd r)) pn 0) = None"
    and "rd_data (rec_rd r) = le16 pn @ le16 (of_nat sn OR lastPacketFlag) @ d"
  shows "cmdSplit r sp = Inr (Inl ''can't combine packets'',
     sp\<lparr>split_m := (split_m sp)(split_makeKey (rd_from (rec_rd r)) pn (of_nat sn) \<mapsto> r)\<rparr>)"
proof -
  let ?sn = "of_nat sn OR lastPacketFlag :: u16"
  have f: "?sn = sub_num sn True" by (simp add: sub_num_def)
  have n0: "(of_nat sn :: u16) \<noteq> 0" using assms(1,2) of_nat_u16_0 by simp
  show ?thesis
    using assms n0
    by (simp add: cmdSplit_def combine_def codec_simps Let_def f sub_num_fields(1,2))
qed



end
