(* ===== verification/NodeRendezvous.thy ===== *)
theory NodeRendezvous
  imports NodeTable
begin

text \<open>
  How peers find each other: the command \<open>CMD_CONNECT_R\<close> at the remote host (\<open>cmdConnectR\<close> of
  \<open>teonet/teonet/rhost.go\<close>) and \<open>CMD_CONNECT\<close> at the peers (theorem \<open>connect_rendezvous\<close>).
\<close>

section \<open>The rendezvous\<close>

text \<open>The other peers, with their channels: those that are neither this host nor the sender.\<close>

definition child_records :: "string \<Rightarrow> Teonet \<Rightarrow> (string \<times> arpData) list" where
  "child_records who st = filter (\<lambda>(p, a). ad_mode a \<noteq> -1 \<and> p \<noteq> who) (no_arp st)"

definition children :: "string \<Rightarrow> Teonet \<Rightarrow> (string \<times> nat) list" where
  "children who st = map (\<lambda>(p, a). (p, the (ad_tcd a))) (child_records who st)"

lemma for_children_emit:
  assumes "\<And>p a os. (p, a) \<in> set ps \<Longrightarrow> ad_mode a \<noteq> -1 \<Longrightarrow> p \<noteq> who
    \<Longrightarrow> f p a (node_emit os st) = ret (node_emit (os @ [g p a]) st)"
  shows "for_children who f ps (node_emit os st) =
     ret (node_emit (os @ map (\<lambda>(p, a). g p a) (filter (\<lambda>(p, a). ad_mode a \<noteq> -1 \<and> p \<noteq> who) ps)) st)"
  using assms
proof (induction ps arbitrary: os)
  case (Cons x ps)
  obtain p a where x: "x = (p, a)" by (cases x)
  have IH: "for_children who f ps (node_emit os' st) =
     ret (node_emit (os' @ map (\<lambda>(p, a). g p a) (filter (\<lambda>(p, a). ad_mode a \<noteq> -1 \<and> p \<noteq> who) ps)) st)" for os'
    using Cons.prems by (intro Cons.IH) simp
  show ?case using Cons.prems [of p a os] IH by (simp add: x)
qed simp

lemma makeData_small:
  assumes "name_ok who" and "length ip \<le> 100"
  shows "length (makeData who ip port) < maxDataLen"
  using assms by (simp add: makeData_def name_ok_def maxDataLen_def le32_def)

text \<open>One announcement to all children, and the children to the sender.\<close>

definition tell_children :: "'n node_env \<Rightarrow> string \<Rightarrow> string \<Rightarrow> int \<Rightarrow> Teonet \<Rightarrow> node_out list" where
  "tell_children E who ip port st =
     map (\<lambda>(p, t). NWrite t (node_pkt E st CmdConnect (makeData who ip port))) (children who st)"

definition tell_sender :: "'n node_env \<Rightarrow> string \<Rightarrow> nat \<Rightarrow> Teonet \<Rightarrow> node_out list" where
  "tell_sender E who c st =
     map (\<lambda>(p, t). NWrite c (node_pkt E st CmdConnect (makeData p (ne_ip E t) (ne_port E t)))) (children who st)"

lemma tell_eqs:
  "map (\<lambda>(p, a). NWrite (the (ad_tcd a)) (node_pkt E st CmdConnect (makeData who ip port)))
     (filter (\<lambda>(p, a). ad_mode a \<noteq> -1 \<and> p \<noteq> who) (no_arp st)) = tell_children E who ip port st"
  "map (\<lambda>(p, a). NWrite c (node_pkt E st CmdConnect (makeData p (ne_ip E (the (ad_tcd a))) (ne_port E (the (ad_tcd a))))))
     (filter (\<lambda>(p, a). ad_mode a \<noteq> -1 \<and> p \<noteq> who) (no_arp st)) = tell_sender E who c st"
  by (auto simp: tell_children_def tell_sender_def children_def child_records_def intro!: map_cong)

lemma child_found:
  assumes "arp_ok st" and "(p, a) \<in> set (no_arp st)"
  shows "arp_find p (node_emit os st) = Some a"
  using assms by (simp add: arp_find_def arp_ok_def)

text \<open>All children have a channel.\<close>

definition children_ok :: "string \<Rightarrow> Teonet \<Rightarrow> bool" where
  "children_ok who st \<longleftrightarrow> (\<forall>(p, a) \<in> set (child_records who st). ad_tcd a \<noteq> None \<and> name_ok p)"

lemma tell_children_run:
  assumes "arp_ok st" "writes_ok E" "children_ok who st" "name_ok who" "length ip \<le> 100"
  shows "for_children who (send_connect E self (makeData who ip port)) (no_arp (node_emit os st)) (node_emit os st)
    = ret (node_emit (os @ tell_children E who ip port st) st)"
proof -
  let ?d = "makeData who ip port"
  have "for_children who (send_connect E self ?d) (no_arp st) (node_emit os st) =
     ret (node_emit (os @ map (\<lambda>(p, a). NWrite (the (ad_tcd a)) (node_pkt E st CmdConnect ?d))
        (filter (\<lambda>(p, a). ad_mode a \<noteq> -1 \<and> p \<noteq> who) (no_arp st))) st)"
  proof (rule for_children_emit)
    fix p a os
    assume a: "(p, a) \<in> set (no_arp st)" "ad_mode a \<noteq> -1" "p \<noteq> who"
    then have "(p, a) \<in> set (child_records who st)" by (simp add: child_records_def)
    then obtain t where t: "ad_tcd a = Some t" using assms(3) by (auto simp: children_ok_def)
    show "send_connect E self ?d p a (node_emit os st)
      = ret (node_emit (os @ [NWrite (the (ad_tcd a)) (node_pkt E st CmdConnect ?d)]) st)"
      using SendTo_small [OF assms(2) makeData_small [OF assms(4,5)] child_found [OF assms(1) a(1)] t]
      by (simp add: send_connect_def t)
  qed
  then show ?thesis by (simp only: tell_eqs emit_frames)
qed

lemma tell_sender_run:
  assumes "writes_ok E" "children_ok who st" "\<forall>t. length (ne_ip E t) \<le> 100"
  shows "for_children who (\<lambda>peer a st. res_bind (tcd_addr E (ad_tcd a)) (\<lambda>(ip, p).
          res_bind (sendToTcd E self (Some c) CmdConnect (makeData peer ip p) st) (\<lambda>(_, st). ret st)))
       (no_arp (node_emit os st)) (node_emit os st)
    = ret (node_emit (os @ tell_sender E who c st) st)"
proof -
  let ?f = "\<lambda>peer a st. res_bind (tcd_addr E (ad_tcd a)) (\<lambda>(ip, p).
          res_bind (sendToTcd E self (Some c) CmdConnect (makeData peer ip p) st) (\<lambda>(_, st). ret st))"
  let ?d = "\<lambda>p a. makeData p (ne_ip E (the (ad_tcd a))) (ne_port E (the (ad_tcd a)))"
  have "for_children who ?f (no_arp st) (node_emit os st) =
     ret (node_emit (os @ map (\<lambda>(p, a). NWrite c (node_pkt E st CmdConnect (?d p a)))
        (filter (\<lambda>(p, a). ad_mode a \<noteq> -1 \<and> p \<noteq> who) (no_arp st))) st)"
  proof (rule for_children_emit)
    fix p a os
    assume a: "(p, a) \<in> set (no_arp st)" "ad_mode a \<noteq> -1" "p \<noteq> who"
    then have "(p, a) \<in> set (child_records who st)" by (simp add: child_records_def)
    then obtain t where t: "ad_tcd a = Some t" "name_ok p" using assms(2) by (auto simp: children_ok_def)
    show "?f p a (node_emit os st) = ret (node_emit (os @ [NWrite c (node_pkt E st CmdConnect (?d p a))]) st)"
      using sendToTcd_small [OF assms(1) makeData_small [OF t(2)]] assms(3) by (simp add: tcd_addr_def t)
  qed
  then show ?thesis by (simp only: tell_eqs emit_frames)
qed

text \<open>The loop over the addresses that the sender knows of itself.\<close>

lemma connectR_loop_run:
  assumes "arp_ok st" "writes_ok E" "children_ok who st" "name_ok who" "\<forall>ip \<in> set ips. nul_free ip \<and> length ip \<le> 100"
  shows "connectR_loop E self who port (length ips) (concat (map (\<lambda>ip. bytes_of ip @ [0]) ips) @ rest) (node_emit os st)
    = ret (node_emit (os @ concat (map (\<lambda>ip. tell_children E who ip port st) ips)) st)"
  using assms(5)
proof (induction ips arbitrary: os)
  case (Cons ip ips)
  let ?r = "bytes_of ip @ 0 # concat (map (\<lambda>ip. bytes_of ip @ [0]) ips) @ rest"
  have "c_string ?r = Inr ip" using Cons.prems by (simp add: c_string_bytes_of)
  moreover have "for_children who (send_connect E self (makeData who ip port)) (no_arp (node_emit os st)) (node_emit os st)
    = ret (node_emit (os @ tell_children E who ip port st) st)"
    using Cons.prems by (intro tell_children_run assms(1-4)) simp
  ultimately show ?case using Cons.IH Cons.prems by simp
qed simp

lemma uint_port: "0 \<le> port \<Longrightarrow> port < 2 ^ 32 \<Longrightarrow> uint (of_int port :: u32) = port"
  by (simp add: uint_word_of_int)

lemma getPort_connectR:
  assumes "0 \<le> port" and "port < 2 ^ 32"
  shows "getPort (connectR_data ips port) = Inr port"
proof -
  let ?p = "of_nat (length ips) # concat (map (\<lambda>ip. bytes_of ip @ [0]) ips)"
  have d: "connectR_data ips port = ?p @ le32 (of_int port)" by (simp add: connectR_data_def)
  have "drop (length (connectR_data ips port) - 4) (connectR_data ips port) = le32 (of_int port)"
    unfolding d by (simp only: length_append length_le32 diff_add_inverse2 drop_append) simp
  then show ?thesis using uint_port [OF assms] rd_u32_le32 [of "of_int port" "[]"]
    by (simp add: getPort_def) (simp add: d)
qed

text \<open>What is announced is what the peer reads: the port fits in two bytes, so the command ends in zeros.\<close>

lemma connect_data_roundtrip:
  assumes "nul_free who" and "nul_free ip" and "0 \<le> port" and "port < 2 ^ 16"
  shows "cmdConnectData (makeData who ip port) = Inr (Inr (who, ip, port))"
proof -
  let ?w = "of_int port :: u32"
  have u: "uint ?w = port" using assms(3,4) by (intro uint_port) auto
  have z: "drop_bit 16 ?w = 0" "drop_bit 24 ?w = 0"
    using assms(3,4) by (simp_all add: word_uint_eq_iff drop_bit_eq_div uint_div_distrib u)
  define d where "d = bytes_of who @ 0 # bytes_of ip @ 0 # [ucast ?w, ucast (drop_bit 8 ?w)]"
  have m: "makeData who ip port = d @ [0, 0]" by (simp add: makeData_def le32_def z d_def)
  have "fix_255 (d @ [0, 0]) = d @ [0, 0]" by (simp add: fix_255_def Let_def nth_append)
  then have f: "fix_255 (makeData who ip port) = bytes_of who @ 0 # bytes_of ip @ 0 # le32 ?w"
    by (simp only: m) (simp add: le32_def z d_def)
  have r: "read_zstring (bytes_of s @ 0 # rest) = (s, rest)" if "nul_free s" for s rest
  proof -
    have "dropWhile (\<lambda>x. x \<noteq> 0) (bytes_of s @ 0 # rest) = 0 # rest"
      using that by (subst dropWhile_append2) (auto simp: nul_free_bytes)
    then show ?thesis using takeWhile_name [OF that, of rest] by (simp add: read_zstring_def)
  qed
  show ?thesis using f r [OF assms(1)] r [OF assms(2)] rd_u32_le32 [of ?w "[]"] u
    by (simp add: cmdConnectData_def) (simp add: makeData_def)
qed

text \<open>C17: the rendezvous. When the remote host gets \<open>CMD_CONNECT_R\<close> with the addresses and the port that a peer sent it, it
  answers on the peer's channel, tells every other peer each of the addresses with the port (the local host first) and then the
  address and port that it sees the peer at, and tells the peer the address and port of each other
  peer: these packets in this order, and nothing else. And a peer that gets such a command, of any of these
  addresses, reads from it the name, address and port, and starts to connect there, unless it knows the name or the address.\<close>

theorem connect_rendezvous:
  fixes ips :: "string list"
  assumes "arp_ok st" and "writes_ok E" and "children_ok (rd_from (rec_rd r)) st" and "name_ok (rd_from (rec_rd r))"
    and "\<forall>t. length (ne_ip E t) \<le> 100" and "\<forall>ip \<in> set ips. nul_free ip \<and> length ip \<le> 100" and "length ips < 256"
    and "0 \<le> port" and "port < 2 ^ 16" and "rec_tcd r = Some c" and "rd_data (rec_rd r) = connectR_data ips port"
  shows "cmdConnectR E self r st = ret (node_emit
      ([NWrite c (node_pkt E st CmdNone [0])]
       @ concat (map (\<lambda>ip. tell_children E (rd_from (rec_rd r)) ip port st) (localhostIP # ips))
       @ tell_children E (rd_from (rec_rd r)) (ne_ip E c) (ne_port E c) st
       @ tell_sender E (rd_from (rec_rd r)) c st) st)
    \<and> (\<forall>ip \<in> set (localhostIP # ips). \<forall>s. arp_find (rd_from (rec_rd r)) s = None \<and> arp_find_addr F ip port 0 s = None
        \<longrightarrow> cmdConnect F (makeData (rd_from (rec_rd r)) ip port) s = Inr (node_emit [NDiscover ip port] s))"
proof (intro conjI ballI allI impI)
  let ?who = "rd_from (rec_rd r)"
  note run = tell_children_run [OF assms(1-4)]
  have d: "rd_data (rec_rd r) = of_nat (length ips) # concat (map (\<lambda>ip. bytes_of ip @ [0]) ips) @ le32 (of_int port)"
    using assms(11) by (simp add: connectR_data_def)
  have n: "unat (of_nat (length ips) :: u8) = length ips" using assms(7) by (simp add: unat_of_nat)
  have p: "getPort (rd_data (rec_rd r)) = Inr port" using assms(8,9,11) getPort_connectR by simp
  have local: "length localhostIP \<le> 100" by (simp add: localhostIP_def)
  have seen: "for_children ?who (\<lambda>peer a st. res_bind (tcd_addr E (Some c)) (\<lambda>(ip, p). send_connect E self (makeData ?who ip p) peer a st))
       (no_arp s) s = for_children ?who (send_connect E self (makeData ?who (ne_ip E c) (ne_port E c))) (no_arp s) s" for s
    by (simp add: tcd_addr_def)
  have 0: "sendToTcd E self (Some c) CmdNone [0] st =
     ret ((fst (ne_write E c (node_pkt E st CmdNone [0])), None), node_emit [NWrite c (node_pkt E st CmdNone [0])] st)"
    by (rule sendToTcd_small [OF assms(2)]) (simp add: maxDataLen_def)
  show "cmdConnectR E self r st = ret (node_emit
      ([NWrite c (node_pkt E st CmdNone [0])]
       @ concat (map (\<lambda>ip. tell_children E (rd_from (rec_rd r)) ip port st) (localhostIP # ips))
       @ tell_children E (rd_from (rec_rd r)) (ne_ip E c) (ne_port E c) st
       @ tell_sender E (rd_from (rec_rd r)) c st) st)"
    unfolding cmdConnectR_def assms(10) 0 res_simps prod.case Let_def d list.case
    by (simp only: d [symmetric] p n seen res_simps run [OF local] run assms(5)
        connectR_loop_run [OF assms(1-4,6)] tell_sender_run [OF assms(2,3,5)] append.assoc list.map concat.simps)
next
  fix ip s
  assume ip: "ip \<in> set (localhostIP # ips)" and s: "arp_find (rd_from (rec_rd r)) s = None \<and> arp_find_addr F ip port 0 s = None"
  have "nul_free ip" using ip assms(6) by (auto simp: localhostIP_def nul_free_def byte_of_char_def)
  then have "cmdConnectData (makeData (rd_from (rec_rd r)) ip port) = Inr (Inr (rd_from (rec_rd r), ip, port))"
    using assms(4,8,9) by (intro connect_data_roundtrip) (simp_all add: name_ok_def)
  then show "cmdConnect F (makeData (rd_from (rec_rd r)) ip port) s = Inr (node_emit [NDiscover ip port] s)"
    using s by (simp add: cmdConnect_def)
qed

definition sample_hub :: Teonet where
  "sample_hub = arp_set ''bob'' \<lparr> ad_peer = ''bob'', ad_mode = 0, ad_version = [], ad_appVersion = [], ad_appType = [], ad_tcd = Some 3 \<rparr> sample_node"

definition eve_connects :: receiveData where
  "eve_connects = \<lparr> rec_rd = parsed ''eve'' CmdConnectR (connectR_data [''192.168.0.7''] 9010), rec_tcd = Some 4 \<rparr>"

theorem connect_rendezvous_witness:
  "children ''eve'' sample_hub = [(''bob'', 3)]
   \<and> cmdConnectR sample_node_env (\<lambda>_ _. None) eve_connects sample_hub = ret (node_emit
      ([NWrite 4 (node_pkt sample_node_env sample_hub CmdNone [0])]
       @ concat (map (\<lambda>ip. tell_children sample_node_env (rd_from (rec_rd eve_connects)) ip 9010 sample_hub) [localhostIP, ''192.168.0.7''])
       @ tell_children sample_node_env (rd_from (rec_rd eve_connects)) (ne_ip sample_node_env 4) (ne_port sample_node_env 4) sample_hub
       @ tell_sender sample_node_env (rd_from (rec_rd eve_connects)) 4 sample_hub) sample_hub)"
proof (rule conjI)
  have arp: "no_arp sample_hub = no_arp sample_node @ [(''bob'', \<lparr> ad_peer = ''bob'', ad_mode = 0, ad_version = [], ad_appVersion = [], ad_appType = [], ad_tcd = Some 3 \<rparr>)]"
    by (simp add: sample_hub_def arp_set_def sample_node_eqs)
  then show "children ''eve'' sample_hub = [(''bob'', 3)]"
    by (simp add: children_def child_records_def sample_node_eqs)
  show "cmdConnectR sample_node_env (\<lambda>_ _. None) eve_connects sample_hub = ret (node_emit
      ([NWrite 4 (node_pkt sample_node_env sample_hub CmdNone [0])]
       @ concat (map (\<lambda>ip. tell_children sample_node_env (rd_from (rec_rd eve_connects)) ip 9010 sample_hub) [localhostIP, ''192.168.0.7''])
       @ tell_children sample_node_env (rd_from (rec_rd eve_connects)) (ne_ip sample_node_env 4) (ne_port sample_node_env 4) sample_hub
       @ tell_sender sample_node_env (rd_from (rec_rd eve_connects)) 4 sample_hub) sample_hub)"
  proof (rule conjunct1 [OF connect_rendezvous [OF _ sample_env_ok]])
    show "arp_ok sample_hub" unfolding sample_hub_def by (intro arp_ok_set sample_arp_ok) simp_all
    have "name_ok ''bob''" by code_simp
    then show "children_ok (rd_from (rec_rd eve_connects)) sample_hub"
      by (simp add: children_ok_def child_records_def eve_connects_def arp sample_node_eqs)
    show "name_ok (rd_from (rec_rd eve_connects))" by (simp add: eve_connects_def) code_simp
    show "\<forall>ip \<in> set [''192.168.0.7'']. nul_free ip \<and> length ip \<le> 100" by code_simp
  qed (simp_all add: eve_connects_def sample_node_env_def)
qed

end
