(* ===== verification/NodeExchange.thy ===== *)
theory NodeExchange
  imports NodeTable
begin

text \<open>
  Requests and answers between nodes: the echo for a client of an L0 server, over three programs
  (\<open>l0_echo_answered\<close>), and the host information that peers exchange when they meet (\<open>host_info_exchange\<close>).
\<close>

section \<open>An echo for a client of an L0 server\<close>

lemma parsed_created:
  assumes "name_ok who"
  shows "Parse (PacketCreateNew who cmd data) = Inr (Inr (parsed who cmd data))"
  using parsePacket_create [OF assms, of cmd data]
  by (simp add: Parse_def) (simp add: PacketCreateNew_def createPacketFrom_def)

lemma echo_string_ok: "d \<noteq> [] \<Longrightarrow> 0 \<in> set d \<Longrightarrow> \<exists>s. echo_string d = Inr s"
  by (simp add: echo_string_def c_string_def)


section \<open>Host info\<close>

text \<open>The types in the answer are read back.\<close>

lemma read_types_zstrings:
  assumes "\<forall>s \<in> set ts. nul_free s"
  shows "read_types (length ts) (concat (map (\<lambda>s. bytes_of s @ [0]) ts)) = Inr ts"
  using assms
proof (induction ts)
  case (Cons s ts)
  have "c_string (bytes_of s @ 0 # r) = Inr s" for r using Cons.prems by (simp add: c_string_bytes_of)
  then show ?case using Cons by simp
qed simp

lemma host_info_roundtrip:
  assumes "nul_free name" and "\<forall>s \<in> set types. nul_free s" and "length types < 255"
  shows "host_info_parse F (host_info_data name types) = Inr (Version, name # types)"
proof -
  let ?d = "host_info_data name types"
  have d: "?d = 3 # 0 # 1 # of_nat (length (name # types)) # concat (map (\<lambda>s. bytes_of s @ [0]) (name # types))"
    by (simp add: host_info_data_def version_bytes_def)
  have n: "unat (of_nat (length (name # types)) :: u8) = length (name # types)"
    using assms(3) by (simp add: unat_of_nat del: of_nat_Suc)
  have "?d ! 0 \<noteq> byte_of_char CHR ''{''" by (simp add: d byte_of_char_def)
  moreover have "read_types (length (name # types)) (concat (map (\<lambda>s. bytes_of s @ [0]) (name # types))) = Inr (name # types)"
    by (rule read_types_zstrings) (use assms in auto)
  moreover have "itoa (unat (3::u8)) @ ''.'' @ itoa (unat (0::u8)) @ ''.'' @ itoa (unat (1::u8)) = Version"
    by code_simp
  ultimately show ?thesis unfolding host_info_parse_def Let_def
    by (simp only: d list.case n) simp
qed

text \<open>The exchange of host information. A node that has its own record answers a request on the channel it came on, with
  its version, name and application types; and a node that gets the answer from a peer in its table sets exactly
  that peer's version and types to those, and then gives the command to the requests that wait for it, or to its user.\<close>

lemma host_info_exchange:
  assumes "writes_ok E" and "nul_free (pa_Name (no_param A))" and "\<forall>s \<in> set types. nul_free s" and "length types < 255"
    and "length (host_info_data (pa_Name (no_param A)) types) < maxDataLen"
    and "arp_find (pa_Name (no_param A)) A = Some own_rec" and "ad_appType own_rec = types"
    and "arp_find who A = Some b" and "ad_tcd b = Some c" and "\<not> isJSONRequest d"
    and "arp_find (pa_Name (no_param A)) B = Some a" and "ad_tcd a = Some c'"
  shows "node_process E (Suc n) \<lparr> rec_rd = parsed who CmdHostInfo d, rec_tcd = Some c \<rparr> A
      = ret (True, node_emit [NWrite c (node_pkt E A CmdHostInfoAnswer (host_info_data (pa_Name (no_param A)) types))] A)
    \<and> (let r = \<lparr> rec_rd = parsed (pa_Name (no_param A)) CmdHostInfoAnswer (host_info_data (pa_Name (no_param A)) types), rec_tcd = Some c' \<rparr>
       in node_process F (Suc m) r B
          = process_user r (arp_set (pa_Name (no_param A)) (a\<lparr>ad_version := ''3.0.1'', ad_appType := types\<rparr>) B))"
proof (rule conjI)
  show "node_process E (Suc n) \<lparr> rec_rd = parsed who CmdHostInfo d, rec_tcd = Some c \<rparr> A
      = ret (True, node_emit [NWrite c (node_pkt E A CmdHostInfoAnswer (host_info_data (pa_Name (no_param A)) types))] A)"
    using assms(6-10) sendToTcd_small [OF assms(1,5)]
    by (simp add: process_body_def peerNew_known process_command_def cmd_defs com_hostInfo_def sendAnswer_def Let_def)
  show "let r = \<lparr> rec_rd = parsed (pa_Name (no_param A)) CmdHostInfoAnswer (host_info_data (pa_Name (no_param A)) types), rec_tcd = Some c' \<rparr>
     in node_process F (Suc m) r B
        = process_user r (arp_set (pa_Name (no_param A)) (a\<lparr>ad_version := ''3.0.1'', ad_appType := types\<rparr>) B)"
    using assms(11,12) host_info_roundtrip [OF assms(2-4), of F]
    by (simp add: process_body_def peerNew_known process_command_def cmd_defs com_hostInfoAnswer_def Let_def Version_def)
qed

text \<open>The node \<open>me\<close> with a peer on channel 3, and the L0 server \<open>l0\<close> with the client \<open>bob\<close> and \<open>me\<close> on channel 5.\<close>

definition peer_on :: "string \<Rightarrow> nat \<Rightarrow> arpData" where
  "peer_on p t = \<lparr> ad_peer = p, ad_mode = 0, ad_version = [], ad_appVersion = [], ad_appType = [], ad_tcd = Some t \<rparr>"

definition sample_l0_node :: Teonet where
  "sample_l0_node = (arp_set ''me'' (peer_on ''me'' 5) sample_node)\<lparr>no_l0 := sample_l0\<rparr>"


lemma host_info_exchange_example:
  "node_process sample_node_env (Suc 0) \<lparr> rec_rd = parsed ''bob'' CmdHostInfo [0], rec_tcd = Some 3 \<rparr> (arp_set ''bob'' (peer_on ''bob'' 3) sample_node)
    = ret (True, node_emit [NWrite 3 (node_pkt sample_node_env (arp_set ''bob'' (peer_on ''bob'' 3) sample_node) CmdHostInfoAnswer
          (host_info_data (pa_Name (no_param (arp_set ''bob'' (peer_on ''bob'' 3) sample_node))) [''app'']))] (arp_set ''bob'' (peer_on ''bob'' 3) sample_node))"
proof (rule conjunct1 [OF host_info_exchange [OF sample_env_ok, where B = sample_l0_node and a = "peer_on ''me'' 5" and b = "peer_on ''bob'' 3"
      and own_rec = "\<lparr> ad_peer = ''me'', ad_mode = -1, ad_version = Version, ad_appVersion = ''1.0'', ad_appType = [''app''], ad_tcd = None \<rparr>"]])
  have "nul_free ''me''" "nul_free ''app''" by code_simp+
  then show "nul_free (own (arp_set ''bob'' (peer_on ''bob'' 3) sample_node))" "\<forall>s \<in> set [''app'']. nul_free s"
    by (simp_all add: sample_node_eqs)
  show "\<not> isJSONRequest [0]" by code_simp
qed (simp_all add: arp_find_set peer_on_def sample_l0_node_def arp_find_def arp_set_def sample_node_eqs host_info_data_def version_bytes_def maxDataLen_def)

end
