(* ===== verification/VpnTunnel.thy ===== *)
theory VpnTunnel
  imports Prelude
begin

text \<open>
  The tunnel between network interfaces over UDP, \<open>teovpn/tunnel\<close>: the table of hardware addresses
  (\<open>arp.go\<close>), the two listeners and the resolution of the remote host (\<open>teotun.go\<close>), and the names
  of the ethernet types (\<open>ethertype.go\<close>). The interface and the socket deliver and take frames; the
  package that reads the fields of an ethernet frame is a parameter.
\<close>

section \<open>Hardware addresses\<close>

text \<open>\<open>HardwareAddr.String\<close> of the library: two hexadecimal digits per byte, with colons between.\<close>

definition hex_digit :: "nat \<Rightarrow> char" where
  "hex_digit n = (''0123456789abcdef'' ! n)"

definition hex_byte :: "u8 \<Rightarrow> string" where
  "hex_byte b = [hex_digit (unat b div 16), hex_digit (unat b mod 16)]"

fun hw_String :: "bytes \<Rightarrow> string" where
  "hw_String [] = []"
| "hw_String [b] = hex_byte b"
| "hw_String (b # c # bs) = hex_byte b @ CHR '':'' # hw_String (c # bs)"

lemma hex_digit_inj: "a < 16 \<Longrightarrow> b < 16 \<Longrightarrow> hex_digit a = hex_digit b \<longleftrightarrow> a = b"
proof -
  have "distinct ''0123456789abcdef''" by simp
  then show "a < 16 \<Longrightarrow> b < 16 \<Longrightarrow> ?thesis"
    by (simp add: hex_digit_def nth_eq_iff_index_eq)
qed

lemma hex_byte_eq_iff [simp]: "hex_byte a = hex_byte b \<longleftrightarrow> a = b"
proof
  assume "hex_byte a = hex_byte b"
  moreover have "unat a div 16 < 16" "unat b div 16 < 16"
    using unsigned_less [of a, where 'a = nat] unsigned_less [of b, where 'a = nat] by auto
  ultimately have "unat a div 16 = unat b div 16" "unat a mod 16 = unat b mod 16"
    by (auto simp: hex_byte_def hex_digit_inj)
  then have "unat a = unat b" by (metis div_mod_decomp)
  then show "a = b" by (simp add: word_unat_eq_iff)
qed simp

lemma length_hex_byte [simp]: "length (hex_byte b) = 2"
  by (simp add: hex_byte_def)

lemma length_hw_String: "length (hw_String bs) = 3 * length bs - 1"
  by (induction bs rule: hw_String.induct) auto

lemma hw_String_eq_iff [simp]: "hw_String a = hw_String b \<longleftrightarrow> a = b"
proof
  show "hw_String a = hw_String b \<Longrightarrow> a = b"
  proof (induction a arbitrary: b rule: hw_String.induct)
    case 1
    then show ?case using length_hw_String [of b] by (cases b) auto
  next
    case (2 x)
    then have "length b = 1" using length_hw_String [of b] length_hw_String [of "[x]"] by simp
    then show ?case using 2 by (auto simp: length_Suc_conv)
  next
    case (3 x y zs)
    then have "length b = length zs + 2" using length_hw_String [of b] length_hw_String [of "x # y # zs"] by simp
    then obtain x' y' zs' where b: "b = x' # y' # zs'" by (auto simp: length_Suc_conv)
    with 3(2) have "hex_byte x = hex_byte x' \<and> hw_String (y # zs) = hw_String (y' # zs')" by simp
    then show ?case using 3(1) b by auto
  qed
qed simp

section \<open>The table of hardware addresses\<close>

type_synonym 'a tun_arp = "string \<rightharpoonup> 'a"

definition newArp :: "'a tun_arp" where
  "newArp = Map.empty"

definition tun_set :: "bytes \<Rightarrow> 'a \<Rightarrow> 'a tun_arp \<Rightarrow> 'a tun_arp" where
  "tun_set haddr raddr m = m(hw_String haddr \<mapsto> raddr)"

definition tun_get :: "'a tun_arp \<Rightarrow> bytes \<Rightarrow> 'a option" where
  "tun_get m haddr = m (hw_String haddr)"

text \<open>
  \<open>foreach\<close> visits a map in an order that Go leaves open: the order of the keys is an argument.
\<close>

definition tun_foreach :: "string list \<Rightarrow> (string \<Rightarrow> 'a \<Rightarrow> 's \<Rightarrow> 's) \<Rightarrow> 'a tun_arp \<Rightarrow> 's \<Rightarrow> 's" where
  "tun_foreach order f m s = fold (\<lambda>k s. case m k of Some v \<Rightarrow> f k v s | None \<Rightarrow> s) order s"

text \<open>The text of the table, with the printed form of an address as a parameter.\<close>

definition tun_arp_String :: "('a \<Rightarrow> string) \<Rightarrow> string list \<Rightarrow> 'a tun_arp \<Rightarrow> string" where
  "tun_arp_String show_addr order m =
     ''ARP Table:'' @ [CHR 0x0A] @ ''----------'' @ [CHR 0x0A]
     @ tun_foreach order (\<lambda>k v s. s @ k @ '' => '' @ show_addr v @ [CHR 0x0A]) m []
     @ ''----------'' @ [CHR 0x0A]"

section \<open>Names of the ethernet types\<close>

text \<open>One constructor per constant of the package \<open>ethernet\<close> that the switch of \<open>ethertype.go\<close> lists.\<close>

datatype ethertype =
    Et_IPv4 | Et_ARP | Et_WakeOnLAN | Et_TRILL | Et_DECnetPhase4 | Et_RARP | Et_AppleTalk | Et_AARP
  | Et_IPX1 | Et_IPX2 | Et_QNXQnet | Et_IPv6 | Et_EthernetFlowControl | Et_IEEE802_3 | Et_CobraNet
  | Et_MPLSUnicast | Et_MPLSMulticast | Et_PPPoEDiscovery | Et_PPPoESession | Et_JumboFrames
  | Et_HomePlug1_0MME | Et_IEEE802_1X | Et_PROFINET | Et_HyperSCSI | Et_AoE | Et_EtherCAT
  | Et_EthernetPowerlink | Et_LLDP | Et_SERCOS3 | Et_WSMP | Et_HomePlugAVMME | Et_MRP
  | Et_IEEE802_1AE | Et_IEEE1588 | Et_IEEE802_1ag | Et_FCoE | Et_FCoEInit | Et_RoCE | Et_CTP
  | Et_VeritasLLT | Et_other bytes

fun ethertype_String :: "ethertype \<Rightarrow> string" where
  "ethertype_String Et_IPv4 = ''IPv4''"
| "ethertype_String Et_ARP = ''ARP''"
| "ethertype_String Et_WakeOnLAN = ''WakeOnLAN''"
| "ethertype_String Et_TRILL = ''TRILL''"
| "ethertype_String Et_DECnetPhase4 = ''DECnetPhase4''"
| "ethertype_String Et_RARP = ''RARP''"
| "ethertype_String Et_AppleTalk = ''AppleTalk''"
| "ethertype_String Et_AARP = ''AARP''"
| "ethertype_String Et_IPX1 = ''IPX1''"
| "ethertype_String Et_IPX2 = ''IPX2''"
| "ethertype_String Et_QNXQnet = ''QNXQnet''"
| "ethertype_String Et_IPv6 = ''IPv6''"
| "ethertype_String Et_EthernetFlowControl = ''EthernetFlowControl''"
| "ethertype_String Et_IEEE802_3 = ''IEEE802_3''"
| "ethertype_String Et_CobraNet = ''CobraNet''"
| "ethertype_String Et_MPLSUnicast = ''MPLSUnicast''"
| "ethertype_String Et_MPLSMulticast = ''MPLSMulticast''"
| "ethertype_String Et_PPPoEDiscovery = ''MPLSMulticast''"
| "ethertype_String Et_PPPoESession = ''PPPoESession''"
| "ethertype_String Et_JumboFrames = ''JumboFrames''"
| "ethertype_String Et_HomePlug1_0MME = ''HomePlug1_0MME''"
| "ethertype_String Et_IEEE802_1X = ''IEEE802_1X''"
| "ethertype_String Et_PROFINET = ''PROFINET''"
| "ethertype_String Et_HyperSCSI = ''HyperSCSI''"
| "ethertype_String Et_AoE = ''AoE''"
| "ethertype_String Et_EtherCAT = ''EtherCAT''"
| "ethertype_String Et_EthernetPowerlink = ''EthernetPowerlink''"
| "ethertype_String Et_LLDP = ''LLDP''"
| "ethertype_String Et_SERCOS3 = ''SERCOS3''"
| "ethertype_String Et_WSMP = ''WSMP''"
| "ethertype_String Et_HomePlugAVMME = ''HomePlugAVMME''"
| "ethertype_String Et_MRP = ''MRP''"
| "ethertype_String Et_IEEE802_1AE = ''IEEE802_1AE''"
| "ethertype_String Et_IEEE1588 = ''IEEE802_1AE''"
| "ethertype_String Et_IEEE802_1ag = ''IEEE802_1ag''"
| "ethertype_String Et_FCoE = ''FCoE''"
| "ethertype_String Et_FCoEInit = ''FCoEInit''"
| "ethertype_String Et_RoCE = ''RoCE''"
| "ethertype_String Et_CTP = ''CTP''"
| "ethertype_String Et_VeritasLLT = ''VeritasLLT''"
| "ethertype_String (Et_other b) = []"

text \<open>Two types have the name of another one.\<close>

lemma ethertype_String_eq:
  "ethertype_String Et_PPPoEDiscovery = ethertype_String Et_MPLSMulticast"
  "ethertype_String Et_IEEE1588 = ethertype_String Et_IEEE802_1AE"
  by simp_all

section \<open>The tunnel\<close>

record Params =
  p_Intrface :: string
  p_Mtu :: int
  p_Laddr :: string
  p_Lmask :: int
  p_Raddr :: string
  p_Rport :: int
  p_Lport :: int
  p_ShowHelpF :: bool

definition SetDefault :: "Params \<Rightarrow> Params" where
  "SetDefault p = p\<lparr>p_Intrface := ''tap0'', p_Mtu := 1500, p_Rport := 9669, p_Lport := 9669, p_Lmask := 24\<rparr>"

record 'a Tunnel =
  tn_p :: Params
  tn_raddr :: "'a option"
  tn_arp :: "'a tun_arp"

definition tun_New :: "Params \<Rightarrow> 'a Tunnel" where
  "tun_New p = \<lparr> tn_p = p, tn_raddr = None, tn_arp = newArp \<rparr>"

text \<open>
  \<open>net.ResolveUDPAddr\<close> of the joined host and port is a parameter; an error ends the program
  (\<open>log.Fatalf\<close>), which is the result None.
\<close>

definition resolveRaddr :: "(string \<Rightarrow> int \<Rightarrow> 'a option) \<Rightarrow> 'a Tunnel \<Rightarrow> 'a Tunnel option" where
  "resolveRaddr resolve t =
     (if p_Raddr (tn_p t) = [] \<or> p_Rport (tn_p t) \<le> 0 then Some t
      else case resolve (p_Raddr (tn_p t)) (p_Rport (tn_p t)) of
             None \<Rightarrow> None
           | Some a \<Rightarrow> Some (t\<lparr>tn_raddr := Some a\<rparr>))"

text \<open>\<open>newSocket\<close>: the local address, the socket, then the remote host.\<close>

definition tun_newSocket :: "(int \<Rightarrow> bool) \<Rightarrow> (string \<Rightarrow> int \<Rightarrow> 'a option) \<Rightarrow> 'a Tunnel \<Rightarrow> 'a Tunnel option" where
  "tun_newSocket can_listen resolve t =
     (if can_listen (p_Lport (tn_p t)) then resolveRaddr resolve t else None)"

text \<open>The fields of a frame, as the package \<open>ethernet\<close> reads them.\<close>

record eth =
  eth_Destination :: "bytes \<Rightarrow> bytes"
  eth_Source :: "bytes \<Rightarrow> bytes"

definition broadcast_hw :: string where
  "broadcast_hw = ''ff:ff:ff:ff:ff:ff''"

text \<open>
  One turn of \<open>ifaceListner\<close>: the frame read from the interface (at most \<open>Mtu\<close> bytes, the size of the
  buffer) and what is written to the socket. A failed write is only logged. One turn of \<open>udpListner\<close>:
  a datagram, cut to the buffer, with its sender; what is written to the interface. A failed write to
  the interface ends the program; a failed read of the interface too.
\<close>

definition tun_iface :: "eth \<Rightarrow> string list \<Rightarrow> bytes \<Rightarrow> 'a Tunnel \<Rightarrow> (bytes \<times> 'a) list" where
  "tun_iface E order f t =
     (if f = [] then []
      else
        let raddr = tun_get (tn_arp t) (eth_Destination E f);
            ws = (if raddr = None \<and> hw_String (eth_Destination E f) = broadcast_hw
                  then tun_foreach order (\<lambda>_ a ws. ws @ [(f, a)]) (tn_arp t) [] else [])
        in if ws \<noteq> [] then ws
           else case raddr of
                  Some a \<Rightarrow> [(f, a)]
                | None \<Rightarrow> (case tn_raddr t of Some a \<Rightarrow> [(f, a)] | None \<Rightarrow> []))"

definition tun_udp :: "eth \<Rightarrow> bytes \<Rightarrow> 'a \<Rightarrow> 'a Tunnel \<Rightarrow> 'a Tunnel \<times> bytes list" where
  "tun_udp E datagram from_addr t =
     (let f = take (nat (p_Mtu (tn_p t))) datagram
      in if f = [] then (t, [])
         else (t\<lparr>tn_arp := tun_set (eth_Source E f) from_addr (tn_arp t)\<rparr>, [f]))"

text \<open>The two listeners run side by side; what they do to the tunnel is one sequence of turns.\<close>

datatype 'a tun_event =
    FromIface bytes "string list"
  | FromUDP bytes 'a

fun tun_step :: "eth \<Rightarrow> 'a tun_event \<Rightarrow> 'a Tunnel \<times> (bytes \<times> 'a) list \<times> bytes list
    \<Rightarrow> 'a Tunnel \<times> (bytes \<times> 'a) list \<times> bytes list" where
  "tun_step E (FromIface f order) (t, sent, delivered) = (t, sent @ tun_iface E order f t, delivered)"
| "tun_step E (FromUDP d a) (t, sent, delivered) =
     (case tun_udp E d a t of (t, fs) \<Rightarrow> (t, sent, delivered @ fs))"

definition tun_run :: "eth \<Rightarrow> 'a tun_event list \<Rightarrow> 'a Tunnel \<Rightarrow> 'a Tunnel \<times> (bytes \<times> 'a) list \<times> bytes list" where
  "tun_run E es t = fold (tun_step E) es (t, [], [])"


section \<open>Lemmas\<close>

interpretation hw_table: table tun_get tun_set "\<lambda>k m. m(hw_String k := None)" "\<lambda>_ _. True" "\<lambda>_. True"
  by unfold_locales (auto simp: tun_get_def tun_set_def)

lemma broadcast_hw_iff: "hw_String h = broadcast_hw \<longleftrightarrow> h = replicate 6 255"
proof -
  have "replicate 6 255 = [255, 255, 255, 255, 255, 255 :: u8]" by (simp add: eval_nat_numeral)
  then have "broadcast_hw = hw_String (replicate 6 255)"
    by (simp add: broadcast_hw_def hex_byte_def hex_digit_def)
  then show ?thesis by (metis hw_String_eq_iff)
qed

lemma tun_foreach_simps [simp]:
  "tun_foreach [] g m s = s"
  "tun_foreach (k # order) g m s = tun_foreach order g m (case m k of Some v \<Rightarrow> g k v s | None \<Rightarrow> s)"
  by (simp_all add: tun_foreach_def)

lemma foreach_writes:
  "set order \<subseteq> dom m \<Longrightarrow>
     tun_foreach order (\<lambda>_ a ws. ws @ [(f, a)]) m ws = ws @ map (\<lambda>k. (f, the (m k))) order"
  by (induction order arbitrary: ws) auto

text \<open>What a run has seen: the source and the sender of every datagram that is not empty.\<close>

fun seen :: "eth \<Rightarrow> nat \<Rightarrow> 'a tun_event list \<Rightarrow> (bytes \<times> 'a) list" where
  "seen E mtu [] = []"
| "seen E mtu (FromIface f order # es) = seen E mtu es"
| "seen E mtu (FromUDP d a # es) =
     (if take mtu d = [] then [] else [(eth_Source E (take mtu d), a)]) @ seen E mtu es"

fun arrived :: "nat \<Rightarrow> 'a tun_event list \<Rightarrow> bytes list" where
  "arrived mtu [] = []"
| "arrived mtu (FromIface f order # es) = arrived mtu es"
| "arrived mtu (FromUDP d a # es) = (if take mtu d = [] then [] else [take mtu d]) @ arrived mtu es"

text \<open>The address a hardware address was last seen behind.\<close>

definition last_seen :: "eth \<Rightarrow> nat \<Rightarrow> 'a tun_event list \<Rightarrow> bytes \<rightharpoonup> 'a" where
  "last_seen E mtu es = map_of (rev (seen E mtu es))"

lemma tun_get_newArp [simp]: "tun_get newArp = Map.empty"
  by (simp add: fun_eq_iff tun_get_def newArp_def)

lemma last_seen_Cons: "last_seen E mtu (e # es) = last_seen E mtu [e] ++ last_seen E mtu es"
  by (cases e) (simp_all add: last_seen_def)

lemma tun_udp_spec:
  assumes "mtu = nat (p_Mtu (tn_p t))"
  shows "tun_udp E d a t =
     (if take mtu d = [] then t else t\<lparr>tn_arp := tun_set (eth_Source E (take mtu d)) a (tn_arp t)\<rparr>,
      arrived mtu [FromUDP d a])"
  by (simp add: assms tun_udp_def Let_def)

lemma dom_tun_set [simp]: "dom (tun_set h a m) = insert (hw_String h) (dom m)"
  by (simp add: tun_set_def)

lemma tun_udp_get:
  assumes "mtu = nat (p_Mtu (tn_p t))"
  shows "tun_get (tn_arp (fst (tun_udp E d a t))) = tun_get (tn_arp t) ++ last_seen E mtu [FromUDP d a]"
    and "dom (tn_arp (fst (tun_udp E d a t))) = dom (tn_arp t) \<union> hw_String ` fst ` set (seen E mtu [FromUDP d a])"
    and "tn_raddr (fst (tun_udp E d a t)) = tn_raddr t" and "tn_p (fst (tun_udp E d a t)) = tn_p t"
  by (simp_all add: tun_udp_spec [OF assms] last_seen_def hw_table.find_put)

lemma run_spec:
  assumes "fold (tun_step E) es (t, sent, del) = (t', sent', del')" and "mtu = nat (p_Mtu (tn_p t))"
  shows "tun_get (tn_arp t') = tun_get (tn_arp t) ++ last_seen E mtu es
     \<and> del' = del @ arrived mtu es \<and> tn_raddr t' = tn_raddr t \<and> tn_p t' = tn_p t
     \<and> dom (tn_arp t') = dom (tn_arp t) \<union> hw_String ` fst ` set (seen E mtu es)"
  using assms
proof (induction es arbitrary: t sent del)
  case Nil
  then show ?case by (simp add: last_seen_def)
next
  case (Cons e es)
  show ?case
  proof (cases e)
    case (FromIface f order)
    then show ?thesis using Cons by (simp add: last_seen_def)
  next
    case (FromUDP d a)
    note sp = tun_udp_get [OF Cons.prems(2), of E d a]
    have fs: "snd (tun_udp E d a t) = arrived mtu [e]" using FromUDP tun_udp_spec [OF Cons.prems(2)] by simp
    have "fold (tun_step E) es (fst (tun_udp E d a t), sent, del @ arrived mtu [e]) = (t', sent', del')"
      using Cons.prems(1) FromUDP fs by (simp add: case_prod_beta)
    from Cons.IH [OF this] show ?thesis
      using sp Cons.prems(2) FromUDP last_seen_Cons [of E mtu e es] by (simp add: image_Un Un_assoc)
  qed
qed

section \<open>Properties\<close>


text \<open>An instance: the two addresses of an ethernet frame.\<close>

definition eth_fields :: eth where
  "eth_fields = \<lparr> eth_Destination = take 6, eth_Source = (\<lambda>f. take 6 (drop 6 f)) \<rparr>"


section \<open>What the model shows\<close>

text \<open>A frame whose source is the broadcast address takes all broadcasts to one host.\<close>

lemma broadcast_captured:
  assumes "tn_arp t (hw_String (replicate 6 255)) = Some a" and "f \<noteq> []" and "eth_Destination E f = replicate 6 255"
  shows "tun_iface E order f t = [(f, a)]"
  using assms by (simp add: tun_iface_def tun_get_def)

text \<open>
  Once one hardware address has been seen, a broadcast no longer goes to the remote host, unless
  something was seen behind it.
\<close>

lemma broadcast_skips_remote:
  assumes "tun_get (tn_arp t) (replicate 6 255) = None" and "f \<noteq> []" and "eth_Destination E f = replicate 6 255"
    and "set order = dom (tn_arp t)" and "order \<noteq> []" and "r \<notin> ran (tn_arp t)"
  shows "(f, r) \<notin> set (tun_iface E order f t)"
proof -
  have "tun_foreach order (\<lambda>_ a ws. ws @ [(f, a)]) (tn_arp t) [] = map (\<lambda>k. (f, the (tn_arp t k))) order"
    using assms(4) by (subst foreach_writes) auto
  moreover have "the (tn_arp t k) \<in> ran (tn_arp t)" if "k \<in> set order" for k
    using that assms(4) by (auto intro: ranI)
  ultimately show ?thesis
    using assms(1-3,5,6) by (auto simp: tun_iface_def broadcast_hw_iff)
qed

text \<open>A datagram longer than the buffer reaches the interface without its end.\<close>

lemma long_datagram_cut:
  assumes "p_Mtu (tn_p t) = 1500" and "length d = 1514"
  shows "snd (tun_udp E d a t) = [take 1500 d] \<and> take 1500 d \<noteq> d"
proof -
  have "length (take 1500 d) \<noteq> length d" using assms(2) by simp
  then have "take 1500 d \<noteq> d" by metis
  then show ?thesis using assms by (auto simp: tun_udp_def Let_def)
qed

end
