(* ===== verification/TeoLog.thy ===== *)
theory TeoLog
  imports Prelude
begin

text \<open>
  Colours of the terminal and the menu of hotkeys (\<open>teokeys/teokeys/teokeys.go\<close>, \<open>menu.go\<close>), and the
  log (\<open>teolog/teolog/log.go\<close>): levels, the filter, the removal of colours for the system log. Output
  is a list of lines; the library's loggers behind it, and \<open>fmt\<close>'s formatting, are parameters.
\<close>

section \<open>Colours\<close>

definition ESC :: char where "ESC = CHR 0x1B"

definition ANSINone :: string where "ANSINone = ESC # ''[0m''"
definition ANSIRed :: string where "ANSIRed = ESC # ''[22;31m''"
definition ANSIGreen :: string where "ANSIGreen = ESC # ''[22;32m''"
definition ANSIBrown :: string where "ANSIBrown = ESC # ''[22;33m''"
definition ANSIBlue :: string where "ANSIBlue = ESC # ''[22;34m''"
definition ANSIMagenta :: string where "ANSIMagenta = ESC # ''[22;35m''"
definition ANSICyan :: string where "ANSICyan = ESC # ''[22;36m''"
definition ANSIGrey :: string where "ANSIGrey = ESC # ''[22;37m''"

definition Color :: "string \<Rightarrow> string \<Rightarrow> string" where
  "Color color txt = color @ txt @ ANSINone"

section \<open>Hotkeys\<close>

text \<open>The functions of the menu change a state of their own type.\<close>

record 's Hotkey =
  hk_hkey :: "int list"
  hk_usage :: string
  hk_f :: "('s \<Rightarrow> 's) option"

record 's HotkeyMenu =
  hm_usageTitle :: string
  hm_pressed :: string
  hm_stopped :: bool
  hm_quitF :: bool
  hm_menu :: "'s Hotkey list"

definition CreateMenu :: "string \<Rightarrow> string \<Rightarrow> 's HotkeyMenu" where
  "CreateMenu title pressed =
     \<lparr> hm_usageTitle = title, hm_pressed = pressed, hm_stopped = False, hm_quitF = False, hm_menu = [] \<rparr>"

text \<open>
  What a key may be given as: a list, an \<open>int\<close>, an \<open>int32\<close> (a character), or another type. The case of
  \<open>int\<close> asserts the type \<open>int32\<close> and panics, which is the result None, as for other types.
\<close>

datatype hotkey_arg = KeyList_arg "int list" | KeyInt int | KeyInt32 int | KeyOther

definition hm_Add :: "hotkey_arg \<Rightarrow> string \<Rightarrow> ('s \<Rightarrow> 's) option \<Rightarrow> 's HotkeyMenu \<Rightarrow> 's HotkeyMenu option" where
  "hm_Add ikey usage f hk =
     (case ikey of
        KeyList_arg ks \<Rightarrow> Some (hk\<lparr>hm_menu := hm_menu hk @ [\<lparr> hk_hkey = ks, hk_usage = usage, hk_f = f \<rparr>]\<rparr>)
      | KeyInt32 k \<Rightarrow> Some (hk\<lparr>hm_menu := hm_menu hk @ [\<lparr> hk_hkey = [k], hk_usage = usage, hk_f = f \<rparr>]\<rparr>)
      | _ \<Rightarrow> None)"

text \<open>\<open>Process\<close>: the first item with the key, and nothing after it.\<close>

fun menu_find :: "int \<Rightarrow> 's Hotkey list \<Rightarrow> 's Hotkey option" where
  "menu_find ch [] = None"
| "menu_find ch (item # items) = (if ch \<in> set (hk_hkey item) then Some item else menu_find ch items)"

definition hm_Process :: "'s HotkeyMenu \<Rightarrow> int \<Rightarrow> 's \<Rightarrow> 's" where
  "hm_Process hk ch s =
     (case menu_find ch (hm_menu hk) of
        Some item \<Rightarrow> (case hk_f item of Some f \<Rightarrow> f s | None \<Rightarrow> s)
      | None \<Rightarrow> s)"

text \<open>\<open>Check\<close> with the character that the non-blocking read returns (0: none).\<close>

definition hm_Check :: "'s HotkeyMenu \<Rightarrow> int \<Rightarrow> 's \<Rightarrow> int \<times> 's" where
  "hm_Check hk ch s =
     (if hm_stopped hk then (0, s) else if ch = 0 then (0, s) else (ch, hm_Process hk ch s))"

text \<open>
  \<open>Getch\<close> over the results of the reads: it returns the first that is not 0, and 0 once the menu
  has quit; None while it waits. \<open>Run\<close> stops when \<open>Getch\<close> returns 0.
\<close>

fun hm_Getch :: "'s HotkeyMenu \<Rightarrow> int list \<Rightarrow> (int \<times> int list) option" where
  "hm_Getch hk reads =
     (if hm_quitF hk then Some (0, reads)
      else case reads of [] \<Rightarrow> None | ch # rest \<Rightarrow> if ch = 0 then hm_Getch hk rest else Some (ch, rest))"

declare hm_Getch.simps [simp del]

definition hm_Quit :: "'s HotkeyMenu \<Rightarrow> 's HotkeyMenu" where
  "hm_Quit hk = hk\<lparr>hm_quitF := True\<rparr>"

definition hm_Stop :: "bool \<Rightarrow> 's HotkeyMenu \<Rightarrow> 's HotkeyMenu" where
  "hm_Stop stopped hk = hk\<lparr>hm_stopped := stopped\<rparr>"

lemma hm_Getch_first:
  "\<not> hm_quitF hk \<Longrightarrow> hm_Getch hk (replicate n 0 @ ch # rest) = (if ch = 0 then hm_Getch hk rest else Some (ch, rest))"
  by (induction n) (simp_all add: hm_Getch.simps [of hk "_ # _"])

lemma int_key_panics: "hm_Add (KeyInt k) usage f hk = None"
  by (simp add: hm_Add_def)

section \<open>Levels of the log\<close>

text \<open>The constants of an \<open>iota\<close>: 0 to 6.\<close>

definition log_NONE :: int where "log_NONE = 0"
definition log_ERROR :: int where "log_ERROR = 1"
definition log_CONNECT :: int where "log_CONNECT = 2"
definition log_MESSAGE :: int where "log_MESSAGE = 3"
definition log_DEBUG :: int where "log_DEBUG = 4"
definition log_DEBUGv :: int where "log_DEBUGv = 5"
definition log_DEBUGvv :: int where "log_DEBUGvv = 6"

lemmas log_levels = log_NONE_def log_ERROR_def log_CONNECT_def log_MESSAGE_def log_DEBUG_def
  log_DEBUGv_def log_DEBUGvv_def

definition LoglevelInt :: "string \<Rightarrow> int" where
  "LoglevelInt lstr =
     (if lstr = ''NONE'' then log_NONE
      else if lstr = ''ERROR'' then log_ERROR
      else if lstr = ''CONNECT'' then log_CONNECT
      else if lstr = ''MESSAGE'' then log_MESSAGE
      else if lstr = ''DEBUG'' then log_DEBUG
      else if lstr = ''DEBUGv'' then log_DEBUGv
      else if lstr = ''DEBUGvv'' then log_DEBUGvv
      else log_DEBUG)"

definition LoglevelString :: "int \<Rightarrow> string" where
  "LoglevelString level =
     (if level = log_NONE then ''NONE''
      else if level = log_CONNECT then ''CONNECT''
      else if level = log_ERROR then ''ERROR''
      else if level = log_MESSAGE then ''MESSAGE''
      else if level = log_DEBUG then ''DEBUG''
      else if level = log_DEBUGv then ''DEBUGv''
      else if level = log_DEBUGvv then ''DEBUGvv''
      else ''UNKNOWN'')"

definition LoglevelStringColor :: "int \<Rightarrow> string" where
  "LoglevelStringColor level =
     (if level = log_NONE then Color ANSIGrey ''NONE''
      else if level = log_CONNECT then Color ANSIGreen ''CONNECT''
      else if level = log_ERROR then Color ANSIRed ''ERROR''
      else if level = log_MESSAGE then Color ANSICyan ''MESSAGE''
      else if level = log_DEBUG then Color ANSIBlue ''DEBUG''
      else if level = log_DEBUGv then Color ANSIBrown ''DEBUGv''
      else if level = log_DEBUGvv then Color ANSIMagenta ''DEBUGvv''
      else ''UNKNOWN'')"

section \<open>Output\<close>

text \<open>The state of the log, with the lines given to the logger (depth of the call and text).\<close>

record logParam =
  lp_level :: int
  lp_filter :: string
  lp_toSyslog :: bool
  lp_out :: "(int \<times> string) list"

fun str_contains :: "string \<Rightarrow> string \<Rightarrow> bool" where
  "str_contains [] sub = (sub = [])"
| "str_contains (c # s) sub = (take (length sub) (c # s) = sub \<or> str_contains s sub)"

definition checkFilter :: "string \<Rightarrow> logParam \<Rightarrow> bool" where
  "checkFilter message p = (if lp_filter p = [] then True else str_contains message (lp_filter p))"

text \<open>
  \<open>string(b)\<close> of a byte is the character with that number in UTF-8: one byte below 128, else two.
\<close>

definition string_of_u8 :: "char \<Rightarrow> string" where
  "string_of_u8 c =
     (let n = of_char c :: nat
      in if n < 128 then [c] else [char_of (0xC0 + n div 64), char_of (0x80 + n mod 64 :: nat)])"

fun esc_loop :: "bool \<Rightarrow> string \<Rightarrow> string" where
  "esc_loop skipEsc [] = []"
| "esc_loop skipEsc (c # s) =
     (if skipEsc \<and> c = CHR ''m'' then esc_loop False s
      else if \<not> skipEsc \<and> c = ESC then esc_loop True s
      else if \<not> skipEsc then string_of_u8 c @ esc_loop skipEsc s
      else esc_loop skipEsc s)"

definition removeTEsc :: "string \<Rightarrow> bool \<Rightarrow> string" where
  "removeTEsc str toSyslog = (if \<not> toSyslog then str else esc_loop False str)"

text \<open>\<open>fmt.Sprintln\<close> of values whose printed forms are given: spaces between, a newline at the end.\<close>

fun join_space :: "string list \<Rightarrow> string" where
  "join_space [] = []"
| "join_space [s] = s"
| "join_space (s # t # r) = s @ CHR '' '' # join_space (t # r)"

definition Sprintln :: "string list \<Rightarrow> string" where
  "Sprintln pp = join_space pp @ [CHR 0x0A]"

definition log_emit :: "int \<Rightarrow> string \<Rightarrow> logParam \<Rightarrow> logParam" where
  "log_emit calldepth msg p =
     (if checkFilter msg p
      then p\<lparr>lp_out := lp_out p @ [(calldepth + 1, removeTEsc msg (lp_toSyslog p))]\<rparr> else p)"

definition logOutput :: "int \<Rightarrow> int \<Rightarrow> string list \<Rightarrow> logParam \<Rightarrow> logParam" where
  "logOutput calldepth level pp p =
     (if level \<le> lp_level p
      then log_emit calldepth (Sprintln (LoglevelStringColor level # pp)) p else p)"

text \<open>\<open>fmt.Sprintf\<close> of a format and printed arguments is a parameter.\<close>

definition logOutputf :: "(string \<Rightarrow> string list \<Rightarrow> string) \<Rightarrow> int \<Rightarrow> int \<Rightarrow> string \<Rightarrow> string
    \<Rightarrow> string list \<Rightarrow> logParam \<Rightarrow> logParam" where
  "logOutputf sprintf calldepth level modl format pp p =
     (if level \<le> lp_level p
      then log_emit calldepth
             (LoglevelStringColor level @ '' '' @ modl @ '' '' @ sprintf format pp) p
      else p)"

text \<open>The functions for one level, and with the level as an argument.\<close>

definition Log :: "int \<Rightarrow> string list \<Rightarrow> logParam \<Rightarrow> logParam" where
  "Log level = logOutput 2 level"

definition log_None where "log_None = Log log_NONE"
definition log_Connect where "log_Connect = Log log_CONNECT"
definition log_Error where "log_Error = Log log_ERROR"
definition log_Message where "log_Message = Log log_MESSAGE"
definition log_Debug where "log_Debug = Log log_DEBUG"
definition log_DebugV where "log_DebugV = Log log_DEBUGv"
definition log_DebugVv where "log_DebugVv = Log log_DEBUGvv"

definition Logf where "Logf sprintf level = logOutputf sprintf 2 level"
definition log_Nonef where "log_Nonef sprintf = logOutputf sprintf 2 log_NONE"
definition log_Connectf where "log_Connectf sprintf = logOutputf sprintf 2 log_CONNECT"
definition log_Errorf where "log_Errorf sprintf = logOutputf sprintf 2 log_ERROR"
definition log_Errorfd where "log_Errorfd sprintf calldepth = logOutputf sprintf (calldepth + 2) log_DEBUGv"
definition log_Messagef where "log_Messagef sprintf = logOutputf sprintf 2 log_MESSAGE"
definition log_Debugf where "log_Debugf sprintf = logOutputf sprintf 2 log_DEBUG"
definition log_DebugVf where "log_DebugVf sprintf = logOutputf sprintf 2 log_DEBUGv"
definition log_DebugVfd where "log_DebugVfd sprintf calldepth = logOutputf sprintf (calldepth + 2) log_DEBUGv"
definition log_DebugVvf where "log_DebugVvf sprintf = logOutputf sprintf 2 log_DEBUGvv"

datatype log_level_arg = LevelInt int | LevelString string | LevelOther

definition log_SetLoglevel :: "log_level_arg \<Rightarrow> logParam \<Rightarrow> logParam" where
  "log_SetLoglevel level p =
     p\<lparr>lp_level := (case level of LevelInt l \<Rightarrow> l | LevelString s \<Rightarrow> LoglevelInt s | LevelOther \<Rightarrow> log_DEBUG)\<rparr>"

definition log_Loglevel :: "logParam \<Rightarrow> int" where
  "log_Loglevel p = lp_level p"

definition log_Filter :: "logParam \<Rightarrow> string" where
  "log_Filter p = lp_filter p"

definition log_SetFilter :: "string \<Rightarrow> logParam \<Rightarrow> logParam" where
  "log_SetFilter f p = p\<lparr>lp_filter := f\<rparr>"

text \<open>\<open>Init\<close>: the logger of the library is opened, then the level and the filter are set.\<close>

definition log_Init :: "log_level_arg \<Rightarrow> string \<Rightarrow> bool \<Rightarrow> logParam \<Rightarrow> logParam" where
  "log_Init level filt toSyslogF p =
     log_SetFilter filt (log_SetLoglevel level (if toSyslogF then p\<lparr>lp_toSyslog := True\<rparr> else p))"


section \<open>Lemmas\<close>

lemma LoglevelInt_String:
  "LoglevelInt (LoglevelString l) = (if 0 \<le> l \<and> l \<le> 6 then l else log_DEBUG)"
  by (simp add: LoglevelInt_def LoglevelString_def log_levels)

lemma LoglevelString_Int:
  "LoglevelString (LoglevelInt s) =
     (if s \<in> {''NONE'', ''ERROR'', ''CONNECT'', ''MESSAGE'', ''DEBUG'', ''DEBUGv'', ''DEBUGvv''} then s else ''DEBUG'')"
  by (simp add: LoglevelInt_def LoglevelString_def log_levels)

text \<open>Text that the removal of colours leaves as it is: ASCII without the escape character.\<close>

definition plain_text :: "string \<Rightarrow> bool" where
  "plain_text s \<longleftrightarrow> (\<forall>c \<in> set s. c \<noteq> ESC \<and> (of_char c :: nat) < 128)"

lemma plain_text_simps [simp]:
  "plain_text []" "plain_text (c # s) \<longleftrightarrow> c \<noteq> ESC \<and> (of_char c :: nat) < 128 \<and> plain_text s"
  "plain_text (s @ t) \<longleftrightarrow> plain_text s \<and> plain_text t"
  by (auto simp: plain_text_def)

lemma esc_loop_plain: "plain_text s \<Longrightarrow> esc_loop False (s @ t) = s @ esc_loop False t"
  by (induction s) (auto simp: string_of_u8_def)

lemma esc_loop_skip: "CHR ''m'' \<notin> set s \<Longrightarrow> esc_loop True (s @ CHR ''m'' # t) = esc_loop False t"
  by (induction s) auto

text \<open>A colour: the escape character, and an \<open>m\<close> only at its end.\<close>

definition is_colour :: "string \<Rightarrow> bool" where
  "is_colour c \<longleftrightarrow> c \<noteq> [] \<and> hd c = ESC \<and> last (tl c) = CHR ''m'' \<and> tl c \<noteq> [] \<and> CHR ''m'' \<notin> set (butlast (tl c))"

lemma is_colour_codes:
  "is_colour ANSINone" "is_colour ANSIRed" "is_colour ANSIGreen" "is_colour ANSIBrown" "is_colour ANSIBlue"
  "is_colour ANSIMagenta" "is_colour ANSICyan" "is_colour ANSIGrey"
  by (simp_all add: is_colour_def ANSINone_def ANSIRed_def ANSIGreen_def ANSIBrown_def ANSIBlue_def
      ANSIMagenta_def ANSICyan_def ANSIGrey_def)

lemma esc_loop_colour:
  assumes "is_colour c"
  shows "esc_loop False (c @ t) = esc_loop False t"
proof -
  have "c = ESC # butlast (tl c) @ [CHR ''m'']"
    using assms by (metis is_colour_def append_butlast_last_id list.collapse)
  then obtain b where "c = ESC # b @ [CHR ''m'']" "CHR ''m'' \<notin> set b"
    using assms by (auto simp: is_colour_def)
  then show ?thesis by (simp add: esc_loop_skip)
qed

lemma esc_loop_Color:
  "is_colour c \<Longrightarrow> plain_text s \<Longrightarrow> esc_loop False (Color c s @ t) = s @ esc_loop False t"
  by (simp add: Color_def esc_loop_colour esc_loop_plain is_colour_codes)

lemma esc_loop_level: "esc_loop False (LoglevelStringColor l @ t) = LoglevelString l @ esc_loop False t"
  by (simp add: LoglevelStringColor_def LoglevelString_def esc_loop_Color is_colour_codes ESC_def string_of_u8_def)

lemma join_space_Cons: "join_space (s # pp) = s @ (if pp = [] then [] else CHR '' '' # join_space pp)"
  by (cases pp) simp_all

lemma plain_join: "list_all plain_text pp \<Longrightarrow> plain_text (join_space pp)"
  by (induction pp rule: join_space.induct) (auto simp: ESC_def)

text \<open>What reaches the system log. A message at a level that is shown, in ASCII without escape characters, is one
  line: the level's name and the values with spaces between, without the colours; with a filter, only if
  the coloured line contains it. A message at a level that is not shown adds nothing.\<close>

lemma syslog_line:
  assumes "lp_toSyslog p" and "list_all plain_text pp"
  shows "lp_out (Log level pp p) = lp_out p @
     (if level \<le> lp_level p \<and> (lp_filter p = [] \<or> str_contains (Sprintln (LoglevelStringColor level # pp)) (lp_filter p))
      then [(3, Sprintln (LoglevelString level # pp))] else [])"
proof -
  have "esc_loop False (Sprintln (LoglevelStringColor level # pp)) = Sprintln (LoglevelString level # pp)"
    using esc_loop_plain [OF plain_join [OF assms(2)], of "[CHR 0x0A]"]
    by (auto simp: Sprintln_def join_space_Cons esc_loop_level string_of_u8_def ESC_def)
  then show ?thesis
    using assms(1) by (simp add: Log_def logOutput_def log_emit_def checkFilter_def removeTEsc_def)
qed

lemma syslog_line_example:
  "lp_out (log_Error [''node'', ''lost''] \<lparr> lp_level = log_DEBUG, lp_filter = ''lost'', lp_toSyslog = True, lp_out = [] \<rparr>)
     = [(3, ''ERROR node lost'' @ [CHR 0x0A])]"
  unfolding log_Error_def
  by (subst syslog_line)
    (simp_all add: ESC_def log_levels Sprintln_def LoglevelString_def LoglevelStringColor_def Color_def
      ANSIRed_def ANSINone_def)

section \<open>What the model shows\<close>

text \<open>The colours are in the text that the filter sees: the level followed by the module does not match.\<close>

lemma filter_sees_colours:
  "lp_out (logOutputf sprintf 2 log_ERROR ''node'' f pp
     \<lparr> lp_level = log_DEBUG, lp_filter = ''ERROR node'', lp_toSyslog = True, lp_out = [] \<rparr>) = []"
  if "sprintf f pp = []"
  using that
  by (simp add: logOutputf_def log_emit_def checkFilter_def LoglevelStringColor_def log_levels Color_def
      ANSIRed_def ANSINone_def ESC_def)

text \<open>Text beyond ASCII does not survive the removal of colours: its bytes are encoded once more.\<close>

lemma syslog_recodes_text:
  "removeTEsc [CHR 0xC3, CHR 0xA9] True = [CHR 0xC3, CHR 0x83, CHR 0xC2, CHR 0xA9]"
  by code_simp

text \<open>\<open>Errorfd\<close> does not log errors: it is \<open>DebugVfd\<close>.\<close>

lemma Errorfd_is_DebugVfd: "log_Errorfd = log_DebugVfd"
  by (simp add: fun_eq_iff log_Errorfd_def log_DebugVfd_def)

end
