(* ===== verification/NodeMenu.thy ===== *)
theory NodeMenu
  imports TeoLog
begin

text \<open>
  The hotkeys of a node, \<open>teonet/teonet/menu.go\<close>, and how \<open>Connect\<close>, \<open>Run\<close> and \<open>Close\<close> in
  \<open>teonet/teonet/teonet.go\<close> use the menu. What a key does outside the terminal's settings (printing a table, sending,
  reconnecting, closing) is recorded as an effect; what is typed at a prompt is an argument.
\<close>

section \<open>State\<close>

datatype menu_effect =
    PrintUsage
  | PrintPeers
  | RunClientsStat
  | ClearScreen
  | ReconnectApp
  | CloseApp
  | SendCommand string u8 bytes
  | WaitAnswer string u8
  | PrintApi

text \<open>A prompt that waits for its lines: for the filter (with the level to go back to), for a command.\<close>

datatype menu_prompt = PromptFilter string | PromptSend

record menu_state =
  mn_log :: logParam
  mn_Loglevel :: string
  mn_LogFilter :: string
  mn_ShowPeersStatF :: bool
  mn_ShowTrudpStatF :: bool
  mn_ShowClientsStatF :: bool
  mn_td_show :: bool
  mn_stopped :: bool
  mn_quitF :: bool
  mn_prompts :: "menu_prompt list"
  mn_effects :: "menu_effect list"

definition mn_effect :: "menu_effect \<Rightarrow> menu_state \<Rightarrow> menu_state" where
  "mn_effect e s = s\<lparr>mn_effects := mn_effects s @ [e]\<rparr>"

text \<open>Setting the level that is set already turns the log off.\<close>

definition teo_SetLoglevel :: "int \<Rightarrow> menu_state \<Rightarrow> menu_state" where
  "teo_SetLoglevel loglevel s =
     (let logstr = LoglevelString loglevel;
          logstr = (if mn_Loglevel s = logstr then LoglevelString log_NONE else logstr)
      in s\<lparr>mn_Loglevel := logstr, mn_log := log_SetLoglevel (LevelString logstr) (mn_log s)\<rparr>)"

section \<open>The keys\<close>

definition td_SetShowStatistic :: "bool \<Rightarrow> menu_state \<Rightarrow> menu_state" where
  "td_SetShowStatistic b s = s\<lparr>mn_td_show := b\<rparr>"

definition key_help :: "menu_state \<Rightarrow> menu_state" where
  "key_help s = mn_effect PrintUsage (teo_SetLoglevel log_NONE s)"

definition key_peers :: "menu_state \<Rightarrow> menu_state" where
  "key_peers s =
     (let s = s\<lparr>mn_ShowPeersStatF := \<not> mn_ShowPeersStatF s\<rparr>
      in if \<not> mn_ShowPeersStatF s then s
         else let s = s\<lparr>mn_ShowClientsStatF := False, mn_ShowTrudpStatF := False\<rparr>
              in mn_effect PrintPeers (td_SetShowStatistic (mn_ShowTrudpStatF s) s))"

definition key_trudp :: "menu_state \<Rightarrow> menu_state" where
  "key_trudp s =
     (let s = s\<lparr>mn_ShowTrudpStatF := \<not> mn_ShowTrudpStatF s\<rparr>;
          s = td_SetShowStatistic (mn_ShowTrudpStatF s) s
      in if \<not> mn_ShowTrudpStatF s then s
         else s\<lparr>mn_ShowPeersStatF := False, mn_ShowClientsStatF := False\<rparr>)"

definition key_clients :: "menu_state \<Rightarrow> menu_state" where
  "key_clients s =
     (let s = s\<lparr>mn_ShowClientsStatF := \<not> mn_ShowClientsStatF s\<rparr>
      in if \<not> mn_ShowClientsStatF s then s
         else let s = s\<lparr>mn_ShowPeersStatF := False, mn_ShowTrudpStatF := False\<rparr>
              in mn_effect RunClientsStat (td_SetShowStatistic (mn_ShowTrudpStatF s) s))"

definition key_filter :: "menu_state \<Rightarrow> menu_state" where
  "key_filter s =
     (let level = mn_Loglevel s; s = teo_SetLoglevel log_NONE s
      in s\<lparr>mn_stopped := True, mn_prompts := mn_prompts s @ [PromptFilter level]\<rparr>)"

definition key_send :: "menu_state \<Rightarrow> menu_state" where
  "key_send s =
     (let s = teo_SetLoglevel log_NONE s
      in s\<lparr>mn_stopped := True, mn_prompts := mn_prompts s @ [PromptSend]\<rparr>)"

text \<open>The key q reads one more character, which is an argument.\<close>

definition key_quit :: "int \<Rightarrow> menu_state \<Rightarrow> menu_state" where
  "key_quit ch s =
     (let level = mn_Loglevel s;
          s = (teo_SetLoglevel log_NONE s)\<lparr>mn_stopped := True\<rparr>;
          s = (teo_SetLoglevel (LoglevelInt level) s)\<lparr>mn_stopped := False\<rparr>
      in if ch = of_char CHR ''y'' \<or> ch = of_char CHR ''Y''
         then mn_effect CloseApp (s\<lparr>mn_quitF := True\<rparr>)
         else s)"

definition menu_items :: "bool \<Rightarrow> int \<Rightarrow> (hotkey_arg \<times> string \<times> (menu_state \<Rightarrow> menu_state)) list" where
  "menu_items l0_allow ch =
     [(KeyList_arg [of_char CHR ''h'', of_char CHR ''?'', of_char CHR ''H''], ''show this help screen'', key_help),
      (KeyInt32 (of_char CHR ''p''), ''show peers'', key_peers),
      (KeyInt32 (of_char CHR ''u''), ''show trudp statistics'', key_trudp)]
     @ (if l0_allow then [(KeyInt32 (of_char CHR ''l''), ''show clients'', key_clients)] else [])
     @ [(KeyInt32 (of_char CHR ''n''), ''show 'none' log messages'', teo_SetLoglevel log_NONE),
      (KeyInt32 (of_char CHR ''c''), ''show 'connect' log messages'', teo_SetLoglevel log_CONNECT),
      (KeyInt32 (of_char CHR ''d''), ''show 'debug' log messages'', teo_SetLoglevel log_DEBUG),
      (KeyInt32 (of_char CHR ''v''), ''show 'debug_v log' messages'', teo_SetLoglevel log_DEBUGv),
      (KeyInt32 (of_char CHR ''w''), ''show 'debug_vv' log messages'', teo_SetLoglevel log_DEBUGvv),
      (KeyInt32 (of_char CHR ''f''), ''set log messages filter'', key_filter),
      (KeyInt32 (of_char CHR ''s''), ''send command'', key_send),
      (KeyInt32 (of_char CHR ''x''), ''clear screen'', mn_effect ClearScreen),
      (KeyInt32 (of_char CHR ''r''), ''reconnect this application'', mn_effect ReconnectApp),
      (KeyInt32 (of_char CHR ''q''), ''quit this application'', key_quit ch)]"

text \<open>The menu; None is the nil pointer that a node with forbidden hotkeys has.\<close>

fun add_items :: "(hotkey_arg \<times> string \<times> (menu_state \<Rightarrow> menu_state)) list
    \<Rightarrow> menu_state HotkeyMenu \<Rightarrow> menu_state HotkeyMenu option" where
  "add_items [] hk = Some hk"
| "add_items ((k, u, f) # its) hk =
     (case hm_Add k u (Some f) hk of None \<Rightarrow> None | Some hk \<Rightarrow> add_items its hk)"

definition createMenu :: "bool \<Rightarrow> bool \<Rightarrow> int \<Rightarrow> menu_state HotkeyMenu option" where
  "createMenu forbidHotkeys l0_allow ch =
     (if forbidHotkeys then None
      else add_items (menu_items l0_allow ch) (CreateMenu (CHR 0x08 # ''Hot keys list:'') []))"

text \<open>
  The goroutines behind the prompts: what was typed. The numbers are the results of \<open>Atoi\<close>, 0 for
  text that is none; a failed send is an argument.
\<close>

datatype typed =
    TypedFilter string
  | TypedSend string int string int bool

fun prompt_done :: "typed \<Rightarrow> menu_state \<Rightarrow> menu_state" where
  "prompt_done (TypedFilter f) s =
     (case mn_prompts s of
        PromptFilter level # ps \<Rightarrow>
          (let s = s\<lparr>mn_prompts := ps, mn_LogFilter := f, mn_log := log_SetFilter f (mn_log s)\<rparr>
           in (teo_SetLoglevel (LoglevelInt level) s)\<lparr>mn_stopped := False\<rparr>)
      | _ \<Rightarrow> s)"
| "prompt_done (TypedSend to_peer cmd str answerCmd send_ok) s =
     (case mn_prompts s of
        PromptSend # ps \<Rightarrow>
          (let s = s\<lparr>mn_prompts := ps\<rparr>;
               s = (if to_peer = [] \<or> cmd = 0 then s
                    else let s = mn_effect (SendCommand to_peer (of_int cmd) (bytes_of str)) s
                         in if \<not> send_ok then s
                            else if answerCmd > 0 then mn_effect (WaitAnswer to_peer (of_int answerCmd)) s
                            else s)
           in s\<lparr>mn_stopped := False\<rparr>)
      | _ \<Rightarrow> s)"

text \<open>
  A key at a tick of the node's timer (\<open>Check\<close>, with the character read and the one that q would
  read), or lines typed at a prompt.
\<close>

datatype menu_event = Hot int int | Typed typed

fun menu_step :: "bool \<Rightarrow> bool \<Rightarrow> menu_event \<Rightarrow> menu_state \<Rightarrow> menu_state" where
  "menu_step forbid l0_allow (Hot k ch) s =
     (case createMenu forbid l0_allow ch of
        None \<Rightarrow> s
      | Some hk \<Rightarrow> snd (hm_Check (hm_Stop (mn_stopped s) hk) k s))"
| "menu_step forbid l0_allow (Typed t) s = prompt_done t s"

section \<open>The api of an application\<close>

text \<open>
  The last argument of \<open>Connect\<close>: none, a nil pointer, or an api with its number of workers. The result is whether
  the loop that feeds the api's workers is started, with the menu; None is a nil pointer dereferenced.
\<close>

datatype api_arg = NoApi | NilApi | AnApi nat

definition connect_api :: "api_arg \<Rightarrow> menu_state HotkeyMenu option \<Rightarrow> (bool \<times> menu_state HotkeyMenu option) option" where
  "connect_api api menu =
     (case api of
        NoApi \<Rightarrow> Some (False, menu)
      | _ \<Rightarrow>
          (case menu of
             None \<Rightarrow> None
           | Some hk \<Rightarrow>
               (case hm_Add (KeyInt32 (of_char CHR ''a'')) ''show teonet application api'' (Some (mn_effect PrintApi)) hk of
                  None \<Rightarrow> None
                | Some hk \<Rightarrow> (case api of AnApi n \<Rightarrow> Some (n > 0, Some hk) | _ \<Rightarrow> None))))"

text \<open>\<open>Run\<close> connects again with the field \<open>teo.api\<close> as the argument.\<close>

definition reconnect_arg :: "api_arg \<Rightarrow> api_arg" where
  "reconnect_arg api = (case api of NoApi \<Rightarrow> NilApi | _ \<Rightarrow> api)"

section \<open>Lemmas\<close>

lemma createMenu_Some: "\<exists>hk. createMenu False l0 ch = Some hk"
  by (simp add: createMenu_def menu_items_def hm_Add_def)

text \<open>What is true between the keys: the level that the node remembers is the level of the log, and of the three tables,
  which share one place on the screen, at most one is shown.\<close>

definition levels_agree :: "menu_state \<Rightarrow> bool" where
  "levels_agree s \<longleftrightarrow> 0 \<le> lp_level (mn_log s) \<and> lp_level (mn_log s) \<le> 6
     \<and> mn_Loglevel s = LoglevelString (lp_level (mn_log s))"

definition one_table :: "menu_state \<Rightarrow> bool" where
  "one_table s \<longleftrightarrow> \<not> (mn_ShowPeersStatF s \<and> mn_ShowTrudpStatF s) \<and> \<not> (mn_ShowPeersStatF s \<and> mn_ShowClientsStatF s)
     \<and> \<not> (mn_ShowTrudpStatF s \<and> mn_ShowClientsStatF s) \<and> mn_td_show s = mn_ShowTrudpStatF s"

definition menu_ok :: "menu_state \<Rightarrow> bool" where
  "menu_ok s \<longleftrightarrow> levels_agree s \<and> one_table s"

lemma LoglevelString_inj:
  "0 \<le> a \<Longrightarrow> a \<le> 6 \<Longrightarrow> 0 \<le> b \<Longrightarrow> b \<le> 6 \<Longrightarrow> LoglevelString a = LoglevelString b \<longleftrightarrow> a = b"
  by (metis LoglevelInt_String)

lemma SetLoglevel_spec:
  assumes "levels_agree s" and "0 \<le> l" and "l \<le> 6"
  shows "teo_SetLoglevel l s =
    (let l' = if lp_level (mn_log s) = l then log_NONE else l
     in s\<lparr>mn_Loglevel := LoglevelString l', mn_log := (mn_log s)\<lparr>lp_level := l'\<rparr>\<rparr>)"
proof -
  have "0 \<le> log_NONE" "log_NONE \<le> 6" by (simp_all add: log_NONE_def)
  then show ?thesis
    using assms
    by (simp add: teo_SetLoglevel_def log_SetLoglevel_def levels_agree_def LoglevelString_inj LoglevelInt_String Let_def)
qed

lemma SetLoglevel_ok:
  assumes "menu_ok s" and "0 \<le> l" and "l \<le> 6"
  shows "menu_ok (teo_SetLoglevel l s)"
  using assms by (simp add: menu_ok_def SetLoglevel_spec) (simp add: levels_agree_def one_table_def log_NONE_def Let_def)

lemma menu_ok_other [simp]:
  "menu_ok (s\<lparr>mn_stopped := b\<rparr>) = menu_ok s" "menu_ok (s\<lparr>mn_prompts := ps\<rparr>) = menu_ok s"
  "menu_ok (s\<lparr>mn_LogFilter := f, mn_log := log_SetFilter f (mn_log s)\<rparr>) = menu_ok s"
  "menu_ok (s\<lparr>mn_quitF := b\<rparr>) = menu_ok s" "menu_ok (mn_effect e s) = menu_ok s"
  "menu_ok (s\<lparr>mn_stopped := b, mn_prompts := ps\<rparr>) = menu_ok s"
  "menu_ok (s\<lparr>mn_prompts := ps, mn_LogFilter := f, mn_log := log_SetFilter f (mn_log s)\<rparr>) = menu_ok s"
  by (simp_all add: menu_ok_def levels_agree_def one_table_def mn_effect_def log_SetFilter_def)

lemma LoglevelInt_range: "0 \<le> LoglevelInt s \<and> LoglevelInt s \<le> 6"
  by (simp add: LoglevelInt_def log_levels)

lemma key_tables_ok:
  assumes "menu_ok s"
  shows "menu_ok (key_peers s)" "menu_ok (key_trudp s)" "menu_ok (key_clients s)"
  using assms
  by (simp_all add: key_peers_def key_trudp_def key_clients_def Let_def td_SetShowStatistic_def)
    (auto simp: menu_ok_def levels_agree_def one_table_def)

lemma key_other_ok:
  assumes "menu_ok s"
  shows "menu_ok (key_help s)" "menu_ok (key_filter s)" "menu_ok (key_send s)" "menu_ok (key_quit ch s)"
proof -
  note n = SetLoglevel_ok [of _ log_NONE]
  show "menu_ok (key_help s)" "menu_ok (key_filter s)" "menu_ok (key_send s)"
    using assms n by (simp_all add: key_help_def key_filter_def key_send_def Let_def log_NONE_def)
  show "menu_ok (key_quit ch s)"
    using assms n LoglevelInt_range [of "mn_Loglevel s"]
    by (simp add: key_quit_def Let_def log_NONE_def SetLoglevel_ok)
qed


definition item_ok :: "menu_state Hotkey \<Rightarrow> bool" where
  "item_ok it \<longleftrightarrow> (\<forall>f s. hk_f it = Some f \<longrightarrow> menu_ok s \<longrightarrow> menu_ok (f s))"

lemma add_items_ok:
  assumes "add_items its hk = Some hk'" and "list_all item_ok (hm_menu hk)"
    and "list_all (\<lambda>(k, u, f). \<forall>s. menu_ok s \<longrightarrow> menu_ok (f s)) its"
  shows "list_all item_ok (hm_menu hk')"
  using assms
proof (induction its hk rule: add_items.induct)
  case (2 k u f its hk)
  then show ?case
    by (auto simp: hm_Add_def item_ok_def split: option.splits hotkey_arg.splits)
qed simp

lemma menu_items_ok: "list_all (\<lambda>(k, u, f). \<forall>s. menu_ok s \<longrightarrow> menu_ok (f s)) (menu_items l0 ch)"
  by (simp add: menu_items_def key_tables_ok key_other_ok SetLoglevel_ok log_levels)

lemma menu_find_in: "menu_find ch items = Some item \<Longrightarrow> item \<in> set items"
  by (induction items) (auto split: if_splits)

lemma hm_Process_ok:
  assumes "list_all item_ok (hm_menu hk)" and "menu_ok s"
  shows "menu_ok (hm_Process hk ch s)"
  using assms menu_find_in [of ch "hm_menu hk"]
  by (auto simp: hm_Process_def item_ok_def list_all_iff split: option.split)

lemma prompt_done_ok: "menu_ok s \<Longrightarrow> menu_ok (prompt_done t s)"
proof (cases t)
  case (TypedFilter f)
  assume "menu_ok s"
  then show ?thesis
    using TypedFilter LoglevelInt_range SetLoglevel_ok
    by (auto simp: Let_def split: list.split menu_prompt.split)
next
  case (TypedSend to_peer cmd str answerCmd ok)
  assume "menu_ok s"
  then show ?thesis
    using TypedSend by (auto simp: Let_def split: list.split menu_prompt.split)
qed

lemma menu_step_ok: "menu_ok s \<Longrightarrow> menu_ok (menu_step forbid l0 e s)"
proof (cases e)
  case (Hot k ch)
  assume s: "menu_ok s"
  show ?thesis
  proof (cases "createMenu forbid l0 ch")
    case (Some hk)
    then have "list_all item_ok (hm_menu hk)"
      using add_items_ok [OF _ _ menu_items_ok] by (auto simp: createMenu_def CreateMenu_def split: if_splits)
    then show ?thesis
      using s Hot Some hm_Process_ok [of "hm_Stop (mn_stopped s) hk" s k] by (auto simp: hm_Check_def hm_Stop_def)
  qed (simp add: s Hot)
qed (simp add: prompt_done_ok)

interpretation menu_steps: stepper "menu_step forbid l0" menu_ok for forbid l0
  by unfold_locales (rule menu_step_ok)

lemma teo_SetLoglevel_restore:
  assumes "levels_agree s"
  shows "teo_SetLoglevel (LoglevelInt (mn_Loglevel s)) (teo_SetLoglevel log_NONE s) = s"
proof -
  obtain l where l: "lp_level (mn_log s) = l" "0 \<le> l" "l \<le> 6" "mn_Loglevel s = LoglevelString l"
    using assms by (auto simp: levels_agree_def)
  then have i: "LoglevelInt (mn_Loglevel s) = l" by (simp add: LoglevelInt_String)
  have n: "0 \<le> log_NONE" "log_NONE \<le> 6" by (simp_all add: log_NONE_def)
  have s1: "teo_SetLoglevel log_NONE s = s\<lparr>mn_Loglevel := LoglevelString log_NONE, mn_log := (mn_log s)\<lparr>lp_level := log_NONE\<rparr>\<rparr>"
    using SetLoglevel_spec [OF assms n] by (simp add: Let_def)
  then have "levels_agree (teo_SetLoglevel log_NONE s)" using n by (simp add: levels_agree_def)
  from SetLoglevel_spec [OF this l(2,3)] show ?thesis
    using s1 l i by (simp add: Let_def)
qed

section \<open>Properties\<close>

text \<open>The hotkeys and the prompts, in any order, keep two things of the node's settings: the level it shows as its own is the
  level the log works with, and of the tables of peers, TR-UDP channels and clients, which share one place
  on the screen, at most one is shown, where TR-UDP draws its table exactly when it is the one.\<close>

lemma hotkeys_keep:
  assumes "mn_Loglevel s = LoglevelString (lp_level (mn_log s))" and "0 \<le> lp_level (mn_log s)" and "lp_level (mn_log s) \<le> 6"
    and "one_table s"
  shows "let s' = fold (menu_step forbid l0_allow) es s
    in mn_Loglevel s' = LoglevelString (lp_level (mn_log s')) \<and> one_table s'"
proof -
  have "menu_ok s" using assms by (simp add: menu_ok_def levels_agree_def)
  from menu_steps.run_inv [OF this] show ?thesis by (simp add: Let_def menu_ok_def levels_agree_def)
qed

definition sample_menu :: menu_state where
  "sample_menu = \<lparr> mn_log = \<lparr> lp_level = 4, lp_filter = [], lp_toSyslog = False, lp_out = [] \<rparr>, mn_Loglevel = ''DEBUG'',
     mn_LogFilter = [], mn_ShowPeersStatF = False, mn_ShowTrudpStatF = False, mn_ShowClientsStatF = False,
     mn_td_show = False, mn_stopped = False, mn_quitF = False, mn_prompts = [], mn_effects = [] \<rparr>"

lemma hotkeys_keep_example:
  "let s' = fold (menu_step False True) [Hot (of_char CHR ''p'') 0, Hot (of_char CHR ''f'') 0, Hot (of_char CHR ''u'') 0,
      Typed (TypedFilter ''abc''), Hot (of_char CHR ''u'') 0] sample_menu
   in mn_Loglevel s' = LoglevelString (lp_level (mn_log s')) \<and> one_table s'"
  by (rule hotkeys_keep) (simp_all add: sample_menu_def LoglevelString_def log_levels one_table_def)

section \<open>What the model shows\<close>

text \<open>Asking for a filter, and answering the question of the key q with no, leave the level as it was.\<close>

lemma filter_restores_level:
  assumes "levels_agree s" and "mn_prompts s = []"
  shows "prompt_done (TypedFilter f) (key_filter s) =
    s\<lparr>mn_LogFilter := f, mn_log := log_SetFilter f (mn_log s), mn_stopped := False\<rparr>"
proof -
  let ?n = "teo_SetLoglevel log_NONE s"
  have "prompt_done (TypedFilter f) (key_filter s) =
     (teo_SetLoglevel (LoglevelInt (mn_Loglevel s)) ?n)\<lparr>mn_stopped := False, mn_prompts := [],
       mn_LogFilter := f, mn_log := log_SetFilter f (mn_log (teo_SetLoglevel (LoglevelInt (mn_Loglevel s)) ?n))\<rparr>"
    by (simp add: assms(2) key_filter_def teo_SetLoglevel_def log_SetLoglevel_def log_SetFilter_def Let_def)
  then show ?thesis using assms(2) by (simp add: teo_SetLoglevel_restore [OF assms(1)])
qed

text \<open>The key s turns the log off and nothing turns it on again.\<close>

lemma send_leaves_log_off:
  assumes "levels_agree s" and "mn_prompts s = []"
  shows "lp_level (mn_log (prompt_done (TypedSend p c d a ok) (key_send s))) = log_NONE"
  using SetLoglevel_spec [OF assms(1), of log_NONE] assms(2)
  by (simp add: key_send_def Let_def mn_effect_def log_NONE_def)

text \<open>
  An application with an api stops at once when hotkeys are forbidden, and one without an api stops when
  it connects again.
\<close>

lemma api_without_hotkeys_panics: "connect_api (AnApi n) (createMenu True l0 ch) = None"
  by (simp add: connect_api_def createMenu_def)

lemma reconnect_without_api_panics: "connect_api (reconnect_arg NoApi) menu = None"
  by (simp add: connect_api_def reconnect_arg_def hm_Add_def split: option.split)

end
