(* ===== verification/TeoApi.thy ===== *)
theory TeoApi
  imports Prelude
begin

text \<open>
  The commands of an application and the workers that execute them: \<open>services/teoapi/teoregistry_cli.go\<close>
  and \<open>workers.go\<close>. A command's functions change a state of the application's own type. The workers are
  goroutines over one Go channel; they are modelled as a step relation with labels.
\<close>

section \<open>Commands\<close>

text \<open>What the interface \<open>Packet\<close> gives of a received packet.\<close>

record api_packet =
  ap_Cmd :: u8
  ap_From :: string
  ap_Data :: bytes

text \<open>\<open>Func\<close> is set in every command; \<open>Message\<close> may be nil.\<close>

record 's Command =
  com_Cmd :: u8
  com_Descr :: string
  com_Func :: "api_packet \<Rightarrow> 's \<Rightarrow> string option \<times> 's"
  com_Message :: "(api_packet \<Rightarrow> 's \<Rightarrow> string option \<times> 's) option"
  com_Count :: u64

record 's Teoapi =
  api_name :: string
  api_com :: "'s Command list"
  api_NumW :: nat

definition api_Add :: "'s Command \<Rightarrow> 's Teoapi \<Rightarrow> 's Teoapi" where
  "api_Add c api = api\<lparr>api_com := api_com api @ [c]\<rparr>"

text \<open>\<open>String\<close>; the numbers are padded to two places.\<close>

definition pad2 :: "nat \<Rightarrow> string" where
  "pad2 n = replicate (2 - length (itoa n)) CHR '' '' @ itoa n"

definition api_String :: "'s Teoapi \<Rightarrow> string" where
  "api_String api =
     [CHR 0x08, CHR '' '', CHR 0x0A] @ ''The '' @ api_name api @ '' api commands:'' @ [CHR 0x0A]
     @ concat (map (\<lambda>(i, c). pad2 (i + 1) @ ''. Command '' @ itoa (unat (com_Cmd c)) @ '': '' @ com_Descr c @ [CHR 0x0A])
         (enumerate 0 (api_com api)))"

definition api_Cmds :: "'s Teoapi \<Rightarrow> u8 list" where
  "api_Cmds api = map com_Cmd (api_com api)"

fun find_com :: "u8 \<Rightarrow> 's Command list \<Rightarrow> 's Command option" where
  "find_com cmd [] = None"
| "find_com cmd (c # cs) = (if cmd = com_Cmd c then Some c else find_com cmd cs)"

definition api_find :: "u8 \<Rightarrow> 's Teoapi \<Rightarrow> 's Command option" where
  "api_find cmd api = find_com cmd (api_com api)"

definition api_Count :: "u8 \<Rightarrow> 's Teoapi \<Rightarrow> u64" where
  "api_Count cmd api = (case api_find cmd api of Some c \<Rightarrow> com_Count c | None \<Rightarrow> 0)"

definition api_Descr :: "u8 \<Rightarrow> 's Teoapi \<Rightarrow> string" where
  "api_Descr cmd api = (case find_com cmd (api_com api) of Some d \<Rightarrow> com_Descr d | None \<Rightarrow> [])"

text \<open>
  \<open>Process\<close>: the first command with the packet's number: \<open>done\<close> is called, then \<open>Message\<close>, whose error the
  error of \<open>Func\<close> replaces, then the count goes up. The result tells whether \<open>done\<close> was called.
\<close>

fun inc_count :: "u8 \<Rightarrow> 's Command list \<Rightarrow> 's Command list" where
  "inc_count cmd [] = []"
| "inc_count cmd (c # cs) =
     (if com_Cmd c = cmd then c\<lparr>com_Count := com_Count c + 1\<rparr> # cs else c # inc_count cmd cs)"

definition run_command :: "'s Command \<Rightarrow> api_packet \<Rightarrow> 's \<Rightarrow> string option \<times> 's" where
  "run_command c pac s =
     (let s = (case com_Message c of Some m \<Rightarrow> snd (m pac s) | None \<Rightarrow> s) in com_Func c pac s)"

definition api_Process :: "api_packet \<Rightarrow> 's Teoapi \<Rightarrow> 's \<Rightarrow> (bool \<times> string option) \<times> 's Teoapi \<times> 's" where
  "api_Process pac api s =
     (case find_com (ap_Cmd pac) (api_com api) of
        None \<Rightarrow> ((False, None), api, s)
      | Some c \<Rightarrow>
          (case run_command c pac s of
             (err, s) \<Rightarrow> ((True, err), api\<lparr>api_com := inc_count (ap_Cmd pac) (api_com api)\<rparr>, s)))"

section \<open>Workers\<close>

definition channelCapacityPerOneWorker :: nat where "channelCapacityPerOneWorker = 4"
definition termuiLogLen :: nat where "termuiLogLen = 40"

text \<open>The pool with its channel, and for each worker the packet it has received and not executed yet.\<close>

record 's Workers =
  w_api :: "'s Teoapi"
  w_app :: 's
  w_chan :: "api_packet list"
  w_busy :: "nat \<rightharpoonup> api_packet"
  w_count :: "nat \<Rightarrow> nat"
  w_log :: "string list"

text \<open>\<open>New\<close> with a number of workers; without workers there is no pool.\<close>

definition newWorkers :: "nat \<Rightarrow> 's Teoapi \<Rightarrow> 's \<Rightarrow> 's Workers option" where
  "newWorkers n api s =
     (if n = 0 then None
      else Some \<lparr> w_api = api\<lparr>api_NumW := n\<rparr>, w_app = s, w_chan = [], w_busy = Map.empty,
                  w_count = (\<lambda>i. if i < n then 1 else 0), w_log = [] \<rparr>)"

definition log_line :: "nat \<Rightarrow> 's Teoapi \<Rightarrow> api_packet \<Rightarrow> string" where
  "log_line i api pac =
     ''worker #'' @ itoa i @ '' got cmd '' @ itoa (unat (ap_Cmd pac)) @ '': '' @ [CHR 0x27]
     @ api_Descr (ap_Cmd pac) api @ [CHR 0x27] @ '', from: '' @ ap_From pac"

definition add_log :: "string \<Rightarrow> string list \<Rightarrow> string list" where
  "add_log l log_lines =
     (let r = l # log_lines in if length r > termuiLogLen then take (termuiLogLen - 5) r else r)"

text \<open>A worker's turn: \<open>Process\<close> with the function that counts and logs.\<close>

definition worker_run :: "nat \<Rightarrow> api_packet \<Rightarrow> 's Workers \<Rightarrow> 's Workers" where
  "worker_run i pac w =
     (case api_Process pac (w_api w) (w_app w) of
        ((known, _), api, s) \<Rightarrow>
          let w' = w\<lparr>w_api := api, w_app := s, w_busy := (w_busy w)(i := None)\<rparr>
          in if known
             then w'\<lparr>w_count := (w_count w)(i := w_count w i + 1),
                     w_log := add_log (log_line i (w_api w) pac) (w_log w)\<rparr>
             else w')"

text \<open>
  The steps: a packet is put into the channel, which blocks while the channel is full; a worker that
  has nothing to do receives the first packet; a worker executes its packet.
\<close>

datatype w_label = WPut api_packet | WGet nat api_packet | WRun nat api_packet

inductive w_step :: "'s Workers \<Rightarrow> w_label \<Rightarrow> 's Workers \<Rightarrow> bool" where
  w_put: "length (w_chan w) < api_NumW (w_api w) * channelCapacityPerOneWorker
    \<Longrightarrow> w_step w (WPut p) (w\<lparr>w_chan := w_chan w @ [p]\<rparr>)"
| w_get: "i < api_NumW (w_api w) \<Longrightarrow> w_busy w i = None \<Longrightarrow> w_chan w = p # ps
    \<Longrightarrow> w_step w (WGet i p) (w\<lparr>w_chan := ps, w_busy := (w_busy w)(i \<mapsto> p)\<rparr>)"
| w_run: "w_busy w i = Some p \<Longrightarrow> w_step w (WRun i p) (worker_run i p w)"

inductive_cases w_putE: "w_step w (WPut p) w'"
inductive_cases w_getE: "w_step w (WGet i p) w'"
inductive_cases w_runE: "w_step w (WRun i p) w'"

inductive w_steps :: "'s Workers \<Rightarrow> w_label list \<Rightarrow> 's Workers \<Rightarrow> bool" where
  w_done: "w_steps w [] w"
| w_more: "w_steps w ls w' \<Longrightarrow> w_step w' l w'' \<Longrightarrow> w_steps w (ls @ [l]) w''"

section \<open>What a run has done\<close>

fun puts :: "w_label list \<Rightarrow> api_packet list" where
  "puts [] = []" | "puts (WPut p # ls) = p # puts ls" | "puts (_ # ls) = puts ls"

fun gets :: "w_label list \<Rightarrow> api_packet list" where
  "gets [] = []" | "gets (WGet i p # ls) = p # gets ls" | "gets (_ # ls) = gets ls"

text \<open>Per worker: what it has received, and what it has executed.\<close>

fun got_by :: "nat \<Rightarrow> w_label list \<Rightarrow> api_packet list" where
  "got_by i [] = []" | "got_by i (WGet j p # ls) = (if j = i then [p] else []) @ got_by i ls" | "got_by i (_ # ls) = got_by i ls"

fun run_by :: "nat \<Rightarrow> w_label list \<Rightarrow> api_packet list" where
  "run_by i [] = []" | "run_by i (WRun j p # ls) = (if j = i then [p] else []) @ run_by i ls" | "run_by i (_ # ls) = run_by i ls"

fun runs :: "w_label list \<Rightarrow> api_packet list" where
  "runs [] = []" | "runs (WRun j p # ls) = p # runs ls" | "runs (_ # ls) = runs ls"

lemma puts_append [simp]: "puts (a @ b) = puts a @ puts b"
  by (induction a rule: puts.induct) simp_all

lemma gets_append [simp]: "gets (a @ b) = gets a @ gets b"
  by (induction a rule: gets.induct) simp_all

lemma got_by_append [simp]: "got_by i (a @ b) = got_by i a @ got_by i b"
  by (induction a rule: gets.induct) simp_all

lemma run_by_append [simp]: "run_by i (a @ b) = run_by i a @ run_by i b"
  by (induction a rule: runs.induct) simp_all

lemma runs_append [simp]: "runs (a @ b) = runs a @ runs b"
  by (induction a rule: runs.induct) simp_all

section \<open>Lemmas\<close>

lemma find_com_eq: "find_com cmd cs = find (\<lambda>c. com_Cmd c = cmd) cs"
  by (induction cs) auto

lemma inc_count_keeps [simp]: "map com_Cmd (inc_count cmd cs) = map com_Cmd cs"
  by (induction cs) auto

lemma find_inc_count:
  "find_com cmd' (inc_count cmd cs) =
     (if cmd' = cmd then map_option (\<lambda>c. c\<lparr>com_Count := com_Count c + 1\<rparr>) (find_com cmd cs) else find_com cmd' cs)"
  by (induction cs) auto

lemma find_com_None: "find_com cmd cs = None \<longleftrightarrow> cmd \<notin> set (map com_Cmd cs)"
  by (induction cs) auto

lemma find_com_known: "(\<exists>c. find_com cmd cs = Some c) \<longleftrightarrow> cmd \<in> set (map com_Cmd cs)"
  using find_com_None [of cmd cs] by auto

text \<open>\<open>Process\<close>: whether the command is known, the count, and that no number changes.\<close>

lemma api_Process_api:
  "fst (fst (api_Process pac api s)) \<longleftrightarrow> ap_Cmd pac \<in> set (api_Cmds api)"
  "api_Cmds (fst (snd (api_Process pac api s))) = api_Cmds api"
  "api_NumW (fst (snd (api_Process pac api s))) = api_NumW api"
  "api_Count cmd (fst (snd (api_Process pac api s))) =
     api_Count cmd api + (if ap_Cmd pac \<in> set (api_Cmds api) \<and> cmd = ap_Cmd pac then 1 else 0)"
  using find_com_known [of "ap_Cmd pac" "api_com api"]
  by (cases "find_com (ap_Cmd pac) (api_com api)";
      simp add: api_Process_def api_Cmds_def api_Count_def api_find_def find_inc_count case_prod_beta)+

lemma api_Process_unknown: "ap_Cmd pac \<notin> set (api_Cmds api) \<Longrightarrow> api_Process pac api s = ((False, None), api, s)"
  using find_com_None [of "ap_Cmd pac" "api_com api"] by (simp add: api_Process_def api_Cmds_def)

lemma api_Process_known:
  "find_com (ap_Cmd pac) (api_com api) = Some c \<Longrightarrow>
     snd (snd (api_Process pac api s)) = snd (run_command c pac s) \<and> snd (fst (api_Process pac api s)) = fst (run_command c pac s)"
  by (simp add: api_Process_def case_prod_beta)

text \<open>A command added with a number that is there already is never executed.\<close>

lemma find_com_append: "find_com cmd (cs @ ds) = (case find_com cmd cs of None \<Rightarrow> find_com cmd ds | r \<Rightarrow> r)"
  by (induction cs) auto

lemma second_command_dead:
  assumes "com_Cmd c \<in> set (api_Cmds api)"
  shows "find_com cmd (api_com (api_Add c api)) = find_com cmd (api_com api)"
  using assms find_com_None [of cmd "api_com api"]
  by (auto simp: api_Add_def api_Cmds_def find_com_append split: option.split)

text \<open>The error of \<open>Message\<close> is lost.\<close>

lemma message_error_lost:
  "com_Message c = Some m \<Longrightarrow> run_command c pac s = com_Func c pac (snd (m pac s))"
  by (simp add: run_command_def)

lemma length_add_log: "length r \<le> termuiLogLen \<Longrightarrow> length (add_log l r) \<le> termuiLogLen"
  by (simp add: add_log_def Let_def termuiLogLen_def)

lemma worker_run_spec:
  fixes w :: "'s Workers"
  defines "known \<equiv> \<lambda>p. ap_Cmd p \<in> set (api_Cmds (w_api w))"
  shows "w_chan (worker_run i pac w) = w_chan w" "w_busy (worker_run i pac w) = (w_busy w)(i := None)"
    "w_count (worker_run i pac w) = (if known pac then (w_count w)(i := w_count w i + 1) else w_count w)"
    "api_Cmds (w_api (worker_run i pac w)) = api_Cmds (w_api w)"
    "api_NumW (w_api (worker_run i pac w)) = api_NumW (w_api w)"
    "api_Count cmd (w_api (worker_run i pac w)) =
       api_Count cmd (w_api w) + (if known pac \<and> cmd = ap_Cmd pac then 1 else 0)"
    "length (w_log w) \<le> termuiLogLen \<Longrightarrow> length (w_log (worker_run i pac w)) \<le> termuiLogLen"
    "w_app (worker_run i pac w) = snd (snd (api_Process pac (w_api w) (w_app w)))"
  unfolding known_def
  by (simp_all add: worker_run_def case_prod_beta Let_def api_Process_api length_add_log)

lemma newWorkers_start:
  "newWorkers n api s = Some w \<Longrightarrow> w_chan w = [] \<and> w_busy w = Map.empty \<and> w_log w = [] \<and> w_app w = s
     \<and> api_NumW (w_api w) = n \<and> api_com (w_api w) = api_com api \<and> w_count w = (\<lambda>i. if i < n then 1 else 0)"
  by (auto simp: newWorkers_def split: if_splits)

definition pool_inv :: "'s Workers \<Rightarrow> w_label list \<Rightarrow> 's Workers \<Rightarrow> bool" where
  "pool_inv w0 ls w \<longleftrightarrow>
     puts ls = gets ls @ w_chan w
   \<and> (\<forall>i. got_by i ls = run_by i ls @ (case w_busy w i of Some p \<Rightarrow> [p] | None \<Rightarrow> []))
   \<and> length (w_chan w) \<le> api_NumW (w_api w0) * channelCapacityPerOneWorker
   \<and> length (w_log w) \<le> termuiLogLen
   \<and> (\<forall>i. w_count w i = w_count w0 i + length (filter (\<lambda>p. ap_Cmd p \<in> set (api_Cmds (w_api w0))) (run_by i ls)))
   \<and> (\<forall>cmd. api_Count cmd (w_api w) = api_Count cmd (w_api w0) +
        of_nat (length (filter (\<lambda>p. ap_Cmd p = cmd \<and> cmd \<in> set (api_Cmds (w_api w0))) (runs ls))))
   \<and> api_Cmds (w_api w) = api_Cmds (w_api w0) \<and> api_NumW (w_api w) = api_NumW (w_api w0)"

lemma pool_inv_step:
  assumes "pool_inv w0 ls w" and "w_step w l w'"
  shows "pool_inv w0 (ls @ [l]) w'"
  using assms(2)
proof (cases rule: w_step.cases)
  case (w_put p)
  then show ?thesis using assms(1) by (simp add: pool_inv_def)
next
  case (w_get i p ps)
  then show ?thesis using assms(1) by (auto simp: pool_inv_def)
next
  case (w_run i p)
  then show ?thesis using assms(1) by (auto simp: pool_inv_def worker_run_spec)
qed

lemma pool_inv_steps:
  assumes "w_steps w0 ls w" and "w_chan w0 = []" and "w_busy w0 = Map.empty" and "w_log w0 = []"
  shows "pool_inv w0 ls w"
  using assms
proof (induction rule: w_steps.induct)
  case (w_done w)
  then show ?case by (simp add: pool_inv_def)
next
  case (w_more w ls w' l w'')
  then show ?case using pool_inv_step by blast
qed

text \<open>What a command does to the application does not depend on the counts.\<close>

definition exec :: "'s Teoapi \<Rightarrow> api_packet \<Rightarrow> 's \<Rightarrow> 's" where
  "exec api p s = snd (snd (api_Process p api s))"

lemma exec_eq: "exec api p s =
    (case map_option (\<lambda>c. (com_Func c, com_Message c)) (find_com (ap_Cmd p) (api_com api)) of
       None \<Rightarrow> s
     | Some (f, m) \<Rightarrow> snd (f p (case m of Some m \<Rightarrow> snd (m p s) | None \<Rightarrow> s)))"
  by (simp add: exec_def api_Process_def run_command_def case_prod_beta Let_def split: option.split)

lemma exec_count_free [simp]: "exec (fst (snd (api_Process q api t))) p s = exec api p s"
  by (cases "find_com (ap_Cmd q) (api_com api)"; cases "find_com (ap_Cmd p) (api_com api)")
    (auto simp: exec_eq api_Process_def case_prod_beta find_inc_count)

lemma pool_app:
  assumes "w_steps w0 ls w"
  shows "w_app w = fold (exec (w_api w0)) (runs ls) (w_app w0) \<and> exec (w_api w) = exec (w_api w0)"
  using assms
proof (induction rule: w_steps.induct)
  case (w_more w ls w' l w'')
  from w_more(2) show ?case
  proof (cases rule: w_step.cases)
    case (w_run i p)
    have "exec (w_api w'') = exec (w_api w')"
      by (intro ext) (simp add: w_run(2) worker_run_def case_prod_beta Let_def)
    moreover have "w_app w'' = exec (w_api w') p (w_app w')"
      by (simp add: w_run(2) worker_run_spec exec_def)
    ultimately show ?thesis using w_more.IH w_run by simp
  qed (use w_more.IH in simp_all)
qed simp

section \<open>Properties\<close>


text \<open>A run: two workers, an application that keeps the data of command 5.\<close>

definition keep_com :: "bytes list Command" where
  "keep_com = \<lparr> com_Cmd = 5, com_Descr = ''keep'', com_Func = (\<lambda>p s. (None, s @ [ap_Data p])), com_Message = None, com_Count = 0 \<rparr>"


end
