(* ===== verification/RoomMirror.thy ===== *)
theory RoomMirror
  imports Room
begin

text \<open>
  What the messages of the room controller (\<open>services/teoroom\<close>) to the statistic say of its rooms: after every
  run the messages give, for each room, its number and the state it is in.
\<close>

section \<open>What the messages say\<close>

text \<open>A message read as a change of a table from the ids of rooms to their numbers and states.\<close>

definition stat_change :: "u8 \<times> bytes \<Rightarrow> (UUID \<rightharpoonup> u32 \<times> u8) \<Rightarrow> (UUID \<rightharpoonup> u32 \<times> u8)" where
  "stat_change m t =
     (if fst m = CmdSetRoomCreated
      then let q = snd (rc_Unmarshal (snd m) rc_zero) in t(rc_RoomID q \<mapsto> (rc_RoomNum q, 0))
      else if fst m = CmdSetRoomState
      then let q = snd (rs_Unmarshal (snd m) rs_zero)
           in if rs_Status q \<in> {1, 2, 3}
              then t(rs_RoomID q \<mapsto> (case t (rs_RoomID q) of Some (n, _) \<Rightarrow> n | None \<Rightarrow> 0, rs_Status q)) else t
      else t)"

definition stat_table :: "(u8 \<times> bytes) list \<Rightarrow> (UUID \<rightharpoonup> u32 \<times> u8)" where
  "stat_table ms = fold stat_change ms Map.empty"

lemma stat_table_snoc [simp]: "stat_table (ms @ [m]) = stat_change m (stat_table ms)"
  by (simp add: stat_table_def)

lemma stat_change_client [simp]: "stat_change (SendClientState s i u st) t = t"
  by (simp add: stat_change_def SendClientState_def CmdSetClientState_def CmdSetRoomCreated_def CmdSetRoomState_def Let_def)

lemma stat_change_create:
  "length i = 16 \<Longrightarrow> stat_change (SendRoomCreate i n) t = t(i \<mapsto> (n, 0))"
  by (simp add: stat_change_def SendRoomCreate_def rc_Unmarshal_def rc_Marshal_def codec_simps u32_codec.dec_enc_all)

lemma stat_change_state:
  "length i = 16 \<Longrightarrow> s \<noteq> RoomCreating \<Longrightarrow>
     stat_change (SendRoomState i (state_code s)) t =
       t(i \<mapsto> (case t i of Some (n, _) \<Rightarrow> n | None \<Rightarrow> 0, state_code s))"
  by (cases s)
    (simp_all add: stat_change_def SendRoomState_def rs_Unmarshal_def rs_Marshal_def codec_simps state_code_def
      CmdSetRoomCreated_def CmdSetRoomState_def)

lemma stat_change_no_room [simp]: "stat_change (SendRoomState [] s) t = t"
  by (simp add: stat_change_def SendRoomState_def rs_Unmarshal_def rs_Marshal_def rd_take_def rs_zero_def
      CmdSetRoomCreated_def CmdSetRoomState_def)

section \<open>The invariant\<close>

text \<open>
  At most \<open>n\<close> rooms, with ids taken from \<open>U\<close>; the messages are of the three kinds for the statistic, with
  numbers below \<open>n\<close>, and give each room's number and state.
\<close>

definition small_create :: "nat \<Rightarrow> u8 \<times> bytes \<Rightarrow> bool" where
  "small_create n m \<longleftrightarrow> fst m \<in> {CmdSetRoomCreated, CmdSetRoomState, CmdSetClientState}
     \<and> (fst m = CmdSetRoomCreated \<longrightarrow> unat (rc_RoomNum (snd (rc_Unmarshal (snd m) rc_zero))) < n)"

definition mirror :: "nat \<Rightarrow> UUID set \<Rightarrow> Teoroom \<Rightarrow> bool" where
  "mirror n U tr \<longleftrightarrow>
     tr_nextRoom tr \<le> n \<and> tr_roomID tr = of_nat (tr_nextRoom tr)
   \<and> (\<forall>r < tr_nextRoom tr. length (rm_roomID (tr_rooms tr r)) = 16 \<and> rm_roomID (tr_rooms tr r) \<in> U
        \<and> stat_table (tr_stats tr) (rm_roomID (tr_rooms tr r))
            = Some (rm_id (tr_rooms tr r), state_code (rm_state (tr_rooms tr r))))
   \<and> inj_on (\<lambda>r. rm_roomID (tr_rooms tr r)) {..<tr_nextRoom tr}
   \<and> (\<forall>r \<ge> tr_nextRoom tr. rm_roomID (tr_rooms tr r) = [])
   \<and> list_all (small_create n) (tr_stats tr)"

text \<open>What does not touch it: everything but new rooms, states and the messages about them.\<close>

lemma mirror_frames [simp]:
  "mirror n U (tr\<lparr>tr_sent := s\<rparr>) = mirror n U tr" "mirror n U (tr\<lparr>tr_timers := ts\<rparr>) = mirror n U tr"
  "mirror n U (tr\<lparr>tr_creating := cs\<rparr>) = mirror n U tr" "mirror n U (upd_client c g tr) = mirror n U tr"
  "mirror n U (mcli_set k c tr) = mirror n U tr" "mirror n U (mcli_delete k tr) = mirror n U tr"
  "mirror n U (mroom_set rid r tr) = mirror n U tr"
  "mirror n U (tr\<lparr>tr_nextClient := k', tr_clients := cl\<rparr>) = mirror n U tr"
  by (simp_all add: mirror_def upd_client_def mcli_set_def mcli_delete_def mroom_set_def)

lemma mirror_upd_room:
  assumes "\<And>x. rm_roomID (f x) = rm_roomID x \<and> rm_id (f x) = rm_id x \<and> rm_state (f x) = rm_state x"
  shows "mirror n U (upd_room r f tr) = mirror n U tr"
proof -
  have "rm_roomID (tr_rooms (upd_room r f tr) k) = rm_roomID (tr_rooms tr k)"
    "rm_id (tr_rooms (upd_room r f tr) k) = rm_id (tr_rooms tr k)"
    "rm_state (tr_rooms (upd_room r f tr) k) = rm_state (tr_rooms tr k)" for k
    using assms by (simp_all add: upd_room_def)
  moreover have "tr_nextRoom (upd_room r f tr) = tr_nextRoom tr" "tr_roomID (upd_room r f tr) = tr_roomID tr"
    "tr_stats (upd_room r f tr) = tr_stats tr" by (simp_all add: upd_room_def)
  ultimately show ?thesis by (simp add: mirror_def)
qed

lemma mirror_client_msg [simp]: "mirror n U (stat_msg (SendClientState s i u st) tr) = mirror n U tr"
proof -
  have "small_create n (SendClientState s i u st)"
    by (simp add: small_create_def SendClientState_def CmdSetClientState_def CmdSetRoomCreated_def Let_def)
  then show ?thesis by (simp add: mirror_def stat_msg_def)
qed

lemma mirror_cli_sendState [simp]: "mirror n U (cli_sendState env c s u tr) = mirror n U tr"
  by (simp add: cli_sendState_def Let_def split: sum.split)

lemma mirror_SendToClientAddr [simp]: "mirror n U (snd (SendToClientAddr env l0 c cmd d tr)) = mirror n U tr"
  by (simp add: SendToClientAddr_def)

lemma mirror_send_cmd [simp]: "mirror n U (send_cmd env cmd d c tr) = mirror n U tr"
  by (simp add: send_cmd_def)

lemma mirror_setState:
  assumes "mirror n U tr" and "s \<noteq> RoomCreating"
  shows "mirror n U (setState r s tr)"
proof -
  let ?i = "rm_roomID (tr_rooms tr r)" and ?t = "stat_table (tr_stats tr)"
  let ?c = "stat_change (SendRoomState ?i (state_code s)) ?t"
  have small: "small_create n (SendRoomState ?i (state_code s))"
    by (simp add: small_create_def SendRoomState_def CmdSetRoomState_def CmdSetRoomCreated_def)
  have rooms: "tr_rooms (setState r s tr) k =
      (if k = r then (tr_rooms tr r)\<lparr>rm_state := s\<rparr> else tr_rooms tr k)" for k
    by (simp add: setState_def stat_msg_def upd_room_def)
  have rest: "tr_nextRoom (setState r s tr) = tr_nextRoom tr" "tr_roomID (setState r s tr) = tr_roomID tr"
    "tr_stats (setState r s tr) = tr_stats tr @ [SendRoomState ?i (state_code s)]"
    by (simp_all add: setState_def stat_msg_def upd_room_def)
  have "?c (rm_roomID (tr_rooms tr k)) =
      Some (rm_id (tr_rooms tr k), state_code (if k = r then s else rm_state (tr_rooms tr k)))" if "k < tr_nextRoom tr" for k
  proof (cases "r < tr_nextRoom tr")
    case True
    then have "?c = ?t(?i \<mapsto> (rm_id (tr_rooms tr r), state_code s))"
      using assms by (simp add: stat_change_state mirror_def)
    moreover have "rm_roomID (tr_rooms tr k) = ?i \<longleftrightarrow> k = r"
      using assms(1) that True by (auto simp: mirror_def inj_on_def)
    ultimately show ?thesis using assms(1) that by (auto simp: mirror_def)
  next
    case False
    then show ?thesis using assms(1) that by (auto simp: mirror_def)
  qed
  moreover have "(\<lambda>k. rm_roomID (tr_rooms (setState r s tr) k)) = (\<lambda>k. rm_roomID (tr_rooms tr k))"
    by (simp add: fun_eq_iff rooms)
  ultimately show ?thesis
    using assms(1) small unfolding mirror_def rest by (auto simp: rooms)
qed

lemma mirror_newRoom:
  assumes "mirror n U tr" and "length i = 16" and "i \<notin> U" and "n < 2 ^ 32"
  shows "mirror (n + 1) (insert i U) (snd (newRoom i gp tr))"
proof -
  let ?r = "tr_nextRoom tr"
  let ?m = "SendRoomCreate i (tr_roomID tr)"
  have lt: "?r \<le> n" "tr_roomID tr = of_nat ?r" using assms(1) by (simp_all add: mirror_def)
  then have "unat (tr_roomID tr) = ?r" using assms(4) by (simp add: unsigned_of_nat take_bit_eq_mod)
  then have small: "small_create (n + 1) ?m"
    using lt assms(2)
    by (simp add: small_create_def SendRoomCreate_def rc_Unmarshal_def rc_Marshal_def codec_simps u32_codec.dec_enc_all)
  have old: "list_all (small_create (n + 1)) (tr_stats tr)"
    using assms(1) by (auto simp: mirror_def small_create_def list_all_iff)
  have rooms: "tr_rooms (snd (newRoom i gp tr)) k =
      (if k = ?r then \<lparr> rm_id = tr_roomID tr, rm_roomID = i, rm_state = RoomCreating, rm_client = [], rm_cliwas = [],
         rm_gparam = gp \<rparr> else tr_rooms tr k)" for k
    by (simp add: newRoom_def Let_def stat_msg_def mroom_set_def)
  have rest: "tr_nextRoom (snd (newRoom i gp tr)) = ?r + 1" "tr_roomID (snd (newRoom i gp tr)) = tr_roomID tr + 1"
    "tr_stats (snd (newRoom i gp tr)) = tr_stats tr @ [?m]"
    by (simp_all add: newRoom_def Let_def stat_msg_def mroom_set_def)
  have ids: "rm_roomID (tr_rooms tr k) \<noteq> i" if "k < ?r" for k
    using assms(1,3) that by (auto simp: mirror_def)
  have inj: "inj_on (\<lambda>k. rm_roomID (tr_rooms (snd (newRoom i gp tr)) k)) {..<?r + 1}"
    using assms(1) ids by (fastforce simp: mirror_def rooms inj_on_def less_Suc_eq)
  have tab: "stat_table (tr_stats tr @ [?m]) = (stat_table (tr_stats tr))(i \<mapsto> (tr_roomID tr, 0))"
    by (simp add: stat_change_create assms(2))
  show ?thesis
    using assms(1,2) lt small old ids inj unfolding mirror_def rest tab
    by (auto simp: rooms less_Suc_eq state_code_def)
qed

lemma mirror_mono: "mirror n U tr \<Longrightarrow> n \<le> m \<Longrightarrow> U \<subseteq> V \<Longrightarrow> mirror m V tr"
  by (auto simp: mirror_def small_create_def list_all_iff)


section \<open>The operations\<close>

text \<open>What holds of the result unless the program stops.\<close>

definition returns :: "('a \<Rightarrow> bool) \<Rightarrow> 'a go \<Rightarrow> bool" where
  "returns P m = (case m of Inl _ \<Rightarrow> True | Inr x \<Rightarrow> P x)"

lemma returns_simps [simp]: "returns P (Inl e)" "returns P (Inr x) = P x"
  by (simp_all add: returns_def)

lemma returns_bind: "returns P m \<Longrightarrow> (\<And>x. P x \<Longrightarrow> returns Q (f x)) \<Longrightarrow> returns Q (go_bind m f)"
  by (cases m) simp_all

lemma funcToClients_loop_returns:
  assumes "\<And>c t. P t \<Longrightarrow> returns P (f c t)"
  shows "P tr \<Longrightarrow> returns P (funcToClients_loop r f is tr)"
  using assms by (induction "is" arbitrary: tr) (auto split: option.split intro: returns_bind)

lemma mirror_funcToClients:
  assumes "mirror n U tr" and "\<And>c t. mirror n U t \<Longrightarrow> returns (mirror n U) (f c t)"
  shows "returns (mirror n U) (funcToClients r f tr)"
  unfolding funcToClients_def by (rule funcToClients_loop_returns [OF assms(2) assms(1)])

lemma mirror_sendToClients: "mirror n U tr \<Longrightarrow> returns (mirror n U) (sendToClients env r cmd d tr)"
  unfolding sendToClients_def by (rule mirror_funcToClients) simp_all

lemma mirror_startRoom:
  assumes "mirror n U tr"
  shows "returns (mirror n U) (startRoom env r tr)"
  unfolding startRoom_def Let_def
proof (intro returns_bind)
  show "returns (mirror n U) (sendToClients env r ComStart [] (setState r RoomRunning tr))"
    by (rule mirror_sendToClients) (simp add: mirror_setState assms)
  show "returns (mirror n U) (funcToClients r (\<lambda>c tr. Inr (case mcli_find (cl_name (tr_clients tr c)) tr of
        Some c' \<Rightarrow> cli_sendState env c' ClientStarted (rm_roomID (tr_rooms tr r)) tr | None \<Rightarrow> tr)) t)"
    if "mirror n U t" for t
    by (rule mirror_funcToClients [OF that]) (simp split: option.split)
qed simp

lemma mirror_ready_loop: "mirror n U tr \<Longrightarrow> returns (mirror n U) (ready_loop env r k ws tr)"
  by (induction env r k ws tr rule: ready_loop.induct) (auto intro: mirror_startRoom)

lemma mirror_clientReady: "mirror n U tr \<Longrightarrow> returns (mirror n U) (clientReady env r i tr)"
  by (auto simp: clientReady_def Let_def mirror_upd_room split: option.split
      intro!: mirror_sendToClients mirror_ready_loop)

lemma mirror_existing_loop [simp]: "mirror n U (existing_loop env c name ds tr) = mirror n U tr"
  by (induction ds arbitrary: tr) simp_all

lemma mirror_existing_clients [simp]: "mirror n U (existing_clients env c name k i xs tr) = mirror n U tr"
  by (induction xs arbitrary: i tr) (simp_all split: option.split)

lemma mirror_sendExistingData [simp]: "mirror n U (sendExistingData env client tr) = mirror n U tr"
  by (simp add: sendExistingData_def split: sum.split prod.split)

lemma mirror_resend_clients [simp]: "mirror n U (snd (resend_clients env k cmd d i xs tr)) = mirror n U tr"
  by (induction xs arbitrary: i tr) (simp_all add: SendToClientAddr_def split: option.split bool.split)

lemma mirror_resendData:
  assumes "mirror n U tr"
  shows "returns (\<lambda>x. mirror n U (snd x)) (resendData env client cmd data tr)"
proof (cases "mcli_get client tr")
  case (Inr c)
  show ?thesis
  proof (cases "roomClientID c tr")
    case (Inr x)
    obtain rid k where x: "x = (rid, k)" by force
    have first: "returns (\<lambda>x. mirror n U (snd x))
       (if cl_data (tr_clients tr c) = []
        then let tr = sendExistingData env client tr
             in case mroom_get rid tr of
                  Inl e \<Rightarrow> Inr (Some e, tr)
                | Inr r \<Rightarrow> go_bind (clientReady env r k tr) (\<lambda>tr. Inr (None, tr))
        else Inr (None, tr))"
      using assms
      by (auto simp: Let_def split: sum.split intro!: returns_bind [where P = "mirror n U"] mirror_clientReady)
    show ?thesis
      using \<open>mcli_get client tr = Inr c\<close> Inr x
      by (simp only: resendData_def sum.case x prod.case)
        (rule returns_bind [OF first]; auto simp: Let_def split: sum.split)
  qed (simp add: resendData_def Inr assms)
qed (simp add: resendData_def assms)

lemma mirror_ComRoomData: "mirror n U tr \<Longrightarrow> returns (mirror n U) (ComRoomData env client data tr)"
  unfolding ComRoomData_def by (rule returns_bind [OF mirror_resendData]) auto

lemma mirror_ComDisconnect:
  assumes "mirror n U tr"
  shows "returns (\<lambda>x. mirror n U (snd x)) (ComDisconnect env client tr)"
proof -
  have "returns (\<lambda>x. mirror n U (snd x)) (go_bind (resendData env client ComDisconnect_cmd [of_nat k] tr) (\<lambda>(_, tr).
       case mroom_get rid tr of
         Inl e \<Rightarrow> Inr (Some e, tr)
       | Inr r \<Rightarrow>
           if k \<ge> length (rm_client (tr_rooms tr r)) then Inl IndexOutOfRange
           else Inr (None, mcli_delete client
                       (upd_room r (\<lambda>x. x\<lparr>rm_client := (rm_client x)[k := None]\<rparr>) tr))))" for rid k
    by (rule returns_bind [OF mirror_resendData [OF assms]])
      (auto simp: mirror_upd_room split: sum.split)
  then show ?thesis using assms by (simp add: ComDisconnect_def split: sum.split prod.split)
qed

lemma mirror_disconnect_member: "mirror n U tr \<Longrightarrow> returns (mirror n U) (disconnect_member env c tr)"
  unfolding disconnect_member_def by (rule returns_bind [OF mirror_ComDisconnect]) auto

lemma mirror_fire:
  assumes "mirror n U tr"
  shows "returns (mirror n U) (fire env t tr)"
proof -
  have game: "returns (mirror n U) (game_over env r t)" if "mirror n U t" for r t
    unfolding game_over_def
    by (rule mirror_funcToClients) (auto intro!: mirror_disconnect_member simp: that mirror_setState split: option.split)
  have wait: "returns (mirror n U) (wait_timeout env r t)" if "mirror n U t" for r t
    using that
    by (auto simp: wait_timeout_def Let_def intro!: mirror_funcToClients mirror_disconnect_member mirror_setState)
  have close: "returns (mirror n U) (close_room r t)" if "mirror n U t" for r t
    using that by (simp add: close_room_def mirror_setState)
  show ?thesis
    using assms by (auto simp: fire_def Let_def split: room_timer.split intro!: game wait close)
qed

lemma mirror_ComRoomRequest:
  assumes "mirror n U tr" and "length i = 16" and "i \<notin> U" and "n < 2 ^ 32"
  shows "mirror (n + 1) (insert i U) (snd (ComRoomRequest env i gp client l0 tr))"
proof -
  have up: "mirror (n + 1) (insert i U) t" if "mirror n U t" for t
    by (rule mirror_mono [OF that]) auto
  have nc: "mirror n U (snd (newClient client l0 tr))"
    using assms(1) by (simp add: newClient_def Let_def)
  have "mirror (n + 1) (insert i U) (snd (roomRequest i gp c t))" if "mirror n U t" for c t
    using mirror_newRoom [OF that assms(2-4), of gp] up [OF that]
    by (simp add: roomRequest_def addClient_def Let_def mirror_upd_room case_prod_beta split: option.split)
  from this [OF nc] show ?thesis
    using up [OF assms(1)]
    by (simp add: ComRoomRequest_def case_prod_beta SendToClientAddr_def split: option.split sum.split)
qed

text \<open>The ids that the requests of a run bring along for new rooms.\<close>

fun request_ids :: "roomStep list \<Rightarrow> UUID list" where
  "request_ids [] = []"
| "request_ids (RoomRequestFrom c l i gp # sts) = i # request_ids sts"
| "request_ids (_ # sts) = request_ids sts"

lemma mirror_run:
  assumes "mirror n U tr" and "room_run env sts tr = Inr tr'" and "n + length sts < 2 ^ 32"
    and "\<forall>i \<in> set (request_ids sts). length i = 16 \<and> i \<notin> U" and "distinct (request_ids sts)"
  shows "\<exists>V. mirror (n + length sts) V tr'"
  using assms
proof (induction sts arbitrary: n U tr)
  case (Cons st sts)
  obtain t where t: "room_step env st tr = Inr t" "room_run env sts t = Inr tr'"
    using Cons.prems(2) by (auto simp: go_bind_Inr_iff)
  have "\<exists>V. mirror (n + 1) V t \<and> V \<subseteq> U \<union> set (request_ids [st])"
  proof (cases "\<exists>c l i gp. st = RoomRequestFrom c l i gp")
    case True
    then obtain c l i gp where st: "st = RoomRequestFrom c l i gp" by blast
    then have "mirror (n + 1) (insert i U) t"
      using mirror_ComRoomRequest [OF Cons.prems(1), of i env gp c l] Cons.prems(3,4) t(1)
      by (auto simp: room_step_def)
    then show ?thesis using st by auto
  next
    case False
    then have "returns (mirror n U) (room_step env st tr)"
      using Cons.prems(1)
      by (cases st)
        (auto simp: room_step_def mirror_upd_room intro!: mirror_ComRoomData mirror_fire returns_bind [OF mirror_ComDisconnect])
    then have "mirror n U t" using t(1) by simp
    then show ?thesis using mirror_mono [of n U t "n + 1" U] by auto
  qed
  then obtain V where V: "mirror (n + 1) V t" "V \<subseteq> U \<union> set (request_ids [st])" by blast
  have ids: "request_ids (st # sts) = request_ids [st] @ request_ids sts" by (cases st) simp_all
  have "\<exists>W. mirror ((n + 1) + length sts) W tr'"
    by (rule Cons.IH [OF V(1) t(2)]) (use Cons.prems(3-5) V(2) ids in auto)
  then show ?case by simp
qed auto

lemma mirror_New: "mirror 0 {} teoroom_New"
  by (simp add: mirror_def teoroom_New_def stat_table_def)

end
