(* ===== verification/RoomDb.thy ===== *)
theory RoomDb
  imports RoomMirror
begin

text \<open>
  The database of the room statistic: \<open>services/teoroom/stats/db_rooms.go\<close> and \<open>db_clients.go\<close>, the
  statements behind the commands of \<open>process.go\<close>. The statements of the packages gocql and gocqlx on
  the two tables are parameters; what the CQL documentation says of them is \<open>rooms_laws\<close>.
\<close>

section \<open>Tables\<close>

text \<open>Insert of all columns, update of the named columns, and the selection by the time of creation.\<close>

record 'd rooms_table =
  rt_Insert :: "StatRoom \<Rightarrow> 'd \<Rightarrow> string option \<times> 'd"
  rt_Update :: "string list \<Rightarrow> StatRoom \<Rightarrow> 'd \<Rightarrow> string option \<times> 'd"
  rt_SelectCreated :: "go_time \<Rightarrow> go_time \<Rightarrow> u32 \<Rightarrow> 'd \<Rightarrow> string + StatRoom list"

record StatClient =
  cl_RoomID :: UUID
  cl_ID :: UUID
  cl_Added :: go_time
  cl_Loadded :: go_time
  cl_Started :: go_time
  cl_Leave :: go_time
  cl_Disconnected :: go_time
  cl_GameStat :: bytes

record 'd clients_table =
  ct_Insert :: "StatClient \<Rightarrow> 'd \<Rightarrow> string option \<times> 'd"
  ct_Update :: "string list \<Rightarrow> StatClient \<Rightarrow> 'd \<Rightarrow> string option \<times> 'd"

section \<open>Rooms\<close>

definition rooms_columns :: "string list" where
  "rooms_columns = [''id'', ''room_num'', ''created'', ''started'', ''closed'', ''stopped'', ''state'']"

definition rColStartded :: nat where "rColStartded = 3"
definition rColClosed :: nat where "rColClosed = 4"
definition rColStopped :: nat where "rColStopped = 5"
definition rColState :: nat where "rColState = 6"

definition rooms_set :: "'d rooms_table \<Rightarrow> StatRoom \<Rightarrow> string list \<Rightarrow> 'd \<Rightarrow> string option \<times> 'd" where
  "rooms_set T r columns = (if length columns = 0 then rt_Insert T r else rt_Update T columns r)"

definition rooms_setByColumnsNumber :: "'d rooms_table \<Rightarrow> StatRoom \<Rightarrow> nat list \<Rightarrow> 'd \<Rightarrow> string option \<times> 'd" where
  "rooms_setByColumnsNumber T r columnsNum = rooms_set T r (map (\<lambda>n. rooms_columns ! n) columnsNum)"

text \<open>The value of \<open>time.Now()\<close> is an argument.\<close>

definition setCreating :: "'d rooms_table \<Rightarrow> go_time \<Rightarrow> UUID \<Rightarrow> u32 \<Rightarrow> 'd \<Rightarrow> string option \<times> 'd" where
  "setCreating T now roomID roomNum =
     rooms_set T ((new_room roomID)\<lparr>sr_RoomNum := roomNum, sr_Created := now, sr_State := state_code RoomCreating\<rparr>) []"

definition setRunning :: "'d rooms_table \<Rightarrow> go_time \<Rightarrow> UUID \<Rightarrow> 'd \<Rightarrow> string option \<times> 'd" where
  "setRunning T now roomID =
     rooms_setByColumnsNumber T ((new_room roomID)\<lparr>sr_Started := now, sr_State := state_code RoomRunning\<rparr>) [rColStartded, rColState]"

definition setClosed :: "'d rooms_table \<Rightarrow> go_time \<Rightarrow> UUID \<Rightarrow> 'd \<Rightarrow> string option \<times> 'd" where
  "setClosed T now roomID =
     rooms_setByColumnsNumber T ((new_room roomID)\<lparr>sr_Closed := now, sr_State := state_code RoomClosed\<rparr>) [rColClosed, rColState]"

definition setStopped :: "'d rooms_table \<Rightarrow> go_time \<Rightarrow> UUID \<Rightarrow> 'd \<Rightarrow> string option \<times> 'd" where
  "setStopped T now roomID =
     rooms_setByColumnsNumber T ((new_room roomID)\<lparr>sr_Stopped := now, sr_State := state_code RoomStopped\<rparr>) [rColStopped, rColState]"

definition getByCreated :: "'d rooms_table \<Rightarrow> go_time \<Rightarrow> go_time \<Rightarrow> u32 \<Rightarrow> 'd \<Rightarrow> string + StatRoom list" where
  "getByCreated T = rt_SelectCreated T"

section \<open>Clients\<close>

definition clients_columns :: "string list" where
  "clients_columns = [''room_id'', ''id'', ''added'', ''loadded'', ''started'', ''leave'', ''disconnected'', ''game_stat'']"

definition cColLoadded :: nat where "cColLoadded = 3"
definition cColStarted :: nat where "cColStarted = 4"
definition cColLeave :: nat where "cColLeave = 5"
definition cColDisconnected :: nat where "cColDisconnected = 6"
definition cColGameStat :: nat where "cColGameStat = 7"

definition new_client :: "UUID \<Rightarrow> UUID \<Rightarrow> StatClient" where
  "new_client roomID i = \<lparr> cl_RoomID = roomID, cl_ID = i, cl_Added = zero_time, cl_Loadded = zero_time,
     cl_Started = zero_time, cl_Leave = zero_time, cl_Disconnected = zero_time, cl_GameStat = [] \<rparr>"

definition clients_set :: "'d clients_table \<Rightarrow> StatClient \<Rightarrow> string list \<Rightarrow> 'd \<Rightarrow> string option \<times> 'd" where
  "clients_set T r columns = (if length columns = 0 then ct_Insert T r else ct_Update T columns r)"

definition clients_setByColumnsNumber :: "'d clients_table \<Rightarrow> StatClient \<Rightarrow> nat list \<Rightarrow> 'd \<Rightarrow> string option \<times> 'd" where
  "clients_setByColumnsNumber T r columnsNum = clients_set T r (map (\<lambda>n. clients_columns ! n) columnsNum)"

definition setAdded :: "'d clients_table \<Rightarrow> go_time \<Rightarrow> UUID \<Rightarrow> UUID \<Rightarrow> 'd \<Rightarrow> string option \<times> 'd" where
  "setAdded T now roomID i = clients_set T ((new_client roomID i)\<lparr>cl_Added := now\<rparr>) []"

definition setLoadded :: "'d clients_table \<Rightarrow> go_time \<Rightarrow> UUID \<Rightarrow> UUID \<Rightarrow> 'd \<Rightarrow> string option \<times> 'd" where
  "setLoadded T now roomID i =
     clients_setByColumnsNumber T ((new_client roomID i)\<lparr>cl_Loadded := now\<rparr>) [cColLoadded]"

definition setStarted :: "'d clients_table \<Rightarrow> go_time \<Rightarrow> UUID \<Rightarrow> UUID \<Rightarrow> 'd \<Rightarrow> string option \<times> 'd" where
  "setStarted T now roomID i =
     clients_setByColumnsNumber T ((new_client roomID i)\<lparr>cl_Started := now\<rparr>) [cColStarted]"

definition setLeave :: "'d clients_table \<Rightarrow> go_time \<Rightarrow> UUID \<Rightarrow> UUID \<Rightarrow> 'd \<Rightarrow> string option \<times> 'd" where
  "setLeave T now roomID i =
     clients_setByColumnsNumber T ((new_client roomID i)\<lparr>cl_Leave := now\<rparr>) [cColLeave]"

definition setDisconnected :: "'d clients_table \<Rightarrow> go_time \<Rightarrow> UUID \<Rightarrow> UUID \<Rightarrow> 'd \<Rightarrow> string option \<times> 'd" where
  "setDisconnected T now roomID i =
     clients_setByColumnsNumber T ((new_client roomID i)\<lparr>cl_Disconnected := now\<rparr>) [cColDisconnected]"

definition setGameStat :: "'d clients_table \<Rightarrow> UUID \<Rightarrow> UUID \<Rightarrow> bytes \<Rightarrow> 'd \<Rightarrow> string option \<times> 'd" where
  "setGameStat T roomID i gameStat =
     clients_setByColumnsNumber T ((new_client roomID i)\<lparr>cl_GameStat := gameStat\<rparr>) [cColGameStat]"

text \<open>The receiver behind the commands: these operations at one moment.\<close>

definition stats_database :: "'d rooms_table \<Rightarrow> 'd clients_table \<Rightarrow> go_time \<Rightarrow> 'd stats_db" where
  "stats_database R C now =
     \<lparr> sd_setCreating = setCreating R now, sd_setRunning = setRunning R now, sd_setClosed = setClosed R now,
       sd_setStopped = setStopped R now, sd_setAdded = setAdded C now, sd_setLoadded = setLoadded C now,
       sd_setStarted = setStarted C now, sd_setLeave = setLeave C now, sd_setDisconnected = setDisconnected C now,
       sd_getByCreated = getByCreated R \<rparr>"


section \<open>What the statements do\<close>

text \<open>
  The documented behaviour of the statements, over the rows of the table of rooms: an insert writes all columns, an
  update only those named, creating the row if there is none; a time is stored as \<open>keep\<close> makes it (the column holds
  milliseconds); a number must fit the column's 32 bits with sign; the table of clients is another one.
\<close>

definition room_keep :: "(go_time \<Rightarrow> go_time) \<Rightarrow> StatRoom \<Rightarrow> StatRoom" where
  "room_keep keep r = r\<lparr>sr_Created := keep (sr_Created r), sr_Started := keep (sr_Started r),
     sr_Closed := keep (sr_Closed r), sr_Stopped := keep (sr_Stopped r)\<rparr>"

definition room_merge :: "string list \<Rightarrow> StatRoom \<Rightarrow> StatRoom \<Rightarrow> StatRoom" where
  "room_merge cols new old =
     \<lparr> sr_ID = sr_ID old,
       sr_RoomNum = (if ''room_num'' \<in> set cols then sr_RoomNum new else sr_RoomNum old),
       sr_Created = (if ''created'' \<in> set cols then sr_Created new else sr_Created old),
       sr_Started = (if ''started'' \<in> set cols then sr_Started new else sr_Started old),
       sr_Closed = (if ''closed'' \<in> set cols then sr_Closed new else sr_Closed old),
       sr_Stopped = (if ''stopped'' \<in> set cols then sr_Stopped new else sr_Stopped old),
       sr_State = (if ''state'' \<in> set cols then sr_State new else sr_State old) \<rparr>"

definition rooms_laws :: "'d rooms_table \<Rightarrow> 'd clients_table \<Rightarrow> (go_time \<Rightarrow> go_time) \<Rightarrow> ('d \<Rightarrow> UUID \<rightharpoonup> StatRoom) \<Rightarrow> bool" where
  "rooms_laws R C keep rows \<longleftrightarrow>
     (\<forall>r d. unat (sr_RoomNum r) < 2 ^ 31 \<longrightarrow>
        fst (rt_Insert R r d) = None \<and> rows (snd (rt_Insert R r d)) = (rows d)(sr_ID r \<mapsto> room_keep keep r))
   \<and> (\<forall>cols r d. unat (sr_RoomNum r) < 2 ^ 31 \<longrightarrow>
        fst (rt_Update R cols r d) = None
      \<and> rows (snd (rt_Update R cols r d)) = (rows d)(sr_ID r \<mapsto>
          room_merge cols (room_keep keep r) (case rows d (sr_ID r) of Some old \<Rightarrow> old | None \<Rightarrow> new_room (sr_ID r))))
   \<and> (\<forall>c d. rows (snd (ct_Insert C c d)) = rows d) \<and> (\<forall>cols c d. rows (snd (ct_Update C cols c d)) = rows d)"

section \<open>Lemmas\<close>

lemma setByColumns_simps [simp]:
  "rooms_setByColumnsNumber R r [rColStartded, rColState] = rt_Update R [''started'', ''state''] r"
  "rooms_setByColumnsNumber R r [rColClosed, rColState] = rt_Update R [''closed'', ''state''] r"
  "rooms_setByColumnsNumber R r [rColStopped, rColState] = rt_Update R [''stopped'', ''state''] r"
  by (simp_all add: rooms_setByColumnsNumber_def rooms_set_def rooms_columns_def rColStartded_def rColClosed_def
      rColStopped_def rColState_def)

lemma client_columns_simps [simp]:
  "clients_setByColumnsNumber C r [cColLoadded] = ct_Update C [''loadded''] r"
  "clients_setByColumnsNumber C r [cColStarted] = ct_Update C [''started''] r"
  "clients_setByColumnsNumber C r [cColLeave] = ct_Update C [''leave''] r"
  "clients_setByColumnsNumber C r [cColDisconnected] = ct_Update C [''disconnected''] r"
  "clients_setByColumnsNumber C r [cColGameStat] = ct_Update C [''game_stat''] r"
  by (simp_all add: clients_setByColumnsNumber_def clients_set_def clients_columns_def cColLoadded_def cColStarted_def
      cColLeave_def cColDisconnected_def cColGameStat_def)

lemma new_room_simps [simp]: "sr_ID (new_room i) = i" "sr_RoomNum (new_room i) = 0"
  by (simp_all add: new_room_def)

text \<open>The effect of the operations on the rows.\<close>

lemma room_merge_simps [simp]:
  "room_merge [''started'', ''state''] r old = old\<lparr>sr_Started := sr_Started r, sr_State := sr_State r\<rparr>"
  "room_merge [''closed'', ''state''] r old = old\<lparr>sr_Closed := sr_Closed r, sr_State := sr_State r\<rparr>"
  "room_merge [''stopped'', ''state''] r old = old\<lparr>sr_Stopped := sr_Stopped r, sr_State := sr_State r\<rparr>"
  by (cases old; simp add: room_merge_def)+

lemma Update_rows:
  assumes "rooms_laws R C keep rows" and "sr_RoomNum r = 0" and "sr_ID r = i"
  shows "rows (snd (rt_Update R cols r d)) = (rows d)(i \<mapsto>
    room_merge cols (room_keep keep r) (case rows d i of Some old \<Rightarrow> old | None \<Rightarrow> new_room i))"
  using assms(1,2) unfolding rooms_laws_def assms(3) [symmetric] by simp

lemma set_state_rows:
  assumes "rooms_laws R C keep rows"
  defines "old \<equiv> \<lambda>d i. case rows d i of Some r \<Rightarrow> r | None \<Rightarrow> new_room i"
  shows "rows (snd (setRunning R now i d)) = (rows d)(i \<mapsto> (old d i)\<lparr>sr_Started := keep now, sr_State := 1\<rparr>)"
    and "rows (snd (setClosed R now i d)) = (rows d)(i \<mapsto> (old d i)\<lparr>sr_Closed := keep now, sr_State := 2\<rparr>)"
    and "rows (snd (setStopped R now i d)) = (rows d)(i \<mapsto> (old d i)\<lparr>sr_Stopped := keep now, sr_State := 3\<rparr>)"
  by (simp_all add: old_def setRunning_def setClosed_def setStopped_def Update_rows [OF assms(1)] room_keep_def state_code_def)

lemma setCreating_rows:
  assumes "rooms_laws R C keep rows" and "unat n < 2 ^ 31"
  shows "fst (setCreating R now i n d) = None"
    and "rows (snd (setCreating R now i n d)) =
      (rows d)(i \<mapsto> room_keep keep ((new_room i)\<lparr>sr_RoomNum := n, sr_Created := now, sr_State := 0\<rparr>))"
  using assms by (simp_all add: rooms_laws_def setCreating_def rooms_set_def state_code_def)

lemma client_rows:
  assumes "rooms_laws R C keep rows"
  shows "rows (snd (setAdded C now i j d)) = rows d" "rows (snd (setLoadded C now i j d)) = rows d"
    "rows (snd (setStarted C now i j d)) = rows d" "rows (snd (setLeave C now i j d)) = rows d"
    "rows (snd (setDisconnected C now i j d)) = rows d"
  using assms
  by (simp_all add: rooms_laws_def setAdded_def setLoadded_def setStarted_def setLeave_def setDisconnected_def clients_set_def)

text \<open>The numbers and states of the rows; the commands change them as \<open>stat_change\<close> says.\<close>

definition row_states :: "(UUID \<rightharpoonup> StatRoom) \<Rightarrow> (UUID \<rightharpoonup> u32 \<times> u8)" where
  "row_states t = (\<lambda>i. map_option (\<lambda>r. (sr_RoomNum r, sr_State r)) (t i))"

lemma row_states_upd [simp]: "row_states (t(i \<mapsto> r)) = (row_states t)(i \<mapsto> (sr_RoomNum r, sr_State r))"
  by (simp add: row_states_def fun_eq_iff)

lemma ComRoomCreated_rows:
  assumes "rooms_laws R C keep rows" and "small_create (2 ^ 31) (CmdSetRoomCreated, data)"
  shows "row_states (rows (snd (snd (ComRoomCreated (stats_database R C now) ans cmd data d)))) =
    stat_change (CmdSetRoomCreated, data) (row_states (rows d))"
proof -
  let ?q = "snd (rc_Unmarshal data rc_zero)"
  have n: "unat (rc_RoomNum ?q) < 2 ^ 31" using assms(2) by (simp add: small_create_def)
  obtain d' where d': "setCreating R now (rc_RoomID ?q) (rc_RoomNum ?q) d = (None, d')"
    using setCreating_rows(1) [OF assms(1) n, of now "rc_RoomID ?q" d] by (metis prod.collapse)
  have "rows d' = (rows d)(rc_RoomID ?q \<mapsto> room_keep keep ((new_room (rc_RoomID ?q))\<lparr>sr_RoomNum := rc_RoomNum ?q,
     sr_Created := now, sr_State := 0\<rparr>))"
    using setCreating_rows(2) [OF assms(1) n, of now "rc_RoomID ?q" d] d' by simp
  then show ?thesis
    by (simp add: ComRoomCreated_def stats_database_def Let_def d' stat_change_def room_keep_def)
qed

lemma ComRoomStateChanged_rows:
  assumes "rooms_laws R C keep rows"
  shows "row_states (rows (snd (ComRoomStateChanged (stats_database R C now) data d))) =
    stat_change (CmdSetRoomState, data) (row_states (rows d))"
proof -
  have c: "CmdSetRoomState \<noteq> CmdSetRoomCreated" by (simp add: CmdSetRoomState_def CmdSetRoomCreated_def)
  show ?thesis
    by (auto simp: ComRoomStateChanged_def stats_database_def Let_def set_state_rows [OF assms] stat_change_def c
        row_states_def fun_eq_iff split: option.split)
qed

lemma ComClientStatus_rows:
  assumes "rooms_laws R C keep rows"
  shows "rows (snd (ComClientStatus (stats_database R C now) data d)) = rows d"
  by (simp add: ComClientStatus_def stats_database_def Let_def client_rows [OF assms])

section \<open>What the model shows\<close>

text \<open>The game statistic that a client's message carries is not stored: no command calls \<open>setGameStat\<close>.\<close>

lemma game_stat_lost:
  assumes "length i = 16" and "length j = 16" and "g \<noteq> []"
  shows "ComClientStatus db (snd (SendClientState s i j [g])) d = ComClientStatus db (snd (SendClientState s i j [[0]])) d"
  using assms
  by (simp add: ComClientStatus_def SendClientState_def cs_Unmarshal_def cs_Marshal_def codec_simps Let_def rd_fill_all)

text \<open>A second message that a room was created, for instance repeated, erases what was known of the room.\<close>

lemma created_again_erases:
  assumes "rooms_laws R C keep rows" and "unat n < 2 ^ 31"
  shows "rows (snd (setCreating R now i n d)) i =
    Some (room_keep keep ((new_room i)\<lparr>sr_RoomNum := n, sr_Created := now, sr_State := 0\<rparr>))"
  using setCreating_rows(2) [OF assms] by simp

end
