(* ===== verification/UsersDb.thy ===== *)
theory UsersDb
  imports Users
begin

text \<open>
  \<open>services/teousers/db.go\<close>: the table of users. The statements that \<open>gocqlx\<close> builds from the columns are parameters,
  with their documented behaviour as a predicate; the operations on the table are defined over them, and give the database that
  the handlers of \<open>Users\<close> use.
\<close>

section \<open>Statements\<close>

text \<open>Insert and update of the named columns; select of the named columns by the key, and by a named column; delete by the key.\<close>

record 'd users_cql =
  uc_Insert :: "string list \<Rightarrow> User \<Rightarrow> 'd \<Rightarrow> string option \<times> 'd"
  uc_Update :: "string list \<Rightarrow> User \<Rightarrow> 'd \<Rightarrow> string option \<times> 'd"
  uc_Get :: "string list \<Rightarrow> UUID \<Rightarrow> 'd \<Rightarrow> string + User"
  uc_SelectWhere :: "string list \<Rightarrow> string \<Rightarrow> UUID \<Rightarrow> 'd \<Rightarrow> string + User"
  uc_Delete :: "UUID \<Rightarrow> 'd \<Rightarrow> string option \<times> 'd"

section \<open>Operations\<close>

definition users_columns :: "string list" where
  "users_columns = [''id'', ''access_token'', ''prefix'', ''name'', ''avatar_id'', ''gravatar_id'', ''online'', ''last_online'', ''state'']"

definition users_set :: "'d users_cql \<Rightarrow> User \<Rightarrow> string list \<Rightarrow> 'd \<Rightarrow> string option \<times> 'd" where
  "users_set Q u columns = (if length columns = 0 then uc_Insert Q users_columns u else uc_Update Q columns u)"

text \<open>\<open>get\<close> reads into its argument, which the library refuses when it is no pointer.\<close>

definition users_get :: "'d users_cql \<Rightarrow> bool \<Rightarrow> UUID \<Rightarrow> string list \<Rightarrow> 'd \<Rightarrow> string + User" where
  "users_get Q is_pointer i columns d =
     (if \<not> is_pointer then Inl ''expected a pointer''
      else uc_Get Q (if columns = [] then users_columns else columns) i d)"

definition users_getAccess :: "'d users_cql \<Rightarrow> UserResponce \<Rightarrow> 'd \<Rightarrow> string + UserResponce" where
  "users_getAccess Q res d =
     (case uc_SelectWhere Q [users_columns ! 0, users_columns ! 1, users_columns ! 2] (users_columns ! 1) (us_AccessToken res) d of
        Inl e \<Rightarrow> Inl e
      | Inr u \<Rightarrow> Inr (res\<lparr>us_ID := usr_ID u, us_AccessToken := usr_AccessToken u, us_Prefix := usr_Prefix u\<rparr>))"

definition users_delete :: "'d users_cql \<Rightarrow> UUID \<Rightarrow> 'd \<Rightarrow> string option \<times> 'd" where
  "users_delete Q = uc_Delete Q"

text \<open>
  What the handlers call: \<open>get\<close> of a new user structure's address and of a request by value, both with the
  column of the key; \<open>getAccess\<close> of the address of an answer; \<open>set\<close> of all columns.
\<close>

definition users_database :: "'d users_cql \<Rightarrow> 'd users_db" where
  "users_database Q =
     \<lparr> db_get = (\<lambda>i d. case users_get Q True i [users_columns ! 0] d of Inl e \<Rightarrow> Some e | Inr _ \<Rightarrow> None),
       db_get_req = (\<lambda>i d. case users_get Q False i [users_columns ! 0] d of Inl e \<Rightarrow> Some e | Inr _ \<Rightarrow> None),
       db_getAccess = users_getAccess Q, db_set = (\<lambda>u. users_set Q u []) \<rparr>"

section \<open>What the statements do\<close>

text \<open>
  The documented behaviour over the rows: an insert of all columns makes the row; a select finds a row with the value, or tells
  that there is none, and fills the columns it names; a delete takes the row out.
\<close>

definition users_table_laws :: "'d users_cql \<Rightarrow> ('d \<Rightarrow> UUID \<rightharpoonup> User) \<Rightarrow> bool" where
  "users_table_laws Q rows \<longleftrightarrow>
     (\<forall>u d. fst (uc_Insert Q users_columns u d) = None \<and> rows (snd (uc_Insert Q users_columns u d)) = (rows d)(usr_ID u \<mapsto> u))
   \<and> (\<forall>cols t d. case uc_SelectWhere Q cols ''access_token'' t d of
        Inl _ \<Rightarrow> \<forall>u \<in> ran (rows d). usr_AccessToken u \<noteq> t
      | Inr r \<Rightarrow> \<exists>u \<in> ran (rows d). usr_AccessToken u = t \<and> (''id'' \<in> set cols \<longrightarrow> usr_ID r = usr_ID u)
          \<and> (''access_token'' \<in> set cols \<longrightarrow> usr_AccessToken r = t) \<and> (''prefix'' \<in> set cols \<longrightarrow> usr_Prefix r = usr_Prefix u))
   \<and> (\<forall>cols i d. (\<exists>u. uc_Get Q cols i d = Inr u) \<longleftrightarrow> rows d i \<noteq> None)
   \<and> (\<forall>i d. fst (uc_Delete Q i d) = None \<and> rows (snd (uc_Delete Q i d)) = (rows d)(i := None))"

text \<open>The same for what the handlers call.\<close>

definition users_laws :: "'u users_db \<Rightarrow> ('u \<Rightarrow> UUID \<rightharpoonup> User) \<Rightarrow> bool" where
  "users_laws D users \<longleftrightarrow>
     (\<forall>u d. fst (db_set D u d) = None \<and> users (snd (db_set D u d)) = (users d)(usr_ID u \<mapsto> u))
   \<and> (\<forall>q d. case db_getAccess D q d of
        Inl _ \<Rightarrow> \<forall>u \<in> ran (users d). usr_AccessToken u \<noteq> us_AccessToken q
      | Inr r \<Rightarrow> \<exists>u \<in> ran (users d). usr_AccessToken u = us_AccessToken q \<and> r = q\<lparr>us_ID := usr_ID u, us_Prefix := usr_Prefix u\<rparr>)
   \<and> (\<forall>i d. (db_get D i d = None) = (users d i \<noteq> None))
   \<and> (\<forall>i d. db_get_req D i d \<noteq> None)"

lemma users_lawsD:
  assumes "users_laws D users"
  shows "fst (db_set D u d) = None" and "users (snd (db_set D u d)) = (users d)(usr_ID u \<mapsto> u)"
    and "(db_get D i d = None) = (users d i \<noteq> None)" and "db_get_req D i d \<noteq> None"
  using assms by (simp_all add: users_laws_def)

lemma users_column_names [simp]:
  "users_columns ! 0 = ''id''" "users_columns ! 1 = ''access_token''" "users_columns ! 2 = ''prefix''"
  "users_columns ! Suc 0 = ''access_token''"
  by (simp_all add: users_columns_def numeral_2_eq_2)

lemma users_getAccess_law:
  assumes "users_table_laws Q rows"
  shows "case users_getAccess Q q d of
      Inl _ \<Rightarrow> \<forall>u \<in> ran (rows d). usr_AccessToken u \<noteq> us_AccessToken q
    | Inr r \<Rightarrow> \<exists>u \<in> ran (rows d). usr_AccessToken u = us_AccessToken q \<and> r = q\<lparr>us_ID := usr_ID u, us_Prefix := usr_Prefix u\<rparr>"
proof -
  let ?s = "uc_SelectWhere Q [''id'', ''access_token'', ''prefix''] ''access_token'' (us_AccessToken q) d"
  have law: "case ?s of
        Inl _ \<Rightarrow> \<forall>u \<in> ran (rows d). usr_AccessToken u \<noteq> us_AccessToken q
      | Inr r \<Rightarrow> \<exists>u \<in> ran (rows d). usr_AccessToken u = us_AccessToken q \<and> usr_ID r = usr_ID u
          \<and> usr_AccessToken r = us_AccessToken q \<and> usr_Prefix r = usr_Prefix u"
    using assms unfolding users_table_laws_def
    by (elim conjE allE [where x = "[''id'', ''access_token'', ''prefix'']"] allE [where x = "us_AccessToken q"] allE [where x = d])
      (cases ?s; simp)
  show ?thesis
  proof (cases ?s)
    case (Inl e)
    then show ?thesis using law by (simp add: users_getAccess_def)
  next
    case (Inr r)
    then obtain u where u: "u \<in> ran (rows d)" "usr_AccessToken u = us_AccessToken q" "usr_ID r = usr_ID u"
      "usr_AccessToken r = us_AccessToken q" "usr_Prefix r = usr_Prefix u" using law by auto
    have "q\<lparr>us_ID := usr_ID u, us_AccessToken := us_AccessToken q, us_Prefix := usr_Prefix u\<rparr> = q\<lparr>us_ID := usr_ID u, us_Prefix := usr_Prefix u\<rparr>"
      by simp
    then show ?thesis using Inr u by (auto simp: users_getAccess_def)
  qed
qed

lemma users_database_laws:
  assumes "users_table_laws Q rows"
  shows "users_laws (users_database Q) rows"
  unfolding users_laws_def
proof (intro conjI allI)
  fix u d
  show "fst (db_set (users_database Q) u d) = None" "rows (snd (db_set (users_database Q) u d)) = (rows d)(usr_ID u \<mapsto> u)"
    using assms by (simp_all add: users_table_laws_def users_database_def users_set_def)
next
  fix q d
  show "case db_getAccess (users_database Q) q d of
      Inl _ \<Rightarrow> \<forall>u \<in> ran (rows d). usr_AccessToken u \<noteq> us_AccessToken q
    | Inr r \<Rightarrow> \<exists>u \<in> ran (rows d). usr_AccessToken u = us_AccessToken q \<and> r = q\<lparr>us_ID := usr_ID u, us_Prefix := usr_Prefix u\<rparr>"
    using users_getAccess_law [OF assms] by (simp add: users_database_def)
next
  fix i d
  have "(\<exists>u. uc_Get Q [''id''] i d = Inr u) \<longleftrightarrow> rows d i \<noteq> None"
    using assms by (simp add: users_table_laws_def)
  then show "(db_get (users_database Q) i d = None) = (rows d i \<noteq> None)"
    by (cases "uc_Get Q [''id''] i d") (simp_all add: users_database_def users_get_def)
  show "db_get_req (users_database Q) i d \<noteq> None"
    by (simp add: users_database_def users_get_def)
qed

text \<open>A user with the id of a request is never found, because the request is passed by value: creating a user with an id that is taken
  replaces that user, and the error that says so is never returned.\<close>

lemma existing_user_replaced:
  assumes "users_table_laws Q rows" and "ue_db env = users_database Q"
    and "ur_UnmarshalBinary (ue_lib env) newID data ur_zero = Inr (None, req)" and "ur_ID req \<noteq> emptyUUID"
    and "rows d (ur_ID req) = Some old"
  shows "\<exists>res d'. ComCreateUser env (newID, newID2, tok) now cmd data d = Inr (Some res, ue_answer env cmd (us_MarshalBinary res), [(cmd, us_MarshalBinary res)], d')
    \<and> rows d' (ur_ID req) = Some \<lparr> usr_ID = ur_ID req, usr_AccessToken = tok, usr_Prefix = ur_Prefix req, usr_Name = ''Player-1'', usr_LastOnline = now \<rparr>"
proof -
  let ?u = "\<lparr> usr_ID = ur_ID req, usr_AccessToken = tok, usr_Prefix = ur_Prefix req, usr_Name = ''Player-1'', usr_LastOnline = now \<rparr>"
  have laws: "fst (db_set (ue_db env) ?u d) = None" "rows (snd (db_set (ue_db env) ?u d)) = (rows d)(usr_ID ?u \<mapsto> ?u)"
    "db_get_req (ue_db env) (ur_ID req) d \<noteq> None"
    unfolding assms(2) using users_lawsD(1,2,4) [OF users_database_laws [OF assms(1)]] by (simp_all only: not_False_eq_True)
  from laws(3) obtain e where g: "db_get_req (ue_db env) (ur_ID req) d = Some e" by blast
  obtain d' where s: "db_set (ue_db env) ?u d = (None, d')"
    using laws(1) by (cases "db_set (ue_db env) ?u d") simp
  have "rows d' (ur_ID req) = Some ?u" using laws(2) by (simp add: s)
  then show ?thesis using g s assms(3,4) by (simp add: ComCreateUser_def Let_def)
qed

end
