(* ===== verification/CdbApp.thy ===== *)
theory CdbApp
  imports TeoApi RoomDb UsersDb Teocdb
begin

text \<open>
  The database service, \<open>teonet/app/teocdb/main.go\<close>: the table of its commands, which \<open>teoapi\<close>
  executes over the key-value database, the users and the room statistic. Its three databases are
  parts of one state; the values of \<open>TimeUUID()\<close> and of the clock come from the environment.
\<close>

section \<open>State\<close>

record ('d, 'u, 'r) cdb_app =
  ca_cdb :: 'd
  ca_users :: 'u
  ca_rooms :: 'r
  ca_answers :: "(string \<times> u8 \<times> bytes) list"
  ca_turn :: nat
  ca_stopped :: bool

text \<open>The environment; the UUIDs and the times are those of a turn (one command).\<close>

record ('d, 'row, 'u, 'r) app_env =
  ae_cdb :: "('d, 'row) cdb_env"
  ae_users :: "'u users_env"
  ae_rooms :: "'r rooms_table"
  ae_clients :: "'r clients_table"
  ae_answer :: "u8 \<Rightarrow> bytes \<Rightarrow> string option"
  ae_uuid :: "nat \<Rightarrow> nat \<Rightarrow> UUID"
  ae_now :: "nat \<Rightarrow> go_time"
  ae_unix :: "nat \<Rightarrow> int"

section \<open>Commands\<close>

text \<open>
  What a handler did to the application: its answers go back to the sender of the packet. A handler that
  panics, or does not return, stops the service; what would follow is not modelled.
\<close>

definition answered :: "api_packet \<Rightarrow> (u8 \<times> bytes) list \<Rightarrow> ('d, 'u, 'r) cdb_app \<Rightarrow> ('d, 'u, 'r) cdb_app" where
  "answered p ans s = s\<lparr>ca_answers := ca_answers s @ map (\<lambda>(c, b). (ap_From p, c, b)) ans, ca_turn := ca_turn s + 1\<rparr>"

definition on_cdb :: "(u8 \<Rightarrow> bytes \<Rightarrow> 'd \<Rightarrow> 'd handled) \<Rightarrow> api_packet
    \<Rightarrow> ('d, 'u, 'r) cdb_app \<Rightarrow> string option \<times> ('d, 'u, 'r) cdb_app" where
  "on_cdb h p s =
     (if ca_stopped s then (None, s)
      else case h (ap_Cmd p) (ap_Data p) (ca_cdb s) of
             None \<Rightarrow> (None, s\<lparr>ca_stopped := True\<rparr>)
           | Some (err, ans, d) \<Rightarrow> (err, answered p ans (s\<lparr>ca_cdb := d\<rparr>)))"

definition on_users :: "('d, 'row, 'u, 'r) app_env \<Rightarrow> api_packet
    \<Rightarrow> ('d, 'u, 'r) cdb_app \<Rightarrow> string option \<times> ('d, 'u, 'r) cdb_app" where
  "on_users env p s =
     (if ca_stopped s then (None, s)
      else let u = ae_uuid env (ca_turn s)
           in case CheckUser (ae_users env) (u 0) (u 1, u 2, u 3) (ae_unix env (ca_turn s)) (ap_Cmd p) (ap_Data p) (ca_users s) of
                Inl _ \<Rightarrow> (None, s\<lparr>ca_stopped := True\<rparr>)
              | Inr (_, err, ans, d) \<Rightarrow> (err, answered p ans (s\<lparr>ca_users := d\<rparr>)))"

definition rooms_db :: "('d, 'row, 'u, 'r) app_env \<Rightarrow> ('d, 'u, 'r) cdb_app \<Rightarrow> 'r stats_db" where
  "rooms_db env s = stats_database (ae_rooms env) (ae_clients env) (ae_now env (ca_turn s))"

text \<open>The four commands of the statistic; their errors are not returned.\<close>

definition on_RoomCreated :: "('d, 'row, 'u, 'r) app_env \<Rightarrow> api_packet
    \<Rightarrow> ('d, 'u, 'r) cdb_app \<Rightarrow> string option \<times> ('d, 'u, 'r) cdb_app" where
  "on_RoomCreated env p s =
     (if ca_stopped s then (None, s)
      else case ComRoomCreated (rooms_db env s) (ae_answer env) (ap_Cmd p) (ap_Data p) (ca_rooms s) of
             (_, ans, d) \<Rightarrow> (None, answered p ans (s\<lparr>ca_rooms := d\<rparr>)))"

definition on_RoomState :: "('d, 'row, 'u, 'r) app_env \<Rightarrow> api_packet
    \<Rightarrow> ('d, 'u, 'r) cdb_app \<Rightarrow> string option \<times> ('d, 'u, 'r) cdb_app" where
  "on_RoomState env p s =
     (if ca_stopped s then (None, s)
      else (None, answered p [] (s\<lparr>ca_rooms := snd (ComRoomStateChanged (rooms_db env s) (ap_Data p) (ca_rooms s))\<rparr>)))"

definition on_ClientState :: "('d, 'row, 'u, 'r) app_env \<Rightarrow> api_packet
    \<Rightarrow> ('d, 'u, 'r) cdb_app \<Rightarrow> string option \<times> ('d, 'u, 'r) cdb_app" where
  "on_ClientState env p s =
     (if ca_stopped s then (None, s)
      else (None, answered p [] (s\<lparr>ca_rooms := snd (ComClientStatus (rooms_db env s) (ap_Data p) (ca_rooms s))\<rparr>)))"

definition on_RoomsByCreated :: "('d, 'row, 'u, 'r) app_env \<Rightarrow> api_packet
    \<Rightarrow> ('d, 'u, 'r) cdb_app \<Rightarrow> string option \<times> ('d, 'u, 'r) cdb_app" where
  "on_RoomsByCreated env p s =
     (if ca_stopped s then (None, s)
      else (None, answered p (snd (ComGetRoomsByCreated (rooms_db env s) (ae_answer env) (ap_Cmd p) (ap_Data p) (ca_rooms s))) s))"

definition command :: "u8 \<Rightarrow> string \<Rightarrow> (api_packet \<Rightarrow> 's \<Rightarrow> string option \<times> 's) \<Rightarrow> 's Command" where
  "command cmd descr f = \<lparr> com_Cmd = cmd, com_Descr = descr, com_Func = f, com_Message = None, com_Count = 0 \<rparr>"

definition CheckUser_cmd :: u8 where "CheckUser_cmd = 133"

text \<open>The table, in the order of the calls of \<open>Add\<close>.\<close>

definition cdb_commands :: "('d, 'row, 'u, 'r) app_env \<Rightarrow> ('d, 'u, 'r) cdb_app Command list" where
  "cdb_commands env =
     [command CmdBinary ''Binary set, get, delete,list or plugin func command'' (on_cdb (cdb_CmdBinary (ae_cdb env))),
      command CmdSet ''Set text or json {key,value} to key-value database'' (on_cdb (cdb_CmdSet (ae_cdb env))),
      command CmdGet ''Get key and send answer with value in text or json format'' (on_cdb (cdb_CmdGet (ae_cdb env))),
      command CmdList ''List get not completed key and send answer with array of keys in text or json format''
        (on_cdb (cdb_CmdList (ae_cdb env))),
      command CheckUser_cmd ''Check and register user'' (on_users env),
      command CmdSetRoomCreated ''Room created'' (on_RoomCreated env),
      command CmdSetRoomState ''Room state changed'' (on_RoomState env),
      command CmdSetClientState ''Client state changed'' (on_ClientState env),
      command CmdRoomsByCreated ''Get rooms by created time'' (on_RoomsByCreated env),
      command CmdDelete ''Delete {key} from key-value database'' (on_cdb (cdb_CmdDelete (ae_cdb env))),
      command CmdFunc ''Execute plugin command {func(params...}'' (on_cdb (cdb_CmdFunc (ae_cdb env)))]"

definition cdb_api :: "('d, 'row, 'u, 'r) app_env \<Rightarrow> ('d, 'u, 'r) cdb_app Teoapi" where
  "cdb_api env = fold api_Add (cdb_commands env) \<lparr> api_name = ''teocdb'', api_com = [], api_NumW = 6 \<rparr>"

definition cdb_process :: "('d, 'row, 'u, 'r) app_env \<Rightarrow> api_packet \<Rightarrow> ('d, 'u, 'r) cdb_app \<Rightarrow> ('d, 'u, 'r) cdb_app" where
  "cdb_process env p s = snd (snd (api_Process p (cdb_api env) s))"

section \<open>Lemmas\<close>

lemma fold_api_Add: "api_com (fold api_Add cs api) = api_com api @ cs"
  by (induction cs arbitrary: api) (simp_all add: api_Add_def)

lemma cdb_api_com: "api_com (cdb_api env) = cdb_commands env"
  by (simp add: cdb_api_def fold_api_Add)

lemmas cmd_numbers = CmdBinary_def CmdSet_def CmdGet_def CmdList_def CheckUser_cmd_def CmdSetRoomCreated_def
  CmdSetRoomState_def CmdSetClientState_def CmdRoomsByCreated_def CmdDelete_def CmdFunc_def

text \<open>The commands have different numbers, 129 to 139.\<close>

lemma cdb_Cmds: "api_Cmds (cdb_api env) = [129, 130, 131, 132, 133, 134, 135, 136, 137, 138, 139]"
  by (simp add: api_Cmds_def cdb_api_com cdb_commands_def command_def cmd_numbers)

lemma find_com_distinct:
  "distinct (map com_Cmd cs) \<Longrightarrow> c \<in> set cs \<Longrightarrow> find_com (com_Cmd c) cs = Some c"
  by (induction cs) (auto simp: image_iff)

lemma cdb_process_command:
  assumes "command (ap_Cmd p) descr f \<in> set (cdb_commands env)"
  shows "cdb_process env p s = snd (f p s)"
proof -
  have "distinct (map com_Cmd (cdb_commands env))"
    using cdb_Cmds [of env] by (simp add: api_Cmds_def cdb_api_com)
  from find_com_distinct [OF this assms]
  have "find_com (ap_Cmd p) (api_com (cdb_api env)) = Some (command (ap_Cmd p) descr f)"
    by (simp add: cdb_api_com command_def)
  from api_Process_known [OF this] show ?thesis
    by (simp add: cdb_process_def run_command_def command_def)
qed

text \<open>Each number reaches its handler; a packet with another number changes nothing.\<close>

lemma cdb_process_simps:
  "ap_Cmd p = CmdBinary \<Longrightarrow> cdb_process env p s = snd (on_cdb (cdb_CmdBinary (ae_cdb env)) p s)"
  "ap_Cmd p = CheckUser_cmd \<Longrightarrow> cdb_process env p s = snd (on_users env p s)"
  "ap_Cmd p = CmdSetRoomCreated \<Longrightarrow> cdb_process env p s = snd (on_RoomCreated env p s)"
  "ap_Cmd p = CmdSetRoomState \<Longrightarrow> cdb_process env p s = snd (on_RoomState env p s)"
  "ap_Cmd p = CmdSetClientState \<Longrightarrow> cdb_process env p s = snd (on_ClientState env p s)"
  by (rule cdb_process_command, simp add: cdb_commands_def, blast)+

lemma cdb_process_other:
  "ap_Cmd p \<notin> {129, 130, 131, 132, 133, 134, 135, 136, 137, 138, 139} \<Longrightarrow> cdb_process env p s = s"
  using api_Process_unknown [of p "cdb_api env" s] by (simp add: cdb_process_def cdb_Cmds)

text \<open>
  The client's commands for ids and queues with numbers of their own, 140 to 145, are not in the table:
  the service ignores them. They work only inside the binary command.
\<close>

lemma id_commands_ignored:
  "ap_Cmd p \<in> {CmdGetID, CmdSetID, CmdDeleteID, CmdListBody, CmdSetQueue, CmdGetQueue} \<Longrightarrow> cdb_process env p s = s"
  by (rule cdb_process_other)
    (auto simp: CmdGetID_def CmdSetID_def CmdDeleteID_def CmdListBody_def CmdSetQueue_def CmdGetQueue_def)


section \<open>The key-value service\<close>

text \<open>A request of a client through the binary command: sender, command, key, value, number of the request.\<close>

record kv_req =
  kq_from :: string
  kq_cmd :: u8
  kq_key :: string
  kq_val :: bytes
  kq_id :: u32

definition kv_packet :: "kv_req \<Rightarrow> api_packet" where
  "kv_packet r = \<lparr> ap_Cmd = CmdBinary, ap_From = kq_from r,
     ap_Data = kv_MarshalBinary (cdb_request (kq_cmd r) (kq_key r) [kq_val r] (kq_id r)) \<rparr>"

definition kv_wanted :: "kv_req \<Rightarrow> bool" where
  "kv_wanted r \<longleftrightarrow> kq_cmd r \<in> {CmdSet, CmdGet, CmdDelete} \<and> length (kq_key r) < 65536 \<and> length (kq_val r) < 2 ^ 32"

text \<open>The service that the clients expect, over a map: the answer to a request (who gets it, its number, value and
  error) and the map afterwards.\<close>

fun kv_service :: "kv_req list \<Rightarrow> (string \<rightharpoonup> bytes) \<Rightarrow> (string \<times> u32 \<times> bytes \<times> string) list \<times> (string \<rightharpoonup> bytes)" where
  "kv_service [] m = ([], m)"
| "kv_service (r # rs) m =
     (case kv_service rs (cmd_effect (kq_cmd r) (kq_key r) (kq_val r) m) of
        (as, m') \<Rightarrow> ((kq_from r, kq_id r, cmd_answer (kq_cmd r) (kq_key r) m) # as, m'))"

text \<open>How a client reads an answer.\<close>

definition kv_read :: "string \<times> u8 \<times> bytes \<Rightarrow> string \<times> u32 \<times> bytes \<times> string" where
  "kv_read a = (case a of (to, _, b) \<Rightarrow>
     let kv = kv_UnmarshalBinary b kv_zero in (to, kv_ID kv, kv_Value kv, kv_Err kv))"

definition small_values :: "(string \<rightharpoonup> bytes) \<Rightarrow> bool" where
  "small_values m \<longleftrightarrow> (\<forall>x \<in> ran m. length x < 2 ^ 32)"

lemma small_values_effect:
  "small_values m \<Longrightarrow> length v < 2 ^ 32 \<Longrightarrow> small_values (cmd_effect c k v m)"
  by (auto simp: small_values_def cmd_effect_def ran_def split: if_splits)

lemma kv_one:
  assumes "map_laws (env_q (ae_cdb env)) st" and "kv_wanted r" and "small_values (st (ca_cdb s))" and "\<not> ca_stopped s"
  shows "\<exists>d b. cdb_process env (kv_packet r) s = answered (kv_packet r) [(CmdBinary, b)] (s\<lparr>ca_cdb := d\<rparr>)
    \<and> st d = cmd_effect (kq_cmd r) (kq_key r) (kq_val r) (st (ca_cdb s))
    \<and> kv_read (kq_from r, CmdBinary, b) = (kq_from r, kq_id r, cmd_answer (kq_cmd r) (kq_key r) (st (ca_cdb s)))"
proof -
  let ?R = "cdb_request (kq_cmd r) (kq_key r) [kq_val r] (kq_id r)"
  let ?a = "cmd_answer (kq_cmd r) (kq_key r) (st (ca_cdb s))"
  let ?A = "?R\<lparr>kv_Value := fst ?a, kv_Err := snd ?a\<rparr>"
  have w: "kq_cmd r = CmdSet \<or> kq_cmd r = CmdGet \<or> kq_cmd r = CmdDelete"
    "length (kq_key r) < 65536" "length (kq_val r) < 2 ^ 32"
    using assms(2) by (auto simp: kv_wanted_def)
  obtain d where d: "st d = cmd_effect (kq_cmd r) (kq_key r) (kq_val r) (st (ca_cdb s))"
    "cdb_CmdBinary (ae_cdb env) CmdBinary (kv_MarshalBinary ?R) (ca_cdb s) = binary_answer (ae_cdb env) CmdBinary ?A d"
    using CmdBinary_spec [OF assms(1) w] by blast
  have "length (fst ?a) < 2 ^ 32" "length (snd ?a) < 256"
    using assms(3) by (auto simp: cmd_answer_def ErrNotFound_def small_values_def ran_def split: option.split)
  from decode_answer [OF w(2,3) this, of "kq_cmd r" "kq_id r"]
  have "kv_read (kq_from r, CmdBinary, kv_MarshalBinary ?A) = (kq_from r, kq_id r, ?a)"
    by (simp add: kv_read_def Let_def cdb_request_def)
  moreover have "cdb_process env (kv_packet r) s =
      answered (kv_packet r) [(CmdBinary, kv_MarshalBinary ?A)] (s\<lparr>ca_cdb := d\<rparr>)"
    using d(2) assms(4) by (simp add: cdb_process_simps kv_packet_def on_cdb_def binary_answer_def Let_def)
  ultimately show ?thesis using d(1) by blast
qed

lemma kv_all:
  assumes "map_laws (env_q (ae_cdb env)) st" and "list_all kv_wanted rs" and "small_values (st (ca_cdb s))" and "\<not> ca_stopped s"
  defines "s' \<equiv> fold (cdb_process env) (map kv_packet rs) s"
  shows "map kv_read (ca_answers s') = map kv_read (ca_answers s) @ fst (kv_service rs (st (ca_cdb s)))
    \<and> st (ca_cdb s') = snd (kv_service rs (st (ca_cdb s))) \<and> \<not> ca_stopped s'"
  using assms(2-4) unfolding s'_def
proof (induction rs arbitrary: s)
  case (Cons r rs)
  obtain d b where d: "cdb_process env (kv_packet r) s = answered (kv_packet r) [(CmdBinary, b)] (s\<lparr>ca_cdb := d\<rparr>)"
    "st d = cmd_effect (kq_cmd r) (kq_key r) (kq_val r) (st (ca_cdb s))"
    "kv_read (kq_from r, CmdBinary, b) = (kq_from r, kq_id r, cmd_answer (kq_cmd r) (kq_key r) (st (ca_cdb s)))"
    using kv_one [OF assms(1), of r s] Cons.prems by auto
  let ?s = "cdb_process env (kv_packet r) s"
  have "small_values (st (ca_cdb ?s))" "\<not> ca_stopped ?s"
    using Cons.prems d(1,2) by (simp_all add: answered_def small_values_effect kv_wanted_def)
  from Cons.IH [OF _ this] show ?case
    using Cons.prems(1) d by (simp add: answered_def kv_packet_def case_prod_beta)
qed simp

section \<open>The statistic of rooms\<close>

definition stat_packet :: "string \<Rightarrow> u8 \<times> bytes \<Rightarrow> api_packet" where
  "stat_packet from_peer m = \<lparr> ap_Cmd = fst m, ap_From = from_peer, ap_Data = snd m \<rparr>"

lemma stat_one:
  assumes "rooms_laws (ae_rooms env) (ae_clients env) keep rows" and "small_create (2 ^ 31) m" and "\<not> ca_stopped s"
  shows "row_states (rows (ca_rooms (cdb_process env (stat_packet f m) s))) = stat_change m (row_states (rows (ca_rooms s)))
     \<and> \<not> ca_stopped (cdb_process env (stat_packet f m) s)"
proof -
  obtain c data where m: "m = (c, data)" by force
  from assms(2) consider "c = CmdSetRoomCreated" | "c = CmdSetRoomState" | "c = CmdSetClientState"
    by (auto simp: m small_create_def)
  then show ?thesis
  proof cases
    case 1
    then show ?thesis
      using ComRoomCreated_rows [OF assms(1), of data] assms(2,3) m
      by (simp add: cdb_process_simps stat_packet_def on_RoomCreated_def rooms_db_def answered_def case_prod_beta)
  next
    case 2
    then show ?thesis
      using ComRoomStateChanged_rows [OF assms(1)] assms(3) m
      by (simp add: cdb_process_simps stat_packet_def on_RoomState_def rooms_db_def answered_def)
  next
    case 3
    have "stat_change (CmdSetClientState, data) t = t" for t
      by (simp add: stat_change_def CmdSetClientState_def CmdSetRoomCreated_def CmdSetRoomState_def)
    then show ?thesis
      using 3 ComClientStatus_rows [OF assms(1)] assms(3) m
      by (simp add: cdb_process_simps stat_packet_def on_ClientState_def rooms_db_def answered_def)
  qed
qed

lemma stat_all:
  assumes "rooms_laws (ae_rooms env) (ae_clients env) keep rows" and "list_all (small_create (2 ^ 31)) ms" and "\<not> ca_stopped s"
  shows "row_states (rows (ca_rooms (fold (cdb_process env) (map (stat_packet f) ms) s)))
     = fold stat_change ms (row_states (rows (ca_rooms s)))"
  using assms(2,3)
proof (induction ms arbitrary: s)
  case (Cons m ms)
  note one = stat_one [OF assms(1), of m s f]
  show ?case
    using Cons.IH [of "cdb_process env (stat_packet f m) s"] Cons.prems one by simp
qed simp

section \<open>Users\<close>

definition user_packet :: "uuid_lib \<Rightarrow> string \<Rightarrow> UserRequest \<Rightarrow> api_packet" where
  "user_packet L f req = \<lparr> ap_Cmd = CheckUser_cmd, ap_From = f, ap_Data = ur_MarshalBinary L req \<rparr>"

definition us_zero :: UserResponce where
  "us_zero = \<lparr> us_ReqID = 0, us_ID = emptyUUID, us_AccessToken = emptyUUID, us_Prefix = [] \<rparr>"

text \<open>A request as the client makes it: no dash in the prefix, an id that is one.\<close>

definition user_req :: "uuid_lib \<Rightarrow> UserRequest \<Rightarrow> bool" where
  "user_req L req \<longleftrightarrow> CHR ''-'' \<notin> set (ur_Prefix req) \<and> uu_Parse L (uu_String L (ur_ID req)) = Inr (ur_ID req)
     \<and> ur_ID req \<noteq> emptyUUID \<and> length (ur_ID req) = 16"

lemma decode_user_req:
  "user_req L req \<Longrightarrow> ur_UnmarshalBinary L newID (ur_MarshalBinary L req) old = Inr (None, req)"
  using ur_Unmarshal_Marshal [of req L newID old] by (simp add: user_req_def)

text \<open>The two ways of the command: the token is known, or a user is made.\<close>

lemma user_login:
  assumes "users_laws (ue_db (ae_users env)) users" and "user_req (ue_lib (ae_users env)) req"
    and "\<forall>c b. ue_answer (ae_users env) c b = None" and "\<not> ca_stopped s"
    and "u \<in> ran (users (ca_users s))" and "usr_AccessToken u = ur_ID req"
    and "\<forall>v \<in> ran (users (ca_users s)). usr_AccessToken v = ur_ID req \<longrightarrow> v = u"
  shows "cdb_process env (user_packet (ue_lib (ae_users env)) f req) s =
    answered (user_packet (ue_lib (ae_users env)) f req) [(CheckUser_cmd, us_MarshalBinary
      \<lparr> us_ReqID = ur_ReqID req, us_ID = usr_ID u, us_AccessToken = ur_ID req, us_Prefix = usr_Prefix u \<rparr>)] s"
proof -
  let ?q = "\<lparr> us_ReqID = ur_ReqID req, us_ID = emptyUUID, us_AccessToken = ur_ID req, us_Prefix = [] \<rparr>"
  let ?r = "\<lparr> us_ReqID = ur_ReqID req, us_ID = usr_ID u, us_AccessToken = ur_ID req, us_Prefix = usr_Prefix u \<rparr>"
  have "db_getAccess (ue_db (ae_users env)) ?q (ca_users s) =
      Inr \<lparr> us_ReqID = ur_ReqID req, us_ID = usr_ID u, us_AccessToken = ur_ID req, us_Prefix = usr_Prefix u \<rparr>"
  proof (cases "db_getAccess (ue_db (ae_users env)) ?q (ca_users s)")
    case (Inl e)
    then have "\<forall>v \<in> ran (users (ca_users s)). usr_AccessToken v \<noteq> ur_ID req"
      using assms(1) unfolding users_laws_def
      by (elim conjE allE [where x = "?q"] allE [where x = "ca_users s"]) simp
    then show ?thesis using assms(5,6) by blast
  next
    case (Inr r)
    then obtain v where "v \<in> ran (users (ca_users s))" "usr_AccessToken v = ur_ID req"
      "r = ?q\<lparr>us_ID := usr_ID v, us_Prefix := usr_Prefix v\<rparr>"
      using assms(1) unfolding users_laws_def
      by (elim conjE allE [where x = "?q"] allE [where x = "ca_users s"]) auto
    then show ?thesis using assms(7) Inr by simp
  qed
  then have "CheckUser (ae_users env) (ae_uuid env (ca_turn s) 0) (ae_uuid env (ca_turn s) 1, ae_uuid env (ca_turn s) 2,
      ae_uuid env (ca_turn s) 3) (ae_unix env (ca_turn s)) CheckUser_cmd (ur_MarshalBinary (ue_lib (ae_users env)) req) (ca_users s)
    = Inr (Some ?r, None, [(CheckUser_cmd, us_MarshalBinary ?r)], ca_users s)"
    using assms(3) by (simp add: CheckUser_def ComCheckAccess_def decode_user_req [OF assms(2)] Let_def)
  then show ?thesis
    using assms(4) by (simp add: cdb_process_simps on_users_def user_packet_def Let_def)
qed


definition made_user :: "UserRequest \<Rightarrow> UUID \<Rightarrow> int \<Rightarrow> User" where
  "made_user req tok now = \<lparr> usr_ID = ur_ID req, usr_AccessToken = tok, usr_Prefix = ur_Prefix req,
     usr_Name = ''Player-1'', usr_LastOnline = now \<rparr>"

lemma user_register:
  assumes "users_laws (ue_db (ae_users env)) users" and "user_req (ue_lib (ae_users env)) req"
    and "\<forall>c b. ue_answer (ae_users env) c b = None" and "\<not> ca_stopped s"
    and "\<forall>v \<in> ran (users (ca_users s)). usr_AccessToken v \<noteq> ur_ID req"
    and "users (ca_users s) (ur_ID req) = None" and "tok = ae_uuid env (ca_turn s) 3"
  shows "\<exists>d. cdb_process env (user_packet (ue_lib (ae_users env)) f req) s =
      answered (user_packet (ue_lib (ae_users env)) f req) [(CheckUser_cmd, us_MarshalBinary
        \<lparr> us_ReqID = ur_ReqID req, us_ID = ur_ID req, us_AccessToken = tok, us_Prefix = ur_Prefix req \<rparr>)] (s\<lparr>ca_users := d\<rparr>)
    \<and> users d = (users (ca_users s))(ur_ID req \<mapsto> made_user req tok (ae_unix env (ca_turn s)))"
proof -
  let ?q = "\<lparr> us_ReqID = ur_ReqID req, us_ID = emptyUUID, us_AccessToken = ur_ID req, us_Prefix = [] \<rparr>"
  let ?u = "made_user req tok (ae_unix env (ca_turn s))"
  let ?r = "\<lparr> us_ReqID = ur_ReqID req, us_ID = ur_ID req, us_AccessToken = tok, us_Prefix = ur_Prefix req \<rparr>"
  obtain e where e: "db_getAccess (ue_db (ae_users env)) ?q (ca_users s) = Inl e"
  proof (cases "db_getAccess (ue_db (ae_users env)) ?q (ca_users s)")
    case (Inr r)
    then have "\<exists>v \<in> ran (users (ca_users s)). usr_AccessToken v = ur_ID req"
      using assms(1) unfolding users_laws_def
      by (elim conjE allE [where x = "?q"] allE [where x = "ca_users s"]) auto
    then show ?thesis using assms(5) by blast
  qed
  have "db_get_req (ue_db (ae_users env)) (ur_ID req) (ca_users s) \<noteq> None"
    using users_lawsD(4) [OF assms(1)] .
  then obtain x where g: "db_get_req (ue_db (ae_users env)) (ur_ID req) (ca_users s) = Some x" by blast
  obtain d where d: "db_set (ue_db (ae_users env)) ?u (ca_users s) = (None, d)" "users d = (users (ca_users s))(ur_ID req \<mapsto> ?u)"
  proof -
    have "fst (db_set (ue_db (ae_users env)) ?u (ca_users s)) = None
      \<and> users (snd (db_set (ue_db (ae_users env)) ?u (ca_users s))) = (users (ca_users s))(usr_ID ?u \<mapsto> ?u)"
      using assms(1) unfolding users_laws_def by blast
    then show ?thesis using that by (cases "db_set (ue_db (ae_users env)) ?u (ca_users s)") (simp add: made_user_def)
  qed
  have "ur_ID req \<noteq> emptyUUID" using assms(2) by (simp add: user_req_def)
  then have "CheckUser (ae_users env) (ae_uuid env (ca_turn s) 0) (ae_uuid env (ca_turn s) 1, ae_uuid env (ca_turn s) 2, tok)
      (ae_unix env (ca_turn s)) CheckUser_cmd (ur_MarshalBinary (ue_lib (ae_users env)) req) (ca_users s)
    = Inr (Some ?r, None, [(CheckUser_cmd, us_MarshalBinary ?r)], d)"
    using check_user_answers [of req "ae_users env" ?q ?u tok "ae_unix env (ca_turn s)" ?r CheckUser_cmd "ca_users s"]
      assms(2,3) e g d(1) by (simp add: made_user_def user_req_def)
  then have "cdb_process env (user_packet (ue_lib (ae_users env)) f req) s =
      answered (user_packet (ue_lib (ae_users env)) f req) [(CheckUser_cmd, us_MarshalBinary ?r)] (s\<lparr>ca_users := d\<rparr>)"
    using assms(4) by (simp add: cdb_process_simps on_users_def user_packet_def Let_def assms(7))
  then show ?thesis using d(2) by blast
qed

section \<open>A service in memory\<close>

text \<open>Instances of the three databases, on which the laws hold.\<close>

definition mem_users :: "(UUID \<times> User) list users_cql" where
  "mem_users =
     \<lparr> uc_Insert = (\<lambda>cols u d. (None, (usr_ID u, u) # d)), uc_Update = (\<lambda>cols u d. (None, (usr_ID u, u) # d)),
       uc_Get = (\<lambda>cols i d. case map_of d i of None \<Rightarrow> Inl ''not found'' | Some u \<Rightarrow> Inr u),
       uc_SelectWhere = (\<lambda>cols col t d.
          case find (\<lambda>(i, u). usr_AccessToken u = t \<and> map_of d i = Some u) d of
            None \<Rightarrow> Inl ''not found'' | Some (_, u) \<Rightarrow> Inr u),
       uc_Delete = (\<lambda>i d. (None, filter (\<lambda>(j, _). j \<noteq> i) d)) \<rparr>"

lemma mem_users_laws: "users_table_laws mem_users map_of"
  unfolding users_table_laws_def
proof (intro conjI allI impI)
  fix cols t d
  show "case uc_SelectWhere mem_users cols ''access_token'' t d of
      Inl _ \<Rightarrow> \<forall>u \<in> ran (map_of d). usr_AccessToken u \<noteq> t
    | Inr r \<Rightarrow> \<exists>u \<in> ran (map_of d). usr_AccessToken u = t \<and> (''id'' \<in> set cols \<longrightarrow> usr_ID r = usr_ID u)
          \<and> (''access_token'' \<in> set cols \<longrightarrow> usr_AccessToken r = t) \<and> (''prefix'' \<in> set cols \<longrightarrow> usr_Prefix r = usr_Prefix u)"
  proof (cases "find (\<lambda>(i, u). usr_AccessToken u = t \<and> map_of d i = Some u) d")
    case None
    then have "usr_AccessToken u \<noteq> t" if "map_of d i = Some u" for i u
      using that map_of_SomeD [OF that] by (auto simp: find_None_iff)
    then show ?thesis using None by (auto simp: mem_users_def ran_def)
  next
    case (Some x)
    obtain i u where x: "x = (i, u)" by force
    then have "usr_AccessToken u = t" "map_of d i = Some u"
      using Some by (auto simp: find_Some_iff)
    then show ?thesis using Some x by (auto simp: mem_users_def intro: ranI)
  qed
next
  fix i d
  show "map_of (snd (uc_Delete mem_users i d)) = (map_of d)(i := None)"
    by (rule ext) (induction d; auto simp: mem_users_def)
qed (simp_all add: mem_users_def split: option.split)

definition mem_logins :: "(UUID \<times> User) list users_db" where
  "mem_logins = users_database mem_users"

definition mem_rooms :: "(UUID \<rightharpoonup> StatRoom) rooms_table" where
  "mem_rooms =
     \<lparr> rt_Insert = (\<lambda>r d. (None, d(sr_ID r \<mapsto> r))),
       rt_Update = (\<lambda>cols r d. (None, d(sr_ID r \<mapsto>
          room_merge cols r (case d (sr_ID r) of Some old \<Rightarrow> old | None \<Rightarrow> new_room (sr_ID r))))),
       rt_SelectCreated = (\<lambda>a b n d. Inr []) \<rparr>"

definition mem_clients :: "(UUID \<rightharpoonup> StatRoom) clients_table" where
  "mem_clients = \<lparr> ct_Insert = (\<lambda>c d. (None, d)), ct_Update = (\<lambda>cols c d. (None, d)) \<rparr>"

lemma mem_rooms_laws: "rooms_laws mem_rooms mem_clients (\<lambda>t. t) (\<lambda>d. d)"
  by (simp add: rooms_laws_def mem_rooms_def mem_clients_def room_keep_def)

definition mem_env :: "(mem_db, nat, (UUID \<times> User) list, UUID \<rightharpoonup> StatRoom) app_env" where
  "mem_env =
     \<lparr> ae_cdb = \<lparr> env_q = mem_cql, env_js = undefined, env_answer = (\<lambda>c b. None) \<rparr>,
       ae_users = \<lparr> ue_lib = toy_uuid, ue_db = mem_logins, ue_answer = (\<lambda>c b. None) \<rparr>,
       ae_rooms = mem_rooms, ae_clients = mem_clients, ae_answer = (\<lambda>c b. None),
       ae_uuid = (\<lambda>t k. replicate 16 (of_nat (4 * t + k + 1))), ae_now = (\<lambda>t. zero_time), ae_unix = int \<rparr>"

definition mem_app :: "(mem_db, (UUID \<times> User) list, UUID \<rightharpoonup> StatRoom) cdb_app" where
  "mem_app = \<lparr> ca_cdb = mem_empty, ca_users = [], ca_rooms = Map.empty, ca_answers = [], ca_turn = 0, ca_stopped = False \<rparr>"

lemma mem_env_simps [simp]:
  "env_q (ae_cdb mem_env) = mem_cql" "ae_users mem_env = \<lparr> ue_lib = toy_uuid, ue_db = mem_logins, ue_answer = (\<lambda>c b. None) \<rparr>"
  "ae_rooms mem_env = mem_rooms" "ae_clients mem_env = mem_clients"
  "ae_uuid mem_env t k = replicate 16 (of_nat (4 * t + k + 1))"
  by (simp_all add: mem_env_def)

lemma mem_app_simps [simp]:
  "ca_cdb mem_app = mem_empty" "ca_users mem_app = []" "ca_rooms mem_app = Map.empty" "ca_answers mem_app = []"
  "ca_turn mem_app = 0" "\<not> ca_stopped mem_app"
  by (simp_all add: mem_app_def)

section \<open>Properties\<close>



text \<open>C26: the statistic mirrors the rooms. After any run of the room controller (requests, data, disconnects, timers) from
  its start, with new ids for the rooms, let the database service execute the messages that the controller sent, in their order,
  on an empty table: for each room the table has a row with the room's number and the state the room is in. The statements on
  the database behave as documented; other callers of the service may have used it before.\<close>

theorem statistic_mirrors_rooms:
  assumes "room_run renv sts teoroom_New = Inr tr" and "length sts < 2 ^ 31"
    and "distinct (request_ids sts)" and "\<forall>i \<in> set (request_ids sts). length i = 16"
    and "rooms_laws (ae_rooms env) (ae_clients env) keep rows"
    and "rows (ca_rooms s) = Map.empty" and "\<not> ca_stopped s" and "r < tr_nextRoom tr"
  shows "let s' = fold (cdb_process env) (map (stat_packet peer) (tr_stats tr)) s
    in \<exists>row. rows (ca_rooms s') (rm_roomID (tr_rooms tr r)) = Some row
         \<and> sr_RoomNum row = rm_id (tr_rooms tr r) \<and> sr_State row = state_code (rm_state (tr_rooms tr r))"
proof -
  obtain V where V: "mirror (length sts) V tr"
    using mirror_run [OF mirror_New assms(1)] assms(2-4) by auto
  then have m: "mirror (2 ^ 31) V tr" using assms(2) by (intro mirror_mono [OF V]) auto
  have "row_states (rows (ca_rooms (fold (cdb_process env) (map (stat_packet peer) (tr_stats tr)) s))) = stat_table (tr_stats tr)"
    using stat_all [OF assms(5), of "tr_stats tr" s peer] m assms(6,7)
    by (simp add: mirror_def stat_table_def row_states_def)
  then have "row_states (rows (ca_rooms (fold (cdb_process env) (map (stat_packet peer) (tr_stats tr)) s)))
      (rm_roomID (tr_rooms tr r)) = Some (rm_id (tr_rooms tr r), state_code (rm_state (tr_rooms tr r)))"
    using m assms(8) by (simp add: mirror_def)
  then show ?thesis by (auto simp: row_states_def Let_def)
qed

text \<open>Two clients come and send data: the game starts in room 0.\<close>

definition two_steps :: "roomStep list" where
  "two_steps =
     (let l0 = \<lparr> l0a_addr = ''l0'', l0a_port = 9000 \<rparr>
      in [RoomRequestFrom ''a'' l0 (replicate 16 1) default_parameters, RoomRequestFrom ''b'' l0 (replicate 16 2) default_parameters,
          RoomDataFrom ''a'' [1], RoomDataFrom ''b'' [2]])"

definition two_room :: Teoroom where
  "two_room = (case room_run sample_env two_steps teoroom_New of Inr t \<Rightarrow> t | Inl _ \<Rightarrow> teoroom_New)"

lemma two_room_facts:
  "tr_nextRoom two_room = 1" "rm_id (tr_rooms two_room 0) = 0" "rm_state (tr_rooms two_room 0) = RoomRunning"
  "rm_roomID (tr_rooms two_room 0) = replicate 16 1"
  by code_simp+

theorem statistic_mirrors_rooms_witness:
  "\<exists>row. ca_rooms (fold (cdb_process mem_env) (map (stat_packet ''teo-room'') (tr_stats two_room)) mem_app) (replicate 16 1) = Some row
     \<and> sr_RoomNum row = 0 \<and> sr_State row = 1"
proof -
  have "go_ok (kept (0 + length two_steps)) (room_run sample_env two_steps teoroom_New)"
    by (rule kept_run [OF kept_New]) (simp add: two_steps_def Let_def)
  then have run: "room_run sample_env two_steps teoroom_New = Inr two_room"
    by (auto simp: two_room_def go_ok_def)
  have "request_ids two_steps = [replicate 16 1, replicate 16 2]" "length two_steps = 4"
    by (simp_all add: two_steps_def Let_def)
  then show ?thesis
    using statistic_mirrors_rooms [OF run, of mem_env "\<lambda>t. t" "\<lambda>d. d" mem_app 0 "''teo-room''"] mem_rooms_laws
    by (simp add: two_room_facts state_code_def Let_def)
qed




section \<open>What the model shows\<close>

text \<open>
  The workers may execute two messages in another order than they arrived. If the room's creation comes
  after its start, the row says that the room is being created.
\<close>

lemma reordered_messages:
  assumes "rooms_laws (ae_rooms env) (ae_clients env) keep rows" and "length i = 16" and "unat n < 2 ^ 31" and "\<not> ca_stopped s"
  shows "row_states (rows (ca_rooms (fold (cdb_process env)
     (map (stat_packet f) [SendRoomState i (state_code RoomRunning), SendRoomCreate i n]) s))) i = Some (n, 0)"
proof -
  have "list_all (small_create (2 ^ 31)) [SendRoomState i (state_code RoomRunning), SendRoomCreate i n]"
    using assms(2,3)
    by (simp add: small_create_def SendRoomState_def SendRoomCreate_def rc_Unmarshal_def rc_Marshal_def codec_simps
        u32_codec.dec_enc_all) (simp add: CmdSetRoomCreated_def CmdSetRoomState_def)
  from stat_all [OF assms(1) this assms(4), of f] show ?thesis
    by (simp add: stat_change_create assms(2))
qed

text \<open>
  When the answer to a known user cannot be sent, the check counts as failed and a user is made, with the
  token as its id.
\<close>

lemma unsent_answer_makes_user:
  assumes "users_laws (ue_db E) users" and "user_req (ue_lib E) req" and "\<forall>c b. ue_answer E c b = Some ''not sent''"
  shows "\<exists>r ans d'. CheckUser E i0 (i1, i2, tok) now c (ur_MarshalBinary (ue_lib E) req) d = Inr (r, Some ''not sent'', ans, d')
     \<and> users d' = (users d)(ur_ID req \<mapsto> made_user req tok now)"
proof -
  let ?q = "\<lparr> us_ReqID = ur_ReqID req, us_ID = emptyUUID, us_AccessToken = ur_ID req, us_Prefix = [] \<rparr>"
  have "db_get_req (ue_db E) (ur_ID req) d \<noteq> None"
    using users_lawsD(4) [OF assms(1)] .
  then obtain x where g: "db_get_req (ue_db E) (ur_ID req) d = Some x" by blast
  have "fst (db_set (ue_db E) (made_user req tok now) d) = None
      \<and> users (snd (db_set (ue_db E) (made_user req tok now) d)) = (users d)(usr_ID (made_user req tok now) \<mapsto> made_user req tok now)"
    using assms(1) unfolding users_laws_def by blast
  then obtain d' where d': "db_set (ue_db E) (made_user req tok now) d = (None, d')" "users d' = (users d)(ur_ID req \<mapsto> made_user req tok now)"
    by (cases "db_set (ue_db E) (made_user req tok now) d") (simp add: made_user_def)
  have n: "ur_ID req \<noteq> emptyUUID" using assms(2) by (simp add: user_req_def)
  have "\<exists>r ans. CheckUser E i0 (i1, i2, tok) now c (ur_MarshalBinary (ue_lib E) req) d = Inr (r, Some ''not sent'', ans, d')"
    using n g d'(1) assms(3)
    by (cases "db_getAccess (ue_db E) ?q d")
      (simp_all add: CheckUser_def ComCheckAccess_def ComCreateUser_def decode_user_req [OF assms(2)] Let_def made_user_def)
  then show ?thesis using d'(2) by blast
qed

end
