(* ===== verification/TeoConf.thy ===== *)
theory TeoConf
  imports Teocdb
begin

text \<open>
  Configurations: \<open>services/teoconf/teoconf.go\<close> (a value kept in a JSON file) and
  \<open>services/teocdbcli/conf/teocdbconf.go\<close> (kept in the key-value database as well), with the values that
  use them: \<open>teonet/teonet/l0_conf.go\<close>, \<open>services/teoroom/game_conf.go\<close> and \<open>teonet/app/teocdb/config.go\<close>.
  Files are a map from names to contents; JSON is a parameter; the database answers as \<open>Teocdb\<close> shows.
\<close>

section \<open>Files\<close>

text \<open>JSON of the value's type: decoding into a value (an error, or not, and what the value is then), encoding, indenting.\<close>

record 'v json_conf =
  jc_Unmarshal :: "bytes \<Rightarrow> 'v \<Rightarrow> string option \<times> 'v"
  jc_Marshal :: "'v \<Rightarrow> string + bytes"
  jc_Indent :: "bytes \<Rightarrow> string + bytes"

text \<open>The interface that a configuration implements.\<close>

record 'v Config =
  cf_Default :: "bytes option"
  cf_Name :: "'v \<Rightarrow> string"
  cf_Dir :: string
  cf_Key :: "'v \<Rightarrow> string"

record 'v conf_env =
  cv_json :: "'v json_conf"
  cv_conf :: "'v Config"
  cv_can_create :: "string \<Rightarrow> bool"

record 'v conf_state =
  cs_value :: 'v
  cs_files :: "string \<rightharpoonup> bytes"
  cs_cdb :: "string \<rightharpoonup> bytes"

definition conf_setDefault :: "'v conf_env \<Rightarrow> 'v conf_state \<Rightarrow> string option \<times> 'v conf_state" where
  "conf_setDefault E s =
     (case cf_Default (cv_conf E) of
        None \<Rightarrow> (None, s)
      | Some data \<Rightarrow> (case jc_Unmarshal (cv_json E) data (cs_value s) of (err, v) \<Rightarrow> (err, s\<lparr>cs_value := v\<rparr>)))"

definition conf_fileName :: "'v conf_env \<Rightarrow> 'v \<Rightarrow> string" where
  "conf_fileName E v = cf_Dir (cv_conf E) @ cf_Name (cv_conf E) v @ ''.json''"

definition conf_Read :: "'v conf_env \<Rightarrow> 'v conf_state \<Rightarrow> string option \<times> 'v conf_state" where
  "conf_Read E s =
     (case cs_files s (conf_fileName E (cs_value s)) of
        None \<Rightarrow> (Some ''no such file or directory'', s)
      | Some data \<Rightarrow> (case jc_Unmarshal (cv_json E) data (cs_value s) of (err, v) \<Rightarrow> (err, s\<lparr>cs_value := v\<rparr>)))"

text \<open>\<open>Write\<close> creates the file, which empties it, before it encodes the value.\<close>

definition conf_Write :: "'v conf_env \<Rightarrow> 'v conf_state \<Rightarrow> string option \<times> 'v conf_state" where
  "conf_Write E s =
     (let name = conf_fileName E (cs_value s)
      in if \<not> cv_can_create E name then (Some ''cannot create'', s)
         else
           let s = s\<lparr>cs_files := (cs_files s)(name \<mapsto> [])\<rparr>
           in case jc_Marshal (cv_json E) (cs_value s) of
                Inl e \<Rightarrow> (Some e, s)
              | Inr data \<Rightarrow>
                  (case jc_Indent (cv_json E) data of
                     Inl e \<Rightarrow> (Some e, s)
                   | Inr pretty \<Rightarrow> (None, s\<lparr>cs_files := (cs_files s)(name \<mapsto> pretty)\<rparr>)))"

definition conf_New :: "'v conf_env \<Rightarrow> 'v conf_state \<Rightarrow> 'v conf_state" where
  "conf_New E s =
     (let s = snd (conf_setDefault E s)
      in case conf_Read E s of
           (None, s) \<Rightarrow> s
         | (Some _, s) \<Rightarrow> snd (conf_Write E s))"

section \<open>The database\<close>

definition ErrConfigCdbDoesNotExists :: string where
  "ErrConfigCdbDoesNotExists = ''config does not exists''"

text \<open>
  \<open>TeocdbCli.Send\<close> of a get and of a set, with the service's answers (\<open>cmd_answer\<close>, \<open>cmd_effect\<close>): an
  error in the answer is the error of \<open>Send\<close>. The service is connected.
\<close>

definition send_get :: "string \<Rightarrow> (string \<rightharpoonup> bytes) \<Rightarrow> bytes \<times> string option" where
  "send_get key m = (case cmd_answer CmdGet key m of (val, e) \<Rightarrow> (val, if e \<noteq> [] then Some e else None))"

definition send_set :: "string \<Rightarrow> bytes \<Rightarrow> (string \<rightharpoonup> bytes) \<Rightarrow> string option \<times> (string \<rightharpoonup> bytes)" where
  "send_set key val m =
     (case cmd_answer CmdSet key m of (_, e) \<Rightarrow> (if e \<noteq> [] then Some e else None, cmd_effect CmdSet key val m))"

definition conf_ReadCdb :: "'v conf_env \<Rightarrow> 'v conf_state \<Rightarrow> string option \<times> 'v conf_state" where
  "conf_ReadCdb E s =
     (case send_get (cf_Key (cv_conf E) (cs_value s)) (cs_cdb s) of
        (_, Some err) \<Rightarrow> (Some err, s)
      | (data, None) \<Rightarrow>
          (if data = [] then (Some ErrConfigCdbDoesNotExists, s)
           else case jc_Unmarshal (cv_json E) data (cs_value s) of (err, v) \<Rightarrow> (err, s\<lparr>cs_value := v\<rparr>)))"

definition conf_WriteCdb :: "'v conf_env \<Rightarrow> 'v conf_state \<Rightarrow> string option \<times> 'v conf_state" where
  "conf_WriteCdb E s =
     (case jc_Marshal (cv_json E) (cs_value s) of
        Inl e \<Rightarrow> (Some e, s)
      | Inr data \<Rightarrow>
          (case send_set (cf_Key (cv_conf E) (cs_value s)) data (cs_cdb s) of
             (err, m) \<Rightarrow> (err, s\<lparr>cs_cdb := m\<rparr>)))"

text \<open>The goroutine that \<open>ReadBoth\<close> starts, and what \<open>ReadBoth\<close> does before.\<close>

definition conf_sync :: "'v conf_env \<Rightarrow> 'v conf_state \<Rightarrow> 'v conf_state" where
  "conf_sync E s =
     (case conf_ReadCdb E s of
        (Some err, s) \<Rightarrow> if err = ErrConfigCdbDoesNotExists then snd (conf_WriteCdb E s) else s
      | (None, s) \<Rightarrow> snd (conf_Write E s))"

definition conf_ReadBoth :: "'v conf_env \<Rightarrow> 'v conf_state \<Rightarrow> 'v conf_state" where
  "conf_ReadBoth E s = snd (conf_Read E (snd (conf_setDefault E s)))"

definition cdbconf_New :: "'v conf_env \<Rightarrow> 'v conf_state \<Rightarrow> 'v conf_state" where
  "cdbconf_New E s = conf_ReadBoth E (conf_New E s)"

section \<open>Configurations\<close>

text \<open>The L0 server's: the descriptions and the prefixes; the home directory is an argument.\<close>

record l0_param =
  l0p_Descr :: string
  l0p_Prefix :: "string list"

definition l0_conf :: "string \<Rightarrow> l0_param Config" where
  "l0_conf home =
     \<lparr> cf_Default = Some (bytes_of (''{'' @ [CHR 0x22] @ ''descr'' @ [CHR 0x22] @ '':'' @ [CHR 0x22] @ ''Normal network L0 server''
         @ [CHR 0x22] @ '','' @ [CHR 0x22] @ ''prefix'' @ [CHR 0x22] @ '':['' @ [CHR 0x22] @ ''tg001'' @ [CHR 0x22] @ '']}'')),
       cf_Name = (\<lambda>_. ''l0''), cf_Dir = home @ ''/.config/teonet/teol0/'', cf_Key = (\<lambda>_. ''conf.network.'' @ ''l0'') \<rparr>"

text \<open>A game's, whose name is a field of the value.\<close>

definition game_conf :: "string \<Rightarrow> ('v \<Rightarrow> string) \<Rightarrow> 'v Config" where
  "game_conf home name_of =
     \<lparr> cf_Default = None, cf_Name = name_of, cf_Dir = home @ ''/.config/teonet/teoroom/'',
       cf_Key = (\<lambda>v. ''conf.game.'' @ name_of v) \<rparr>"

text \<open>The database service's.\<close>

record CdbParameters =
  cp_Cdb :: string
  cp_Users :: string
  cp_Room :: string
  cp_Hosts :: "string list"

definition cdb_params_default :: CdbParameters where
  "cdb_params_default = \<lparr> cp_Cdb = ''teocdb'', cp_Users = ''teousers'', cp_Room = ''teoroom'',
     cp_Hosts = [''172.17.0.2'', ''172.17.0.3'', ''172.17.0.4'', ''172.18.0.2'', ''172.18.0.3'', ''172.18.0.4''] \<rparr>"

definition cdb_conf :: "string \<Rightarrow> string \<Rightarrow> CdbParameters Config" where
  "cdb_conf home name =
     \<lparr> cf_Default = None, cf_Name = (\<lambda>_. name), cf_Dir = home @ ''/.config/teonet/teocdb/'', cf_Key = (\<lambda>_. []) \<rparr>"

definition KeyAndHosts :: "CdbParameters \<Rightarrow> string \<Rightarrow> string list" where
  "KeyAndHosts c keyspace = keyspace # cp_Hosts c"

text \<open>\<open>Connect\<close> of the databases takes the first string as the keyspace, the rest as hosts.\<close>

definition connect_args :: "string \<Rightarrow> string list \<Rightarrow> string list \<Rightarrow> string \<times> string list" where
  "connect_args keyspace defaults hosts =
     (let ks = (if hosts \<noteq> [] then hd hosts else keyspace); h = (if hosts \<noteq> [] then tl hosts else hosts)
      in (ks, if h = [] then defaults else h))"

definition l0_conf_event :: "l0_param conf_env \<Rightarrow> bool \<Rightarrow> string \<Rightarrow> l0_param conf_state \<Rightarrow> l0_param conf_state" where
  "l0_conf_event E is_conn from_peer s =
     (if is_conn \<and> from_peer = ''teo-cdb'' then conf_ReadBoth E s else s)"

section \<open>Lemmas\<close>

text \<open>
  What the documentation of JSON promises: a value all of whose fields are written (no empty field with
  \<open>omitempty\<close>) comes back whole from its encoding, indented or not, and the encoding is not empty.
\<close>

definition json_laws :: "'v json_conf \<Rightarrow> ('v \<Rightarrow> bool) \<Rightarrow> bool" where
  "json_laws J full \<longleftrightarrow>
     (\<forall>v. full v \<longrightarrow> (\<exists>b p. jc_Marshal J v = Inr b \<and> jc_Indent J b = Inr p \<and> b \<noteq> []
        \<and> (\<forall>v0. jc_Unmarshal J b v0 = (None, v)) \<and> (\<forall>v0. jc_Unmarshal J p v0 = (None, v))))"

text \<open>The contents that hold a value.\<close>

definition holds_value :: "'v json_conf \<Rightarrow> 'v \<Rightarrow> bytes \<Rightarrow> bool" where
  "holds_value J v b \<longleftrightarrow> b \<noteq> [] \<and> (\<forall>v0. jc_Unmarshal J b v0 = (None, v))"

lemma send_get_simps [simp]:
  "m key = Some x \<Longrightarrow> send_get key m = (x, None)"
  "m key = None \<Longrightarrow> send_get key m = ([], Some ErrNotFound)"
  by (simp_all add: send_get_def cmd_answer_def ErrNotFound_def)


text \<open>A place that holds a value, or nothing.\<close>

definition stores :: "'v json_conf \<Rightarrow> ('v \<Rightarrow> bool) \<Rightarrow> 'v option \<Rightarrow> bytes option \<Rightarrow> bool" where
  "stores J full v b \<longleftrightarrow>
     (case v of None \<Rightarrow> b = None | Some v \<Rightarrow> full v \<and> (\<exists>c. b = Some c \<and> holds_value J v c))"

definition after_default :: "'v conf_env \<Rightarrow> 'v \<Rightarrow> 'v" where
  "after_default E v = (case cf_Default (cv_conf E) of None \<Rightarrow> v | Some b \<Rightarrow> snd (jc_Unmarshal (cv_json E) b v))"

lemma setDefault_value: "snd (conf_setDefault E s) = s\<lparr>cs_value := after_default E (cs_value s)\<rparr>"
  by (simp add: conf_setDefault_def after_default_def case_prod_beta split: option.split)

lemma conf_Read_stored:
  assumes "stores (cv_json E) full (Some v) (cs_files s (conf_fileName E (cs_value s)))"
  shows "conf_Read E s = (None, s\<lparr>cs_value := v\<rparr>)"
  using assms by (auto simp: stores_def holds_value_def conf_Read_def)

lemma conf_Read_absent:
  "cs_files s (conf_fileName E (cs_value s)) = None \<Longrightarrow> conf_Read E s = (Some ''no such file or directory'', s)"
  by (simp add: conf_Read_def)

lemma conf_Write_full:
  assumes "json_laws (cv_json E) full" and "full (cs_value s)" and "cv_can_create E (conf_fileName E (cs_value s))"
  shows "\<exists>p. conf_Write E s = (None, s\<lparr>cs_files := (cs_files s)(conf_fileName E (cs_value s) \<mapsto> p)\<rparr>)
    \<and> (\<forall>v0. jc_Unmarshal (cv_json E) p v0 = (None, cs_value s))"
proof -
  obtain b p where "jc_Marshal (cv_json E) (cs_value s) = Inr b" "jc_Indent (cv_json E) b = Inr p"
    "\<forall>v0. jc_Unmarshal (cv_json E) p v0 = (None, cs_value s)"
    using assms(1,2) unfolding json_laws_def by blast
  then show ?thesis
    using assms(3) by (auto simp: conf_Write_def Let_def)
qed

text \<open>The file and the value after \<open>New\<close>, for a name that does not change.\<close>

lemma cdbconf_New_spec:
  assumes "json_laws (cv_json E) full" and "cf_Name (cv_conf E) = (\<lambda>_. name)" and "fn = cf_Dir (cv_conf E) @ name @ ''.json''"
    and "cv_can_create E fn" and "stores (cv_json E) full fv (cs_files s fn)"
    and "\<And>v0. after_default E v0 = after_default E (cs_value s)" and "full (after_default E (cs_value s))"
  shows "\<exists>p. cdbconf_New E s = s\<lparr>cs_value := (case fv of Some v \<Rightarrow> v | None \<Rightarrow> after_default E (cs_value s)),
            cs_files := (cs_files s)(fn \<mapsto> p)\<rparr>
    \<and> (\<forall>v0. jc_Unmarshal (cv_json E) p v0 = (None, case fv of Some v \<Rightarrow> v | None \<Rightarrow> after_default E (cs_value s)))"
proof -
  let ?d = "after_default E (cs_value s)"
  have n: "conf_fileName E v = fn" for v by (simp add: conf_fileName_def assms(2,3))
  show ?thesis
  proof (cases fv)
    case (Some v)
    then obtain p where p: "cs_files s fn = Some p" "\<forall>v0. jc_Unmarshal (cv_json E) p v0 = (None, v)"
      using assms(5) by (auto simp: stores_def holds_value_def)
    then have "conf_New E s = s\<lparr>cs_value := v\<rparr>"
      by (simp add: conf_New_def setDefault_value conf_Read_def n)
    moreover have "s\<lparr>cs_value := v\<rparr> = s\<lparr>cs_value := v, cs_files := (cs_files s)(fn \<mapsto> p)\<rparr>"
      using p(1) by (simp add: fun_upd_idem)
    ultimately show ?thesis
      using p Some by (intro exI [of _ p]) (simp add: cdbconf_New_def conf_ReadBoth_def setDefault_value conf_Read_def n)
  next
    case None
    then have f: "cs_files s fn = None" using assms(5) by (simp add: stores_def)
    let ?s = "s\<lparr>cs_value := ?d\<rparr>"
    obtain p where p: "conf_Write E ?s = (None, ?s\<lparr>cs_files := (cs_files s)(fn \<mapsto> p)\<rparr>)"
      "\<forall>v0. jc_Unmarshal (cv_json E) p v0 = (None, ?d)"
      using conf_Write_full [OF assms(1), of ?s] assms(4,7) by (auto simp: n)
    then have "conf_New E s = ?s\<lparr>cs_files := (cs_files s)(fn \<mapsto> p)\<rparr>"
      using f by (simp add: conf_New_def setDefault_value conf_Read_def n)
    then show ?thesis
      using p(2) None assms(6)
      by (intro exI [of _ p]) (simp add: cdbconf_New_def conf_ReadBoth_def setDefault_value conf_Read_def n)
  qed
qed

section \<open>Properties\<close>

text \<open>Which value a configuration takes. After it is made and its reading of the database is done, its value is the one in the
  database if there is one, else the one in its file if there is a file, else the default; the file then
  holds this value, and the database and all other files are as they were. The values read were written with all their fields;
  JSON behaves as documented; the file can be made; and the configuration's name does not depend on its value.\<close>

lemma config_value_chosen:
  assumes "json_laws (cv_json E) full" and "cf_Name (cv_conf E) = (\<lambda>_. name)" and "cf_Key (cv_conf E) = (\<lambda>_. key)"
    and "fn = cf_Dir (cv_conf E) @ name @ ''.json''" and "cv_can_create E fn"
    and "stores (cv_json E) full fv (cs_files s fn)" and "stores (cv_json E) full dv (cs_cdb s key)"
    and "\<forall>v0. after_default E v0 = after_default E (cs_value s)" and "full (after_default E (cs_value s))"
  shows "let s' = conf_sync E (cdbconf_New E s);
             v = (case dv of Some v \<Rightarrow> v | None \<Rightarrow> case fv of Some v \<Rightarrow> v | None \<Rightarrow> after_default E (cs_value s))
    in cs_value s' = v \<and> cs_cdb s' = cs_cdb s
     \<and> (\<exists>p. cs_files s' = (cs_files s)(fn \<mapsto> p) \<and> (\<forall>v0. jc_Unmarshal (cv_json E) p v0 = (None, v)))"
proof -
  let ?v = "case fv of Some v \<Rightarrow> v | None \<Rightarrow> after_default E (cs_value s)"
  have n: "conf_fileName E v = fn" for v by (simp add: conf_fileName_def assms(2,4))
  obtain p where p: "cdbconf_New E s = s\<lparr>cs_value := ?v, cs_files := (cs_files s)(fn \<mapsto> p)\<rparr>"
    "\<forall>v0. jc_Unmarshal (cv_json E) p v0 = (None, ?v)"
    using cdbconf_New_spec [OF assms(1,2,4-6) _ assms(9)] assms(8) by blast
  show ?thesis
  proof (cases dv)
    case None
    then have "cs_cdb s key = None" using assms(7) by (simp add: stores_def)
    then have "conf_sync E (cdbconf_New E s) = cdbconf_New E s"
      by (simp add: conf_sync_def conf_ReadCdb_def assms(3) p(1) ErrNotFound_def ErrConfigCdbDoesNotExists_def)
    then show ?thesis using p None by (auto simp: Let_def)
  next
    case (Some v)
    then obtain b where b: "cs_cdb s key = Some b" "b \<noteq> []" "\<forall>v0. jc_Unmarshal (cv_json E) b v0 = (None, v)" and fv: "full v"
      using assms(7) by (auto simp: stores_def holds_value_def)
    let ?s = "s\<lparr>cs_value := v, cs_files := (cs_files s)(fn \<mapsto> p)\<rparr>"
    have r: "conf_ReadCdb E (cdbconf_New E s) = (None, ?s)"
      using b by (simp add: conf_ReadCdb_def assms(3) p(1))
    obtain q where q: "conf_Write E ?s = (None, ?s\<lparr>cs_files := (cs_files ?s)(fn \<mapsto> q)\<rparr>)"
      "\<forall>v0. jc_Unmarshal (cv_json E) q v0 = (None, v)"
      using conf_Write_full [OF assms(1), of ?s] assms(5) fv by (auto simp: n)
    then show ?thesis using Some r by (auto simp: conf_sync_def Let_def intro!: exI [of _ q])
  qed
qed

text \<open>An instance: a value that is text, written between quotes; tabs are added by the indentation.\<close>

definition text_json :: "bytes json_conf" where
  "text_json =
     \<lparr> jc_Unmarshal = (\<lambda>b v. case b of [] \<Rightarrow> (Some ''unexpected end'', v) | x # r \<Rightarrow> if x = 9 then (None, tl r) else (None, r)),
       jc_Marshal = (\<lambda>v. Inr (34 # v)), jc_Indent = (\<lambda>b. Inr (9 # b)) \<rparr>"

lemma config_value_chosen_example:
  "let E = \<lparr> cv_json = text_json, cv_conf = \<lparr> cf_Default = Some [34, 1], cf_Name = (\<lambda>_. ''l0''), cf_Dir = ''/h/'', cf_Key = (\<lambda>_. ''k'') \<rparr>,
             cv_can_create = (\<lambda>_. True) \<rparr>;
       s = \<lparr> cs_value = [], cs_files = Map.empty, cs_cdb = [''k'' \<mapsto> [34, 5, 6]] \<rparr>;
       s' = conf_sync E (cdbconf_New E s)
   in cs_value s' = [5, 6] \<and> cs_cdb s' = [''k'' \<mapsto> [34, 5, 6]] \<and> (\<exists>p. cs_files s' = [''/h/l0.json'' \<mapsto> p])"
proof -
  define E where "E = \<lparr> cv_json = text_json, cv_conf = \<lparr> cf_Default = Some [34, 1], cf_Name = (\<lambda>_ :: bytes. ''l0''),
      cf_Dir = ''/h/'', cf_Key = (\<lambda>_ :: bytes. ''k'') \<rparr>, cv_can_create = (\<lambda>_. True) \<rparr>"
  define s where "s = \<lparr> cs_value = ([] :: bytes), cs_files = Map.empty, cs_cdb = [''k'' \<mapsto> [34, 5, 6 :: u8]] \<rparr>"
  have "json_laws text_json (\<lambda>_. True)" by (simp add: json_laws_def text_json_def)
  moreover have "stores text_json (\<lambda>_. True) None (cs_files s ''/h/l0.json'')" "stores text_json (\<lambda>_. True) (Some [5, 6]) (cs_cdb s ''k'')"
    "\<forall>v0. after_default E v0 = after_default E (cs_value s)"
    by (simp_all add: stores_def s_def holds_value_def text_json_def after_default_def E_def)
  moreover have "cv_json E = text_json" "cf_Name (cv_conf E) = (\<lambda>_. ''l0'')" "cf_Key (cv_conf E) = (\<lambda>_. ''k'')"
    "cf_Dir (cv_conf E) = ''/h/''" "cv_can_create E ''/h/l0.json''" by (simp_all add: E_def)
  ultimately have "cs_value (conf_sync E (cdbconf_New E s)) = [5, 6] \<and> cs_cdb (conf_sync E (cdbconf_New E s)) = cs_cdb s
     \<and> (\<exists>p. cs_files (conf_sync E (cdbconf_New E s)) = (cs_files s)(''/h/l0.json'' \<mapsto> p))"
    using config_value_chosen [of E "\<lambda>_. True" "''l0''" "''k''" "''/h/l0.json''" None s "Some [5, 6]"] by (auto simp: Let_def)
  then show ?thesis unfolding Let_def E_def [symmetric] s_def [symmetric] by (simp add: s_def)
qed

section \<open>What the model shows\<close>

text \<open>
  A configuration that is not in the database is not written there: the service answers "not found", which
  is another error than the one for which \<open>WriteCdb\<close> is called.
\<close>

lemma absent_config_not_written:
  "cs_cdb s (cf_Key (cv_conf E) (cs_value s)) = None \<Longrightarrow> conf_sync E s = s"
  by (simp add: conf_sync_def conf_ReadCdb_def ErrNotFound_def ErrConfigCdbDoesNotExists_def)

text \<open>A value that cannot be encoded empties the file.\<close>

lemma failed_write_empties_file:
  assumes "cv_can_create E (conf_fileName E (cs_value s))" and "jc_Marshal (cv_json E) (cs_value s) = Inl e"
  shows "cs_files (snd (conf_Write E s)) (conf_fileName E (cs_value s)) = Some []"
  using assms by (simp add: conf_Write_def Let_def)

text \<open>A game's file that names another game: what is written next goes to that game's file.\<close>

lemma game_file_renames:
  assumes "cv_conf E = game_conf home name_of" and "cs_files s (conf_fileName E (cs_value s)) = Some b"
    and "jc_Unmarshal (cv_json E) b (cs_value s) = (None, v)" and "name_of v \<noteq> name_of (cs_value s)"
  shows "conf_fileName E (cs_value (snd (conf_Read E s))) \<noteq> conf_fileName E (cs_value s)"
  using assms by (simp add: conf_Read_def) (simp add: conf_fileName_def game_conf_def)

lemma connect_KeyAndHosts:
  "connect_args ks defs (KeyAndHosts c k) = (k, if cp_Hosts c = [] then defs else cp_Hosts c)"
  by (simp add: connect_args_def KeyAndHosts_def Let_def)

end
