(* ===== verification/Base64.thy ===== *)
theory Base64
  imports Prelude
begin

text \<open>
  \<open>teonet/teonet/base64.c\<close>: the coding that an L0 server uses for binary data inside JSON. The table of the
  decoder is written for the 64 characters of the code only; what lies in its other entries is not defined.
\<close>

section \<open>Encoding\<close>

definition encoding_table :: string where
  "encoding_table = ''ABCDEFGHIJKLMNOPQRSTUVWXYZabcdefghijklmnopqrstuvwxyz0123456789+/''"

definition mod_table :: "nat list" where
  "mod_table = [0, 2, 1]"

definition b64_triple :: "u8 \<Rightarrow> u8 \<Rightarrow> u8 \<Rightarrow> u32" where
  "b64_triple octet_a octet_b octet_c = push_bit 0x10 (ucast octet_a) + push_bit 0x08 (ucast octet_b) + ucast octet_c"

definition b64_char :: "u32 \<Rightarrow> nat \<Rightarrow> char" where
  "b64_char triple k = encoding_table ! unat (drop_bit (k * 6) triple AND 0x3F)"

definition b64_quad :: "u32 \<Rightarrow> string" where
  "b64_quad triple = [b64_char triple 3, b64_char triple 2, b64_char triple 1, b64_char triple 0]"

text \<open>The loop takes three bytes a turn, zeros where the input has ended.\<close>

fun b64_loop :: "bytes \<Rightarrow> string" where
  "b64_loop [] = []"
| "b64_loop [a] = b64_quad (b64_triple a 0 0)"
| "b64_loop [a, b] = b64_quad (b64_triple a b 0)"
| "b64_loop (a # b # c # r) = b64_quad (b64_triple a b c) @ b64_loop r"

definition base64_encode :: "bytes \<Rightarrow> string" where
  "base64_encode d =
     (let output_length = 4 * ((length d + 2) div 3)
      in fold (\<lambda>i s. s[output_length - 1 - i := CHR ''='']) [0..<mod_table ! (length d mod 3)] (b64_loop d))"

section \<open>Decoding\<close>

definition decoding_table :: "char \<rightharpoonup> u32" where
  "decoding_table = fold (\<lambda>i m. m(encoding_table ! i \<mapsto> of_nat i)) [0..<64] Map.empty"

text \<open>An entry that was never written counts as a read outside the table.\<close>

definition b64_sextet :: "char \<Rightarrow> u32 go" where
  "b64_sextet c =
     (if c = CHR ''='' then Inr 0
      else case decoding_table c of Some s \<Rightarrow> Inr s | None \<Rightarrow> Inl ReadPastEnd)"

definition b64_join :: "u32 \<Rightarrow> u32 \<Rightarrow> u32 \<Rightarrow> u32 \<Rightarrow> u32" where
  "b64_join a b c d = push_bit (3 * 6) a + push_bit (2 * 6) b + push_bit (1 * 6) c + push_bit (0 * 6) d"

definition b64_put :: "nat \<Rightarrow> u32 \<Rightarrow> nat \<Rightarrow> bytes \<Rightarrow> bytes" where
  "b64_put output_length triple k out =
     (if length out < output_length then out @ [ucast (drop_bit (k * 8) triple AND 0xFF)] else out)"

fun b64_unloop :: "nat \<Rightarrow> bytes \<Rightarrow> string \<Rightarrow> bytes go" where
  "b64_unloop n out (p # q # r # s # rest) =
     go_bind (b64_sextet p) (\<lambda>a. go_bind (b64_sextet q) (\<lambda>b. go_bind (b64_sextet r) (\<lambda>c. go_bind (b64_sextet s) (\<lambda>d.
     let triple = b64_join a b c d
     in b64_unloop n (b64_put n triple 0 (b64_put n triple 1 (b64_put n triple 2 out))) rest))))"
| "b64_unloop n out _ = Inr out"

text \<open>The ends of the text are looked at before its length is known to be positive.\<close>

definition base64_decode :: "string \<Rightarrow> bytes option go" where
  "base64_decode s =
     (if length s mod 4 \<noteq> 0 then Inr None
      else if s = [] then Inl ReadPastEnd
      else
        let n = length s div 4 * 3;
            n = (if s ! (length s - 1) = CHR ''='' then n - 1 else n);
            n = (if s ! (length s - 2) = CHR ''='' then n - 1 else n)
        in go_bind (b64_unloop n [] s) (\<lambda>d. Inr (Some d)))"

section \<open>Lemmas\<close>

text \<open>The table of the decoder inverts that of the encoder, and the filling is no character of the code.\<close>

lemma encoding_table_length [simp]: "length encoding_table = 64"
  by (simp add: encoding_table_def)

lemma decoding_encoding_all: "list_all (\<lambda>i. decoding_table (encoding_table ! i) = Some (of_nat i)) [0..<64]"
  by code_simp

lemma no_padding_char: "CHR ''='' \<notin> set encoding_table"
  by (simp add: encoding_table_def)

lemma b64_sextet_table:
  assumes "i < 64"
  shows "b64_sextet (encoding_table ! i) = Inr (of_nat i)"
proof -
  have "decoding_table (encoding_table ! i) = Some (of_nat i)"
    using decoding_encoding_all assms by (simp add: list_all_iff)
  moreover have "encoding_table ! i \<noteq> CHR ''=''"
    using assms no_padding_char by (metis encoding_table_length nth_mem)
  ultimately show ?thesis by (simp add: b64_sextet_def)
qed

lemma b64_sextet_padding [simp]: "b64_sextet (CHR ''='') = Inr 0"
  by (simp add: b64_sextet_def)

lemma and_63: "(x :: u32) AND 0x3F = take_bit 6 x"
  by (simp add: take_bit_eq_mask mask_eq_exp_minus_1)

lemma and_255: "(x :: u32) AND 0xFF = take_bit 8 x"
  by (simp add: take_bit_eq_mask mask_eq_exp_minus_1)

lemma b64_sextet_char: "b64_sextet (b64_char t k) = Inr (take_bit 6 (drop_bit (k * 6) t))"
proof -
  have "unat (take_bit 6 (drop_bit (k * 6) t)) < 64"
    by (simp only: unsigned_take_bit_eq) (rule order.strict_trans2 [OF take_bit_nat_less_exp], simp)
  then show ?thesis by (simp add: b64_char_def and_63 b64_sextet_table)
qed

lemma b64_char_table: "b64_char t k \<in> set encoding_table"
proof -
  have "unat (take_bit 6 (drop_bit (k * 6) t)) < 64"
    by (simp only: unsigned_take_bit_eq) (rule order.strict_trans2 [OF take_bit_nat_less_exp], simp)
  then show ?thesis by (simp add: b64_char_def and_63)
qed

lemma b64_char_no_padding [simp]: "b64_char t k \<noteq> CHR ''=''"
  using b64_char_table no_padding_char by metis

text \<open>Three bytes make four times six bits, and four times six bits make the three bytes.\<close>

lemma unat_triple: "unat (b64_triple a b c) = unat a * 65536 + unat b * 256 + unat c"
proof -
  have "unat a < 256" "unat b < 256" "unat c < 256" using unsigned_less [of a] unsigned_less [of b] unsigned_less [of c] by simp_all
  moreover have "b64_triple a b c = of_nat (unat a * 65536 + unat b * 256 + unat c)"
    by (simp add: b64_triple_def push_bit_eq_mult)
  ultimately show ?thesis by (simp add: unat_of_nat del: of_nat_add of_nat_mult)
qed

lemma unat_less_32: "unat (t :: u32) < 4294967296"
  using unsigned_less [of t] by simp

lemma unat_sextet: "unat (take_bit 6 (drop_bit k (t :: u32))) = unat t div 2 ^ k mod 64"
  using unat_less_32 [of t]
  by (simp only: unsigned_take_bit_eq unsigned_drop_bit_eq) (simp add: take_bit_eq_mod drop_bit_eq_div)

lemma unat_byte: "unat (ucast (drop_bit k (t :: u32) AND 0xFF) :: u8) = unat t div 2 ^ k mod 256"
  using unat_less_32 [of t]
  by (simp only: and_255 unsigned_ucast_eq unsigned_take_bit_eq unsigned_drop_bit_eq) (simp add: take_bit_eq_mod drop_bit_eq_div)

lemma sextets_join:
  fixes n :: nat
  assumes "n < 2 ^ 24"
  shows "n div 2 ^ 18 mod 64 * 262144 + n div 2 ^ 12 mod 64 * 4096 + n div 2 ^ 6 mod 64 * 64 + n div 2 ^ 0 mod 64 = n"
proof -
  have p: "n div 2 ^ 18 = n div 262144" "n div 2 ^ 12 = n div 4096" "n div 2 ^ 6 = n div 64" "n div 2 ^ 0 = n" by simp_all
  have e: "n div 4096 = n div 64 div 64" "n div 262144 = n div 64 div 64 div 64" by (simp_all add: div_mult2_eq [symmetric])
  have "n div 64 div 64 div 64 < 64" using assms by (simp add: div_mult2_eq [symmetric] less_mult_imp_div_less)
  then have m: "n div 64 div 64 div 64 mod 64 = n div 64 div 64 div 64" by simp
  show ?thesis
    unfolding p e m
    using div_mult_mod_eq [of n 64] div_mult_mod_eq [of "n div 64" 64] div_mult_mod_eq [of "n div 64 div 64" 64]
    by linarith
qed

lemma b64_join_sextets:
  assumes "unat t < 2 ^ 24"
  shows "b64_join (take_bit 6 (drop_bit 18 t)) (take_bit 6 (drop_bit 12 t)) (take_bit 6 (drop_bit 6 t)) (take_bit 6 t) = t"
proof -
  let ?s = "\<lambda>k. take_bit 6 (drop_bit k t)"
  have "b64_join (?s 18) (?s 12) (?s 6) (?s 0)
      = of_nat (unat (?s 18) * 262144 + unat (?s 12) * 4096 + unat (?s 6) * 64 + unat (?s 0))"
    by (simp add: b64_join_def push_bit_eq_mult)
  also have "\<dots> = of_nat (unat t)"
    by (simp only: unat_sextet sextets_join [OF assms])
  finally show ?thesis by simp
qed

lemma bytes_of_sum:
  fixes a b c :: nat
  assumes "b < 256" and "c < 256"
  shows "(a * 65536 + b * 256 + c) div 65536 = a" and "(a * 65536 + b * 256 + c) div 256 mod 256 = b"
    and "(a * 65536 + b * 256 + c) mod 256 = c"
proof -
  have e: "a * 65536 + b * 256 + c = 256 * (256 * a + b) + c" by simp
  have dm: "(256 * k + x) div 256 = k" "(256 * k + x) mod 256 = x" if "x < 256" for k x :: nat using that by simp_all
  show "(a * 65536 + b * 256 + c) div 256 mod 256 = b" and "(a * 65536 + b * 256 + c) mod 256 = c"
    unfolding e dm [OF assms(2)] dm [OF assms(1)] by (rule refl)+
  have "(a * 65536 + b * 256 + c) div 65536 = (a * 65536 + b * 256 + c) div 256 div 256" by (simp add: div_mult2_eq [symmetric])
  then show "(a * 65536 + b * 256 + c) div 65536 = a" unfolding e dm [OF assms(2)] dm [OF assms(1)] .
qed

lemma triple_bytes:
  shows "ucast (drop_bit 16 (b64_triple a b c) AND 0xFF) = a"
    and "ucast (drop_bit 8 (b64_triple a b c) AND 0xFF) = b"
    and "ucast (b64_triple a b c AND 0xFF) = c"
proof -
  have l: "unat a < 256" "unat b < 256" "unat c < 256" using unsigned_less [of a] unsigned_less [of b] unsigned_less [of c] by simp_all
  have "unat (ucast (drop_bit 16 (b64_triple a b c) AND 0xFF) :: u8) = unat a"
    "unat (ucast (drop_bit 8 (b64_triple a b c) AND 0xFF) :: u8) = unat b"
    "unat (ucast (drop_bit 0 (b64_triple a b c) AND 0xFF) :: u8) = unat c"
    unfolding unat_byte unat_triple using l bytes_of_sum [of "unat b" "unat c" "unat a"] by simp_all
  then show "ucast (drop_bit 16 (b64_triple a b c) AND 0xFF) = a"
    "ucast (drop_bit 8 (b64_triple a b c) AND 0xFF) = b" "ucast (b64_triple a b c AND 0xFF) = c"
    by (simp_all add: word_unat_eq_iff)
qed

section \<open>The filling\<close>

lemma length_b64_quad [simp]: "length (b64_quad t) = 4"
  by (simp add: b64_quad_def)

lemma length_b64_loop: "length (b64_loop d) = 4 * ((length d + 2) div 3)"
proof (induction d rule: b64_loop.induct)
  case (4 a b c r)
  have "(length (a # b # c # r) + 2) div 3 = Suc ((length r + 2) div 3)" by simp
  then show ?case using 4 by simp
qed simp_all

lemma mod_table_simps: "mod_table ! (n mod 3) = (if n mod 3 = 0 then 0 else if n mod 3 = 1 then 2 else 1)"
proof -
  have "n mod 3 < 3" by simp
  then have "n mod 3 \<in> {0, 1, 2}" by auto
  then show ?thesis by (auto simp: mod_table_def)
qed

lemma fill_end:
  assumes "length (s :: string) = n" and "k < 3" and "k \<le> n"
  shows "fold (\<lambda>i s. s[n - 1 - i := CHR ''='']) [0..<k] s = take (n - k) s @ replicate k (CHR ''='')"
proof -
  have "k = 0 \<or> k = 1 \<or> k = 2" using assms(2) by auto
  moreover have "s[n - 1 := CHR ''=''] = take (n - 1) s @ [CHR ''='']" if "0 < n"
    using that assms(1) by (simp add: upd_conv_take_nth_drop)
  moreover have "s[n - 1 := CHR ''='', n - 2 := CHR ''=''] = take (n - 2) s @ [CHR ''='', CHR ''='']" if "2 \<le> n"
    using that assms(1) by (intro nth_equalityI) (auto simp: nth_append nth_list_update nth_Cons split: nat.splits)
  ultimately show ?thesis using assms(1,3) by (elim disjE) (simp_all add: upt_rec numeral_2_eq_2)
qed

lemma base64_encode_fill:
  "base64_encode d =
     (let n = 4 * ((length d + 2) div 3); k = mod_table ! (length d mod 3)
      in take (n - k) (b64_loop d) @ replicate k (CHR ''=''))"
proof -
  let ?n = "4 * ((length d + 2) div 3)" and ?k = "mod_table ! (length d mod 3)"
  have "?k < 3" "?k \<le> ?n"
    by (auto simp: mod_table_simps)
  from fill_end [OF length_b64_loop this] show ?thesis by (simp add: base64_encode_def Let_def)
qed

lemma base64_encode_simps:
  "base64_encode [] = []"
  "base64_encode [a] = [b64_char (b64_triple a 0 0) 3, b64_char (b64_triple a 0 0) 2, CHR ''='', CHR ''='']"
  "base64_encode [a, b] = [b64_char (b64_triple a b 0) 3, b64_char (b64_triple a b 0) 2, b64_char (b64_triple a b 0) 1, CHR ''='']"
  by (simp_all add: base64_encode_fill mod_table_def b64_quad_def Let_def numeral_2_eq_2)

lemma base64_encode_Cons3: "base64_encode (a # b # c # r) = b64_quad (b64_triple a b c) @ base64_encode r"
proof -
  let ?n = "4 * ((length r + 2) div 3)" and ?k = "mod_table ! (length r mod 3)"
  have n: "4 * ((length (a # b # c # r) + 2) div 3) = 4 + ?n"
    using length_b64_loop [of "a # b # c # r"] by (simp only: b64_loop.simps length_append length_b64_quad length_b64_loop)
  have k: "length (a # b # c # r) mod 3 = length r mod 3"
    by simp
  have le: "?k \<le> ?n"
    by (auto simp: mod_table_simps)
  show ?thesis
    unfolding base64_encode_fill Let_def n k add_diff_assoc [OF le, symmetric] by (simp add: take_append)
qed

section \<open>Decoding what was encoded\<close>

text \<open>Four characters whose values are the four parts of three bytes; a filling stands for a part that is zero.\<close>

lemma b64_unloop_group:
  assumes "b64_sextet p = Inr (take_bit 6 (drop_bit 18 t))" and "b64_sextet q = Inr (take_bit 6 (drop_bit 12 t))"
    and "b64_sextet r = Inr (take_bit 6 (drop_bit 6 t))" and "b64_sextet s = Inr (take_bit 6 t)" and "t = b64_triple a b c"
  shows "b64_unloop n out (p # q # r # s # rest) =
    b64_unloop n (b64_put n t 0 (b64_put n t 1 (b64_put n t 2 out))) rest"
proof -
  have "unat a < 256" "unat b < 256" "unat c < 256" using unsigned_less [of a] unsigned_less [of b] unsigned_less [of c] by simp_all
  then have "unat t < 2 ^ 24" by (simp add: assms(5) unat_triple)
  then show ?thesis using assms(1-4) by (simp add: b64_join_sextets Let_def)
qed

lemma b64_put_triple:
  "b64_put n (b64_triple a b c) 2 out = (if length out < n then out @ [a] else out)"
  "b64_put n (b64_triple a b c) 1 out = (if length out < n then out @ [b] else out)"
  "b64_put n (b64_triple a b c) 0 out = (if length out < n then out @ [c] else out)"
  by (simp_all add: b64_put_def triple_bytes)

lemma sextet_zero:
  assumes "unat t mod 2 ^ (k + 6) < 2 ^ k"
  shows "take_bit 6 (drop_bit k (t :: u32)) = 0"
proof -
  have "unat (take_bit 6 (drop_bit k t)) = unat t mod 2 ^ (k + 6) div 2 ^ k"
    by (simp add: unat_sextet power_add mod_mult2_eq)
  then show ?thesis using assms by (simp add: word_unat_eq_iff)
qed

lemma fill_sextets:
  "take_bit 6 (drop_bit 6 (b64_triple a 0 0)) = 0"
  "take_bit 6 (b64_triple a b 0) = 0"
proof -
  have "unat a * 65536 mod 2 ^ (6 + 6) = 0" by (simp add: mod_eq_0_iff_dvd)
  then show "take_bit 6 (drop_bit 6 (b64_triple a 0 0)) = 0" by (intro sextet_zero) (simp add: unat_triple)
  have "(unat a * 65536 + unat b * 256) mod 2 ^ (0 + 6) = 0" by (simp add: mod_eq_0_iff_dvd dvd_add)
  then have "take_bit 6 (drop_bit 0 (b64_triple a b 0)) = 0" by (intro sextet_zero) (simp add: unat_triple)
  then show "take_bit 6 (b64_triple a b 0) = 0" by simp
qed

lemma b64_unloop_encode:
  "n = length out + length d \<Longrightarrow> b64_unloop n out (base64_encode d) = Inr (out @ d)"
proof (induction d arbitrary: out rule: b64_loop.induct)
  case 1
  then show ?case by (simp add: base64_encode_simps)
next
  case (2 a)
  let ?t = "b64_triple a 0 0"
  have "b64_unloop n out (base64_encode [a]) =
    b64_unloop n (b64_put n ?t 0 (b64_put n ?t 1 (b64_put n ?t 2 out))) []"
    unfolding base64_encode_simps
    by (rule b64_unloop_group [where t = ?t]) (simp_all add: b64_sextet_char fill_sextets)
  then show ?case using 2 by (simp add: b64_put_triple del: One_nat_def)
next
  case (3 a b)
  let ?t = "b64_triple a b 0"
  have "b64_unloop n out (base64_encode [a, b]) =
    b64_unloop n (b64_put n ?t 0 (b64_put n ?t 1 (b64_put n ?t 2 out))) []"
    unfolding base64_encode_simps
    by (rule b64_unloop_group [where t = ?t]) (simp_all add: b64_sextet_char fill_sextets)
  then show ?case using 3 by (simp add: b64_put_triple del: One_nat_def)
next
  case (4 a b c r)
  let ?t = "b64_triple a b c"
  have "b64_unloop n out (base64_encode (a # b # c # r)) =
    b64_unloop n (b64_put n ?t 0 (b64_put n ?t 1 (b64_put n ?t 2 out))) (base64_encode r)"
    unfolding base64_encode_Cons3 b64_quad_def append_Cons append_Nil
    by (rule b64_unloop_group [where t = ?t]) (simp_all add: b64_sextet_char)
  also have "\<dots> = b64_unloop n (out @ [a, b, c]) (base64_encode r)"
    using 4(2) by (simp add: b64_put_triple del: One_nat_def)
  also have "\<dots> = Inr (out @ a # b # c # r)" using 4 by simp
  finally show ?case .
qed

text \<open>How an encoding ends tells how many bytes the last group has.\<close>

lemma base64_encode_end:
  "d \<noteq> [] \<Longrightarrow> \<exists>pre x y. base64_encode d = pre @ [x, y] \<and> length pre + 2 = 4 * ((length d + 2) div 3)
     \<and> (x = CHR ''='' \<longleftrightarrow> length d mod 3 = 1) \<and> (y = CHR ''='' \<longleftrightarrow> length d mod 3 \<noteq> 0)"
proof (induction d rule: b64_loop.induct)
  case (4 a b c r)
  show ?case
  proof (cases "r = []")
    case True
    then show ?thesis by (simp add: base64_encode_Cons3 base64_encode_simps b64_quad_def)
  next
    case False
    then obtain pre x y where "base64_encode r = pre @ [x, y]" "length pre + 2 = 4 * ((length r + 2) div 3)"
      "x = CHR ''='' \<longleftrightarrow> length r mod 3 = 1" "y = CHR ''='' \<longleftrightarrow> length r mod 3 \<noteq> 0" using 4 by blast
    moreover have "length (a # b # c # r) mod 3 = length r mod 3" by simp
    moreover have "(length (a # b # c # r) + 2) div 3 = Suc ((length r + 2) div 3)" by simp
    ultimately show ?thesis
      by (intro exI [of _ "b64_quad (b64_triple a b c) @ pre"] exI) (simp add: base64_encode_Cons3)
  qed
qed (simp_all add: base64_encode_simps)

lemma base64_alphabet: "set (base64_encode d) \<subseteq> insert (CHR ''='') (set encoding_table)"
  by (induction d rule: b64_loop.induct)
    (auto simp: base64_encode_simps base64_encode_Cons3 b64_quad_def b64_char_table)

text \<open>C23: decoding the encoding of a byte string that is not empty gives the byte string back, whatever its bytes and its
  length modulo three; the encoding has four characters for every three bytes begun, all of them letters, digits, plus, slash or the equals sign.\<close>

theorem base64_roundtrip:
  assumes "d \<noteq> []"
  shows "base64_decode (base64_encode d) = Inr (Some d)
    \<and> length (base64_encode d) = 4 * ((length d + 2) div 3)
    \<and> set (base64_encode d) \<subseteq> insert (CHR ''='') (set encoding_table)"
proof -
  let ?s = "base64_encode d"
  obtain pre x y where e: "?s = pre @ [x, y]" and l: "length pre + 2 = 4 * ((length d + 2) div 3)"
    and xy: "x = CHR ''='' \<longleftrightarrow> length d mod 3 = 1" "y = CHR ''='' \<longleftrightarrow> length d mod 3 \<noteq> 0"
    using base64_encode_end [OF assms] by blast
  have len: "length ?s = 4 * ((length d + 2) div 3)" using e l by simp
  have ends: "?s ! (length ?s - 1) = y" "?s ! (length ?s - 2) = x" unfolding e by (simp_all add: nth_append)
  let ?n = "length ?s div 4 * 3"
  let ?m = "if y = CHR ''='' then ?n - 1 else ?n"
  have n: "(if x = CHR ''='' then ?m - 1 else ?m) = length d"
    using xy by (simp add: len) presburger
  have "length ?s mod 4 = 0" unfolding len by simp
  moreover have "?s \<noteq> []" using e by simp
  ultimately have "base64_decode ?s = go_bind (b64_unloop (length d) [] ?s) (\<lambda>d. Inr (Some d))"
    by (simp only: base64_decode_def Let_def ends n simp_thms if_True if_False)
  then show ?thesis using b64_unloop_encode [of "length d" "[]" d] len base64_alphabet by simp
qed

theorem base64_roundtrip_witness:
  "base64_encode (bytes_of ''teonet'') = ''dGVvbmV0'' \<and> base64_decode (base64_encode [255, 0, 1, 254]) = Inr (Some [255, 0, 1, 254])"
  using base64_roundtrip [of "[255, 0, 1, 254]"] by (simp add: bytes_of_def) code_simp

end
