(* ===== verification/L0Ws.thy ===== *)
theory L0Ws
  imports Node Base64
begin

text \<open>
  \<open>teonet/teonet/l0_ws.go\<close>: clients of the L0 server that speak JSON over a websocket. A message becomes
  a packet of the client protocol and is processed like one; a packet for such a client becomes JSON again. With it
  the functions of \<open>command.c\<close> that make JSON of binary answers, as they read their input. The library of
  websockets is not modelled: a turn of \<open>handler\<close> has the result of a receive as its argument.
\<close>

section \<open>JSON\<close>

text \<open>
  What the code uses of \<open>encoding/json\<close>: the message \<open>{cmd, to, data}\<close>, the test whether a value is a string,
  a string as a value, the encoding and decoding of values, and the encoding of \<open>{cmd, from, data}\<close>.
\<close>

record 'j ws_json =
  wj_parse :: "bytes \<Rightarrow> (u8 \<times> string \<times> 'j) option"
  wj_as_string :: "'j \<Rightarrow> string option"
  wj_of_string :: "string \<Rightarrow> 'j"
  wj_Marshal :: "'j \<Rightarrow> bytes"
  wj_Unmarshal :: "bytes \<Rightarrow> 'j option"
  wj_reply :: "u8 \<Rightarrow> string \<Rightarrow> 'j \<Rightarrow> bytes option"

section \<open>From the client\<close>

record wsHandlerConn =
  wh_addr :: string
  wh_cli :: nat
  wh_id :: nat
  wh_closed :: bool
  wh_ws :: bool

definition ws_connected :: "nat \<Rightarrow> string \<Rightarrow> l0Conn \<Rightarrow> wsHandlerConn \<times> l0Conn" where
  "ws_connected ws ad l0 =
     (case new_cli False l0 of
        (cli, l0) \<Rightarrow> (\<lparr> wh_addr = ad, wh_cli = cli, wh_id = ws, wh_closed = False, wh_ws = True \<rparr>, l0))"

text \<open>The data of a packet: a string as it is, another value as JSON; a zero at the end if there are any.\<close>

definition ws_data :: "'j ws_json \<Rightarrow> 'j \<Rightarrow> bytes" where
  "ws_data J v =
     (let js = (case wj_as_string J v of Some jss \<Rightarrow> bytes_of jss | None \<Rightarrow> wj_Marshal J v)
      in if length js > 0 then js @ [0] else js)"

text \<open>\<open>Close\<close>; the result tells whether the websocket is closed too.\<close>

definition ws_Close :: "wsHandlerConn \<Rightarrow> l0Conn \<Rightarrow> bool \<times> wsHandlerConn \<times> l0Conn" where
  "ws_Close h l0 =
     (if wh_closed h then (False, h, l0)
      else (wh_ws h, h\<lparr>wh_closed := True\<rparr>, snd (l0_closeAddr (wh_addr h) l0)))"

text \<open>
  A turn of the handler: data, or an error that is the end of the stream or another one. The result tells whether the
  loop goes on, with what the processing asks of the node.
\<close>

datatype ws_received = WsData bytes | WsError bool

definition ws_handler :: "(l0_conn \<Rightarrow> bytes \<Rightarrow> nat \<times> string option) \<Rightarrow> 'j ws_json \<Rightarrow> ws_received \<Rightarrow> wsHandlerConn \<Rightarrow> l0Conn
    \<Rightarrow> ((bool \<times> l0_action) \<times> wsHandlerConn \<times> l0Conn) go" where
  "ws_handler wr J r h l0 =
     (case r of
        WsError eof \<Rightarrow>
          (if eof
           then (case ws_Close (h\<lparr>wh_ws := False\<rparr>) l0 of (_, h, l0) \<Rightarrow> Inr ((False, ActNone), h, l0))
           else Inr ((False, ActNone), h, l0))
      | WsData jdata \<Rightarrow>
          (case wj_parse J jdata of
             None \<Rightarrow> Inr ((False, ActNone), h, l0)
           | Some (cmd, to, v) \<Rightarrow>
               go_bind (l0_process wr \<lparr> lp_packet = fst (PacketCreate cmd to (ws_data J v)), lp_cli = wh_cli h,
                          lp_addr = wh_addr h, lp_conn = WsConn (wh_id h) \<rparr> l0) (\<lambda>(act, l0).
                 Inr ((True, act), h, l0))))"

section \<open>To the client\<close>

definition CmdSubscribeAnswer :: u8 where "CmdSubscribeAnswer = 83"

text \<open>
  The functions of \<open>command.c\<close> on data from the network. The records of clients are read as far as the number at
  the start says; the names go up to their NUL. The size of \<open>teoSScrData\<close>, 4 bytes with its
  alignment, is taken off the length, but its data begin after 3 bytes.
\<close>

definition com_marshalClients :: "bytes \<Rightarrow> bytes go" where
  "com_marshalClients data =
     (if data = [] then Inl IndexOutOfRange
      else case rd_u32 data of
             (None, _) \<Rightarrow> Inl ReadPastEnd
           | (Some n, r) \<Rightarrow> marshalClients (map (\<lambda>i. take 128 (drop (128 * i) r)) [0..<unat n]))"

definition marshalSubscribe :: "bytes \<Rightarrow> bytes go" where
  "marshalSubscribe data =
     (if data = [] then Inl IndexOutOfRange
      else if length data < 4 then Inl ReadPastEnd
      else
        let ev = un16 (data ! 0) (data ! 1); cmd = data ! 2; data_len = length data - 4;
            b64_data = base64_encode (take data_len (drop 3 data))
        in Inr (bytes_of (''{'' @ [CHR 0x22] @ ''ev'' @ [CHR 0x22] @ '':'' @ itoa (unat ev) @ '','' @ [CHR 0x22] @ ''cmd'' @ [CHR 0x22]
             @ '':'' @ itoa (unat cmd) @ '','' @ [CHR 0x22] @ ''data'' @ [CHR 0x22] @ '':'' @ [CHR 0x22] @ b64_data @ [CHR 0x22] @ ''}'')))"

text \<open>\<open>Write\<close>: what is sent over the websocket; None when the encoding fails.\<close>

definition ws_Write :: "'n node_env \<Rightarrow> 'j ws_json \<Rightarrow> bytes \<Rightarrow> bytes option go" where
  "ws_Write E J pkt =
     go_bind (lp_Data pkt) (\<lambda>d.
     go_bind (lp_Command pkt) (\<lambda>cmd.
     let data = removeTrailingZero d; isJSON = dataIsJSON data
     in go_bind
          (if cmd = CmdPeersAnswer then (if \<not> isJSON then binaryToJSON E d else Inr data)
           else if cmd = CmdL0ClientsAnswer then com_marshalClients d
           else if cmd = CmdL0ClientsNumAnswer then (if \<not> isJSON then marshalClientsNum d else Inr data)
           else if cmd = CmdSubscribeAnswer then marshalSubscribe d
           else Inr data) (\<lambda>data.
        go_bind (lp_Name pkt) (\<lambda>from.
          Inr (wj_reply J cmd from
            (case wj_Unmarshal J data of Some obj \<Rightarrow> obj | None \<Rightarrow> wj_of_string J (string_of data)))))))"

section \<open>Lemmas\<close>

text \<open>The documented behaviour of JSON: values come back from their encoding, which is not empty and has no NUL at its end; a value that is a
  string is that string.\<close>

definition ws_laws :: "'j ws_json \<Rightarrow> bool" where
  "ws_laws J \<longleftrightarrow>
     (\<forall>v. wj_Unmarshal J (wj_Marshal J v) = Some v \<and> wj_Marshal J v \<noteq> [] \<and> last (wj_Marshal J v) \<noteq> 0)
   \<and> (\<forall>v s. wj_as_string J v = Some s \<longrightarrow> v = wj_of_string J s)"

text \<open>The value that arrives: the same, except for a string that is itself JSON.\<close>

definition ws_value :: "'j ws_json \<Rightarrow> 'j \<Rightarrow> 'j" where
  "ws_value J v =
     (case wj_as_string J v of
        None \<Rightarrow> v
      | Some s \<Rightarrow> (case wj_Unmarshal J (bytes_of s) of Some w \<Rightarrow> w | None \<Rightarrow> v))"

definition ws_rewritten :: "u8 set" where
  "ws_rewritten = {CmdPeersAnswer, CmdL0ClientsAnswer, CmdL0ClientsNumAnswer, CmdSubscribeAnswer}"

lemma removeTrailingZero_ws_data:
  "removeTrailingZero (ws_data J v) = (case wj_as_string J v of Some s \<Rightarrow> bytes_of s | None \<Rightarrow> wj_Marshal J v)"
  by (simp add: ws_data_def removeTrailingZero_def Let_def split: option.split)

lemma ws_Write_value:
  assumes "ws_laws J" and "cmd \<notin> ws_rewritten" and "lnull_ok from (ws_data J v)"
  shows "ws_Write E J (lnull_packet cmd from (ws_data J v)) = Inr (wj_reply J cmd from (ws_value J v))"
proof -
  let ?t = "removeTrailingZero (ws_data J v)"
  have "(case wj_Unmarshal J ?t of Some obj \<Rightarrow> obj | None \<Rightarrow> wj_of_string J (string_of ?t)) = ws_value J v"
    unfolding removeTrailingZero_ws_data
    using assms(1) by (auto simp: ws_laws_def ws_value_def split: option.split)
  then show ?thesis
    using assms(2,3) by (simp add: ws_Write_def codec_simps Let_def ws_rewritten_def)
qed

text \<open>Closing from both sides is the same as closing once: the server's close calls the connection's, and the other way round.\<close>

lemma ws_close_again:
  assumes "l0_ok l0" and "l0_findAddr (wh_addr h) l0 = Some c"
  shows "ws_Close h (l0_close c l0) = (if wh_closed h then (False, h, l0_close c l0) else (wh_ws h, h\<lparr>wh_closed := True\<rparr>, l0_close c l0))"
  using assms l0_okD(3) [OF assms] by (simp add: ws_Close_def l0_closeAddr_def l0_close_find)


text \<open>A JSON whose values are strings and bracketed byte strings; a client whose login makes it ann, and bob.\<close>

definition tiny_json :: "(string + bytes) ws_json" where
  "tiny_json =
     \<lparr> wj_parse = (\<lambda>b. case b of cmd # r \<Rightarrow> Some (cmd, ''bob'', Inr r) | [] \<Rightarrow> None),
       wj_as_string = (\<lambda>v. case v of Inl s \<Rightarrow> Some s | Inr _ \<Rightarrow> None), wj_of_string = Inl,
       wj_Marshal = (\<lambda>v. case v of Inl s \<Rightarrow> 34 # bytes_of s @ [34] | Inr b \<Rightarrow> 123 # b @ [125]),
       wj_Unmarshal = (\<lambda>b. if length b < 2 then None else if hd b = 34 \<and> last b = 34 then Some (Inl (string_of (butlast (tl b))))
          else if hd b = 123 \<and> last b = 125 then Some (Inr (butlast (tl b))) else None),
       wj_reply = (\<lambda>cmd from v. Some (cmd # bytes_of from @ (case v of Inl s \<Rightarrow> bytes_of s | Inr b \<Rightarrow> b))) \<rparr>"

lemma tiny_json_laws: "ws_laws tiny_json"
  by (auto simp: ws_laws_def tiny_json_def split: sum.splits)

definition two_ws :: l0Conn where
  "two_ws =
     (case go_bind (l0_process (\<lambda>_ _. (0, None)) (login_packet ''ann'' ''h:1'' (WsConn 1)) (l0New True []))
             (\<lambda>(_, l). l0_process (\<lambda>_ _. (0, None)) (login_packet ''bob'' ''h:2'' (WsConn 2)) l) of
        Inr (_, t) \<Rightarrow> t | Inl _ \<Rightarrow> l0New True [])"

lemma two_ws_facts:
  "l0_findAddr ''h:1'' two_ws = Some 0" "l0_findName ''bob'' two_ws = Some 1"
  "lc_conn (lz_clients two_ws 1) = Some (WsConn 2)" "lc_name (lz_clients two_ws 0) = ''ann''" "lz_out two_ws = []"
  by code_simp+

lemma two_ws_ok: "l0_ok two_ws"
proof -
  have "l0_ok t" if g: "go_bind (l0_process wr p (l0New True [])) (\<lambda>(_, l). l0_process wr q l) = Inr (a, t)" for wr p q a t
  proof -
    obtain b u where u: "l0_process wr p (l0New True []) = Inr (b, u)" "l0_process wr q u = Inr (a, t)"
      using g by (cases "l0_process wr p (l0New True [])") (auto split: prod.splits)
    show ?thesis by (rule l0_process_keeps [OF l0_process_keeps [OF l0_ok_New u(1)] u(2)])
  qed
  then show ?thesis unfolding two_ws_def by (auto split: sum.split simp: l0_ok_New)
qed


text \<open>The records of the binary list, found again behind one another.\<close>

lemma records_again:
  "\<forall>r \<in> set rs. length r = 128 \<Longrightarrow> map (\<lambda>i. take 128 (drop (128 * i) (concat rs))) [0..<length rs] = rs"
proof (induction rs)
  case (Cons r rs)
  have "map (\<lambda>i. take 128 (drop (128 * i) (concat (r # rs)))) [0..<length (r # rs)] =
    take 128 (concat (r # rs)) # map (\<lambda>i. take 128 (drop (128 * Suc i) (concat (r # rs)))) [0..<length rs]"
    by (simp add: upt_conv_Cons map_Suc_upt [symmetric] del: upt_Suc)
  then show ?case using Cons by simp
qed simp

lemma length_client_record: "length (client_record n) = 128"
  by (simp add: client_record_def)

lemma com_marshalClients_records:
  assumes "\<forall>r \<in> set rs. length r = 128" and "length rs < 2 ^ 32"
  shows "com_marshalClients (le32 (of_nat (length rs)) @ concat rs) = marshalClients rs"
proof -
  have "unat (of_nat (length rs) :: u32) = length rs" using assms(2) by (simp add: unat_of_nat)
  moreover have "le32 k \<noteq> []" for k by (simp add: le32_def)
  ultimately show ?thesis by (simp add: com_marshalClients_def rd_u32_le32 records_again [OF assms(1)])
qed



section \<open>What the model shows\<close>

text \<open>A message that is no JSON, or an error of the connection that is not the end of the stream, ends the handler but leaves the client in the maps.\<close>

lemma ws_bad_json_keeps_client:
  "wj_parse J jdata = None \<Longrightarrow> ws_handler wr J (WsData jdata) h l0 = Inr ((False, ActNone), h, l0)"
  "ws_handler wr J (WsError False) h l0 = Inr ((False, ActNone), h, l0)"
  by (simp_all add: ws_handler_def)

text \<open>An answer with the list of clients is always taken for binary: a JSON answer, which a websocket client can ask for, is read
  with the number that its first four characters make, far past its end; an answer without data stops the program.\<close>

lemma client_items_past_end: "client_items first (rs @ [[]]) = Inl UnterminatedCString"
proof (induction rs arbitrary: first)
  case (Cons r rs)
  then show ?case by (cases "c_string (concat (r # rs @ [[]]))") (auto simp: c_string_def split: if_splits)
qed (simp add: c_string_def)

lemma com_marshalClients_past_end:
  assumes "rd_u32 data = (Some n, r)" and "0 < unat n" and "length r \<le> 128 * (unat n - 1)"
  shows "com_marshalClients data = Inl UnterminatedCString"
proof -
  obtain k where k: "unat n = Suc k" using assms(2) gr0_implies_Suc by blast
  have "map (\<lambda>i. take 128 (drop (128 * i) r)) [0..<unat n] = map (\<lambda>i. take 128 (drop (128 * i) r)) [0..<k] @ [[]]"
    using assms(3) by (simp add: k)
  then show ?thesis
    using assms(1) by (cases "data = []") (simp_all add: com_marshalClients_def marshalClients_def client_items_past_end)
qed

lemma clients_json_breaks_ws:
  assumes "length js < 65536"
  shows "com_marshalClients (bytes_of (''{'' @ [CHR 0x22] @ ''le'') @ js) = Inl UnterminatedCString"
    and "com_marshalClients [] = Inl IndexOutOfRange"
proof -
  have lead: "unat (0x656C227B :: u32) = 0x656C227B" by simp
  have "rd_u32 (bytes_of (''{'' @ [CHR 0x22] @ ''le'') @ js) = (Some 0x656C227B, js)"
    by (simp add: bytes_of_def byte_of_char_def un32_def)
  then show "com_marshalClients (bytes_of (''{'' @ [CHR 0x22] @ ''le'') @ js) = Inl UnterminatedCString"
    by (rule com_marshalClients_past_end) (use assms in \<open>simp_all add: lead\<close>)
qed (simp add: com_marshalClients_def)

text \<open>The last byte of a subscribe answer is lost: what the client decodes is the data without it.\<close>

lemma subscribe_cuts_last_byte:
  assumes "data \<noteq> []"
  shows "take (length ([e1, e2, c] @ data) - 4) (drop 3 ([e1, e2, c] @ data)) = butlast data"
  by (simp add: butlast_conv_take)

lemma short_subscribe_answer: "marshalSubscribe [] = Inl IndexOutOfRange" "marshalSubscribe [e1, e2, c] = Inl ReadPastEnd"
  by (simp_all add: marshalSubscribe_def)

end
