(* ===== verification/TeoRegistry.thy ===== *)
theory TeoRegistry
  imports Users
begin

text \<open>
  \<open>services/teoregistry/teoregistry.go\<close>: the registry of applications and their commands, in two tables. The statements
  that the library builds are parameters; three statements are texts of their own.
\<close>

section \<open>Data\<close>

record RegCommand =
  rg_AppID :: UUID
  rg_Cmd :: u8
  rg_Type :: u8
  rg_Descr :: string
  rg_TxtF :: bool
  rg_TxtNum :: u8
  rg_TxtDescr :: string
  rg_JSONF :: bool
  rg_JSON :: string
  rg_BinaryF :: bool
  rg_BinaryDescr :: string

record Application =
  ra_UUID :: UUID
  ra_Name :: string
  ra_Version :: string
  ra_Descr :: string
  ra_Author :: string
  ra_License :: string
  ra_Goget :: string
  ra_Git :: string
  ra_Com :: "RegCommand list"

text \<open>
  Update of the named columns of an application and of a command, by their keys; selects; the count; and a statement given
  as text with its arguments.
\<close>

record 'd registry_cql =
  rq_UpdateApp :: "string list \<Rightarrow> Application \<Rightarrow> 'd \<Rightarrow> string option \<times> 'd"
  rq_SelectApp :: "UUID \<Rightarrow> 'd \<Rightarrow> string + Application"
  rq_SelectApps :: "'d \<Rightarrow> string + (UUID \<times> string) list"
  rq_CountApps :: "'d \<Rightarrow> string + int"
  rq_UpdateCom :: "string list \<Rightarrow> RegCommand \<Rightarrow> 'd \<Rightarrow> string option \<times> 'd"
  rq_SelectComs :: "UUID \<Rightarrow> 'd \<Rightarrow> string + RegCommand list"
  rq_Exec :: "string \<Rightarrow> UUID \<Rightarrow> int list \<Rightarrow> 'd \<Rightarrow> string option \<times> 'd"

section \<open>Commands\<close>

definition reg_com_columns :: "string list" where
  "reg_com_columns = [''descr'', ''txt_f'', ''txt_num'', ''txt_descr'', ''jsonf'', ''json'', ''binary_f'', ''binary_descr'']"

definition reg_com_Set :: "'d registry_cql \<Rightarrow> RegCommand \<Rightarrow> 'd \<Rightarrow> string option \<times> 'd" where
  "reg_com_Set Q c d = rq_UpdateCom Q reg_com_columns c d"

definition delete_com_stmt :: string where
  "delete_com_stmt = ''DELETE FROM commands'' @ [CHR 0x0A] @ ''        WHERE app_id= ?, cmd = ?, type = ?''"

definition reg_com_Remove :: "'d registry_cql \<Rightarrow> UUID \<Rightarrow> int \<Rightarrow> int \<Rightarrow> 'd \<Rightarrow> string option \<times> 'd" where
  "reg_com_Remove Q appid cmd cmdtype d = rq_Exec Q delete_com_stmt appid [cmd, cmdtype] d"

definition delete_coms_stmt :: string where
  "delete_coms_stmt = ''DELETE FROM commands WHERE app_id= ?''"

definition reg_com_RemoveAll :: "'d registry_cql \<Rightarrow> UUID \<Rightarrow> 'd \<Rightarrow> string option \<times> 'd" where
  "reg_com_RemoveAll Q appid d = rq_Exec Q delete_coms_stmt appid [] d"

definition reg_com_List :: "'d registry_cql \<Rightarrow> UUID \<Rightarrow> 'd \<Rightarrow> RegCommand list \<times> string option" where
  "reg_com_List Q appid d = (case rq_SelectComs Q appid d of Inl e \<Rightarrow> ([], Some e) | Inr l \<Rightarrow> (l, None))"

section \<open>Applications\<close>

definition reg_app_columns :: "string list" where
  "reg_app_columns = [''name'', ''descr'', ''author'', ''license'', ''goget'', ''git'']"

definition reg_app_Set :: "'d registry_cql \<Rightarrow> Application \<Rightarrow> 'd \<Rightarrow> (UUID \<times> string option) \<times> 'd" where
  "reg_app_Set Q a d =
     (case rq_UpdateApp Q reg_app_columns a d of
        (Some e, d) \<Rightarrow> ((emptyUUID, Some e), d)
      | (None, d) \<Rightarrow> ((ra_UUID a, None), d))"

definition no_app :: "UUID \<Rightarrow> Application" where
  "no_app u = \<lparr> ra_UUID = u, ra_Name = [], ra_Version = [], ra_Descr = [], ra_Author = [], ra_License = [], ra_Goget = [],
     ra_Git = [], ra_Com = [] \<rparr>"

definition reg_app_Get :: "'d registry_cql \<Rightarrow> UUID \<Rightarrow> 'd \<Rightarrow> Application \<times> string option" where
  "reg_app_Get Q u d =
     (case rq_SelectApp Q u d of
        Inl e \<Rightarrow> (no_app u, Some e)
      | Inr a \<Rightarrow> (case reg_com_List Q u d of (coms, err) \<Rightarrow> (a\<lparr>ra_Com := coms\<rparr>, err)))"

definition delete_app_stmt :: string where
  "delete_app_stmt = ''DELETE FROM applications WHERE uuid = ?''"

definition reg_app_Remove :: "'d registry_cql \<Rightarrow> UUID \<Rightarrow> 'd \<Rightarrow> string option \<times> 'd" where
  "reg_app_Remove Q u d =
     (case rq_Exec Q delete_app_stmt u [] d of
        (Some e, d) \<Rightarrow> (Some e, d)
      | (None, d) \<Rightarrow> reg_com_RemoveAll Q u d)"

text \<open>The error of the count is a variable of the inner block: the result has none.\<close>

definition reg_app_Num :: "'d registry_cql \<Rightarrow> 'd \<Rightarrow> int \<times> string option" where
  "reg_app_Num Q d = (case rq_CountApps Q d of Inl e \<Rightarrow> (0, None) | Inr n \<Rightarrow> (n, None))"

definition reg_app_List :: "'d registry_cql \<Rightarrow> 'd \<Rightarrow> (UUID \<times> string) list \<times> string option" where
  "reg_app_List Q d = (case rq_SelectApps Q d of Inl e \<Rightarrow> ([], Some e) | Inr l \<Rightarrow> (l, None))"

section \<open>What the statements do\<close>

text \<open>
  The documented behaviour, over the rows of the two tables: an update writes the columns it names and makes the row if there is
  none; a select of one row tells when there is none; the commands of an application come in some order.
\<close>

definition app_merge :: "string list \<Rightarrow> Application \<Rightarrow> Application \<Rightarrow> Application" where
  "app_merge cols new old =
     \<lparr> ra_UUID = ra_UUID new,
       ra_Name = (if ''name'' \<in> set cols then ra_Name new else ra_Name old),
       ra_Version = (if ''version'' \<in> set cols then ra_Version new else ra_Version old),
       ra_Descr = (if ''descr'' \<in> set cols then ra_Descr new else ra_Descr old),
       ra_Author = (if ''author'' \<in> set cols then ra_Author new else ra_Author old),
       ra_License = (if ''license'' \<in> set cols then ra_License new else ra_License old),
       ra_Goget = (if ''goget'' \<in> set cols then ra_Goget new else ra_Goget old),
       ra_Git = (if ''git'' \<in> set cols then ra_Git new else ra_Git old), ra_Com = [] \<rparr>"

definition com_key :: "RegCommand \<Rightarrow> UUID \<times> u8 \<times> u8" where
  "com_key c = (rg_AppID c, rg_Cmd c, rg_Type c)"

definition registry_laws :: "'d registry_cql \<Rightarrow> ('d \<Rightarrow> UUID \<rightharpoonup> Application) \<Rightarrow> ('d \<Rightarrow> UUID \<times> u8 \<times> u8 \<rightharpoonup> RegCommand) \<Rightarrow> bool" where
  "registry_laws Q apps coms \<longleftrightarrow>
     (\<forall>cols a d. fst (rq_UpdateApp Q cols a d) = None \<and> coms (snd (rq_UpdateApp Q cols a d)) = coms d
        \<and> apps (snd (rq_UpdateApp Q cols a d)) = (apps d)(ra_UUID a \<mapsto>
            app_merge cols a (case apps d (ra_UUID a) of Some old \<Rightarrow> old | None \<Rightarrow> no_app (ra_UUID a))))
   \<and> (\<forall>u b d. apps d u = Some b \<longrightarrow> rq_SelectApp Q u d = Inr b) \<and> (\<forall>u d. apps d u = None \<longrightarrow> (\<exists>e. rq_SelectApp Q u d = Inl e))
   \<and> (\<forall>c d. fst (rq_UpdateCom Q reg_com_columns c d) = None \<and> apps (snd (rq_UpdateCom Q reg_com_columns c d)) = apps d
        \<and> coms (snd (rq_UpdateCom Q reg_com_columns c d)) = (coms d)(com_key c \<mapsto> c))
   \<and> (\<forall>u d. \<exists>l. rq_SelectComs Q u d = Inr l \<and> distinct l \<and> set l = {c. \<exists>k. coms d (u, k) = Some c})
   \<and> (\<forall>u d. fst (rq_Exec Q delete_app_stmt u [] d) = None \<and> coms (snd (rq_Exec Q delete_app_stmt u [] d)) = coms d
        \<and> apps (snd (rq_Exec Q delete_app_stmt u [] d)) = (apps d)(u := None))
   \<and> (\<forall>u d. fst (rq_Exec Q delete_coms_stmt u [] d) = None \<and> apps (snd (rq_Exec Q delete_coms_stmt u [] d)) = apps d
        \<and> coms (snd (rq_Exec Q delete_coms_stmt u [] d)) = (\<lambda>k. if fst k = u then None else coms d k))"

lemma registry_lawsD:
  assumes "registry_laws Q apps coms"
  shows "fst (rq_UpdateApp Q cols a d) = None" and "coms (snd (rq_UpdateApp Q cols a d)) = coms d"
    and "apps (snd (rq_UpdateApp Q cols a d)) = (apps d)(ra_UUID a \<mapsto>
            app_merge cols a (case apps d (ra_UUID a) of Some old \<Rightarrow> old | None \<Rightarrow> no_app (ra_UUID a)))"
    and "apps d u = Some b \<Longrightarrow> rq_SelectApp Q u d = Inr b" and "apps d u = None \<Longrightarrow> \<exists>e. rq_SelectApp Q u d = Inl e"
    and "fst (rq_UpdateCom Q reg_com_columns c d) = None" and "apps (snd (rq_UpdateCom Q reg_com_columns c d)) = apps d"
    and "coms (snd (rq_UpdateCom Q reg_com_columns c d)) = (coms d)(com_key c \<mapsto> c)"
    and "\<exists>l. rq_SelectComs Q u d = Inr l \<and> distinct l \<and> set l = {c. \<exists>k. coms d (u, k) = Some c}"
    and "fst (rq_Exec Q delete_app_stmt u [] d) = None" and "coms (snd (rq_Exec Q delete_app_stmt u [] d)) = coms d"
    and "apps (snd (rq_Exec Q delete_app_stmt u [] d)) = (apps d)(u := None)"
    and "fst (rq_Exec Q delete_coms_stmt u [] d) = None" and "apps (snd (rq_Exec Q delete_coms_stmt u [] d)) = apps d"
    and "coms (snd (rq_Exec Q delete_coms_stmt u [] d)) = (\<lambda>k. if fst k = u then None else coms d k)"
  using assms unfolding registry_laws_def by blast+

section \<open>Lemmas\<close>

text \<open>The commands of an application, set one after another.\<close>

lemma set_commands:
  assumes "registry_laws Q apps coms" and "distinct (map com_key cs)"
  shows "apps (fold (\<lambda>c d. snd (reg_com_Set Q c d)) cs d) = apps d
    \<and> coms (fold (\<lambda>c d. snd (reg_com_Set Q c d)) cs d) = coms d ++ map_of (map (\<lambda>c. (com_key c, c)) cs)"
  using assms(2)
proof (induction cs arbitrary: d)
  case (Cons c cs)
  let ?d = "snd (reg_com_Set Q c d)" and ?m = "map_of (map (\<lambda>c. (com_key c, c)) cs)"
  have e: "apps ?d = apps d" "coms ?d = (coms d)(com_key c \<mapsto> c)"
    by (simp_all only: reg_com_Set_def registry_lawsD [OF assms(1)])
  have "com_key c \<notin> dom ?m"
    using Cons.prems by (auto simp: dom_map_of_conv_image_fst)
  then have m: "(coms d)(com_key c \<mapsto> c) ++ ?m = coms d ++ ?m(com_key c \<mapsto> c)"
    unfolding map_add_upd by (rule map_add_upd_left)
  have cons: "fold (\<lambda>c d. snd (reg_com_Set Q c d)) (c # cs) d = fold (\<lambda>c d. snd (reg_com_Set Q c d)) cs ?d"
    "map_of (map (\<lambda>c. (com_key c, c)) (c # cs)) = ?m(com_key c \<mapsto> c)" by simp_all
  have "distinct (map com_key cs)" using Cons.prems by simp
  from Cons.IH [OF this, of ?d] show ?case unfolding e cons m .
qed simp

lemma keys_of_commands:
  assumes "distinct (map com_key cs)" and "\<forall>c \<in> set cs. rg_AppID c = u"
  shows "{c. \<exists>k. map_of (map (\<lambda>c. (com_key c, c)) cs) (u, k) = Some c} = set cs"
proof -
  have "map_of (map (\<lambda>c. (com_key c, c)) cs) (com_key c) = Some c" if "c \<in> set cs" for c
    using assms(1) that by (intro map_of_is_SomeI) (simp_all add: comp_def)
  moreover have "com_key c = (u, rg_Cmd c, rg_Type c)" if "c \<in> set cs" for c
    using assms(2) that by (simp add: com_key_def)
  ultimately show ?thesis by (auto dest!: map_of_SomeD)
qed

lemma app_merge_new: "app_merge reg_app_columns a (no_app (ra_UUID a)) = a\<lparr>ra_Version := [], ra_Com := []\<rparr>"
  by (cases a) (simp add: app_merge_def reg_app_columns_def no_app_def)


text \<open>Tables in memory, on which the laws hold.\<close>

definition mem_coms :: "(UUID \<rightharpoonup> Application) \<times> RegCommand list \<Rightarrow> UUID \<times> u8 \<times> u8 \<rightharpoonup> RegCommand" where
  "mem_coms d = map_of (map (\<lambda>c. (com_key c, c)) (snd d))"

definition mem_registry :: "((UUID \<rightharpoonup> Application) \<times> RegCommand list) registry_cql" where
  "mem_registry =
     \<lparr> rq_UpdateApp = (\<lambda>cols a d. (None, ((fst d)(ra_UUID a \<mapsto>
          app_merge cols a (case fst d (ra_UUID a) of Some old \<Rightarrow> old | None \<Rightarrow> no_app (ra_UUID a))), snd d))),
       rq_SelectApp = (\<lambda>u d. case fst d u of Some a \<Rightarrow> Inr a | None \<Rightarrow> Inl ''not found''),
       rq_SelectApps = (\<lambda>d. Inr []), rq_CountApps = (\<lambda>d. Inr 0),
       rq_UpdateCom = (\<lambda>cols c d. (None, (fst d, c # snd d))),
       rq_SelectComs = (\<lambda>u d. Inr (filter (\<lambda>c. rg_AppID c = u \<and> mem_coms d (com_key c) = Some c) (remdups (snd d)))),
       rq_Exec = (\<lambda>stmt u args d.
          if stmt = delete_app_stmt then (None, ((fst d)(u := None), snd d))
          else if stmt = delete_coms_stmt then (None, (fst d, filter (\<lambda>c. rg_AppID c \<noteq> u) (snd d)))
          else (Some ''syntax error'', d)) \<rparr>"

lemma mem_coms_filter:
  "map_of (map (\<lambda>c. (com_key c, c)) (filter (\<lambda>c. rg_AppID c \<noteq> u) cs)) =
    (\<lambda>k. if fst k = u then None else map_of (map (\<lambda>c. (com_key c, c)) cs) k)"
  by (induction cs) (auto simp: fun_eq_iff com_key_def)

lemma mem_registry_laws: "registry_laws mem_registry fst mem_coms"
proof -
  have coms: "{c. \<exists>k. mem_coms d (u, k) = Some c} = {c \<in> set (snd d). rg_AppID c = u \<and> mem_coms d (com_key c) = Some c}" for u d
  proof -
    have k: "c \<in> set (snd d) \<and> com_key c = (u, k)" if "mem_coms d (u, k) = Some c" for c k
      using map_of_SomeD [OF that [unfolded mem_coms_def]] by auto
    show ?thesis
    proof (intro set_eqI iffI)
      fix c assume "c \<in> {c. \<exists>k. mem_coms d (u, k) = Some c}"
      then obtain i where i: "mem_coms d (u, i) = Some c" by blast
      from k [OF i] i show "c \<in> {c \<in> set (snd d). rg_AppID c = u \<and> mem_coms d (com_key c) = Some c}"
        by (simp add: com_key_def)
    qed (auto simp: com_key_def)
  qed
  have "delete_app_stmt \<noteq> delete_coms_stmt" by (simp add: delete_app_stmt_def delete_coms_stmt_def)
  then show ?thesis
    unfolding registry_laws_def coms
    by (auto simp: mem_registry_def mem_coms_def mem_coms_filter split: option.split)
qed


section \<open>What the model shows\<close>

text \<open>The version is no column of the update.\<close>

lemma version_not_stored: "''version'' \<notin> set reg_app_columns"
  by (simp add: reg_app_columns_def)

text \<open>A failed count is a count of zero.\<close>

lemma count_error_lost: "rq_CountApps Q d = Inl e \<Longrightarrow> reg_app_Num Q d = (0, None)"
  by (simp add: reg_app_Num_def)

end
