(* ===== verification/TrudpUdp.thy ===== *)
theory TrudpUdp
  imports Prelude
begin

text \<open>
  \<open>trudp/trudp/udp.go\<close>: the socket of TR-UDP. Whether a port can be listened at, and the port that the system chooses for 0,
  are parameters; sending and receiving are the system's.
\<close>

section \<open>Listening\<close>

text \<open>
  \<open>listen\<close>: a busy port is followed by the next one. A number that is no port does not resolve, which panics.
\<close>

function udp_listen :: "(int \<Rightarrow> bool) \<Rightarrow> int \<Rightarrow> int \<Rightarrow> int go" where
  "udp_listen can_listen chosen port =
     (if port < 0 \<or> 65535 < port then Inl ExplicitPanic
      else if can_listen port then Inr (if port = 0 then chosen else port)
      else udp_listen can_listen chosen (port + 1))"
  by pat_completeness auto
termination
  by (relation "measure (\<lambda>(can_listen, chosen, port). nat (65536 - port))") auto

declare udp_listen.simps [simp del]

text \<open>\<open>localAddr\<close> of the socket of the system call: the four bytes with dots, and the port.\<close>

fun dotted :: "u8 list \<Rightarrow> string" where
  "dotted [] = []"
| "dotted [b] = itoa (unat b)"
| "dotted (b # c # r) = itoa (unat b) @ ''.'' @ dotted (c # r)"

definition udp_localAddr :: "string option \<Rightarrow> u8 list \<Rightarrow> nat \<Rightarrow> string" where
  "udp_localAddr conn ad port = (case conn of Some s \<Rightarrow> s | None \<Rightarrow> dotted ad @ '':'' @ itoa port)"

section \<open>Lemmas\<close>

text \<open>The call returns: with the first port from the given one on that is free, or with a panic when none is.\<close>

lemma udp_listen_total:
  assumes "0 < port"
  shows "case udp_listen can_listen chosen port of
      Inr q \<Rightarrow> port \<le> q \<and> q \<le> 65535 \<and> can_listen q \<and> (\<forall>k. port \<le> k \<and> k < q \<longrightarrow> \<not> can_listen k)
    | Inl e \<Rightarrow> e = ExplicitPanic \<and> (\<forall>k. port \<le> k \<and> k \<le> 65535 \<longrightarrow> \<not> can_listen k)"
  using assms
proof (induction can_listen chosen port rule: udp_listen.induct)
  case (1 can_listen chosen port)
  show ?case
  proof (cases "65535 < port \<or> can_listen port")
    case True
    then show ?thesis using 1(2) by (auto simp: udp_listen.simps [of _ _ port])
  next
    case False
    have "udp_listen can_listen chosen port = udp_listen can_listen chosen (port + 1)"
      using False 1(2) by (simp add: udp_listen.simps [of _ _ port])
    moreover have "(port \<le> k \<and> P) = (k = port \<and> P \<or> port + 1 \<le> k \<and> P)" for k P by auto
    ultimately show ?thesis using 1 False by (auto split: sum.splits)
  qed
qed

end
