(* ===== verification/TrudpWrites.thy ===== *)
theory TrudpWrites
  imports TrudpSender "HOL-Library.Multiset"
begin

text \<open>
  The accounting of users' writes: a write is in the worker's channel, waits in the queue of its
  channel, or has been answered, and it is in one of these places once. No handler panics as long
  as no user writes an empty slice.
\<close>

section \<open>Where a write can be\<close>

type_synonym write_view =
  "(chref \<Rightarrow> writeType list) \<times> (nat \<times> bool) list \<times> chref \<times> writeType list \<times> (udpAddr \<times> packetType) list"

definition write_view :: "TRUDP \<Rightarrow> write_view" where
  "write_view td = (\<lambda>r. writeQueue (heap td r), answers_log td, nextRef td, chanWrite td, chanReader td)"

definition queued :: "TRUDP \<Rightarrow> nat multiset" where
  "queued td = (\<Sum>r<nextRef td. mset (map chanAnswer (writeQueue (heap td r))))"

definition answered :: "TRUDP \<Rightarrow> nat multiset" where
  "answered td = mset (map fst (answers_log td))"

definition in_channel :: "TRUDP \<Rightarrow> nat multiset" where
  "in_channel td = mset (map chanAnswer (chanWrite td))"

definition writes_sound :: "TRUDP \<Rightarrow> bool" where
  "writes_sound td \<longleftrightarrow>
     (\<forall>w \<in> set (chanWrite td). writable w \<and> wtcd w < nextRef td)
     \<and> (\<forall>r < nextRef td. \<forall>w \<in> set (writeQueue (heap td r)). writable w)"

text \<open>
  The writes \<open>M\<close> that were ever sent to the worker, a number \<open>N\<close> of channels that exist, and what the
  worker's two input channels hold.
\<close>

definition kept ::
  "nat multiset \<Rightarrow> nat \<Rightarrow> (udpAddr \<times> packetType) list \<Rightarrow> writeType list \<Rightarrow> TRUDP \<Rightarrow> bool" where
  "kept M N R W td \<longleftrightarrow> writes_sound td \<and> answered td + queued td + in_channel td = M
     \<and> N \<le> nextRef td \<and> chanReader td = R \<and> chanWrite td = W"

lemma kept_view: "write_view td' = write_view td \<Longrightarrow> kept M N R W td \<Longrightarrow> kept M N R W td'"
  by (auto simp: kept_def writes_sound_def queued_def answered_def in_channel_def write_view_def fun_eq_iff)

section \<open>Operations that leave the writes alone\<close>

named_theorems view_simps \<open>operations that keep the write view\<close>

lemma view_upd: "(\<And>t. writeQueue (f t) = writeQueue t) \<Longrightarrow> write_view (upd r f td) = write_view td"
  by (auto simp: write_view_def)

lemma view_sendEvent [view_simps]: "write_view (sendEvent x ev d td) = write_view td"
  by (simp add: write_view_def sendEvent_def)

lemma view_fields [view_simps]:
  "write_view (td\<lparr>totals := a\<rparr>) = write_view td" "write_view (td\<lparr>chanWriter := b\<rparr>) = write_view td"
  "write_view (td\<lparr>chanEvent := d\<rparr>) = write_view td"
  "write_view (td\<lparr>chanKernel := e\<rparr>) = write_view td" "write_view (td\<lparr>tcdmap := m\<rparr>) = write_view td"
  by (simp_all add: write_view_def)

lemma view_upd_packets [view_simps]: "write_view (upd_packets f r td) = write_view td"
  unfolding upd_packets_def by (subst view_upd) (simp_all add: view_simps)

lemma view_stats [view_simps]:
  "write_view (received now n r td) = write_view td" "write_view (ackReceived r td) = write_view td"
  "write_view (dropped r td) = write_view td" "write_view (stat_send now n r td) = write_view td"
  "write_view (upd_stat g r td) = write_view td" "write_view (incID r td) = write_view td"
  "write_view (snd (tcd_ID r td)) = write_view td"
  by (simp_all add: received_def ackReceived_def dropped_def stat_send_def view_simps upd_stat_def
      incID_def tcd_ID_def view_upd)

lemma view_stat_repeat [view_simps]: "write_view (stat_repeat now b r td) = write_view td"
  by (simp add: stat_repeat_def Let_def view_upd view_simps)

lemma view_writeTo [view_simps]: "write_view (pac_writeTo now p r td) = write_view td"
  by (simp add: pac_writeTo_def Let_def view_simps view_upd)

lemma view_receiveQueueProcess [view_simps]: "write_view (snd (receiveQueueProcess r td)) = write_view td"
proof (induction r td rule: receiveQueueProcess.induct)
  case (1 r td)
  then show ?case
    by (subst receiveQueueProcess.simps) (auto simp: Let_def view_upd view_simps split: option.split)
qed

lemma view_calculateLength [view_simps]: "write_view (sendQueueCalculateLength r td) = write_view td"
  by (simp add: sendQueueCalculateLength_def view_upd calculateLength_def Let_def)

lemma view_sendEventConnected [view_simps]: "write_view (sendEventConnected b r k td) = write_view td"
  by (simp add: sendEventConnected_def view_simps view_upd)

section \<open>Operations that move writes\<close>

lemma queued_upd:
  assumes "r < nextRef td"
  shows "queued (upd r f td) + mset (map chanAnswer (writeQueue (heap td r)))
    = queued td + mset (map chanAnswer (writeQueue (f (heap td r))))"
proof -
  let ?q = "\<lambda>h r. mset (map chanAnswer (writeQueue (h r)))"
  let ?h = "heap (upd r f td)"
  have "(\<Sum>x<nextRef td. ?q ?h x) = ?q ?h r + (\<Sum>x\<in>{..<nextRef td} - {r}. ?q ?h x)"
    "(\<Sum>x<nextRef td. ?q (heap td) x) = ?q (heap td) r + (\<Sum>x\<in>{..<nextRef td} - {r}. ?q (heap td) x)"
    by (rule sum.remove; use assms in simp)+
  moreover have "(\<Sum>x\<in>{..<nextRef td} - {r}. ?q ?h x) = (\<Sum>x\<in>{..<nextRef td} - {r}. ?q (heap td) x)"
    by (rule sum.cong) auto
  ultimately show ?thesis by (simp add: queued_def)
qed

lemma view_writeToDirect:
  assumes "writable w"
  shows "\<exists>td'. writeToDirect now w td = Inr td'
    \<and> write_view td' = write_view (td\<lparr>answers_log := answers_log td @ [(chanAnswer w, True)]\<rparr>)"
proof -
  let ?td1 = "snd (tcd_ID (wtcd w) td)"
  let ?p = "data_packet now (heap td (wtcd w)) (lastID (heap td (wtcd w))) w"
  let ?td2 = "pac_writeTo now ?p (wtcd w) ?td1"
  have "writeToDirect now w td = Inr (?td2\<lparr>answers_log := answers_log ?td2 @ [(chanAnswer w, True)]\<rparr>)"
    using assms by (simp add: writeToDirect_def tcd_ID_def Let_def newData_writable)
  moreover have "write_view ?td2 = write_view td" by (simp add: view_simps)
  ultimately show ?thesis by (auto simp: write_view_def)
qed

text \<open>A write leaves a place and is answered.\<close>

lemma kept_writeToDirect:
  assumes "writable w" and "kept M N R W (td\<lparr>answers_log := answers_log td @ [(chanAnswer w, True)]\<rparr>)"
  shows "go_ok (kept M N R W) (writeToDirect now w td)"
  using view_writeToDirect [OF assms(1), of now td] assms(2) by (auto simp: go_ok_def intro: kept_view)

lemma kept_proc_writeTo:
  assumes k: "kept M N R (w # ws) (td\<lparr>chanWrite := w # ws\<rparr>)" and c: "chanWrite td = ws"
  shows "go_ok (kept M N R ws) (proc_writeTo now w td)"
proof (cases "writeQueue (heap td (wtcd w)) = [] \<and> canWrite (wtcd w) td")
  case True
  have "kept M N R ws (td\<lparr>answers_log := answers_log td @ [(chanAnswer w, True)]\<rparr>)"
    using k c by (auto simp: kept_def writes_sound_def queued_def answered_def in_channel_def ac_simps)
  moreover have "writable w" using k by (simp add: kept_def writes_sound_def)
  ultimately show ?thesis using True by (simp add: proc_writeTo_def kept_writeToDirect)
next
  case False
  let ?r = "wtcd w" and ?f = "\<lambda>t. t\<lparr>writeQueue := writeQueue t @ [w]\<rparr>"
  have w: "?r < nextRef td" "writable w" using k by (auto simp: kept_def writes_sound_def)
  have "queued (upd ?r ?f td) = queued td + {#chanAnswer w#}"
    using queued_upd [OF w(1), of ?f] by simp
  then have "kept M N R ws (upd ?r ?f td)"
    using k c w
    by (auto simp: kept_def writes_sound_def answered_def in_channel_def queued_def ac_simps)
  then show ?thesis using False by (auto simp: proc_writeTo_def writeToQueue_def)
qed

lemma kept_write_loop:
  "kept M N R W td \<Longrightarrow> r < nextRef td \<Longrightarrow> writeQueue (heap td r) = ws \<Longrightarrow> go_ok (kept M N R W) (write_loop now r b ws td)"
proof (induction ws arbitrary: b td)
  case (Cons w ws)
  show ?case
  proof (cases "b \<or> canWrite r td")
    case False
    then show ?thesis using Cons.prems by auto
  next
    case True
    let ?f = "\<lambda>t. t\<lparr>writeQueue := ws\<rparr>"
    let ?td0 = "upd r ?f td"
    have w: "writable w" using Cons.prems by (auto simp: kept_def writes_sound_def)
    obtain td1 where td1: "writeToDirect now w ?td0 = Inr td1"
        "write_view td1 = write_view (?td0\<lparr>answers_log := answers_log ?td0 @ [(chanAnswer w, True)]\<rparr>)"
      using view_writeToDirect [OF w] by blast
    have "queued td = queued ?td0 + {#chanAnswer w#}"
      using queued_upd [OF Cons.prems(2), of ?f] Cons.prems(3) by simp
    then have "kept M N R W (?td0\<lparr>answers_log := answers_log ?td0 @ [(chanAnswer w, True)]\<rparr>)"
      using Cons.prems
      by (auto simp: kept_def writes_sound_def answered_def in_channel_def queued_def ac_simps)
    then have "kept M N R W td1" using td1(2) by (rule kept_view [rotated])
    moreover have "nextRef td1 = nextRef td" "writeQueue (heap td1 r) = ws"
      using td1(2) by (auto simp: write_view_def fun_eq_iff)
    ultimately show ?thesis using Cons.IH [of td1 False] Cons.prems(2) True td1(1) by simp
  qed
qed simp

lemma kept_writeFromQueue:
  "kept M N R W td \<Longrightarrow> r < nextRef td \<Longrightarrow> go_ok (kept M N R W) (writeFromQueue now r td)"
  unfolding writeFromQueue_def by (rule kept_write_loop) simp_all

lemma kept_writeQueueReset:
  assumes "kept M N R W td" and "r < nextRef td"
  shows "kept M N R W (writeQueueReset r td)"
proof -
  let ?f = "\<lambda>t. t\<lparr>writeQueue := []\<rparr>"
  have "queued td = queued (upd r ?f td) + mset (map chanAnswer (writeQueue (heap td r)))"
    using queued_upd [OF assms(2), of ?f] by simp
  moreover have "fst \<circ> (\<lambda>w :: writeType. (chanAnswer w, False)) = chanAnswer" by auto
  ultimately show ?thesis
    using assms(1)
    by (auto simp: kept_def writes_sound_def writeQueueReset_def answered_def in_channel_def queued_def
        upd_def ac_simps)
qed


lemma kept_upd:
  "kept M N R W td \<Longrightarrow> (\<And>t. writeQueue (f t) = writeQueue t) \<Longrightarrow> kept M N R W (upd r f td)"
  by (rule kept_view [OF view_upd])

lemma kept_reset: "kept M N R W td \<Longrightarrow> r < nextRef td \<Longrightarrow> kept M N R W (reset r td)"
  unfolding reset_def
  by (rule kept_view [OF view_sendEvent], rule kept_upd, rule kept_writeQueueReset, rule kept_upd) simp_all

lemma nextRef_reset: "nextRef (reset r td) = nextRef td"
  by (simp add: reset_def writeQueueReset_def)

lemma kept_packetDataProcess:
  "kept M N R W td \<Longrightarrow> r < nextRef td \<Longrightarrow> kept M N R W (packetDataProcess now p r td)"
proof (induction now p r td rule: packetDataProcess.induct)
  case (1 now p r td)
  have view: "kept M N R W td'" if "write_view td' = write_view td" for td'
    using that 1(2) by (rule kept_view)
  show ?case
    using 1(1) [OF refl refl refl] 1(2,3) kept_reset [OF 1(2,3)]
    by (subst packetDataProcess.simps)
      (auto simp: Let_def nextRef_reset view_simps view_upd split: option.split intro!: view)
qed

lemma kept_destroy:
  assumes "kept M N R W td" and "r < nextRef td"
  shows "kept M N R W (snd (destroy r td))"
proof (cases "stoppedF (heap td r)")
  case False
  let ?f = "\<lambda>t. t\<lparr>stoppedF := True, sendQueue := sendQueueReset (sendQueue t), receiveQueue := receiveQueueInit\<rparr>"
  have "kept M N R W (writeQueueReset r (upd r ?f td))"
    by (rule kept_writeQueueReset, rule kept_upd) (use assms in simp_all)
  then show ?thesis
    using False by (auto simp: destroy_def Let_def view_simps intro: kept_view)
qed (use assms in \<open>simp add: destroy_def\<close>)

lemma kept_newChannelData:
  assumes k: "kept M N R W td" and new: "newChannelData now a c cc sc td = (ro, kk, td')"
  shows "kept M N R W td'"
proof (cases "tcdmap td (makeKey a c) = None \<and> cc")
  case False
  then show ?thesis
    using new k by (auto simp: newChannelData_def Let_def view_simps split: option.splits if_splits intro: kept_view)
next
  case True
  let ?r = "nextRef td"
  let ?td1 = "td\<lparr>heap := (heap td)(?r := newChannel now a c (makeKey a c) (defaultQueueSize td)),
                 nextRef := ?r + 1, tcdmap := (tcdmap td)(makeKey a c \<mapsto> ?r)\<rparr>"
  have "queued ?td1 = queued td"
    by (simp add: queued_def newChannel_def)
  then have "kept M N R W ?td1"
    using k by (auto simp: kept_def writes_sound_def answered_def in_channel_def newChannel_def less_Suc_eq)
  then have "kept M N R W (sendEventConnected sc ?r (makeKey a c) ?td1)"
    by (rule kept_view [OF view_sendEventConnected])
  then show ?thesis using new True by (auto simp: newChannelData_def Let_def)
qed

lemma newChannelData_ref:
  "td_ok td \<Longrightarrow> newChannelData now a c cc sc td = (Some r, kk, td') \<Longrightarrow> r < nextRef td'"
  using td_okD(1) [of td "makeKey a c" r]
  by (auto simp: newChannelData_def Let_def sendEventConnected_def split: option.splits if_splits)

lemma kept_packets:
  fixes td1 :: TRUDP and now :: time and p :: packetType
  assumes k1: "kept M N R W td1" and r: "r < nextRef td1"
  defines "td2 \<equiv> upd_stat (setLastTimeReceived now) r td1"
  defines "td3 \<equiv> upd_stat (setTriptime now (Triptime (Timestamp now) p)) r td2"
  shows "kept M N R W (packetDataProcess now p r (received now (length (pdata p)) r (pac_writeTo now (newAck p) r td2)))"
    and "go_ok (kept M N R W) (writeFromQueue now r
        (upd r (\<lambda>t. t\<lparr>sendQueue := sq_Remove (ID p) (sendQueue t)\<rparr>) (ackReceived r td3)))"
    and "kept M N R W (reset r (pac_writeTo now (newAckToReset p) r td2))" and "kept M N R W (reset r td2)"
    and "kept M N R W (pac_writeTo now (newAckToPing p) r td2)" and "kept M N R W td2" and "kept M N R W td3"
    and "kept M N R W (sendEvent (Some r) EvGotAckPing [] td3)"
proof -
  have v: "kept M N R W td' \<and> r < nextRef td'" if "write_view td' = write_view td1" for td'
    using kept_view [OF that k1] that r by (simp add: write_view_def)
  have w: "write_view td2 = write_view td1" "write_view td3 = write_view td1"
    by (simp_all only: td2_def td3_def view_stats)
  have sq: "write_view (upd r (\<lambda>t. t\<lparr>sendQueue := sq_Remove (ID p) (sendQueue t)\<rparr>) td') = write_view td'" for td'
    by (rule view_upd) simp
  show "kept M N R W (packetDataProcess now p r (received now (length (pdata p)) r (pac_writeTo now (newAck p) r td2)))"
    by (intro kept_packetDataProcess v [THEN conjunct1] v [THEN conjunct2]) (simp_all only: view_stats view_writeTo w)
  show "go_ok (kept M N R W) (writeFromQueue now r
        (upd r (\<lambda>t. t\<lparr>sendQueue := sq_Remove (ID p) (sendQueue t)\<rparr>) (ackReceived r td3)))"
    by (intro kept_writeFromQueue v [THEN conjunct1] v [THEN conjunct2]) (simp_all only: sq view_stats w)
  show "kept M N R W (reset r (pac_writeTo now (newAckToReset p) r td2))" "kept M N R W (reset r td2)"
    by (intro kept_reset v [THEN conjunct1] v [THEN conjunct2]; simp only: view_writeTo w)+
  show "kept M N R W (pac_writeTo now (newAckToPing p) r td2)" "kept M N R W td2" "kept M N R W td3"
    "kept M N R W (sendEvent (Some r) EvGotAckPing [] td3)"
    by (rule v [THEN conjunct1]; simp only: view_writeTo view_sendEvent w)+
qed

lemma kept_pac_process:
  assumes ok: "td_ok td" and k: "kept M N R W td"
  shows "go_ok (kept M N R W) (pac_process now a p td)"
proof -
  obtain ro kk td1 where new: "newChannelData now a (int (Channel p)) (Type p = 0) True td = (ro, kk, td1)"
    by (metis prod_cases3)
  have k1: "kept M N R W td1" using kept_newChannelData [OF k new] .
  show ?thesis
  proof (cases ro)
    case None
    then show ?thesis using new k1 by (simp add: pac_process_def)
  next
    case (Some r)
    then have r: "r < nextRef td1" using newChannelData_ref [OF ok] new by blast
    show ?thesis
      unfolding pac_process_def new Some prod.case option.case Let_def
      using kept_packets(1-3,5,7,8) [OF k1 r, where now = now and p = p]
        kept_packets(4,6) [OF k1 r, where now = now] by simp
  qed
qed

section \<open>Timers\<close>

lemma kept_resend_loop:
  "kept M N R W td \<Longrightarrow> r < nextRef td \<Longrightarrow> kept M N R W (resend_loop now r es td)"
proof (induction es arbitrary: td)
  case (Cons e es)
  have view: "kept M N R W td' \<and> r < nextRef td'" if "write_view td' = write_view td" for td'
    using that Cons.prems kept_view by (auto simp: write_view_def)
  show ?case
  proof (cases "map_of (sq_q (sendQueue (heap td r))) e")
    case (Some sqd)
    let ?p = "updateTimestamp (Timestamp now) ((packet sqd)\<lparr>destoryF := False\<rparr>)"
    let ?td1 = "upd r (\<lambda>t. t\<lparr>sendQueue := sq_modify e (\<lambda>d. d\<lparr>packet := ?p\<rparr>) (sendQueue t)\<rparr>) td"
    have "write_view (stat_repeat now True r (pac_writeTo now ?p r ?td1)) = write_view td"
      by (simp add: view_simps view_upd)
    from view [OF this] have "kept M N R W (resend_loop now r es (stat_repeat now True r (pac_writeTo now ?p r ?td1)))"
      using Cons.IH by blast
    moreover have "kept M N R W (stat_repeat now False r td)" using view view_stat_repeat by blast
    ultimately show ?thesis
      using Some kept_destroy [OF Cons.prems] by (simp add: Let_def)
  qed (use Cons.prems in simp)
qed simp

lemma newPing_echo: "\<exists>p. newPing now c (bytes_of echoMsg) = Inr p"
  by (simp add: newPing_def echoMsg_def)

lemma newData_hello: "\<exists>p. newData now i c (Some (bytes_of (helloMsg @ s))) = Inr p"
  by (simp add: newData_def helloMsg_def)

lemma kept_keepAlive:
  assumes k: "kept M N R W td" and r: "r < nextRef td"
  shows "go_ok (kept M N R W) (keepAlive now r td)"
proof -
  let ?P = "\<lambda>td'. kept M N R W td' \<and> r < nextRef td'"
  have view: "?P td'" if "write_view td' = write_view td" for td'
    using that k r kept_view by (auto simp: write_view_def)
  have ping: "go_ok ?P (if sleepTime \<le> now - lastTripTimeReceived (stat (heap td r))
        then go_bind (newPing (Timestamp now) (ch (heap td r)) (bytes_of echoMsg))
               (\<lambda>p. Inr (pac_writeTo now p r td))
        else Inr td)"
    using newPing_echo [of "Timestamp now" "ch (heap td r)"] k r
    by (auto simp: view_simps intro!: view)
  show ?thesis
    unfolding keepAlive_def
  proof (rule go_ok_bind [OF ping])
    fix td1 assume td1: "?P td1"
    let ?td2 = "if disconnectTime \<le> now - lastTimeReceived (stat (heap td1 r)) then snd (destroy r td1) else td1"
    have td2: "kept M N R W ?td2" using td1 by (auto intro: kept_destroy)
    obtain p where p: "newData (Timestamp now) (fst (tcd_ID r ?td2)) (ch (heap (snd (tcd_ID r ?td2)) r))
        (Some (bytes_of (helloMsg @ ''-'' @ Itoa (uint (lastID (heap ?td2 r)))))) = Inr p"
      using newData_hello by blast
    have "kept M N R W (pac_writeTo now p r (snd (tcd_ID r ?td2)))"
      by (rule kept_view [OF _ td2]) (simp only: view_simps)
    then show "go_ok (kept M N R W) (let td2 = ?td2
         in if sendTestMsgF (heap td2 r)
            then (let d = helloMsg @ ''-'' @ Itoa (uint (lastID (heap td2 r)));
                      (i, td3) = tcd_ID r td2
                  in go_bind (newData (Timestamp now) i (ch (heap td3 r)) (Some (bytes_of d)))
                       (\<lambda>p. Inr (pac_writeTo now p r td3)))
            else Inr td2)"
      using p td2 by (simp only: Let_def split_def go_bind_simps go_ok_simps split: if_split) simp
  qed
qed


lemma go_ok_conj: "go_ok P m \<Longrightarrow> go_all Q m \<Longrightarrow> go_ok (\<lambda>x. Q x \<and> P x) m"
  by (auto simp: go_ok_def)

lemma kept_timer_channel:
  assumes ok: "td_ok td" and k: "kept M N R W td" and r: "r < nextRef td"
  shows "go_ok (kept M N R W) (timer_channel now i r td)"
proof -
  let ?td1 = "snd (sendQueueResendProcess now r td)"
  have td1: "kept M N R W ?td1" "r < nextRef ?td1"
    using kept_resend_loop [OF k r] td_ok_resend_loop [OF ok r] r
    by (simp_all add: sendQueueResendProcess_def Let_def)
  have "go_ok (kept M N R W) (if i mod 33 = 0 then keepAlive now r ?td1 else Inr ?td1)"
    using td1 kept_keepAlive by simp
  then show ?thesis
    unfolding timer_channel_def Let_def
    by (rule go_ok_bind) (auto intro: kept_view [OF view_calculateLength])
qed

lemma kept_timer_loop:
  "td_ok td \<Longrightarrow> kept M N R W td \<Longrightarrow> go_ok (kept M N R W) (timer_loop now i ks td)"
proof (induction ks arbitrary: td)
  case (Cons k ks)
  show ?case
  proof (cases "tcdmap td k")
    case None
    then show ?thesis using Cons by simp
  next
    case (Some r)
    then have r: "r < nextRef td" using td_okD(1) [OF Cons.prems(1)] by blast
    have "go_ok (\<lambda>td'. td_ok td' \<and> kept M N R W td') (timer_channel now i r td)"
      using Cons.prems r by (intro go_ok_conj kept_timer_channel td_ok_timer_channel)
    then show ?thesis using Some Cons.IH by (auto elim!: go_ok_bind)
  qed
qed simp

section \<open>The steps of the worker\<close>

lemma kept_read_packet:
  assumes "td_ok td" and "kept M N R W td"
  shows "go_ok (kept M N (tl R) W) (read_packet now td)"
proof (cases "chanReader td")
  case Nil
  then show ?thesis using assms(2) by (auto simp: read_packet_def kept_def)
next
  case (Cons ap rest)
  let ?td1 = "td\<lparr>chanReader := rest\<rparr>"
  have "td_ok ?td1" by (rule td_ok_same [OF assms(1)]) simp_all
  moreover have "rest = tl R" using assms(2) Cons by (metis kept_def list.sel(3))
  then have "kept M N (tl R) W ?td1"
    using assms(2) Cons by (auto simp: kept_def writes_sound_def answered_def queued_def in_channel_def)
  ultimately show ?thesis
    using Cons kept_pac_process by (cases ap) (simp add: read_packet_def Let_def)
qed

lemma kept_write_packet:
  assumes "kept M N R W td"
  shows "go_ok (kept M N R (tl W)) (trudp_step now WritePacket td)"
proof (cases "chanWrite td")
  case Nil
  then show ?thesis using assms by (auto simp: trudp_step_def kept_def)
next
  case (Cons w ws)
  then have "td\<lparr>chanWrite := ws, chanWrite := w # ws\<rparr> = td" by (cases td) simp
  moreover have W: "W = w # ws" using assms Cons by (simp add: kept_def)
  ultimately have "kept M N R (w # ws) (td\<lparr>chanWrite := ws, chanWrite := w # ws\<rparr>)" using assms by metis
  from kept_proc_writeTo [OF this] show ?thesis using Cons W by (simp add: trudp_step_def)
qed

lemma kept_connect: "kept M N R W td \<Longrightarrow> kept M N R W (snd (snd (newChannelData now a c cc sc td)))"
  by (metis kept_newChannelData prod.collapse)

lemma kept_kernel_not_trudp:
  assumes "kept M N R W td"
  shows "kept M N R W (kernel_not_trudp now a d td)"
proof -
  obtain ro kk td1 where new: "newChannelData now a 0 False False td = (ro, kk, td1)" by (metis prod_cases3)
  then have "kept M N R W td1" using kept_newChannelData [OF assms] by blast
  then show ?thesis
    using kept_view [OF view_sendEvent] by (simp add: kernel_not_trudp_def new split: option.split)
qed

end
