(* ===== verification/TrudpStop.thy ===== *)
theory TrudpStop
  imports TrudpWrites
begin

text \<open>
  The life of a TR-UDP connection as its goroutines live it: the loop of \<open>Run\<close> and \<open>kernel\<close>,
  \<open>Close\<close>, \<open>Running\<close>, \<open>ChanEvent\<close> and \<open>ChanEventClosed\<close> of \<open>trudp/trudp/trudp.go\<close>, the module
  worker with what it does on return and the writer worker of \<open>trudp/trudp/process.go\<close>, and the
  users' \<open>Write\<close>, \<open>ConnectChannel\<close> and \<open>Close\<close> of \<open>trudp/trudp/channel.go\<close>.

  Each goroutine has a program counter, each Go channel a flag that it is closed, and a step is one
  statement that sends, receives, closes or counts; a handler of the module worker is one step, as
  only that goroutine changes the state it works on. A goroutine that has to wait has no step. The
  channels have the capacities of the code, except that a handler may put more packets into
  \<open>chanWriter\<close> than it holds: the writer worker, which waits for nothing else, takes them out while
  the handler runs. A panic of any goroutine ends the program.
\<close>

section \<open>State\<close>

text \<open>The functions that are run on the kernel level; the first two tell their caller when done.\<close>

datatype kernelFun =
    KfConnect udpAddr int
  | KfClose chref
  | KfNotTrudp udpAddr bytes

datatype crash =
    SendClosedReader
  | SendClosedWrite
  | SendClosedWriter
  | SendClosedEvent
  | SendClosedKernel
  | CloseTwice
  | NegativeWait
  | HandlerPanic panic

datatype runPc = RunReading | RunClosed | RunWaiting | RunStopped

datatype workPc =
    WorkStart | WorkLoop | WorkCloseWriter | WorkChannels | WorkDestroyEvent | WorkCloseEvent
  | WorkKernelFlag | WorkCloseKernel | WorkDone | WorkStopped

datatype writerPc = WriterStart | WriterLoop | WriterDone | WriterStopped

datatype userPc = UserIdle | UserReading | UserStopped

record life =
  ltd :: TRUDP
  localAddr :: string
  sockOpen :: bool
  runPc :: runPc
  workPc :: workPc
  writerPc :: writerPc
  userPc :: userPc
  closedReader :: bool
  closedWrite :: bool
  closedWriter :: bool
  closedEvent :: bool
  closedKernel :: bool
  chanWriteClosedF :: bool
  chanKernelF :: bool
  stopRunningF :: bool
  wg :: int
  calls :: "writeType list"
  kcalls :: "kernelFun list"
  kwait :: "kernelFun list"
  kfinished :: "kernelFun list"
  kdropped :: "kernelFun list"
  issued :: "nat list"
  eventsRead :: "EventData list"
  udpSent :: "(packetType \<times> udpAddr) list"
  crashed :: "crash option"

definition chRWUdpSize :: nat where "chRWUdpSize = 1024"
definition chWriteSize :: nat where "chWriteSize = 256"

text \<open>
  After \<open>Init\<close>: the two workers are started but have not run. \<open>calls\<close> are the writes whose callers
  are past the check of the channel, \<open>kcalls\<close> the goroutines that have to run \<open>kernel\<close>, \<open>kwait\<close> those past its check,
  which wait for the worker, \<open>kdropped\<close> those that found the connection stopped. \<open>issued\<close>, \<open>eventsRead\<close>
  and \<open>udpSent\<close> log the users' writes, the events they got and the packets that went out.
\<close>

definition life_init :: "string \<Rightarrow> life" where
  "life_init l =
     \<lparr> ltd = trudp_init l, localAddr = l, sockOpen = True, runPc = RunReading, workPc = WorkStart,
       writerPc = WriterStart, userPc = UserIdle, closedReader = False, closedWrite = False,
       closedWriter = False, closedEvent = False, closedKernel = False, chanWriteClosedF = False,
       chanKernelF = False, stopRunningF = False, wg = 0, calls = [], kcalls = [], kwait = [],
       kfinished = [], kdropped = [], issued = [], eventsRead = [], udpSent = [], crashed = None \<rparr>"

definition crash :: "crash \<Rightarrow> life \<Rightarrow> life" where
  "crash e s = s\<lparr>crashed := Some e\<rparr>"

text \<open>Closing a channel and counting down the wait group.\<close>

definition go_close :: "bool \<Rightarrow> (life \<Rightarrow> life) \<Rightarrow> life \<Rightarrow> life" where
  "go_close isClosed f s = (if isClosed then crash CloseTwice s else f s)"

definition wg_done :: "life \<Rightarrow> life" where
  "wg_done s = (if wg s \<le> 0 then crash NegativeWait s else s\<lparr>wg := wg s - 1\<rparr>)"

definition Running :: "life \<Rightarrow> bool" where
  "Running s \<longleftrightarrow> \<not> stopRunningF s"

section \<open>The goroutines\<close>

text \<open>
  \<open>Run\<close>: a datagram that was read; and what it does when reading fails, that is when the
  socket was closed: close the reader's channel, \<open>destroy\<close>, wait for the group.
\<close>

definition run_read :: "udpAddr \<Rightarrow> bytes \<Rightarrow> life \<Rightarrow> life option" where
  "run_read a buf s =
     (if runPc s \<noteq> RunReading \<or> \<not> sockOpen s then None
      else case classify (take maxBufferSize buf) of
             DgTrudp p \<Rightarrow>
               if closedReader s then Some (crash SendClosedReader s)
               else if length (chanReader (ltd s)) < chRWUdpSize
               then Some (s\<lparr>ltd := (ltd s)\<lparr>chanReader := chanReader (ltd s) @ [(a, p)]\<rparr>\<rparr>)
               else None
           | DgOther d \<Rightarrow> Some (s\<lparr>kcalls := kcalls s @ [KfNotTrudp a d]\<rparr>)
           | _ \<Rightarrow> Some s)"

definition run_step :: "life \<Rightarrow> life option" where
  "run_step s =
     (case runPc s of
        RunReading \<Rightarrow>
          if sockOpen s then None
          else Some (go_close (closedReader s) (\<lambda>s. s\<lparr>closedReader := True, runPc := RunClosed\<rparr>) s)
      | RunClosed \<Rightarrow> Some (s\<lparr>stopRunningF := True, runPc := RunWaiting\<rparr>)
      | RunWaiting \<Rightarrow> if wg s = 0 then Some (s\<lparr>runPc := RunStopped\<rparr>) else None
      | RunStopped \<Rightarrow> None)"

text \<open>A handler of the worker: it waits until its events fit, and may send on closed channels.\<close>

definition handle :: "TRUDP go \<Rightarrow> life \<Rightarrow> life option" where
  "handle m s =
     (case m of
        Inl e \<Rightarrow> Some (crash (HandlerPanic e) s)
      | Inr td \<Rightarrow>
          if chanWriter td \<noteq> chanWriter (ltd s) \<and> closedWriter s then Some (crash SendClosedWriter s)
          else if chanEvent td = chanEvent (ltd s) then Some (s\<lparr>ltd := td\<rparr>)
          else if closedEvent s then Some (crash SendClosedEvent s)
          else if length (chanEvent td) \<le> chEventSize then Some (s\<lparr>ltd := td\<rparr>) else None)"

definition run_kernelFun :: "time \<Rightarrow> kernelFun \<Rightarrow> TRUDP \<Rightarrow> TRUDP" where
  "run_kernelFun now f td =
     (case f of
        KfConnect a c \<Rightarrow> snd (snd (newChannelData now a c True False td))
      | KfClose r \<Rightarrow> snd (destroy r td)
      | KfNotTrudp a d \<Rightarrow> kernel_not_trudp now a d td)"

text \<open>The cases of the worker's \<open>select\<close>. A closed channel that is empty is always ready.\<close>

definition work_read :: "time \<Rightarrow> life \<Rightarrow> life option" where
  "work_read now s =
     (if workPc s \<noteq> WorkLoop then None
      else if chanReader (ltd s) \<noteq> [] then handle (read_packet now (ltd s)) s
      else if \<not> closedReader s then None
      else if chanWriteClosedF s then Some s
      else Some (go_close (closedWrite s) (\<lambda>s. s\<lparr>closedWrite := True\<rparr>) (s\<lparr>chanWriteClosedF := True\<rparr>)))"

definition work_write :: "time \<Rightarrow> life \<Rightarrow> life option" where
  "work_write now s =
     (if workPc s \<noteq> WorkLoop then None
      else if chanWrite (ltd s) \<noteq> [] then handle (trudp_step now WritePacket (ltd s)) s
      else if closedWrite s then Some (s\<lparr>workPc := WorkCloseWriter\<rparr>) else None)"

definition work_kernel :: "time \<Rightarrow> nat \<Rightarrow> life \<Rightarrow> life option" where
  "work_kernel now n s =
     (if workPc s \<noteq> WorkLoop then None
      else if closedKernel s then Some (s\<lparr>workPc := WorkCloseWriter\<rparr>)
      else if n < length (kwait s)
      then handle (Inr (run_kernelFun now (kwait s ! n) (ltd s)))
             (s\<lparr>kwait := cut_out n (kwait s), kfinished := kfinished s @ [kwait s ! n]\<rparr>)
      else None)"

definition work_timer :: "time \<Rightarrow> nat \<Rightarrow> string list \<Rightarrow> life \<Rightarrow> life option" where
  "work_timer now i ks s =
     (if workPc s \<noteq> WorkLoop then None else handle (timer_loop now i ks (ltd s)) s)"

text \<open>
  The other statements of the worker: its start, and what it does on return, in the order of the
  deferred function. \<open>k\<close> is the key that the loop of \<open>closeChannels\<close> visits next.
\<close>

definition work_step :: "string \<Rightarrow> life \<Rightarrow> life option" where
  "work_step k s =
     (case workPc s of
        WorkStart \<Rightarrow> Some (s\<lparr>wg := wg s + 1, workPc := WorkLoop\<rparr>)
      | WorkLoop \<Rightarrow> None
      | WorkCloseWriter \<Rightarrow>
          Some (go_close (closedWriter s) (\<lambda>s. s\<lparr>closedWriter := True, workPc := WorkChannels\<rparr>) s)
      | WorkChannels \<Rightarrow>
          if tcdmap (ltd s) = Map.empty then Some (s\<lparr>workPc := WorkDestroyEvent\<rparr>)
          else if tcdmap (ltd s) k = None then None
          else handle (Inr (closeChannels [k] (ltd s))) s
      | WorkDestroyEvent \<Rightarrow>
          handle (Inr (sendEvent None EvDestroy (bytes_of (localAddr s)) (ltd s))) (s\<lparr>workPc := WorkCloseEvent\<rparr>)
      | WorkCloseEvent \<Rightarrow>
          Some (go_close (closedEvent s) (\<lambda>s. s\<lparr>closedEvent := True, workPc := WorkKernelFlag\<rparr>) s)
      | WorkKernelFlag \<Rightarrow> Some (s\<lparr>chanKernelF := True, workPc := WorkCloseKernel\<rparr>)
      | WorkCloseKernel \<Rightarrow>
          Some (go_close (closedKernel s) (\<lambda>s. s\<lparr>closedKernel := True, workPc := WorkDone\<rparr>) s)
      | WorkDone \<Rightarrow> Some (wg_done (s\<lparr>workPc := WorkStopped\<rparr>))
      | WorkStopped \<Rightarrow> None)"

text \<open>The writer worker: writing to a socket that is closed fails, which it does not look at.\<close>

definition writer_step :: "life \<Rightarrow> life option" where
  "writer_step s =
     (case writerPc s of
        WriterStart \<Rightarrow> Some (s\<lparr>wg := wg s + 1, writerPc := WriterLoop\<rparr>)
      | WriterLoop \<Rightarrow>
          (case chanWriter (ltd s) of
             w # ws \<Rightarrow>
               Some (s\<lparr>ltd := (ltd s)\<lparr>chanWriter := ws\<rparr>,
                       udpSent := (if sockOpen s then udpSent s @ [w] else udpSent s)\<rparr>)
           | [] \<Rightarrow> if closedWriter s then Some (s\<lparr>writerPc := WriterDone\<rparr>) else None)
      | WriterDone \<Rightarrow> Some (wg_done (s\<lparr>writerPc := WriterStopped\<rparr>))
      | WriterStopped \<Rightarrow> None)"

text \<open>
  The users: \<open>Write\<close> up to its send and the send, which waits for a place; \<open>kernel\<close> up to its check
  and the check; a send on the kernel's channel, which happens when the worker takes it
  or panics; and the reader of events, which ranges over the channel and then calls \<open>ChanEventClosed\<close>.
\<close>

definition user_write :: "chref \<Rightarrow> bytes option \<Rightarrow> nat \<Rightarrow> life \<Rightarrow> life option" where
  "user_write r d ans s =
     (if r < nextRef (ltd s)
      then Some (if stoppedF (heap (ltd s) r) then s
                 else s\<lparr>calls := calls s @ [\<lparr> wtcd = r, wdata = d, chanAnswer = ans \<rparr>], issued := issued s @ [ans]\<rparr>)
      else None)"

definition user_send :: "nat \<Rightarrow> life \<Rightarrow> life option" where
  "user_send n s =
     (if \<not> n < length (calls s) then None
      else if closedWrite s then Some (crash SendClosedWrite s)
      else if length (chanWrite (ltd s)) < chWriteSize
      then Some (s\<lparr>calls := cut_out n (calls s),
                   ltd := (ltd s)\<lparr>chanWrite := chanWrite (ltd s) @ [calls s ! n]\<rparr>\<rparr>)
      else None)"

definition user_kernel :: "kernelFun \<Rightarrow> life \<Rightarrow> life option" where
  "user_kernel f s =
     (if \<forall>r. f = KfClose r \<longrightarrow> r < nextRef (ltd s) then Some (s\<lparr>kcalls := kcalls s @ [f]\<rparr>) else None)"

definition kernel_check :: "nat \<Rightarrow> life \<Rightarrow> life option" where
  "kernel_check n s =
     (if \<not> n < length (kcalls s) then None
      else let s1 = s\<lparr>kcalls := cut_out n (kcalls s)\<rparr>
           in Some (if chanKernelF s then s1\<lparr>kdropped := kdropped s @ [kcalls s ! n]\<rparr>
                    else s1\<lparr>kwait := kwait s @ [kcalls s ! n]\<rparr>))"

definition kernel_send :: "life \<Rightarrow> life option" where
  "kernel_send s = (if kwait s \<noteq> [] \<and> closedKernel s then Some (crash SendClosedKernel s) else None)"

definition user_events :: "life \<Rightarrow> life option" where
  "user_events s =
     (if userPc s = UserIdle then Some (s\<lparr>wg := wg s + 1, userPc := UserReading\<rparr>) else None)"

definition user_read :: "life \<Rightarrow> life option" where
  "user_read s =
     (if userPc s \<noteq> UserReading then None
      else case chanEvent (ltd s) of
             e # es \<Rightarrow> Some (s\<lparr>ltd := (ltd s)\<lparr>chanEvent := es\<rparr>, eventsRead := eventsRead s @ [e]\<rparr>)
           | [] \<Rightarrow> if closedEvent s then Some (wg_done (s\<lparr>userPc := UserStopped\<rparr>)) else None)"

section \<open>Steps and runs\<close>

datatype lifeStep =
    CloseSocket
  | RunRead udpAddr bytes | RunStep
  | WorkRead | WorkWrite | WorkKernel nat | WorkTimer nat "string list" | WorkStep string
  | WriterStep
  | UserWriteCall chref "bytes option" nat | UserSend nat
  | UserKernel kernelFun | KernelCheck nat | KernelSend
  | UserEvents | UserRead

definition life_step :: "time \<Rightarrow> lifeStep \<Rightarrow> life \<Rightarrow> life option" where
  "life_step now st s =
     (if crashed s \<noteq> None then None
      else case st of
        CloseSocket \<Rightarrow> Some (s\<lparr>sockOpen := False\<rparr>)
      | RunRead a buf \<Rightarrow> run_read a buf s
      | RunStep \<Rightarrow> run_step s
      | WorkRead \<Rightarrow> work_read now s
      | WorkWrite \<Rightarrow> work_write now s
      | WorkKernel n \<Rightarrow> work_kernel now n s
      | WorkTimer i ks \<Rightarrow> work_timer now i ks s
      | WorkStep k \<Rightarrow> work_step k s
      | WriterStep \<Rightarrow> writer_step s
      | UserWriteCall r d ans \<Rightarrow> user_write r d ans s
      | UserSend n \<Rightarrow> user_send n s
      | UserKernel f \<Rightarrow> user_kernel f s
      | KernelCheck n \<Rightarrow> kernel_check n s
      | KernelSend \<Rightarrow> kernel_send s
      | UserEvents \<Rightarrow> user_events s
      | UserRead \<Rightarrow> user_read s)"

fun life_run :: "(time \<times> lifeStep) list \<Rightarrow> life \<Rightarrow> life option" where
  "life_run [] s = Some s"
| "life_run ((now, st) # sts) s =
     (case life_step now st s of None \<Rightarrow> None | Some s' \<Rightarrow> life_run sts s')"


section \<open>The invariant\<close>

fun work_rank :: "workPc \<Rightarrow> nat" where
  "work_rank WorkStart = 0"
| "work_rank WorkLoop = 1"
| "work_rank WorkCloseWriter = 2"
| "work_rank WorkChannels = 3"
| "work_rank WorkDestroyEvent = 4"
| "work_rank WorkCloseEvent = 5"
| "work_rank WorkKernelFlag = 6"
| "work_rank WorkCloseKernel = 7"
| "work_rank WorkDone = 8"
| "work_rank WorkStopped = 9"

text \<open>What is closed follows from where the goroutines are, and what is closed by its reader is empty.\<close>

definition flags_ok :: "life \<Rightarrow> bool" where
  "flags_ok s \<longleftrightarrow>
     (let rank = work_rank (workPc s); td = ltd s
      in closedReader s = (runPc s \<noteq> RunReading)
       \<and> (runPc s \<noteq> RunReading \<longrightarrow> \<not> sockOpen s)
       \<and> chanWriteClosedF s = closedWrite s
       \<and> (closedWrite s \<longrightarrow> closedReader s \<and> chanReader td = [])
       \<and> closedWriter s = (3 \<le> rank) \<and> closedEvent s = (6 \<le> rank)
       \<and> chanKernelF s = (7 \<le> rank) \<and> closedKernel s = (8 \<le> rank)
       \<and> (2 \<le> rank \<longrightarrow> closedWrite s \<and> chanWrite td = [])
       \<and> (4 \<le> rank \<longrightarrow> tcdmap td = Map.empty)
       \<and> wg s = of_bool (1 \<le> rank \<and> rank \<le> 8)
                 + of_bool (writerPc s = WriterLoop \<or> writerPc s = WriterDone)
                 + of_bool (userPc s = UserReading)
       \<and> (writerPc s = WriterDone \<or> writerPc s = WriterStopped \<longrightarrow> closedWriter s \<and> chanWriter td = [])
       \<and> (userPc s = UserStopped \<longrightarrow> closedEvent s \<and> chanEvent td = []))"

definition destroy_event :: "life \<Rightarrow> EventData" where
  "destroy_event s = \<lparr> Tcd = None, Event = EvDestroy, EvData = bytes_of (localAddr s) \<rparr>"

definition events_ok :: "life \<Rightarrow> bool" where
  "events_ok s \<longleftrightarrow> length (chanEvent (ltd s)) \<le> chEventSize
     \<and> (5 \<le> work_rank (workPc s) \<longrightarrow>
          (\<exists>evs. eventsRead s @ chanEvent (ltd s) = evs @ [destroy_event s]))"

definition writes_ok :: "life \<Rightarrow> bool" where
  "writes_ok s \<longleftrightarrow> writes_sound (ltd s)
     \<and> (\<forall>w \<in> set (calls s). writable w \<and> wtcd w < nextRef (ltd s))
     \<and> answered (ltd s) + queued (ltd s) + in_channel (ltd s) + mset (map chanAnswer (calls s)) = mset (issued s)"

definition kernel_ok :: "life \<Rightarrow> bool" where
  "kernel_ok s \<longleftrightarrow> (\<forall>r. KfClose r \<in> set (kcalls s) \<union> set (kwait s) \<longrightarrow> r < nextRef (ltd s))"

definition life_ok :: "life \<Rightarrow> bool" where
  "life_ok s \<longleftrightarrow> td_ok (ltd s) \<and> flags_ok s \<and> events_ok s \<and> writes_ok s \<and> kernel_ok s \<and> crashed s = None"

lemma life_ok_init: "life_ok (life_init l)"
proof -
  have "queued (trudp_init l) = {#}" "chanWrite (trudp_init l) = []" "answers_log (trudp_init l) = []"
    "chanReader (trudp_init l) = []" "nextRef (trudp_init l) = 0" "length (chanEvent (trudp_init l)) = 1"
    by (simp_all add: queued_def trudp_init_def sendEvent_def)
  then show ?thesis
    by (simp add: life_ok_def life_init_def td_ok_init flags_ok_def events_ok_def writes_ok_def kernel_ok_def
        writes_sound_def answered_def in_channel_def chEventSize_def)
qed

text \<open>A handler of the worker's loop.\<close>

definition moved :: "life \<Rightarrow> TRUDP \<Rightarrow> bool" where
  "moved s td \<longleftrightarrow> td_ok td
     \<and> (\<exists>R W. kept (answered (ltd s) + queued (ltd s) + in_channel (ltd s)) (nextRef (ltd s)) R W td
          \<and> (chanReader (ltd s) = [] \<longrightarrow> R = []))"

lemma handle_loop:
  assumes ok: "life_ok s" and pc: "workPc s = WorkLoop" and m: "go_ok (moved s) m"
    and h: "handle m s = Some s'"
  shows "life_ok s' \<and> (\<exists>td. m = Inr td \<and> s' = s\<lparr>ltd := td\<rparr>)"
proof -
  obtain td where td: "m = Inr td" "moved s td" using m by (auto simp: go_ok_def)
  have c: "\<not> closedWriter s" "\<not> closedEvent s" using ok pc by (simp_all add: life_ok_def flags_ok_def Let_def)
  have s': "s' = s\<lparr>ltd := td\<rparr>" and len: "length (chanEvent td) \<le> chEventSize"
    using h ok c unfolding td(1)
    by (auto simp: handle_def life_ok_def events_ok_def split: if_splits)
  have "life_ok s'"
    using ok td(2) pc len unfolding s'
    by (auto simp: life_ok_def moved_def flags_ok_def Let_def events_ok_def writes_ok_def kernel_ok_def kept_def)
  then show ?thesis using td(1) s' by blast
qed


lemma kept_now:
  "life_ok s \<Longrightarrow> kept (answered (ltd s) + queued (ltd s) + in_channel (ltd s)) (nextRef (ltd s))
     (chanReader (ltd s)) (chanWrite (ltd s)) (ltd s)"
  by (simp add: life_ok_def writes_ok_def kept_def)

lemma moved_intro:
  assumes "life_ok s" and "go_all td_ok m" and "chanReader (ltd s) = [] \<Longrightarrow> R = []"
    and "go_ok (kept (answered (ltd s) + queued (ltd s) + in_channel (ltd s)) (nextRef (ltd s)) R W) m"
  shows "go_ok (moved s) m"
proof -
  obtain x where "m = Inr x" "kept (answered (ltd s) + queued (ltd s) + in_channel (ltd s)) (nextRef (ltd s)) R W x"
    using assms(4) by (auto simp: go_ok_def)
  then show ?thesis using assms(2,3) unfolding moved_def by auto
qed

lemma moved_read: "life_ok s \<Longrightarrow> go_ok (moved s) (read_packet now (ltd s))"
  by (rule moved_intro [OF _ _ _ kept_read_packet [OF _ kept_now]])
    (use td_ok_trudp_step [where st = ReadPacket] in \<open>auto simp: life_ok_def trudp_step_def\<close>)

lemma moved_write: "life_ok s \<Longrightarrow> go_ok (moved s) (trudp_step now WritePacket (ltd s))"
  by (rule moved_intro [OF _ _ _ kept_write_packet [OF kept_now]])
    (auto simp: life_ok_def intro: td_ok_trudp_step)

lemma moved_timer: "life_ok s \<Longrightarrow> go_ok (moved s) (timer_loop now i ks (ltd s))"
  by (rule moved_intro [OF _ _ _ kept_timer_loop [OF _ kept_now]])
    (auto simp: life_ok_def intro: td_ok_timer_loop)

lemma td_ok_new: "td_ok td \<Longrightarrow> td_ok (snd (snd (newChannelData now a c cc sc td)))"
  by (metis td_ok_newChannelData prod.collapse)

lemma td_ok_kernel_not_trudp:
  assumes "td_ok td"
  shows "td_ok (kernel_not_trudp now a d td)"
  using td_ok_newChannelData [OF assms]
  by (auto simp: kernel_not_trudp_def split: prod.split option.split intro: td_ok_sendEvent)

lemma moved_kernel:
  assumes "life_ok s" and "\<forall>r. f = KfClose r \<longrightarrow> r < nextRef (ltd s)"
  shows "go_ok (moved s) (Inr (run_kernelFun now f (ltd s)))"
proof (rule moved_intro [OF assms(1)])
  have ok: "td_ok (ltd s)" using assms(1) by (simp add: life_ok_def)
  then show "go_all td_ok (Inr (run_kernelFun now f (ltd s)))"
    using assms(2) by (auto simp: run_kernelFun_def split: kernelFun.split
        intro: td_ok_new td_ok_destroy td_ok_kernel_not_trudp)
  show "go_ok (kept (answered (ltd s) + queued (ltd s) + in_channel (ltd s)) (nextRef (ltd s))
      (chanReader (ltd s)) (chanWrite (ltd s))) (Inr (run_kernelFun now f (ltd s)))"
    using assms(2) kept_now [OF assms(1)] by (auto simp: run_kernelFun_def split: kernelFun.split
        intro: kept_connect kept_destroy kept_kernel_not_trudp)
qed simp

lemma moved_close:
  assumes "life_ok s" and "tcdmap (ltd s) k = Some r"
  shows "go_ok (moved s) (Inr (closeChannels [k] (ltd s)))"
  using moved_kernel [OF assms(1), of "KfClose r"] assms td_okD(1) [of "ltd s" k r]
  by (simp add: run_kernelFun_def life_ok_def)

section \<open>Every step keeps the invariant\<close>

text \<open>The one way in which the program can panic: a user's call meets a channel that was closed.\<close>

definition user_panic :: "life \<Rightarrow> bool" where
  "user_panic s \<longleftrightarrow> crashed s = Some SendClosedWrite \<and> calls s \<noteq> [] \<and> \<not> sockOpen s
     \<or> crashed s = Some SendClosedKernel \<and> kwait s \<noteq> [] \<and> \<not> sockOpen s"

text \<open>Each part of the invariant looks at some fields only.\<close>

lemma flags_frame [simp]:
  "flags_ok (s\<lparr>calls := a\<rparr>) = flags_ok s" "flags_ok (s\<lparr>kcalls := b\<rparr>) = flags_ok s"
  "flags_ok (s\<lparr>kwait := b\<rparr>) = flags_ok s" "flags_ok (s\<lparr>kfinished := b\<rparr>) = flags_ok s"
  "flags_ok (s\<lparr>kdropped := b\<rparr>) = flags_ok s" "flags_ok (s\<lparr>issued := c\<rparr>) = flags_ok s"
  "flags_ok (s\<lparr>eventsRead := d\<rparr>) = flags_ok s" "flags_ok (s\<lparr>udpSent := e\<rparr>) = flags_ok s"
  "flags_ok (s\<lparr>stopRunningF := f\<rparr>) = flags_ok s"
  by (simp_all add: flags_ok_def)

lemma events_frame [simp]:
  "events_ok (s\<lparr>calls := a\<rparr>) = events_ok s" "events_ok (s\<lparr>kcalls := b\<rparr>) = events_ok s"
  "events_ok (s\<lparr>kwait := b\<rparr>) = events_ok s" "events_ok (s\<lparr>kfinished := b\<rparr>) = events_ok s"
  "events_ok (s\<lparr>kdropped := b\<rparr>) = events_ok s" "events_ok (s\<lparr>issued := c\<rparr>) = events_ok s"
  "events_ok (s\<lparr>udpSent := e\<rparr>) = events_ok s" "events_ok (s\<lparr>stopRunningF := f\<rparr>) = events_ok s"
  "events_ok (s\<lparr>closedReader := g\<rparr>) = events_ok s" "events_ok (s\<lparr>closedWrite := g\<rparr>) = events_ok s"
  "events_ok (s\<lparr>closedWriter := g\<rparr>) = events_ok s" "events_ok (s\<lparr>closedEvent := g\<rparr>) = events_ok s"
  "events_ok (s\<lparr>closedKernel := g\<rparr>) = events_ok s" "events_ok (s\<lparr>chanWriteClosedF := g\<rparr>) = events_ok s"
  "events_ok (s\<lparr>chanKernelF := g\<rparr>) = events_ok s" "events_ok (s\<lparr>wg := h\<rparr>) = events_ok s"
  "events_ok (s\<lparr>runPc := r\<rparr>) = events_ok s" "events_ok (s\<lparr>writerPc := w\<rparr>) = events_ok s"
  "events_ok (s\<lparr>userPc := u\<rparr>) = events_ok s" "events_ok (s\<lparr>sockOpen := g\<rparr>) = events_ok s"
  by (simp_all add: events_ok_def destroy_event_def)

lemma writes_frame [simp]:
  "writes_ok (s\<lparr>kcalls := b\<rparr>) = writes_ok s" "writes_ok (s\<lparr>kwait := b\<rparr>) = writes_ok s"
  "writes_ok (s\<lparr>kfinished := b\<rparr>) = writes_ok s" "writes_ok (s\<lparr>kdropped := b\<rparr>) = writes_ok s"
  "writes_ok (s\<lparr>eventsRead := d\<rparr>) = writes_ok s" "writes_ok (s\<lparr>udpSent := e\<rparr>) = writes_ok s"
  "writes_ok (s\<lparr>stopRunningF := f\<rparr>) = writes_ok s"
  "writes_ok (s\<lparr>closedReader := g\<rparr>) = writes_ok s" "writes_ok (s\<lparr>closedWrite := g\<rparr>) = writes_ok s"
  "writes_ok (s\<lparr>closedWriter := g\<rparr>) = writes_ok s" "writes_ok (s\<lparr>closedEvent := g\<rparr>) = writes_ok s"
  "writes_ok (s\<lparr>closedKernel := g\<rparr>) = writes_ok s" "writes_ok (s\<lparr>chanWriteClosedF := g\<rparr>) = writes_ok s"
  "writes_ok (s\<lparr>chanKernelF := g\<rparr>) = writes_ok s" "writes_ok (s\<lparr>wg := h\<rparr>) = writes_ok s"
  "writes_ok (s\<lparr>runPc := r\<rparr>) = writes_ok s" "writes_ok (s\<lparr>writerPc := w\<rparr>) = writes_ok s"
  "writes_ok (s\<lparr>userPc := u\<rparr>) = writes_ok s" "writes_ok (s\<lparr>workPc := p\<rparr>) = writes_ok s"
  "writes_ok (s\<lparr>sockOpen := g\<rparr>) = writes_ok s"
  by (simp_all add: writes_ok_def)

lemma kernel_frame [simp]:
  "kernel_ok (s\<lparr>calls := a\<rparr>) = kernel_ok s"
  "kernel_ok (s\<lparr>kfinished := b\<rparr>) = kernel_ok s" "kernel_ok (s\<lparr>kdropped := b\<rparr>) = kernel_ok s"
  "kernel_ok (s\<lparr>issued := c\<rparr>) = kernel_ok s" "kernel_ok (s\<lparr>eventsRead := d\<rparr>) = kernel_ok s"
  "kernel_ok (s\<lparr>udpSent := e\<rparr>) = kernel_ok s" "kernel_ok (s\<lparr>stopRunningF := f\<rparr>) = kernel_ok s"
  "kernel_ok (s\<lparr>closedReader := g\<rparr>) = kernel_ok s" "kernel_ok (s\<lparr>closedWrite := g\<rparr>) = kernel_ok s"
  "kernel_ok (s\<lparr>closedWriter := g\<rparr>) = kernel_ok s" "kernel_ok (s\<lparr>closedEvent := g\<rparr>) = kernel_ok s"
  "kernel_ok (s\<lparr>closedKernel := g\<rparr>) = kernel_ok s" "kernel_ok (s\<lparr>chanWriteClosedF := g\<rparr>) = kernel_ok s"
  "kernel_ok (s\<lparr>chanKernelF := g\<rparr>) = kernel_ok s" "kernel_ok (s\<lparr>wg := h\<rparr>) = kernel_ok s"
  "kernel_ok (s\<lparr>runPc := r\<rparr>) = kernel_ok s" "kernel_ok (s\<lparr>writerPc := w\<rparr>) = kernel_ok s"
  "kernel_ok (s\<lparr>userPc := u\<rparr>) = kernel_ok s" "kernel_ok (s\<lparr>workPc := p\<rparr>) = kernel_ok s"
  "kernel_ok (s\<lparr>sockOpen := g\<rparr>) = kernel_ok s"
  by (simp_all add: kernel_ok_def)

lemma ltd_frame:
  assumes "td_ok (ltd s) \<Longrightarrow> td_ok td" and "write_view td = write_view (ltd s)"
    and "tcdmap td = tcdmap (ltd s)"
  shows "writes_ok (s\<lparr>ltd := td\<rparr>) = writes_ok s" "kernel_ok (s\<lparr>ltd := td\<rparr>) = kernel_ok s"
  using assms(2)
  by (auto simp: writes_ok_def kernel_ok_def write_view_def writes_sound_def answered_def queued_def
      in_channel_def fun_eq_iff)

lemma life_ok_run_read:
  assumes ok: "life_ok s" and st: "run_read a buf s = Some s'"
  shows "life_ok s'"
proof -
  have open': "sockOpen s" using st by (simp add: run_read_def split: if_splits)
  then have flags: "\<not> closedReader s" "\<not> closedWrite s" "work_rank (workPc s) < 2"
    using ok by (auto simp: life_ok_def flags_ok_def Let_def)
  have "s' = s \<or> (\<exists>d. s' = s\<lparr>kcalls := kcalls s @ [KfNotTrudp a d]\<rparr>)
      \<or> (\<exists>x. s' = s\<lparr>ltd := (ltd s)\<lparr>chanReader := x\<rparr>\<rparr>)"
    using st flags(1) by (auto simp: run_read_def split: if_splits datagram.splits)
  moreover have "life_ok (s\<lparr>kcalls := kcalls s @ [KfNotTrudp a d]\<rparr>)" for d
    using ok by (simp add: life_ok_def) (simp add: kernel_ok_def)
  moreover have "life_ok (s\<lparr>ltd := (ltd s)\<lparr>chanReader := x\<rparr>\<rparr>)" for x
  proof -
    let ?s' = "s\<lparr>ltd := (ltd s)\<lparr>chanReader := x\<rparr>\<rparr>"
    have "td_ok ((ltd s)\<lparr>chanReader := x\<rparr>)"
      by (rule td_ok_same [of "ltd s"]) (use ok in \<open>simp_all add: life_ok_def\<close>)
    moreover have "flags_ok ?s'" using ok flags by (auto simp: life_ok_def flags_ok_def Let_def)
    moreover have "events_ok ?s'" using ok by (simp add: life_ok_def events_ok_def destroy_event_def)
    moreover have "writes_ok ?s'" "kernel_ok ?s'"
      using ok by (simp_all add: life_ok_def writes_ok_def kernel_ok_def writes_sound_def answered_def
          queued_def in_channel_def)
    ultimately show ?thesis using ok by (simp add: life_ok_def)
  qed
  ultimately show ?thesis using ok by blast
qed

lemma life_ok_run_step:
  assumes ok: "life_ok s" and st: "run_step s = Some s'"
  shows "life_ok s'"
proof (cases "runPc s")
  case RunReading
  then have "\<not> closedReader s" using ok by (simp add: life_ok_def flags_ok_def Let_def)
  then have "s' = s\<lparr>closedReader := True, runPc := RunClosed\<rparr>" "\<not> sockOpen s"
    using st RunReading by (simp_all add: run_step_def go_close_def split: if_splits)
  then show ?thesis using ok RunReading by (auto simp: life_ok_def) (auto simp: flags_ok_def Let_def)
next
  case RunClosed
  then have "s' = s\<lparr>stopRunningF := True, runPc := RunWaiting\<rparr>" using st by (simp add: run_step_def)
  then show ?thesis using ok RunClosed by (auto simp: life_ok_def) (auto simp: flags_ok_def Let_def)
next
  case RunWaiting
  then have "s' = s\<lparr>runPc := RunStopped\<rparr>" using st by (simp add: run_step_def split: if_splits)
  then show ?thesis using ok RunWaiting by (auto simp: life_ok_def) (auto simp: flags_ok_def Let_def)
qed (use st in \<open>simp add: run_step_def\<close>)


lemma life_ok_work_read:
  assumes ok: "life_ok s" and st: "work_read now s = Some s'"
  shows "life_ok s'"
proof -
  have pc: "workPc s = WorkLoop" using st by (simp add: work_read_def split: if_splits)
  show ?thesis
  proof (cases "chanReader (ltd s) = []")
    case False
    then have "handle (read_packet now (ltd s)) s = Some s'" using st pc by (simp add: work_read_def)
    then show ?thesis using handle_loop [OF ok pc moved_read [OF ok]] by blast
  next
    case True
    have c: "chanWriteClosedF s = closedWrite s" using ok by (simp add: life_ok_def flags_ok_def Let_def)
    have "s' = s \<or> closedReader s \<and> s' = s\<lparr>chanWriteClosedF := True, closedWrite := True\<rparr>"
      using st pc True c by (simp add: work_read_def go_close_def split: if_splits)
    moreover have "life_ok (s\<lparr>chanWriteClosedF := True, closedWrite := True\<rparr>)" if "closedReader s"
      using ok pc True that by (simp add: life_ok_def) (auto simp: flags_ok_def Let_def)
    ultimately show ?thesis using ok by blast
  qed
qed

lemma life_ok_work_write:
  assumes ok: "life_ok s" and st: "work_write now s = Some s'"
  shows "life_ok s'"
proof -
  have pc: "workPc s = WorkLoop" using st by (simp add: work_write_def split: if_splits)
  show ?thesis
  proof (cases "chanWrite (ltd s) = []")
    case True
    then have "closedWrite s" "s' = s\<lparr>workPc := WorkCloseWriter\<rparr>"
      using st pc by (simp_all add: work_write_def split: if_splits)
    then show ?thesis
      using ok pc True by (auto simp: life_ok_def) (auto simp: flags_ok_def events_ok_def Let_def)
  next
    case False
    then have "handle (trudp_step now WritePacket (ltd s)) s = Some s'"
      using st pc by (simp add: work_write_def)
    then show ?thesis using handle_loop [OF ok pc moved_write [OF ok]] by blast
  qed
qed

lemma set_cut_out: "set (cut_out n xs) \<subseteq> set xs"
  by (auto simp: cut_out_def dest: in_set_takeD in_set_dropD)

lemma life_ok_work_kernel:
  assumes ok: "life_ok s" and st: "work_kernel now n s = Some s'"
  shows "life_ok s'"
proof -
  have pc: "workPc s = WorkLoop" using st by (simp add: work_kernel_def split: if_splits)
  then have "\<not> closedKernel s" using ok by (simp add: life_ok_def flags_ok_def Let_def)
  let ?s1 = "s\<lparr>kwait := cut_out n (kwait s), kfinished := kfinished s @ [kwait s ! n]\<rparr>"
  have n: "n < length (kwait s)" and
    h: "handle (Inr (run_kernelFun now (kwait s ! n) (ltd ?s1))) ?s1 = Some s'"
    using st pc \<open>\<not> closedKernel s\<close> by (simp_all add: work_kernel_def split: if_splits)
  have "life_ok ?s1"
    using ok set_cut_out [of n "kwait s"] by (auto simp: life_ok_def) (auto simp: kernel_ok_def)
  moreover have "\<forall>r. kwait s ! n = KfClose r \<longrightarrow> r < nextRef (ltd ?s1)"
  proof (intro allI impI)
    fix r assume "kwait s ! n = KfClose r"
    then have "KfClose r \<in> set (kwait s)" using n nth_mem by metis
    then show "r < nextRef (ltd ?s1)" using ok by (simp add: life_ok_def kernel_ok_def)
  qed
  ultimately have "go_ok (moved ?s1) (Inr (run_kernelFun now (kwait s ! n) (ltd ?s1)))"
    by (rule moved_kernel)
  moreover have "workPc ?s1 = WorkLoop" using pc by simp
  ultimately show ?thesis using handle_loop [OF \<open>life_ok ?s1\<close> _ _ h] by blast
qed

lemma life_ok_work_timer:
  assumes ok: "life_ok s" and st: "work_timer now i ks s = Some s'"
  shows "life_ok s'"
  using st handle_loop [OF ok _ moved_timer [OF ok]] by (auto simp: work_timer_def split: if_splits)


text \<open>The statements of the worker's return. Closing the channels sends no packet.\<close>

lemma chanWriter_destroy: "chanWriter (snd (destroy r td)) = chanWriter td"
  by (simp add: destroy_def Let_def writeQueueReset_def sendEvent_def)

lemma chanWriter_close: "chanWriter (closeChannels [k] td) = chanWriter td"
  by (simp add: chanWriter_destroy split: option.split)

lemma life_ok_close_step:
  assumes ok: "life_ok s" and pc: "workPc s = WorkChannels" and st: "work_step k s = Some s'"
  shows "life_ok s'"
proof (cases "tcdmap (ltd s) = Map.empty")
  case True
  then have "s' = s\<lparr>workPc := WorkDestroyEvent\<rparr>" using pc st by (simp add: work_step_def)
  then show ?thesis
    using ok pc True by (simp add: life_ok_def) (auto simp: flags_ok_def events_ok_def Let_def)
next
  case False
  then obtain r where k: "tcdmap (ltd s) k = Some r" and
    h: "handle (Inr (closeChannels [k] (ltd s))) s = Some s'"
    using pc st by (cases "tcdmap (ltd s) k") (simp_all add: work_step_def)
  obtain td where td: "td = closeChannels [k] (ltd s)" "moved s td"
    using moved_close [OF ok k] by simp
  have c: "\<not> closedEvent s" "chanWriter td = chanWriter (ltd s)"
    using ok pc unfolding td(1) chanWriter_close by (simp_all add: life_ok_def flags_ok_def Let_def)
  have s': "s' = s\<lparr>ltd := td\<rparr>" and len: "length (chanEvent td) \<le> chEventSize"
    using h ok c unfolding td(1) [symmetric]
    by (auto simp: handle_def life_ok_def events_ok_def split: if_splits)
  have "chanReader (ltd s) = []" "chanWrite (ltd s) = []"
    using ok pc by (simp_all add: life_ok_def flags_ok_def Let_def)
  moreover have "chanWrite (closeChannels [k] (ltd s)) = chanWrite (ltd s)"
    by (auto simp: destroy_def Let_def writeQueueReset_def sendEvent_def split: option.split)
  ultimately show ?thesis
    using ok td pc len c unfolding s'
    by (auto simp: life_ok_def moved_def flags_ok_def Let_def events_ok_def writes_ok_def kernel_ok_def kept_def)
qed

lemma life_ok_destroy_event:
  assumes ok: "life_ok s" and pc: "workPc s = WorkDestroyEvent" and st: "work_step k s = Some s'"
  shows "life_ok s'"
proof -
  let ?td = "sendEvent None EvDestroy (bytes_of (localAddr s)) (ltd s)"
  have "\<not> closedEvent s" using ok pc by (simp add: life_ok_def flags_ok_def Let_def)
  moreover have "chanWriter ?td = chanWriter (ltd s)" by (simp add: sendEvent_def)
  ultimately have s': "s' = s\<lparr>workPc := WorkCloseEvent, ltd := ?td\<rparr>" and "length (chanEvent ?td) \<le> chEventSize"
    using st pc by (simp_all add: work_step_def handle_def split: if_splits)
  moreover have "td_ok ?td" using ok by (simp add: life_ok_def td_ok_sendEvent)
  moreover have "chanReader ?td = chanReader (ltd s)" "chanWrite ?td = chanWrite (ltd s)"
    "nextRef ?td = nextRef (ltd s)" "tcdmap ?td = tcdmap (ltd s)" "chanWriter ?td = chanWriter (ltd s)"
    by (simp_all add: sendEvent_def)
  moreover have "writes_ok (s\<lparr>ltd := ?td\<rparr>)" "kernel_ok (s\<lparr>ltd := ?td\<rparr>)"
    using ok ltd_frame [of s ?td] by (simp_all add: life_ok_def td_ok_sendEvent view_simps)
  moreover have "flags_ok (s\<lparr>workPc := WorkCloseEvent, ltd := ?td\<rparr>)"
    using ok pc calculation by (auto simp: life_ok_def flags_ok_def Let_def)
  moreover have "events_ok (s\<lparr>workPc := WorkCloseEvent, ltd := ?td\<rparr>)"
    using calculation by (simp add: events_ok_def destroy_event_def)
  ultimately show ?thesis using ok by (simp add: life_ok_def) (simp add: writes_ok_def kernel_ok_def)
qed


lemma wg_done_pos: "0 < wg s \<Longrightarrow> wg_done s = s\<lparr>wg := wg s - 1\<rparr>"
  by (simp add: wg_done_def)

lemma life_ok_work_step:
  assumes ok: "life_ok s" and st: "work_step k s = Some s'"
  shows "life_ok s'"
proof (cases "workPc s")
  case WorkStart
  then have "s' = s\<lparr>wg := wg s + 1, workPc := WorkLoop\<rparr>" using st by (simp add: work_step_def)
  then show ?thesis
    using ok WorkStart by (simp add: life_ok_def) (auto simp: flags_ok_def events_ok_def Let_def)
next
  case WorkCloseWriter
  have "\<not> closedWriter s" using ok WorkCloseWriter by (simp add: life_ok_def flags_ok_def Let_def)
  then have "s' = s\<lparr>closedWriter := True, workPc := WorkChannels\<rparr>"
    using st WorkCloseWriter by (simp add: work_step_def go_close_def)
  then show ?thesis
    using ok WorkCloseWriter by (simp add: life_ok_def) (auto simp: flags_ok_def events_ok_def Let_def)
next
  case WorkCloseEvent
  have "\<not> closedEvent s" using ok WorkCloseEvent by (simp add: life_ok_def flags_ok_def Let_def)
  then have s': "s' = s\<lparr>closedEvent := True, workPc := WorkKernelFlag\<rparr>"
    using st WorkCloseEvent by (simp add: work_step_def go_close_def)
  show ?thesis
    using ok WorkCloseEvent unfolding s'
    by (simp add: life_ok_def) (auto simp: flags_ok_def events_ok_def destroy_event_def Let_def)
next
  case WorkKernelFlag
  then have s': "s' = s\<lparr>chanKernelF := True, workPc := WorkCloseKernel\<rparr>"
    using st by (simp add: work_step_def)
  show ?thesis
    using ok WorkKernelFlag unfolding s'
    by (simp add: life_ok_def) (auto simp: flags_ok_def events_ok_def destroy_event_def Let_def)
next
  case WorkCloseKernel
  have "\<not> closedKernel s" using ok WorkCloseKernel by (simp add: life_ok_def flags_ok_def Let_def)
  then have s': "s' = s\<lparr>closedKernel := True, workPc := WorkDone\<rparr>"
    using st WorkCloseKernel by (simp add: work_step_def go_close_def)
  show ?thesis
    using ok WorkCloseKernel unfolding s'
    by (simp add: life_ok_def) (auto simp: flags_ok_def events_ok_def destroy_event_def Let_def)
next
  case WorkDone
  have "0 < wg s" using ok WorkDone by (simp add: life_ok_def flags_ok_def Let_def)
  then have s': "s' = s\<lparr>workPc := WorkStopped, wg := wg s - 1\<rparr>"
    using st WorkDone by (simp add: work_step_def wg_done_pos)
  show ?thesis
    using ok WorkDone unfolding s'
    by (simp add: life_ok_def) (auto simp: flags_ok_def events_ok_def destroy_event_def Let_def)
next
  case WorkChannels
  then show ?thesis using life_ok_close_step ok st by blast
next
  case WorkDestroyEvent
  then show ?thesis using life_ok_destroy_event ok st by blast
qed (use st in \<open>simp_all add: work_step_def\<close>)

lemma life_ok_writer_step:
  assumes ok: "life_ok s" and st: "writer_step s = Some s'"
  shows "life_ok s'"
proof (cases "writerPc s")
  case WriterStart
  then have s': "s' = s\<lparr>wg := wg s + 1, writerPc := WriterLoop\<rparr>" using st by (simp add: writer_step_def)
  show ?thesis
    using ok WriterStart unfolding s' by (simp add: life_ok_def) (auto simp: flags_ok_def Let_def)
next
  case WriterLoop
  show ?thesis
  proof (cases "chanWriter (ltd s)")
    case Nil
    then have "closedWriter s" and s': "s' = s\<lparr>writerPc := WriterDone\<rparr>"
      using st WriterLoop by (simp_all add: writer_step_def split: if_splits)
    then show ?thesis
      using ok WriterLoop Nil unfolding s' by (simp add: life_ok_def) (auto simp: flags_ok_def Let_def)
  next
    case (Cons w ws)
    let ?td = "(ltd s)\<lparr>chanWriter := ws\<rparr>"
    obtain u where s': "s' = s\<lparr>ltd := ?td, udpSent := u\<rparr>"
      using st WriterLoop Cons by (auto simp: writer_step_def)
    have td: "td_ok ?td" by (rule td_ok_same [of "ltd s"]) (use ok in \<open>simp_all add: life_ok_def\<close>)
    have "writes_ok (s\<lparr>ltd := ?td\<rparr>)" "kernel_ok (s\<lparr>ltd := ?td\<rparr>)"
      using ok ltd_frame [of s ?td] td by (simp_all add: life_ok_def view_simps)
    moreover have "flags_ok (s\<lparr>ltd := ?td\<rparr>)" "events_ok (s\<lparr>ltd := ?td\<rparr>)"
      using ok WriterLoop by (simp_all add: life_ok_def) (auto simp: flags_ok_def events_ok_def destroy_event_def Let_def)
    ultimately show ?thesis using ok td unfolding s' by (simp add: life_ok_def)
  qed
next
  case WriterDone
  have "0 < wg s" using ok WriterDone by (simp add: life_ok_def flags_ok_def Let_def)
  then have s': "s' = s\<lparr>writerPc := WriterStopped, wg := wg s - 1\<rparr>"
    using st WriterDone by (simp add: writer_step_def wg_done_pos)
  show ?thesis
    using ok WriterDone unfolding s' by (simp add: life_ok_def) (auto simp: flags_ok_def Let_def)
qed (use st in \<open>simp add: writer_step_def\<close>)

lemma life_ok_user_read:
  assumes ok: "life_ok s" and st: "user_read s = Some s'"
  shows "life_ok s'"
proof -
  have pc: "userPc s = UserReading" using st by (simp add: user_read_def split: if_splits)
  show ?thesis
  proof (cases "chanEvent (ltd s)")
    case Nil
    have "0 < wg s" using ok pc by (simp add: life_ok_def flags_ok_def Let_def)
    then have "closedEvent s" and s': "s' = s\<lparr>userPc := UserStopped, wg := wg s - 1\<rparr>"
      using st pc Nil by (simp_all add: user_read_def wg_done_pos split: if_splits)
    then show ?thesis
      using ok pc Nil unfolding s' by (simp add: life_ok_def) (auto simp: flags_ok_def Let_def)
  next
    case (Cons e es)
    let ?td = "(ltd s)\<lparr>chanEvent := es\<rparr>"
    have s': "s' = s\<lparr>ltd := ?td, eventsRead := eventsRead s @ [e]\<rparr>"
      using st pc Cons by (simp add: user_read_def)
    have td: "td_ok ?td" by (rule td_ok_same [of "ltd s"]) (use ok in \<open>simp_all add: life_ok_def\<close>)
    have "writes_ok (s\<lparr>ltd := ?td\<rparr>)" "kernel_ok (s\<lparr>ltd := ?td\<rparr>)"
      using ok ltd_frame [of s ?td] td by (simp_all add: life_ok_def view_simps)
    moreover have "flags_ok (s\<lparr>ltd := ?td\<rparr>)"
      using ok pc by (simp add: life_ok_def) (auto simp: flags_ok_def Let_def)
    moreover have "events_ok s'"
      using ok Cons unfolding s' by (simp add: life_ok_def) (auto simp: events_ok_def destroy_event_def)
    ultimately show ?thesis using ok td unfolding s' by (simp add: life_ok_def)
  qed
qed


lemma life_ok_user_write:
  assumes ok: "life_ok s" and d: "d \<noteq> Some []" and st: "user_write r d ans s = Some s'"
  shows "life_ok s'"
proof -
  let ?w = "\<lparr> wtcd = r, wdata = d, chanAnswer = ans \<rparr>"
  have "r < nextRef (ltd s)" "s' = s \<or> s' = s\<lparr>calls := calls s @ [?w], issued := issued s @ [ans]\<rparr>"
    using st by (auto simp: user_write_def split: if_splits)
  moreover have "life_ok (s\<lparr>calls := calls s @ [?w], issued := issued s @ [ans]\<rparr>)" if "r < nextRef (ltd s)"
    using ok d that by (simp add: life_ok_def) (auto simp: writes_ok_def writable_def)
  ultimately show ?thesis using ok by blast
qed

lemma mset_cut_out: "n < length xs \<Longrightarrow> mset xs = add_mset (xs ! n) (mset (cut_out n xs))"
  by (metis cut_out_def id_take_nth_drop mset_append union_mset_add_mset_right mset.simps(2))

lemma life_ok_user_send:
  assumes ok: "life_ok s" and st: "user_send n s = Some s'"
  shows "life_ok s' \<or> s' = crash SendClosedWrite s \<and> closedWrite s \<and> calls s \<noteq> []"
proof (cases "closedWrite s")
  case True
  then show ?thesis using st by (auto simp: user_send_def split: if_splits)
next
  case False
  let ?td = "(ltd s)\<lparr>chanWrite := chanWrite (ltd s) @ [calls s ! n]\<rparr>"
  have n: "n < length (calls s)" and s': "s' = s\<lparr>calls := cut_out n (calls s), ltd := ?td\<rparr>"
    using st False by (simp_all add: user_send_def split: if_splits)
  have rank: "work_rank (workPc s) < 2" using ok False by (auto simp: life_ok_def flags_ok_def Let_def)
  have td: "td_ok ?td" by (rule td_ok_same [of "ltd s"]) (use ok in \<open>simp_all add: life_ok_def\<close>)
  have "flags_ok (s\<lparr>ltd := ?td\<rparr>)" "events_ok (s\<lparr>ltd := ?td\<rparr>)"
    using ok rank by (simp_all add: life_ok_def) (auto simp: flags_ok_def events_ok_def destroy_event_def Let_def)
  then have "flags_ok s'" "events_ok s'"
    unfolding s' by (simp_all add: flags_ok_def events_ok_def destroy_event_def)
  moreover have "kernel_ok s'" using ok unfolding s' by (simp add: life_ok_def) (simp add: kernel_ok_def)
  moreover have "writes_ok s'"
  proof -
    have w: "calls s ! n \<in> set (calls s)" using n by simp
    show ?thesis
      using ok w set_cut_out [of n "calls s"] mset_cut_out [OF n] unfolding s'
      by (auto simp: life_ok_def writes_ok_def writes_sound_def answered_def queued_def in_channel_def)
  qed
  ultimately have "life_ok s'" using ok td unfolding s' by (simp add: life_ok_def)
  then show ?thesis by blast
qed

lemma life_ok_user_kernel:
  "life_ok s \<Longrightarrow> user_kernel f s = Some s' \<Longrightarrow> life_ok s'"
  by (auto simp: user_kernel_def life_ok_def split: if_splits) (auto simp: kernel_ok_def)

lemma life_ok_kernel_check:
  assumes ok: "life_ok s" and st: "kernel_check n s = Some s'"
  shows "life_ok s'"
proof -
  let ?s1 = "s\<lparr>kcalls := cut_out n (kcalls s)\<rparr>"
  have n: "n < length (kcalls s)" using st by (simp add: kernel_check_def split: if_splits)
  then have f: "kcalls s ! n \<in> set (kcalls s)" by simp
  have "life_ok (?s1\<lparr>kdropped := x\<rparr>)" for x
    using ok set_cut_out [of n "kcalls s"] by (simp add: life_ok_def) (auto simp: kernel_ok_def)
  moreover have "life_ok (?s1\<lparr>kwait := kwait s @ [kcalls s ! n]\<rparr>)"
    using ok f set_cut_out [of n "kcalls s"] by (simp add: life_ok_def) (auto simp: kernel_ok_def)
  ultimately show ?thesis using st n by (auto simp: kernel_check_def Let_def split: if_splits)
qed

lemma life_ok_user_events:
  assumes ok: "life_ok s" and st: "user_events s = Some s'"
  shows "life_ok s'"
proof -
  have "userPc s = UserIdle" and s': "s' = s\<lparr>wg := wg s + 1, userPc := UserReading\<rparr>"
    using st by (simp_all add: user_events_def split: if_splits)
  then show ?thesis using ok unfolding s' by (simp add: life_ok_def) (auto simp: flags_ok_def Let_def)
qed

definition no_empty_write :: "lifeStep \<Rightarrow> bool" where
  "no_empty_write st \<longleftrightarrow> (\<forall>r ans. st \<noteq> UserWriteCall r (Some []) ans)"

lemma life_ok_close_socket: "life_ok s \<Longrightarrow> life_ok (s\<lparr>sockOpen := False\<rparr>)"
  by (simp add: life_ok_def) (auto simp: flags_ok_def Let_def)

lemma closed_socket: "life_ok s \<Longrightarrow> closedWrite s \<or> closedKernel s \<Longrightarrow> \<not> sockOpen s"
  by (auto simp: life_ok_def flags_ok_def Let_def)

lemma life_step_ok:
  assumes ok: "life_ok s" and ne: "no_empty_write st" and st: "life_step now st s = Some s'"
  shows "life_ok s' \<or> user_panic s'"
proof (cases st)
  case (UserSend n)
  then have "user_send n s = Some s'" using st by (simp add: life_step_def split: if_splits)
  from life_ok_user_send [OF ok this] show ?thesis
  proof
    assume "s' = crash SendClosedWrite s \<and> closedWrite s \<and> calls s \<noteq> []"
    then show ?thesis using closed_socket [OF ok] by (simp add: user_panic_def crash_def)
  qed simp
next
  case KernelSend
  then show ?thesis
    using st closed_socket [OF ok] ok
    by (auto simp: life_step_def life_ok_def kernel_send_def user_panic_def crash_def split: if_splits)
next
  case (UserWriteCall r d ans)
  then have "user_write r d ans s = Some s'" "d \<noteq> Some []"
    using st ne by (auto simp: life_step_def no_empty_write_def split: if_splits)
  then show ?thesis using life_ok_user_write [OF ok] by blast
qed (use st ok in \<open>auto simp: life_step_def life_ok_close_socket split: if_splits
      dest: life_ok_run_read [OF ok] life_ok_run_step [OF ok] life_ok_work_read [OF ok] life_ok_work_write [OF ok]
        life_ok_work_kernel [OF ok] life_ok_work_timer [OF ok] life_ok_work_step [OF ok] life_ok_writer_step [OF ok]
        life_ok_user_kernel [OF ok] life_ok_kernel_check [OF ok] life_ok_user_events [OF ok] life_ok_user_read [OF ok]\<close>)

lemma life_run_ok:
  "life_run sts s = Some s' \<Longrightarrow> life_ok s \<Longrightarrow> \<forall>(now, st) \<in> set sts. no_empty_write st \<Longrightarrow>
     life_ok s' \<or> user_panic s'"
proof (induction sts s rule: life_run.induct)
  case (2 now st sts s)
  obtain s1 where s1: "life_step now st s = Some s1" "life_run sts s1 = Some s'"
    using 2(2) by (auto split: option.splits)
  from life_step_ok [OF 2(3) _ s1(1)] 2(4) consider "life_ok s1" | "user_panic s1" by auto
  then show ?case
  proof cases
    case 1
    then show ?thesis using 2(1) [OF s1] 2(4) by simp
  next
    case 2
    then have "crashed s1 \<noteq> None" by (auto simp: user_panic_def)
    then have "s' = s1" using s1(2) by (cases sts) (auto simp: life_step_def)
    then show ?thesis using 2 by simp
  qed
qed simp

end
