(* ===== verification/TrudpShutdown.thy ===== *)
theory TrudpShutdown
  imports TrudpStop
begin

text \<open>
  Stopping a TR-UDP connection: no goroutine of the library panics, from every state after the
  socket is closed the goroutines can all come to their end, every write is accounted for, and
  where the order of the steps goes wrong.
\<close>

section \<open>The way to the end\<close>

text \<open>The steps of the library's own goroutines and of the reader of events.\<close>

definition own_step :: "lifeStep \<Rightarrow> bool" where
  "own_step st \<longleftrightarrow> st = RunStep \<or> st = WorkRead \<or> st = WorkWrite \<or> (\<exists>k. st = WorkStep k)
     \<or> st = WriterStep \<or> st = UserRead"

definition closing :: "life \<Rightarrow> bool" where
  "closing s \<longleftrightarrow> life_ok s \<and> \<not> sockOpen s \<and> userPc s \<noteq> UserIdle"

definition all_stopped :: "life \<Rightarrow> bool" where
  "all_stopped s \<longleftrightarrow> runPc s = RunStopped \<and> workPc s = WorkStopped \<and> writerPc s = WriterStopped
     \<and> userPc s = UserStopped"

definition live_channels :: "TRUDP \<Rightarrow> chref set" where
  "live_channels td = {r. r < nextRef td \<and> \<not> stoppedF (heap td r)}"

text \<open>What is left to do, the goroutines that others wait for first.\<close>

definition work_left :: "(life \<times> life) set" where
  "work_left = measures
     [\<lambda>s. case runPc s of RunReading \<Rightarrow> 2 | RunClosed \<Rightarrow> 1 | _ \<Rightarrow> 0,
      \<lambda>s. 9 - work_rank (workPc s),
      \<lambda>s. length (chanReader (ltd s)),
      \<lambda>s. of_bool (\<not> chanWriteClosedF s),
      \<lambda>s. length (chanWrite (ltd s)),
      \<lambda>s. card (live_channels (ltd s)),
      \<lambda>s. case writerPc s of WriterStart \<Rightarrow> 3 | WriterLoop \<Rightarrow> 2 | WriterDone \<Rightarrow> 1 | WriterStopped \<Rightarrow> 0,
      \<lambda>s. of_bool (userPc s = UserReading),
      \<lambda>s. length (chanWriter (ltd s)) + length (chanEvent (ltd s)),
      \<lambda>s. of_bool (runPc s = RunWaiting)]"

lemma wf_work_left: "wf work_left"
  by (simp add: work_left_def)

definition advance :: "time \<Rightarrow> life \<Rightarrow> bool" where
  "advance now s \<longleftrightarrow>
     (\<exists>st s'. own_step st \<and> life_step now st s = Some s' \<and> closing s' \<and> (s', s) \<in> work_left)"

lemma advanceI:
  assumes "closing s" and "own_step st" and "life_step now st s = Some s'" and "(s', s) \<in> work_left"
    and "sockOpen s' = sockOpen s" and "userPc s' \<noteq> UserIdle" and "crashed s' = None"
  shows "advance now s"
proof -
  have "no_empty_write st" using assms(2) by (auto simp: own_step_def no_empty_write_def)
  then have "life_ok s'"
    using life_step_ok [OF _ _ assms(3)] assms(1,7) by (auto simp: closing_def user_panic_def)
  then have "closing s'" using assms by (simp add: closing_def)
  then show ?thesis using assms(2-4) unfolding advance_def by blast
qed

lemma closing_facts:
  assumes "closing s"
  shows "crashed s = None" "\<not> sockOpen s" "work_rank (workPc s) < 6 \<Longrightarrow> userPc s = UserReading"
    "userPc s \<noteq> UserIdle" "td_ok (ltd s)" "runPc s \<noteq> RunReading \<Longrightarrow> closedReader s"
    "runPc s = RunReading \<Longrightarrow> \<not> closedReader s"
    "chanWriteClosedF s = closedWrite s" "work_rank (workPc s) < 3 \<Longrightarrow> \<not> closedWriter s"
    "3 \<le> work_rank (workPc s) \<Longrightarrow> closedWriter s" "6 \<le> work_rank (workPc s) \<Longrightarrow> closedEvent s"
    "work_rank (workPc s) < 6 \<Longrightarrow> \<not> closedEvent s" "work_rank (workPc s) < 8 \<Longrightarrow> \<not> closedKernel s"
  using assms by (cases "userPc s"; auto simp: closing_def life_ok_def flags_ok_def Let_def)+

lemma read_event:
  assumes c: "closing s" and r: "userPc s = UserReading" and e: "chanEvent (ltd s) = e # es"
  shows "advance now s"
proof -
  let ?s' = "s\<lparr>ltd := (ltd s)\<lparr>chanEvent := es\<rparr>, eventsRead := eventsRead s @ [e]\<rparr>"
  have "life_step now UserRead s = Some ?s'"
    using closing_facts(1) [OF c] r e by (simp add: life_step_def user_read_def)
  moreover have "(?s', s) \<in> work_left" using e by (simp add: work_left_def live_channels_def)
  ultimately show ?thesis
    by (rule advanceI [OF c, of UserRead, rotated]) (use r closing_facts [OF c] in \<open>simp_all add: own_step_def\<close>)
qed


lemma run_advances:
  assumes c: "closing s" and pc: "runPc s = RunReading \<or> runPc s = RunClosed"
  shows "advance now s"
  using pc
proof
  assume pc: "runPc s = RunReading"
  let ?s' = "s\<lparr>closedReader := True, runPc := RunClosed\<rparr>"
  have "life_step now RunStep s = Some ?s'"
    using closing_facts(1,2,7) [OF c] pc by (simp add: life_step_def run_step_def go_close_def)
  moreover have "(?s', s) \<in> work_left" using pc by (simp add: work_left_def)
  ultimately show ?thesis
    by (rule advanceI [OF c, of RunStep, rotated]) (use closing_facts [OF c] in \<open>simp_all add: own_step_def\<close>)
next
  assume pc: "runPc s = RunClosed"
  let ?s' = "s\<lparr>stopRunningF := True, runPc := RunWaiting\<rparr>"
  have "life_step now RunStep s = Some ?s'"
    using closing_facts(1) [OF c] pc by (simp add: life_step_def run_step_def)
  moreover have "(?s', s) \<in> work_left" using pc by (simp add: work_left_def)
  ultimately show ?thesis
    by (rule advanceI [OF c, of RunStep, rotated]) (use closing_facts [OF c] in \<open>simp_all add: own_step_def\<close>)
qed

text \<open>The handlers that the worker's loop runs while it stops always have room for their events.\<close>

lemma read_packet_events:
  "go_all (\<lambda>td'. length (chanEvent td') \<le> max (length (chanEvent td) + 3) (chEventSize - 16)) (read_packet now td)"
proof (cases "chanReader td")
  case (Cons ap rest)
  then show ?thesis
    using chanEvent_pac_process [of "td\<lparr>chanReader := rest\<rparr>" now "fst ap" "snd ap"]
    by (cases ap) (auto simp: read_packet_def Let_def max_def)
qed (simp add: read_packet_def)

lemma write_packet_events:
  "go_all (\<lambda>td'. chanEvent td' = chanEvent td) (trudp_step now WritePacket td)"
proof (cases "chanWrite td")
  case (Cons w ws)
  have "go_all (\<lambda>td'. chanEvent td' = chanEvent (td\<lparr>chanWrite := ws\<rparr>)) (proc_writeTo now w (td\<lparr>chanWrite := ws\<rparr>))"
    by (rule go_all_mono [OF rx_frame_proc_writeTo]) (rule frame_nextRef(4))
  then show ?thesis using Cons by (simp add: trudp_step_def)
qed (simp add: trudp_step_def)

lemma handle_fits:
  assumes "\<not> closedWriter s" and "\<not> closedEvent s" and "length (chanEvent td) \<le> chEventSize"
  shows "handle (Inr td) s = Some (s\<lparr>ltd := td\<rparr>)"
  using assms by (simp add: handle_def)

lemma loop_reads:
  assumes c: "closing s" and pc: "workPc s = WorkLoop" and run: "runPc s \<noteq> RunReading"
    and e: "chanEvent (ltd s) = []" and r: "chanReader (ltd s) \<noteq> []"
  shows "advance now s"
proof -
  obtain td where td: "read_packet now (ltd s) = Inr td" "chanReader td = tl (chanReader (ltd s))"
    using kept_read_packet [OF closing_facts(5) [OF c] kept_now, of now] c
    by (auto simp: closing_def go_ok_def kept_def)
  have "length (chanEvent td) \<le> chEventSize"
    using read_packet_events [of "ltd s" now] e unfolding td(1) by (simp add: chEventSize_def)
  then have "life_step now WorkRead s = Some (s\<lparr>ltd := td\<rparr>)"
    using closing_facts [OF c] pc r td(1) by (simp add: life_step_def work_read_def handle_fits)
  moreover have "(s\<lparr>ltd := td\<rparr>, s) \<in> work_left" using r td(2) by (simp add: work_left_def)
  ultimately show ?thesis
    by (rule advanceI [OF c, of WorkRead, rotated]) (use closing_facts [OF c] in \<open>simp_all add: own_step_def\<close>)
qed

lemma loop_closes_write:
  assumes c: "closing s" and pc: "workPc s = WorkLoop" and run: "runPc s \<noteq> RunReading"
    and r: "chanReader (ltd s) = []" and w: "\<not> chanWriteClosedF s"
  shows "advance now s"
proof -
  let ?s' = "s\<lparr>chanWriteClosedF := True, closedWrite := True\<rparr>"
  have "life_step now WorkRead s = Some ?s'"
    using closing_facts [OF c] pc run r w by (simp add: life_step_def work_read_def go_close_def)
  moreover have "(?s', s) \<in> work_left" using w by (simp add: work_left_def)
  ultimately show ?thesis
    by (rule advanceI [OF c, of WorkRead, rotated]) (use closing_facts [OF c] in \<open>simp_all add: own_step_def\<close>)
qed

lemma loop_writes:
  assumes c: "closing s" and pc: "workPc s = WorkLoop" and e: "chanEvent (ltd s) = []"
    and w: "chanWrite (ltd s) \<noteq> []"
  shows "advance now s"
proof -
  obtain td where td: "trudp_step now WritePacket (ltd s) = Inr td"
      "chanReader td = chanReader (ltd s)" "chanWrite td = tl (chanWrite (ltd s))"
    using kept_write_packet [OF kept_now, of s now] c by (auto simp: closing_def go_ok_def kept_def)
  have "chanEvent td = []" using write_packet_events [of "ltd s" now] e unfolding td(1) by simp
  then have "life_step now WorkWrite s = Some (s\<lparr>ltd := td\<rparr>)"
    using closing_facts [OF c] pc w td(1) by (simp add: life_step_def work_write_def handle_fits)
  moreover have "(s\<lparr>ltd := td\<rparr>, s) \<in> work_left" using w td(2,3) by (simp add: work_left_def)
  ultimately show ?thesis
    by (rule advanceI [OF c, of WorkWrite, rotated]) (use closing_facts [OF c] in \<open>simp_all add: own_step_def\<close>)
qed

lemma loop_returns:
  assumes c: "closing s" and pc: "workPc s = WorkLoop" and w: "chanWrite (ltd s) = []" "closedWrite s"
  shows "advance now s"
proof -
  let ?s' = "s\<lparr>workPc := WorkCloseWriter\<rparr>"
  have "life_step now WorkWrite s = Some ?s'"
    using closing_facts(1) [OF c] pc w by (simp add: life_step_def work_write_def)
  moreover have "(?s', s) \<in> work_left" using pc by (simp add: work_left_def)
  ultimately show ?thesis
    by (rule advanceI [OF c, of WorkWrite, rotated]) (use closing_facts [OF c] in \<open>simp_all add: own_step_def\<close>)
qed

lemma loop_advances:
  assumes c: "closing s" and pc: "workPc s = WorkLoop" and run: "runPc s \<noteq> RunReading"
  shows "advance now s"
proof (cases "chanEvent (ltd s)")
  case (Cons e es)
  then show ?thesis using read_event [OF c] closing_facts(3) [OF c] pc by simp
next
  case Nil
  then show ?thesis
    using loop_reads [OF c pc run] loop_closes_write [OF c pc run] loop_writes [OF c pc] loop_returns [OF c pc]
      closing_facts(8) [OF c] by blast
qed


lemma return_advances:
  assumes c: "closing s" and step: "work_step k s = Some s'" and r: "(s', s) \<in> work_left"
    and s': "sockOpen s' = sockOpen s" "userPc s' = userPc s" "crashed s' = crashed s"
  shows "advance now s"
  by (rule advanceI [OF c, of "WorkStep k"])
    (use assms closing_facts [OF c] in \<open>simp_all add: own_step_def life_step_def\<close>)

lemma live_channels_finite: "finite (live_channels td)"
  by (simp add: live_channels_def)

lemma live_channels_close:
  assumes "td_ok td" and "tcdmap td k = Some r"
  shows "card (live_channels (closeChannels [k] td)) < card (live_channels td)"
proof (rule psubset_card_mono [OF live_channels_finite])
  have r: "r < nextRef td" "\<not> stoppedF (heap td r)" using td_okD(1) [OF assms(1)] assms(2) by blast+
  then have "stoppedF (heap (snd (destroy r td)) x) \<longleftrightarrow> x = r \<or> stoppedF (heap td x)" for x
    by (simp add: destroy_def Let_def writeQueueReset_def sendEvent_def)
  then have "live_channels (closeChannels [k] td) = live_channels td - {r}"
    using assms(2) by (auto simp: live_channels_def nextRef_frame)
  then show "live_channels (closeChannels [k] td) \<subset> live_channels td"
    using r by (auto simp: live_channels_def)
qed

lemma chanEvent_close:
  "length (chanEvent (closeChannels [k] td)) \<le> Suc (length (chanEvent td))"
  by (simp add: destroy_def Let_def writeQueueReset_def sendEvent_def split: option.split)

lemma inputs_close:
  "chanReader (closeChannels [k] td) = chanReader td" "chanWrite (closeChannels [k] td) = chanWrite td"
  by (simp_all add: destroy_def Let_def writeQueueReset_def sendEvent_def split: option.split)

lemma channels_advance:
  assumes c: "closing s" and pc: "workPc s = WorkChannels" and e: "chanEvent (ltd s) = []"
  shows "advance now s"
proof (cases "tcdmap (ltd s) = Map.empty")
  case True
  then have "work_step k s = Some (s\<lparr>workPc := WorkDestroyEvent\<rparr>)" for k using pc by (simp add: work_step_def)
  then show ?thesis by (rule return_advances [OF c]) (use pc in \<open>simp_all add: work_left_def\<close>)
next
  case False
  then obtain k r where k: "tcdmap (ltd s) k = Some r" by (metis not_None_eq ext)
  let ?td = "closeChannels [k] (ltd s)"
  have "length (chanEvent ?td) \<le> chEventSize"
    using chanEvent_close [of k "ltd s"] e unfolding chEventSize_def by simp
  then have h: "handle (Inr ?td) s = Some (s\<lparr>ltd := ?td\<rparr>)"
    using closing_facts(12) [OF c] pc chanWriter_close [of k "ltd s"] by (simp add: handle_def del: closeChannels.simps)
  then have "work_step k s = Some (s\<lparr>ltd := ?td\<rparr>)"
    using False k pc by (simp add: work_step_def del: closeChannels.simps)
  moreover have "(s\<lparr>ltd := ?td\<rparr>, s) \<in> work_left"
    using live_channels_close [OF closing_facts(5) [OF c] k]
    by (simp add: work_left_def inputs_close del: closeChannels.simps)
  ultimately show ?thesis by (rule return_advances [OF c]) simp_all
qed

lemma destroy_event_advances:
  assumes c: "closing s" and pc: "workPc s = WorkDestroyEvent" and e: "chanEvent (ltd s) = []"
  shows "advance now s"
proof -
  let ?td = "sendEvent None EvDestroy (bytes_of (localAddr s)) (ltd s)"
  have "chanWriter ?td = chanWriter (ltd s)" "length (chanEvent ?td) \<le> chEventSize"
    using e by (simp_all add: sendEvent_def chEventSize_def)
  then have "work_step k s = Some (s\<lparr>workPc := WorkCloseEvent, ltd := ?td\<rparr>)" for k
    using closing_facts(12) [OF c] pc by (simp add: work_step_def handle_def)
  then show ?thesis by (rule return_advances [OF c]) (use pc in \<open>simp_all add: work_left_def\<close>)
qed

lemma wg_positive:
  assumes c: "closing s"
  shows "workPc s = WorkDone \<Longrightarrow> 0 < wg s" "writerPc s = WriterDone \<Longrightarrow> 0 < wg s"
    "userPc s = UserReading \<Longrightarrow> 0 < wg s"
  using assms by (simp_all add: closing_def life_ok_def flags_ok_def Let_def)

lemma worker_advances:
  assumes c: "closing s" and run: "runPc s \<noteq> RunReading" and pc: "workPc s \<noteq> WorkStopped"
  shows "advance now s"
proof -
  note adv = return_advances [OF c]
  have e: "advance now s" if "work_rank (workPc s) < 6" "chanEvent (ltd s) \<noteq> []"
    using that read_event [OF c] closing_facts(3) [OF c] by (cases "chanEvent (ltd s)") auto
  show ?thesis
  proof (cases "workPc s")
    case WorkStart
    then have "work_step k s = Some (s\<lparr>wg := wg s + 1, workPc := WorkLoop\<rparr>)" for k by (simp add: work_step_def)
    then show ?thesis by (rule adv) (use WorkStart in \<open>simp_all add: work_left_def\<close>)
  next
    case WorkLoop
    then show ?thesis using loop_advances [OF c _ run] by blast
  next
    case WorkCloseWriter
    then have "work_step k s = Some (s\<lparr>closedWriter := True, workPc := WorkChannels\<rparr>)" for k
      using closing_facts(9) [OF c] by (simp add: work_step_def go_close_def)
    then show ?thesis by (rule adv) (use WorkCloseWriter in \<open>simp_all add: work_left_def\<close>)
  next
    case WorkChannels
    then show ?thesis using e channels_advance [OF c] by fastforce
  next
    case WorkDestroyEvent
    then show ?thesis using e destroy_event_advances [OF c] by fastforce
  next
    case WorkCloseEvent
    then have "work_step k s = Some (s\<lparr>closedEvent := True, workPc := WorkKernelFlag\<rparr>)" for k
      using closing_facts(12) [OF c] by (simp add: work_step_def go_close_def)
    then show ?thesis by (rule adv) (use WorkCloseEvent in \<open>simp_all add: work_left_def\<close>)
  next
    case WorkKernelFlag
    then have "work_step k s = Some (s\<lparr>chanKernelF := True, workPc := WorkCloseKernel\<rparr>)" for k
      by (simp add: work_step_def)
    then show ?thesis by (rule adv) (use WorkKernelFlag in \<open>simp_all add: work_left_def\<close>)
  next
    case WorkCloseKernel
    then have "work_step k s = Some (s\<lparr>closedKernel := True, workPc := WorkDone\<rparr>)" for k
      using closing_facts(13) [OF c] by (simp add: work_step_def go_close_def)
    then show ?thesis by (rule adv) (use WorkCloseKernel in \<open>simp_all add: work_left_def\<close>)
  next
    case WorkDone
    then have "work_step k s = Some (s\<lparr>workPc := WorkStopped, wg := wg s - 1\<rparr>)" for k
      using wg_positive(1) [OF c] by (simp add: work_step_def wg_done_pos)
    then show ?thesis by (rule adv) (use WorkDone in \<open>simp_all add: work_left_def\<close>)
  qed (use pc in simp)
qed

lemma writer_advances:
  assumes c: "closing s" and pc: "workPc s = WorkStopped" and w: "writerPc s \<noteq> WriterStopped"
  shows "advance now s"
proof -
  have adv: "advance now s"
    if "writer_step s = Some s'" "(s', s) \<in> work_left" "sockOpen s' = sockOpen s" "userPc s' = userPc s"
      "crashed s' = crashed s" for s'
    by (rule advanceI [OF c, of WriterStep])
      (use that closing_facts [OF c] in \<open>simp_all add: own_step_def life_step_def\<close>)
  show ?thesis
  proof (cases "writerPc s")
    case WriterStart
    then have "writer_step s = Some (s\<lparr>wg := wg s + 1, writerPc := WriterLoop\<rparr>)" by (simp add: writer_step_def)
    then show ?thesis by (rule adv) (use WriterStart in \<open>simp_all add: work_left_def\<close>)
  next
    case WriterLoop
    show ?thesis
    proof (cases "chanWriter (ltd s)")
      case Nil
      then have "writer_step s = Some (s\<lparr>writerPc := WriterDone\<rparr>)"
        using WriterLoop closing_facts(10) [OF c] pc by (simp add: writer_step_def)
      then show ?thesis by (rule adv) (use WriterLoop in \<open>simp_all add: work_left_def\<close>)
    next
      case (Cons p ps)
      then have "writer_step s = Some (s\<lparr>ltd := (ltd s)\<lparr>chanWriter := ps\<rparr>, udpSent := udpSent s\<rparr>)"
        using WriterLoop closing_facts(2) [OF c] by (simp add: writer_step_def)
      then show ?thesis
        by (rule adv) (use Cons in \<open>simp_all add: work_left_def live_channels_def\<close>)
    qed
  next
    case WriterDone
    then have "writer_step s = Some (s\<lparr>writerPc := WriterStopped, wg := wg s - 1\<rparr>)"
      using wg_positive(2) [OF c] by (simp add: writer_step_def wg_done_pos)
    then show ?thesis by (rule adv) (use WriterDone in \<open>simp_all add: work_left_def\<close>)
  qed (use w in simp)
qed

lemma reader_advances:
  assumes c: "closing s" and pc: "workPc s = WorkStopped" and u: "userPc s \<noteq> UserStopped"
  shows "advance now s"
proof -
  have r: "userPc s = UserReading" using u closing_facts(4) [OF c] by (cases "userPc s") simp_all
  show ?thesis
  proof (cases "chanEvent (ltd s)")
    case Nil
    let ?s' = "s\<lparr>userPc := UserStopped, wg := wg s - 1\<rparr>"
    have "life_step now UserRead s = Some ?s'"
      using Nil r closing_facts [OF c] pc wg_positive(3) [OF c]
      by (simp add: life_step_def user_read_def wg_done_pos)
    moreover have "(?s', s) \<in> work_left" using r by (simp add: work_left_def)
    ultimately show ?thesis
      by (rule advanceI [OF c, of UserRead, rotated]) (use closing_facts [OF c] in \<open>simp_all add: own_step_def\<close>)
  qed (use read_event [OF c r] in blast)
qed

lemma end_advances:
  assumes c: "closing s" and pc: "workPc s = WorkStopped" "writerPc s = WriterStopped" "userPc s = UserStopped"
    and run: "runPc s = RunWaiting"
  shows "advance now s"
proof -
  let ?s' = "s\<lparr>runPc := RunStopped\<rparr>"
  have "wg s = 0" using c pc by (simp add: closing_def life_ok_def flags_ok_def Let_def)
  then have "life_step now RunStep s = Some ?s'"
    using closing_facts(1) [OF c] run by (simp add: life_step_def run_step_def)
  moreover have "(?s', s) \<in> work_left" using run by (simp add: work_left_def)
  ultimately show ?thesis
    by (rule advanceI [OF c, of RunStep, rotated]) (use closing_facts [OF c] in \<open>simp_all add: own_step_def\<close>)
qed

lemma no_deadlock:
  assumes c: "closing s" and "\<not> all_stopped s"
  shows "advance now s"
  using assms run_advances [OF c] worker_advances [OF c] writer_advances [OF c] reader_advances [OF c] end_advances [OF c]
  unfolding all_stopped_def by (cases "runPc s") auto

lemma reaches_end:
  "closing s \<Longrightarrow> \<exists>sts s'. (\<forall>x \<in> set sts. own_step (snd x)) \<and> life_run sts s = Some s' \<and> closing s' \<and> all_stopped s'"
proof (induction s rule: wf_induct_rule [OF wf_work_left])
  case (1 s)
  show ?case
  proof (cases "all_stopped s")
    case True
    then show ?thesis using 1(2) by (auto intro!: exI [of _ "[]"])
  next
    case False
    then obtain st s1 where st: "own_step st" "life_step 0 st s = Some s1" "closing s1" "(s1, s) \<in> work_left"
      using no_deadlock [OF 1(2)] unfolding advance_def by blast
    then obtain sts s' where "\<forall>x \<in> set sts. own_step (snd x)" "life_run sts s1 = Some s'" "closing s'" "all_stopped s'"
      using 1(1) by blast
    then show ?thesis using st by (intro exI [of _ "(0, st) # sts"] exI [of _ s']) simp
  qed
qed


lemma ended:
  assumes c: "closing s" and "all_stopped s"
  shows "tcdmap (ltd s) = Map.empty" "chanReader (ltd s) = []" "chanWrite (ltd s) = []"
    "chanWriter (ltd s) = []" "chanEvent (ltd s) = []" "wg s = 0"
    "\<exists>evs. eventsRead s = evs @ [destroy_event s]"
  using assms by (auto simp: closing_def all_stopped_def life_ok_def flags_ok_def events_ok_def Let_def)

section \<open>Runs\<close>

text \<open>A connection with a channel, on which a user has called \<open>Write\<close>.\<close>

definition run_write :: "(time \<times> lifeStep) list" where
  "run_write =
     [(0, WorkStep []), (0, WriterStep), (0, UserEvents), (0, UserKernel (KfConnect ''a'' 1)),
      (0, KernelCheck 0), (0, WorkKernel 0), (0, UserWriteCall 0 (Some [7]) 3)]"

text \<open>The socket is closed, and the worker has closed its channel of writes.\<close>

definition run_close :: "(time \<times> lifeStep) list" where
  "run_close = [(0, CloseSocket), (0, RunStep), (0, WorkRead)]"

lemmas life_eval = life_step_def run_step_def work_read_def work_write_def work_kernel_def work_step_def
  writer_step_def user_write_def user_send_def user_kernel_def kernel_check_def kernel_send_def
  user_events_def user_read_def handle_def go_close_def wg_done_def crash_def cut_out_def life_init_def
  run_kernelFun_def

lemma run_write_state:
  "\<exists>s. life_run run_write (life_init ''me'') = Some s \<and> crashed s = None \<and> sockOpen s \<and> userPc s = UserReading
     \<and> issued s = [3] \<and> calls s = [\<lparr> wtcd = 0, wdata = Some [7], chanAnswer = 3 \<rparr>] \<and> workPc s = WorkLoop
     \<and> runPc s = RunReading \<and> \<not> closedReader s \<and> \<not> closedWrite s \<and> \<not> chanWriteClosedF s \<and> chanReader (ltd s) = []"
  by (simp add: run_write_def life_eval newChannelData_def trudp_init_def Let_def chEventSize_def
      sendEventConnected_def sendEvent_def newChannel_def)

lemma life_run_append:
  "life_run (xs @ ys) s = (case life_run xs s of None \<Rightarrow> None | Some s' \<Rightarrow> life_run ys s')"
  by (induction xs s rule: life_run.induct) (auto split: option.split)

section \<open>Where the order goes wrong\<close>

text \<open>
  \<open>Write\<close> checks the channel's flag, which the worker sets long after it has closed \<open>chanWrite\<close>: a
  write that meets the end of the connection is a send on a closed channel.
\<close>

lemma write_during_close_panics:
  "\<exists>s. life_run (run_write @ run_close @ [(0, UserSend 0)]) (life_init ''me'') = Some s
     \<and> crashed s = Some SendClosedWrite"
  using run_write_state by (auto simp: life_run_append run_close_def life_eval)


text \<open>The worker returns, with no channels, up to the statement that closes \<open>chanKernel\<close>.\<close>

definition run_return :: "(time \<times> lifeStep) list" where
  "run_return = run_close @ [(0, WorkWrite), (0, WorkStep []), (0, WorkStep []), (0, WorkStep []),
     (0, WorkStep []), (0, WorkStep []), (0, WorkStep [])]"

lemmas return_eval = run_return_def run_close_def life_eval trudp_init_def sendEvent_def chEventSize_def

text \<open>
  A goroutine that is past the check of \<open>chanKernelF\<close>, such as the one \<open>Run\<close> starts for a datagram that is no TR-UDP
  packet, waits on the channel when the worker closes it.
\<close>

lemma kernel_call_during_close_panics:
  "\<exists>s. life_run ([(0, WorkStep []), (0, RunRead ''a'' [1]), (0, KernelCheck 0)] @ run_return @ [(0, KernelSend)])
       (life_init ''me'') = Some s \<and> crashed s = Some SendClosedKernel"
  by (simp add: return_eval run_read_def classify_def trudpPacketCheck_def maxBufferSize_def helloMsg_def
      echoMsg_def echoAnswerMsg_def headerLength_def Let_def)

text \<open>
  After the end \<open>kernel\<close> does nothing: the function of \<open>ConnectChannel\<close> or \<open>Close\<close> is dropped, and its
  caller, which waits for it, waits for ever.
\<close>

lemma call_after_close_hangs:
  "\<exists>s. life_run ([(0, WorkStep [])] @ run_return @ [(0, UserKernel (KfConnect ''a'' 1)), (0, KernelCheck 0)])
       (life_init ''me'') = Some s
     \<and> kdropped s = [KfConnect ''a'' 1] \<and> kfinished s = [] \<and> kwait s = [] \<and> crashed s = None"
  by (simp add: return_eval)

text \<open>The workers count themselves in when they run, not when they are started: \<open>Run\<close> may not wait for them.\<close>

lemma run_may_not_wait:
  "\<exists>s. life_run [(0, CloseSocket), (0, RunStep), (0, RunStep), (0, RunStep)] (life_init ''me'') = Some s
     \<and> runPc s = RunStopped \<and> workPc s = WorkStart \<and> writerPc s = WriterStart"
  by (simp add: life_eval)

section \<open>Properties\<close>




lemma run_write_closed:
  "\<exists>s. life_run (run_write @ run_close) (life_init ''me'') = Some s \<and> crashed s = None \<and> \<not> sockOpen s
     \<and> userPc s \<noteq> UserIdle"
  using run_write_state by (auto simp: life_run_append run_close_def life_eval)


text \<open>C5: every write is accounted for. In every run, a write that a user made waits before the worker's channel, in
  it, or in the queue of a TR-UDP channel, or it was answered: the answers and these places hold each write exactly
  once, so no write is lost on the way or answered twice. When the worker has stopped, it has taken every write out
  of its channel, and every TR-UDP channel is stopped.\<close>

theorem writes_accounted:
  assumes "life_run sts (life_init l) = Some s" and "\<forall>(now, st) \<in> set sts. no_empty_write st" and "crashed s = None"
  shows "mset (map fst (answers_log (ltd s)))
       + (\<Sum>r<nextRef (ltd s). mset (map chanAnswer (writeQueue (heap (ltd s) r))))
       + mset (map chanAnswer (chanWrite (ltd s))) + mset (map chanAnswer (calls s)) = mset (issued s)
     \<and> (workPc s = WorkStopped \<longrightarrow> chanWrite (ltd s) = [] \<and> (\<forall>r<nextRef (ltd s). stoppedF (heap (ltd s) r)))"
proof -
  have ok: "life_ok s"
    using life_run_ok [OF assms(1) life_ok_init assms(2)] assms(3) by (auto simp: user_panic_def)
  have "stoppedF (heap (ltd s) r)" if "workPc s = WorkStopped" "r < nextRef (ltd s)" for r
    using ok that td_okD(1) [of "ltd s" "key (heap (ltd s) r)" r] by (auto simp: life_ok_def flags_ok_def Let_def)
  moreover have "chanWrite (ltd s) = []" if "workPc s = WorkStopped"
    using ok that by (simp add: life_ok_def flags_ok_def Let_def)
  moreover have "answered (ltd s) + queued (ltd s) + in_channel (ltd s) + mset (map chanAnswer (calls s)) = mset (issued s)"
    using ok by (simp add: life_ok_def writes_ok_def)
  ultimately show ?thesis by (simp add: answered_def queued_def in_channel_def)
qed

theorem writes_accounted_witness:
  "let s = the (life_run run_write (life_init ''me''))
   in mset (map fst (answers_log (ltd s)))
       + (\<Sum>r<nextRef (ltd s). mset (map chanAnswer (writeQueue (heap (ltd s) r))))
       + mset (map chanAnswer (chanWrite (ltd s))) + mset (map chanAnswer (calls s)) = mset (issued s)
     \<and> (workPc s = WorkStopped \<longrightarrow> chanWrite (ltd s) = [] \<and> (\<forall>r<nextRef (ltd s). stoppedF (heap (ltd s) r)))"
proof -
  obtain s where s: "life_run run_write (life_init ''me'') = Some s" "crashed s = None"
    using run_write_state by blast
  have "\<forall>(now, st) \<in> set run_write. no_empty_write st" by (simp add: run_write_def no_empty_write_def)
  then show ?thesis unfolding Let_def s(1) option.sel by (rule writes_accounted [OF s(1) _ s(2)])
qed

end
