(* ===== verification/Spec2Isabelle.thy ===== *)
theory Spec2Isabelle
  imports TrudpSender TrudpDelivery CdbCli Teocdb Room NodeDelivery NodeRendezvous NodeExchange VpnTunnel NodeMenu CdbApp TeoConf L0Ws TeoRegistry TrudpUdp TrudpShutdown
begin

text \<open>
  A model of \<open>teonet-go\<close>: a network of peers over the reliable datagram protocol TR-UDP, with a server
  that lets clients in (the L0 server) and services on top (a key-value database, users, game rooms). The code is
  Go with some C; the paths below are relative to \<open>src/\<close>.

  \<^bold>\<open>Parts and how they interact.\<close> A program calls \<open>teonet/teonet\<close> to join the network. The node
  creates packets (\<open>packet.go\<close>), splits large ones (\<open>split.go\<close>), encrypts them and writes them to a
  channel of TR-UDP (\<open>trudp/trudp\<close>), which delivers them in order or gives up and reports a disconnect. What a channel
  delivers comes back to the node as events (\<open>teonet.go\<close>, \<open>read\<close>): it is decrypted, parsed, and processed by
  command number (\<open>command.go\<close>); a command that the node does not know goes to a function that waits for it
  (\<open>command_wait.go\<close>) or to the user as an event (\<open>event.go\<close>). Peers find each other through a remote host
  (\<open>rhost.go\<close>) and are kept in a table (\<open>arp.go\<close>). Clients that are no peers speak a simpler packet format over TCP or
  TR-UDP (\<open>teocli/teocli\<close>) to an L0 server (\<open>l0*.go\<close>), which carries their packets to peers and the
  answers back. The services of \<open>services/\<close> are users of the node: they get packets and send answers.

  \<^bold>\<open>Theories, bottom up.\<close>

  \<^item> \<open>Prelude\<close>: results of Go code that can panic (\<open>'a go\<close>), bytes and words, readers that
    leave a variable alone on an error (\<open>rd_u16\<close>, \<open>or_old\<close>), the locale of codecs, decimal numbers, C strings.
  \<^item> \<open>TrudpPacket\<close> (\<open>trudp/trudp/packet.go\<close>, \<open>packet.c\<close>): the header with its bit fields and
    checksum. \<open>TrudpStat\<close> (\<open>channel_stat.go\<close>): counters, triptime. \<open>TrudpQueues\<close>
    (\<open>send_queue.go\<close>, \<open>receive_queue.go\<close>): the send queue refines a map with an order. \<open>TrudpChannel\<close> and
    \<open>TrudpProcess\<close> (\<open>channel.go\<close>, \<open>packet_process.go\<close>, \<open>process.go\<close>): channels on a heap and every step of the worker.
    \<open>TrudpDelivery\<close>: delivery in order, once, and completely, over a network that loses, repeats, reorders
    and changes datagrams. \<open>TrudpSender\<close>: the send window, the write queue, resending, keep alive, the map of channels.
  \<^item> \<open>TeoPacket\<close>, \<open>TeoSplit\<close>, \<open>TeoWait\<close> (\<open>teonet/teonet/packet.go\<close>, \<open>split.go\<close>,
    \<open>command_wait.go\<close>): packets, subpackets, waiting requests. The map of requests keeps the old slice header when an element
    is removed, as in the code.
  \<^item> \<open>TeoCli\<close> (\<open>teocli/teocli\<close>): the client's packets, the read buffer, the peers' data.
  \<^item> \<open>Users\<close> (\<open>services/teousers\<close>, \<open>teouserscli\<close>), \<open>CdbCli\<close> and \<open>Teocdb\<close>
    (\<open>services/teocdbcli\<close>, \<open>teocdb\<close>): codecs, command handlers over a database that is a record of functions, and
    the interleavings of the statements of callers of \<open>GetID\<close> and \<open>GetQueue\<close>.
  \<^item> \<open>RoomStats\<close>, \<open>Room\<close> (\<open>services/teoroomcli\<close>, \<open>services/teoroom\<close>): the codecs and handlers of the room
    statistic; the room controller with its maps, commands and timers.
  \<^item> \<open>L0Server\<close> (\<open>teonet/teonet/l0_client.go\<close>, \<open>l0_process.go\<close>, \<open>l0_send.go\<close>,
    \<open>l0_command.go\<close>, \<open>l0_auth.go\<close>, \<open>l0.go\<close>): clients on a heap with the two maps that find them.
  \<^item> \<open>Node\<close> (\<open>teonet.go\<close>, \<open>arp.go\<close>, \<open>rhost.go\<close>, \<open>command.go\<close>, \<open>event.go\<close>): the state \<open>Teonet\<close> and one
    definition per function. \<open>NodeProcess\<close>: the switch over commands (\<open>process_command\<close>), the
    recursion (\<open>node_process\<close>), the L0 packets as the node executes them, \<open>read\<close>. \<open>NodeReturns\<close>,
    \<open>NodeTable\<close>, \<open>NodeDelivery\<close>, \<open>NodeRendezvous\<close>, \<open>NodeExchange\<close>: what is proved of it.
  \<^item> \<open>Base64\<close> (\<open>base64.c\<close>) and \<open>L0Ws\<close> (\<open>l0_ws.go\<close>, \<open>command.c\<close>): the coding of binary data in text; clients of
    the L0 server on websockets, their JSON messages as packets and packets as JSON.
  \<^item> \<open>TeoLog\<close> (\<open>teolog/teolog\<close>, \<open>teokeys/teokeys\<close>): the log and the menu of hotkeys, which is generic in the
    state its functions change. \<open>NodeMenu\<close> (\<open>teonet/teonet/menu.go\<close>): the node's keys.
  \<^item> \<open>TeoApi\<close> (\<open>services/teoapi\<close>): the table of an application's commands, and the pool of workers that executes
    them, as a step relation. \<open>RoomDb\<close> (\<open>services/teoroom/stats\<close>): the tables of the room statistic. \<open>RoomMirror\<close>: what the
    messages of a room controller make of a table. \<open>CdbApp\<close> (\<open>teonet/app/teocdb/main.go\<close>): the database service, its command
    table over the three databases, as its clients see it.
  \<^item> \<open>UsersDb\<close> (\<open>services/teousers/db.go\<close>), \<open>TeoRegistry\<close> (\<open>services/teoregistry\<close>): the table of users behind the handlers
    of \<open>Users\<close>; the registry of applications. \<open>TrudpUdp\<close> (\<open>trudp/trudp/udp.go\<close>): the search for a free port.
  \<^item> \<open>TeoConf\<close> (\<open>services/teoconf\<close>, \<open>services/teocdbcli/conf\<close>, and the configurations of the L0 server, games
    and the database service): a value from its default, a file, and the database.
  \<^item> \<open>VpnTunnel\<close> (\<open>teovpn/tunnel\<close>): the tunnel's two listeners and the table of hardware addresses between them.

  \<^bold>\<open>State and effects.\<close> A struct is a record, a pointer to shared data a reference into a heap (a function from
  \<open>nat\<close>), a map of Go a partial function, or an association list where the code goes through it (its order
  stands for Go's random one). Integers are words where they wrap. What leaves the program (datagrams, writes to
  connections, events, started goroutines) is appended to lists in the state. A panic is the value \<open>Inl\<close> of \<open>'a go\<close>.

  \<^bold>\<open>Lemma groups.\<close> Each component has a well-formedness predicate (\<open>td_ok\<close>, \<open>sq_invar\<close>, \<open>l0_ok\<close>,
  \<open>arp_ok\<close>, \<open>room_ok\<close>) that its steps keep; codecs have round trips; handlers have one equation per branch. For the
  node, \<open>res_wp\<close> is a weakest precondition over results; the locale \<open>node_invariant\<close> proves once, for any property of the state that sending and
  adding a peer keep, that every command keeps it, and \<open>node_table\<close> extends this to all of \<open>read\<close>. They
  are interpreted for the frame that termination needs and for the table of peers.

  \<^bold>\<open>Bounds and fuel.\<close> A node that sends a command to itself, or gets a command in a command, processes it by recursion;
  \<open>node_process\<close> has fuel, and \<open>process_returns\<close> shows that five more than the number of nonzero bytes at hand is enough. The
  recursion of \<open>packetDataProcess\<close> ends because it resets the channel first. All other functions are total. Data are split
  up to 448 times 2 to the 15 bytes, the number that fits the 15-bit subpacket number.

  \<^bold>\<open>Parameters.\<close> Not in the repository, and so arguments of the definitions: encryption (OpenSSL), JSON, UUIDs, the Cassandra
  database (statements as functions; their documented behaviour is stated as \<open>users_table_laws\<close>, \<open>rooms_laws\<close>, \<open>registry_laws\<close> and instantiated by tables in
  memory), what a socket's write returns, addresses of channels, clocks, the authentication server behind HTTP, the format directives of
  \<open>fmt\<close>, the fields of an ethernet frame.

  \<^bold>\<open>Concurrency.\<close> Steps are atomic: TR-UDP's worker, the node's reader, the L0 processing and the commands and timers of
  rooms take turns at the granularity of an event. The database's counters and queues are modelled at the granularity of
  a statement. Data races inside a step are not modelled; findings of the manifest name those that matter.

  \<^bold>\<open>Not modelled.\<close> Printed tables and terminal programs (they change no state that the rest reads); sockets and the library of
  websockets; OpenSSL; the node's flags; tests and examples.
\<close>

end
